(* ===== verification/Prelude.thy ===== *)
theory Prelude
  imports Main "HOL-Library.Word"
begin

text \<open>
  Shared vocabulary of the OpenPool development: the widths of the Rust integers the code uses,
  \<open>Result\<close> with its \<open>?\<close> operator, checked arithmetic, big-endian encoding, decimal printing and the
  generic list lemmas of the component proofs.

  A Rust \<open>Result<T, E>\<close> is a value of \<open>'e + 'a\<close>; \<open>Ok\<close> is the right and \<open>Err\<close> the left injection.
  \<open>bindR m (\<lambda>x. k)\<close> is \<open>let x = m?; k\<close>: an \<open>Err\<close> returns early. Plain \<open>+\<close> and \<open>-\<close> on words wrap, as
  a release build does; a build with overflow checks panics exactly where they wrap, so wherever the
  code uses unchecked arithmetic a lemma shows that no wrap-around happens.
\<close>

named_theorems result_simps \<open>when a chain of fallible calls returns Ok\<close>
named_theorems table_simps \<open>selection, insertion and update of table rows\<close>

section \<open>Integer widths\<close>

type_synonym u8 = "8 word"
type_synonym u16 = "16 word"
type_synonym u32 = "32 word"
type_synonym u64 = "64 word"
type_synonym u128 = "128 word"
type_synonym i64 = "64 word"
type_synonym bytes = "u8 list"

text \<open>A \<open>Uuid\<close> is a 128-bit value; an \<open>OffsetDateTime\<close> counts nanoseconds from the Unix epoch.\<close>

type_synonym uuid = "128 word"
type_synonym timestamp = int

section \<open>Results\<close>

type_synonym ('a, 'e) result = "'e + 'a"

abbreviation Ok :: "'a \<Rightarrow> 'e + 'a" where
  "Ok \<equiv> Inr"

abbreviation Err :: "'e \<Rightarrow> 'e + 'a" where
  "Err \<equiv> Inl"

fun bindR :: "'e + 'a \<Rightarrow> ('a \<Rightarrow> 'e + 'b) \<Rightarrow> 'e + 'b" where
  "bindR (Inl e) k = Inl e"
| "bindR (Inr x) k = k x"

fun map_err :: "('e \<Rightarrow> 'f) \<Rightarrow> 'e + 'a \<Rightarrow> 'f + 'a" where
  "map_err f (Inl e) = Inl (f e)"
| "map_err f (Inr x) = Inr x"

fun ok_or :: "'a option \<Rightarrow> 'e \<Rightarrow> 'e + 'a" where
  "ok_or None e = Inl e"
| "ok_or (Some x) e = Inr x"

text \<open>\<open>Option<Result<_>>::transpose\<close> and \<open>collect::<Result<Vec<_>, _>>\<close>.\<close>

fun transposeR :: "('e + 'a) option \<Rightarrow> 'e + 'a option" where
  "transposeR None = Inr None"
| "transposeR (Some (Inl e)) = Inl e"
| "transposeR (Some (Inr x)) = Inr (Some x)"

fun collectR :: "('a \<Rightarrow> 'e + 'b) \<Rightarrow> 'a list \<Rightarrow> 'e + 'b list" where
  "collectR f [] = Inr []"
| "collectR f (x # xs) = bindR (f x) (\<lambda>y. bindR (collectR f xs) (\<lambda>ys. Inr (y # ys)))"

fun is_ok :: "'e + 'a \<Rightarrow> bool" where
  "is_ok (Inl e) = False"
| "is_ok (Inr x) = True"

section \<open>Checked and saturating arithmetic\<close>

definition checked_add :: "'a::len word \<Rightarrow> 'a word \<Rightarrow> 'a word option" where
  "checked_add a b = (if unat a + unat b < 2 ^ LENGTH('a) then Some (a + b) else None)"

definition checked_mul :: "'a::len word \<Rightarrow> 'a word \<Rightarrow> 'a word option" where
  "checked_mul a b = (if unat a * unat b < 2 ^ LENGTH('a) then Some (a * b) else None)"

definition saturating_sub :: "'a::len word \<Rightarrow> 'a word \<Rightarrow> 'a word" where
  "saturating_sub a b = (if a < b then 0 else a - b)"

text \<open>\<open>u64::try_from\<close> of a \<open>usize\<close> count.\<close>

definition u64_try_from :: "nat \<Rightarrow> u64 option" where
  "u64_try_from n = (if n < 2 ^ 64 then Some (of_nat n) else None)"

section \<open>Bytes and text\<close>

text \<open>\<open>to_be_bytes\<close> of an integer of \<open>n\<close> bytes.\<close>

definition be_bytes :: "nat \<Rightarrow> 'a::len word \<Rightarrow> bytes" where
  "be_bytes n w = map (\<lambda>i. ucast (drop_bit (8 * (n - 1 - i)) w)) [0..<n]"

abbreviation u64_be :: "u64 \<Rightarrow> bytes" where
  "u64_be \<equiv> be_bytes 8"

abbreviation uuid_bytes :: "uuid \<Rightarrow> bytes" where
  "uuid_bytes \<equiv> be_bytes 16"

definition str_bytes :: "string \<Rightarrow> bytes" where
  "str_bytes s = map of_char s"

text \<open>The decimal form \<open>Display\<close> prints for an unsigned integer.\<close>

fun show_nat :: "nat \<Rightarrow> string" where
  "show_nat n = (if n < 10 then [char_of (48 + n)] else show_nat (n div 10) @ [char_of (48 + n mod 10)])"

declare show_nat.simps [simp del]

fun join_with :: "string \<Rightarrow> string list \<Rightarrow> string" where
  "join_with sep [] = []"
| "join_with sep [s] = s"
| "join_with sep (s # t # ss) = s @ sep @ join_with sep (t # ss)"

section \<open>Lemmas on results\<close>

lemma bindR_eq_Ok [result_simps]: "bindR m k = Inr y \<longleftrightarrow> (\<exists>x. m = Inr x \<and> k x = Inr y)"
  by (cases m) auto

lemma bindR_eq_Err: "bindR m k = Inl e \<longleftrightarrow> m = Inl e \<or> (\<exists>x. m = Inr x \<and> k x = Inl e)"
  by (cases m) auto

lemma bindR_split: "P (bindR m k) \<longleftrightarrow> (\<forall>e. m = Inl e \<longrightarrow> P (Inl e)) \<and> (\<forall>x. m = Inr x \<longrightarrow> P (k x))"
  by (cases m) auto

lemma map_err_eq_Ok [result_simps]: "map_err f m = Inr x \<longleftrightarrow> m = Inr x"
  by (cases m) auto

lemma map_err_eq_Err: "map_err f m = Inl e \<longleftrightarrow> (\<exists>e'. m = Inl e' \<and> e = f e')"
  by (cases m) auto

lemma ok_or_eq_Ok [result_simps]: "ok_or m e = Inr x \<longleftrightarrow> m = Some x"
  by (cases m) auto

lemma ok_or_eq_Err: "ok_or m e = Inl e' \<longleftrightarrow> m = None \<and> e' = e"
  by (cases m) auto

lemma transposeR_eq_Ok [result_simps]:
  "transposeR m = Inr r \<longleftrightarrow>
     (case m of None \<Rightarrow> r = None | Some t \<Rightarrow> (\<exists>x. t = Inr x \<and> r = Some x))"
  by (cases m rule: transposeR.cases) auto

lemma collectR_eq_Ok [result_simps]:
  "collectR f xs = Inr ys \<longleftrightarrow> map f xs = map Inr ys"
  by (induction xs arbitrary: ys) (auto simp: bindR_eq_Ok)

lemma is_ok_iff: "is_ok m \<longleftrightarrow> (\<exists>x. m = Inr x)"
  by (cases m) auto

section \<open>Lemmas on machine arithmetic\<close>

lemma checked_add_eq_Some:
  fixes a b :: "'a::len word"
  shows "checked_add a b = Some c \<longleftrightarrow> unat a + unat b = unat c"
proof -
  have "unat (a + b) = (unat a + unat b) mod 2 ^ LENGTH('a)"
    by (simp add: unat_word_ariths)
  then show ?thesis
    by (auto simp: checked_add_def word_unat_eq_iff unsigned_less)
qed

lemma checked_add_eq_None:
  fixes a b :: "'a::len word"
  shows "checked_add a b = None \<longleftrightarrow> 2 ^ LENGTH('a) \<le> unat a + unat b"
  by (simp add: checked_add_def linorder_not_less)

lemma checked_mul_eq_Some:
  fixes a b :: "'a::len word"
  shows "checked_mul a b = Some c \<longleftrightarrow> unat a * unat b = unat c"
proof -
  have "unat (a * b) = (unat a * unat b) mod 2 ^ LENGTH('a)"
    by (simp add: unat_word_ariths)
  then show ?thesis
    by (auto simp: checked_mul_def word_unat_eq_iff unsigned_less)
qed

lemma unat_saturating_sub: "unat (saturating_sub a b) = unat a - unat b"
  by (auto simp: saturating_sub_def word_less_nat_alt unat_sub_if')

lemma u64_try_from_eq_Some: "u64_try_from n = Some w \<longleftrightarrow> n = unat w"
proof -
  have "unat w < 2 ^ 64"
    using unsigned_less [of w] by simp
  then show ?thesis
    by (auto simp: u64_try_from_def unat_of_nat)
qed

lemma unat_u64_less: "unat (w :: u64) < 2 ^ 64"
  using unsigned_less [of w] by simp

lemma unat_ucast_up:
  fixes w :: "'a::len word"
  assumes "LENGTH('a) \<le> LENGTH('b::len)"
  shows "unat (ucast w :: 'b word) = unat w"
proof -
  have "unat w < 2 ^ LENGTH('b)"
    using unsigned_less [of w] assms by (meson order_less_le_trans power_increasing one_le_numeral)
  then show ?thesis
    by (simp add: unsigned_ucast_eq take_bit_eq_mod)
qed

lemma unat_ucast_down:
  fixes w :: "'a::len word"
  assumes "unat w < 2 ^ LENGTH('b::len)"
  shows "unat (ucast w :: 'b word) = unat w"
  using assms by (simp add: unsigned_ucast_eq take_bit_eq_mod)

section \<open>Lemmas on byte encodings\<close>

lemma length_be_bytes [simp]: "length (be_bytes n w) = n"
  by (simp add: be_bytes_def)

lemma length_str_bytes [simp]: "length (str_bytes s) = length s"
  by (simp add: str_bytes_def)

lemma be_bytes_bit:
  fixes w :: "'a::len word"
  assumes "k < 8 * n"
  shows "bit w k \<longleftrightarrow> bit (be_bytes n w ! (n - 1 - k div 8)) (k mod 8)"
proof -
  have "k div 8 < n"
    using assms by (simp add: less_mult_imp_div_less mult.commute)
  then have "n - 1 - (n - 1 - k div 8) = k div 8" and "n - 1 - k div 8 < n"
    by auto
  moreover have "k mod 8 < 8"
    by simp
  ultimately show ?thesis
    by (simp add: be_bytes_def bit_unsigned_iff bit_drop_bit_eq)
qed

lemma be_bytes_inj:
  fixes v w :: "'a::len word"
  assumes "LENGTH('a) \<le> 8 * n" and "be_bytes n v = be_bytes n w"
  shows "v = w"
proof (rule bit_word_eqI)
  fix k
  assume "k < LENGTH('a)"
  with assms(1) have "k < 8 * n"
    by simp
  then show "bit v k \<longleftrightarrow> bit w k"
    using assms(2) by (simp add: be_bytes_bit [of k n])
qed

lemma u64_be_eq_iff [simp]: "u64_be v = u64_be w \<longleftrightarrow> v = w"
  using be_bytes_inj [of 8 v w] by auto

lemma uuid_bytes_eq_iff [simp]: "uuid_bytes v = uuid_bytes w \<longleftrightarrow> v = w"
  using be_bytes_inj [of 16 v w] by auto

section \<open>Lemmas on lists\<close>

lemma find_eq_Some_unique:
  assumes "i < length xs" and "P (xs ! i)" and "\<And>j. j < length xs \<Longrightarrow> P (xs ! j) \<Longrightarrow> j = i"
  shows "find P xs = Some (xs ! i)"
proof -
  have "\<not> P (xs ! j)" if "j < i" for j
    using that assms(1) assms(3) [of j] by auto
  with assms(1,2) show ?thesis
    by (auto simp: find_Some_iff)
qed

lemma filter_map_update:
  assumes "\<And>x. x \<in> set xs \<Longrightarrow> P (f x) = P x"
  shows "filter P (map f xs) = map f (filter P xs)"
  using assms by (induction xs) auto

end
