(* ===== verification/Domain.thy ===== *)
theory Domain
  imports Prelude
begin

text \<open>
  The domain values of \<open>crates/openpool-protocol/src/domain.rs\<close>: satoshi amounts, basis points and
  payout splits, the raffle lifecycle and half-open ticket ranges. The identifier newtypes made by
  \<open>uuid_id!\<close> wrap a \<open>Uuid\<close> without any check, so they are synonyms of \<open>uuid\<close> here. The fields of
  \<open>BasisPoints\<close>, \<open>PayoutSplit\<close> and \<open>TicketRange\<close> can also come from a deserialized document, which
  bypasses the checking constructors; the lemmas therefore speak of every value of these types.
\<close>

section \<open>Values\<close>

type_synonym RaffleId = uuid
type_synonym EntryId = uuid
type_synonym OrganizerId = uuid
type_synonym InvoiceId = uuid
type_synonym DrawId = uuid
type_synonym PayoutId = uuid
type_synonym JobId = uuid

definition BASIS_POINTS_TOTAL :: u16 where
  "BASIS_POINTS_TOTAL = 10000"

datatype Sats = Sats (as_u64: u64)

text \<open>\<open>Sats\<close> derives \<open>Ord\<close>: the order of the wrapped integer.\<close>

instantiation Sats :: linorder
begin

definition less_eq_Sats :: "Sats \<Rightarrow> Sats \<Rightarrow> bool" where
  "less_eq_Sats a b = (as_u64 a \<le> as_u64 b)"

definition less_Sats :: "Sats \<Rightarrow> Sats \<Rightarrow> bool" where
  "less_Sats a b = (as_u64 a < as_u64 b)"

instance
  by standard (auto simp: less_eq_Sats_def less_Sats_def Sats.expand)

end

datatype BasisPoints = BasisPoints (as_u16: u16)

datatype DomainError =
    BasisPointsOutOfRange u16
  | InvalidPayoutSplit u32
  | InvalidTicketRange u64 u64

definition BasisPoints_new :: "u16 \<Rightarrow> DomainError + BasisPoints" where
  "BasisPoints_new value =
     (if value > BASIS_POINTS_TOTAL then Err (BasisPointsOutOfRange value)
      else Ok (BasisPoints value))"

record PayoutSplit =
  ps_winner :: BasisPoints
  ps_organizer :: BasisPoints
  ps_platform :: BasisPoints

record PayoutAmounts =
  pa_winner :: Sats
  pa_organizer :: Sats
  pa_platform :: Sats

definition PayoutSplit_new :: "BasisPoints \<Rightarrow> BasisPoints \<Rightarrow> BasisPoints \<Rightarrow> DomainError + PayoutSplit" where
  "PayoutSplit_new winner organizer platform =
     (let total = (ucast (as_u16 winner) + ucast (as_u16 organizer) + ucast (as_u16 platform) :: u32)
      in if total \<noteq> ucast BASIS_POINTS_TOTAL then Err (InvalidPayoutSplit total)
         else Ok \<lparr>ps_winner = winner, ps_organizer = organizer, ps_platform = platform\<rparr>)"

definition split_is_valid :: "PayoutSplit \<Rightarrow> bool" where
  "split_is_valid s \<longleftrightarrow>
     (ucast (as_u16 (ps_winner s)) + ucast (as_u16 (ps_organizer s)) + ucast (as_u16 (ps_platform s)) :: u32)
       = ucast BASIS_POINTS_TOTAL"

text \<open>One share: the product in 128 bits, divided, cut back to 64 bits.\<close>

definition share_of :: "u64 \<Rightarrow> BasisPoints \<Rightarrow> u64" where
  "share_of pool bps =
     ucast ((ucast pool * ucast (as_u16 bps) :: u128) div ucast BASIS_POINTS_TOTAL)"

definition allocate :: "PayoutSplit \<Rightarrow> Sats \<Rightarrow> PayoutAmounts" where
  "allocate split pool_sats =
     (let pool = as_u64 pool_sats;
          winner = share_of pool (ps_winner split);
          organizer = share_of pool (ps_organizer split);
          platform = pool - winner - organizer
      in \<lparr>pa_winner = Sats winner, pa_organizer = Sats organizer, pa_platform = Sats platform\<rparr>)"

definition payout_total :: "PayoutAmounts \<Rightarrow> Sats" where
  "payout_total a = Sats (as_u64 (pa_winner a) + as_u64 (pa_organizer a) + as_u64 (pa_platform a))"

definition checked_total :: "PayoutAmounts \<Rightarrow> Sats option" where
  "checked_total a =
     map_option Sats
       (Option.bind (checked_add (as_u64 (pa_winner a)) (as_u64 (pa_organizer a)))
          (\<lambda>total. checked_add total (as_u64 (pa_platform a))))"

section \<open>Lifecycle\<close>

datatype RaffleStatus =
    Draft | Scheduled | Open | Closing | RandomnessPending | DrawReady | WinnerSelected
  | PayoutPending | PaidOut | Cancelled | Refunding | Refunded

definition can_transition_to :: "RaffleStatus \<Rightarrow> RaffleStatus \<Rightarrow> bool" where
  "can_transition_to self next' \<longleftrightarrow>
     (self, next') \<in> {(Draft, Scheduled),
       (Scheduled, Open),
       (Open, Closing),
       (Closing, RandomnessPending),
       (RandomnessPending, DrawReady),
       (DrawReady, WinnerSelected),
       (WinnerSelected, PayoutPending),
       (PayoutPending, PaidOut),
       (Open, Cancelled),
       (Closing, Cancelled),
       (Cancelled, Refunding),
       (Refunding, Refunded)}"

section \<open>Ticket ranges\<close>

record TicketRange =
  tr_start :: u64
  tr_end :: u64

definition TicketRange_new :: "u64 \<Rightarrow> u64 \<Rightarrow> DomainError + TicketRange" where
  "TicketRange_new start end' =
     (if start \<ge> end' then Err (InvalidTicketRange start end')
      else Ok \<lparr>tr_start = start, tr_end = end'\<rparr>)"

definition range_count :: "TicketRange \<Rightarrow> u64" where
  "range_count r = saturating_sub (tr_end r) (tr_start r)"

definition range_is_valid :: "TicketRange \<Rightarrow> bool" where
  "range_is_valid r \<longleftrightarrow> tr_start r < tr_end r"

definition range_contains :: "TicketRange \<Rightarrow> u64 \<Rightarrow> bool" where
  "range_contains r ticket \<longleftrightarrow> tr_start r \<le> ticket \<and> ticket < tr_end r"

section \<open>Lemmas\<close>

lemma BasisPoints_new_Ok [result_simps]:
  "BasisPoints_new v = Ok b \<longleftrightarrow> v \<le> BASIS_POINTS_TOTAL \<and> b = BasisPoints v"
  by (auto simp: BasisPoints_new_def)

lemma unat_bps_sum:
  fixes a b c :: u16
  shows "unat (ucast a + ucast b + ucast c :: u32) = unat a + unat b + unat c"
proof -
  have "unat a < 2 ^ 16" "unat b < 2 ^ 16" "unat c < 2 ^ 16"
    using unsigned_less [of a] unsigned_less [of b] unsigned_less [of c] by simp_all
  then show ?thesis
    by (simp add: unat_word_ariths unat_ucast_up)
qed

lemma split_is_valid_iff:
  "split_is_valid s \<longleftrightarrow>
     unat (as_u16 (ps_winner s)) + unat (as_u16 (ps_organizer s)) + unat (as_u16 (ps_platform s)) = 10000"
  unfolding split_is_valid_def word_unat_eq_iff unat_bps_sum
  by (simp add: BASIS_POINTS_TOTAL_def)

lemma PayoutSplit_new_Ok [result_simps]:
  "PayoutSplit_new w og p = Ok s \<longleftrightarrow>
     s = \<lparr>ps_winner = w, ps_organizer = og, ps_platform = p\<rparr> \<and> split_is_valid s"
  by (auto simp: PayoutSplit_new_def split_is_valid_def Let_def)

lemma unat_share_of:
  assumes "unat (as_u16 bps) \<le> 10000"
  shows "unat (share_of pool bps) = unat pool * unat (as_u16 bps) div 10000"
proof -
  let ?b = "unat (as_u16 bps)"
  have p: "unat pool < 2 ^ 64"
    by (rule unat_u64_less)
  then have q: "unat pool * ?b div 10000 \<le> unat pool"
    using assms by (metis div_le_mono div_mult_self_is_m mult_le_mono2 zero_less_numeral)
  have "unat pool * ?b \<le> 2 ^ 64 * 10000"
    using p assms by (intro mult_le_mono) auto
  then have "unat pool * ?b < 2 ^ 128"
    by simp
  then have "unat (ucast pool * ucast (as_u16 bps) :: u128) = unat pool * ?b"
    by (simp add: unat_word_ariths unat_ucast_up)
  then show ?thesis
    using p q by (simp add: share_of_def BASIS_POINTS_TOTAL_def unat_ucast_down unat_div)
qed

lemma div_sum_le:
  fixes p a b t :: nat
  assumes "a + b \<le> t" and "0 < t"
  shows "p * a div t + p * b div t \<le> p"
proof -
  have "(p * a div t) * t + (p * b div t) * t \<le> p * a + p * b"
    by (intro add_mono) simp_all
  also have "\<dots> \<le> p * t"
    using assms(1) by (metis add_mult_distrib2 mult_le_mono2)
  finally have "(p * a div t + p * b div t) * t \<le> p * t"
    by (simp add: add_mult_distrib)
  then show ?thesis
    using assms(2) by simp
qed

lemma allocate_unat:
  assumes "split_is_valid s"
  shows "unat (as_u64 (pa_winner (allocate s pool))) =
           unat (as_u64 pool) * unat (as_u16 (ps_winner s)) div 10000"
    and "unat (as_u64 (pa_organizer (allocate s pool))) =
           unat (as_u64 pool) * unat (as_u16 (ps_organizer s)) div 10000"
    and "unat (as_u64 (pa_winner (allocate s pool))) + unat (as_u64 (pa_organizer (allocate s pool)))
           + unat (as_u64 (pa_platform (allocate s pool))) = unat (as_u64 pool)"
proof -
  let ?p = "as_u64 pool" and ?w = "ps_winner s" and ?o = "ps_organizer s"
  have sum: "unat (as_u16 ?w) + unat (as_u16 ?o) \<le> 10000"
    using assms by (simp add: split_is_valid_iff)
  have w: "unat (share_of ?p ?w) = unat ?p * unat (as_u16 ?w) div 10000"
    and o: "unat (share_of ?p ?o) = unat ?p * unat (as_u16 ?o) div 10000"
    using sum by (simp_all add: unat_share_of)
  have le: "unat (share_of ?p ?w) + unat (share_of ?p ?o) \<le> unat ?p"
    unfolding w o using sum by (rule div_sum_le) simp
  have "unat (?p - share_of ?p ?w) = unat ?p - unat (share_of ?p ?w)"
    using le by (simp add: unat_sub_if')
  then have "unat (?p - share_of ?p ?w - share_of ?p ?o)
      = unat ?p - unat (share_of ?p ?w) - unat (share_of ?p ?o)"
    using le by (simp add: unat_sub_if')
  then show "unat (as_u64 (pa_winner (allocate s pool)))
        + unat (as_u64 (pa_organizer (allocate s pool)))
        + unat (as_u64 (pa_platform (allocate s pool))) = unat ?p"
    using le by (simp add: allocate_def Let_def)
  show "unat (as_u64 (pa_winner (allocate s pool))) = unat ?p * unat (as_u16 ?w) div 10000"
    and "unat (as_u64 (pa_organizer (allocate s pool))) = unat ?p * unat (as_u16 ?o) div 10000"
    using w o by (simp_all add: allocate_def Let_def)
qed

lemma checked_total_eq_Some:
  "checked_total a = Some t \<longleftrightarrow>
     unat (as_u64 (pa_winner a)) + unat (as_u64 (pa_organizer a)) + unat (as_u64 (pa_platform a))
       = unat (as_u64 t)"
proof
  assume "checked_total a = Some t"
  then show "unat (as_u64 (pa_winner a)) + unat (as_u64 (pa_organizer a))
      + unat (as_u64 (pa_platform a)) = unat (as_u64 t)"
    by (auto simp: checked_total_def bind_eq_Some_conv checked_add_eq_Some)
next
  assume sum: "unat (as_u64 (pa_winner a)) + unat (as_u64 (pa_organizer a))
      + unat (as_u64 (pa_platform a)) = unat (as_u64 t)"
  then have "unat (as_u64 (pa_winner a)) + unat (as_u64 (pa_organizer a)) < 2 ^ 64"
    using unat_u64_less [of "as_u64 t"] by linarith
  then obtain m where m: "checked_add (as_u64 (pa_winner a)) (as_u64 (pa_organizer a)) = Some m"
    by (simp add: checked_add_def)
  with sum have "checked_add m (as_u64 (pa_platform a)) = Some (as_u64 t)"
    by (simp add: checked_add_eq_Some)
  with m show "checked_total a = Some t"
    by (simp add: checked_total_def)
qed

lemma checked_total_allocate:
  "split_is_valid s \<Longrightarrow> checked_total (allocate s pool) = Some pool"
  by (simp add: checked_total_eq_Some allocate_unat(3))

lemma TicketRange_new_Ok [result_simps]:
  "TicketRange_new a b = Ok r \<longleftrightarrow> r = \<lparr>tr_start = a, tr_end = b\<rparr> \<and> range_is_valid r"
  by (auto simp: TicketRange_new_def range_is_valid_def)

lemma unat_range_count:
  "range_is_valid r \<Longrightarrow> unat (tr_start r) + unat (range_count r) = unat (tr_end r)"
  by (simp add: range_count_def unat_saturating_sub range_is_valid_def word_less_nat_alt)

lemma platform_remainder:
  fixes p w g l x y :: nat
  assumes "w + g + l = 10000" and "x = p * w div 10000" and "y = p * g div 10000"
  shows "p * l div 10000 + x + y \<le> p" and "p \<le> p * l div 10000 + 2 + x + y"
proof -
  have "p * w + p * g + p * l = p * 10000"
    by (simp flip: add_mult_distrib2 assms(1))
  moreover have "p * w = x * 10000 + p * w mod 10000" "p * g = y * 10000 + p * g mod 10000"
    "p * l = (p * l div 10000) * 10000 + p * l mod 10000"
    by (simp_all add: assms(2,3))
  moreover have "p * w mod 10000 < 10000" "p * g mod 10000 < 10000" "p * l mod 10000 < 10000"
    by simp_all
  ultimately show "p * l div 10000 + x + y \<le> p" and "p \<le> p * l div 10000 + 2 + x + y"
    by linarith+
qed

section \<open>Properties\<close>

text \<open>C26. For every split that totals 10,000 basis points and every pool, \<open>allocate\<close> pays the winner and
  the organizer the floor of their exact shares, the three amounts add up to the pool without any
  wrap-around, and the platform's amount is the floor of its own share plus a rounding remainder of
  at most two satoshis.\<close>

theorem allocate_conserves_pool:
  assumes "split_is_valid s"
  shows "unat (as_u64 (pa_winner (allocate s pool))) =
           unat (as_u64 pool) * unat (as_u16 (ps_winner s)) div 10000 \<and>
         unat (as_u64 (pa_organizer (allocate s pool))) =
           unat (as_u64 pool) * unat (as_u16 (ps_organizer s)) div 10000 \<and>
         checked_total (allocate s pool) = Some pool \<and>
         (\<exists>r \<le> 2. unat (as_u64 (pa_platform (allocate s pool))) =
           unat (as_u64 pool) * unat (as_u16 (ps_platform s)) div 10000 + r)"
proof -
  let ?p = "unat (as_u64 pool)" and ?a = "allocate s pool"
  let ?r = "unat (as_u64 (pa_platform ?a)) - ?p * unat (as_u16 (ps_platform s)) div 10000"
  note a = allocate_unat [OF assms, of pool]
  have "?r \<le> 2 \<and> unat (as_u64 (pa_platform ?a)) = ?p * unat (as_u16 (ps_platform s)) div 10000 + ?r"
    using platform_remainder [OF assms [unfolded split_is_valid_iff] a(1,2)] a(3) by linarith
  then show ?thesis
    using a(1,2) checked_total_allocate [OF assms] by blast
qed

theorem allocate_conserves_pool_witness:
  "\<exists>r \<le> 2. unat (as_u64 (pa_platform (allocate
       \<lparr>ps_winner = BasisPoints 8000, ps_organizer = BasisPoints 1500, ps_platform = BasisPoints 500\<rparr>
       (Sats 100003)))) = 5000 + r"
  using allocate_conserves_pool [of "\<lparr>ps_winner = BasisPoints 8000, ps_organizer = BasisPoints 1500,
      ps_platform = BasisPoints 500\<rparr>" "Sats 100003"]
  by (simp add: split_is_valid_iff)

end
