(* ===== verification/Ledger.thy ===== *)
theory Ledger
  imports Domain
begin

text \<open>
  The entry ledger of \<open>crates/openpool-protocol/src/lib.rs\<close>: 32-byte hashes, the canonical
  preimages of an entry and of the entries root, the hash-chained entry list and
  \<open>summarize_ledger\<close>, which walks it. SHA-256 (crate \<open>sha2\<close>) and the hex codec (crate \<open>hex\<close>) are
  parameters. The declarative counterpart \<open>valid_ledger\<close> states what an accepted ledger is,
  position by position.
\<close>

section \<open>Hashes\<close>

typedef Hash32 = "{bs :: bytes. length bs = 32}"
  morphisms as_bytes from_bytes
  by (rule exI [of _ "replicate 32 0"]) simp

declare as_bytes_inverse [code abstype]

instantiation Hash32 :: equal
begin

definition equal_Hash32 :: "Hash32 \<Rightarrow> Hash32 \<Rightarrow> bool" where
  "equal_Hash32 a b \<longleftrightarrow> as_bytes a = as_bytes b"

instance
  by standard (simp add: equal_Hash32_def as_bytes_inject)

end

text \<open>
  The array made of the first 32 bytes of a list, filled with zeros: equal to \<open>from_bytes\<close> on lists
  of 32 bytes (lemma \<open>as_bytes_hash_of\<close>), and total, so that hashes can be computed.
\<close>

definition hash_of :: "bytes \<Rightarrow> Hash32" where
  "hash_of bs = from_bytes (take 32 (bs @ replicate 32 0))"

definition ZERO_HASH :: Hash32 where
  "ZERO_HASH = hash_of (replicate 32 0)"

text \<open>\<open>Hash32::from_bytes([b; 32])\<close>, as the fixtures build hashes.\<close>

definition hash_repeat :: "u8 \<Rightarrow> Hash32" where
  "hash_repeat b = hash_of (replicate 32 b)"

text \<open>\<open>try_into\<close> from a byte vector to \<open>[u8; 32]\<close>.\<close>

definition try_hash :: "bytes \<Rightarrow> Hash32 option" where
  "try_hash bs = (if length bs = 32 then Some (hash_of bs) else None)"

type_synonym sha256 = "bytes \<Rightarrow> Hash32"

datatype ProtocolError =
    InvalidHashEncoding
  | EmptyLedger
  | MixedRaffleIds
  | NonConsecutiveEntryIndex u64 u64
  | NonContiguousTicketRange u64 u64
  | PreviousHashMismatch u64
  | EntryHashMismatch u64
  | InvalidTicketCountAt u64
  | SatsOverflow
  | EntryCountOverflow
  | ZeroTickets
  | TotalTicketsMismatch u64 u64
  | EntriesRootMismatch
  | WinningEntryNotFound u64
  | ProofSerialization string

definition from_hex :: "(string \<Rightarrow> 'x + bytes) \<Rightarrow> string \<Rightarrow> ProtocolError + Hash32" where
  "from_hex hex_decode value =
     bindR (map_err (\<lambda>_. InvalidHashEncoding) (hex_decode value))
       (\<lambda>decoded. ok_or (try_hash decoded) InvalidHashEncoding)"

definition to_hex :: "(bytes \<Rightarrow> string) \<Rightarrow> Hash32 \<Rightarrow> string" where
  "to_hex hex_encode h = hex_encode (as_bytes h)"

section \<open>Entries\<close>

record EntryData =
  ed_raffle_id :: RaffleId
  ed_entry_id :: EntryId
  ed_entry_index :: u64
  ed_participant_public_id :: Hash32
  ed_payment_reference_hash :: Hash32
  ed_amount_sats :: Sats
  ed_ticket_range :: TicketRange
  ed_settled_at_unix_ms :: i64

record LedgerEntry =
  le_data :: EntryData
  le_previous_entry_hash :: Hash32
  le_entry_hash :: Hash32

record LedgerSummary =
  ls_entry_count :: u64
  ls_total_tickets :: u64
  ls_total_pool_sats :: Sats
  ls_entry_chain_head :: Hash32
  ls_entries_root :: Hash32

text \<open>The bytes fed to the digest, in the order of the \<open>update\<close> calls.\<close>

definition entry_preimage :: "EntryData \<Rightarrow> Hash32 \<Rightarrow> bytes" where
  "entry_preimage data previous_entry_hash =
     str_bytes ''OPENPOOL-ENTRY-V1'' @ [0]
     @ uuid_bytes (ed_raffle_id data)
     @ u64_be (ed_entry_index data)
     @ as_bytes (ed_participant_public_id data)
     @ as_bytes (ed_payment_reference_hash data)
     @ u64_be (as_u64 (ed_amount_sats data))
     @ u64_be (range_count (ed_ticket_range data))
     @ u64_be (tr_start (ed_ticket_range data))
     @ u64_be (tr_end (ed_ticket_range data))
     @ u64_be (ed_settled_at_unix_ms data)
     @ as_bytes previous_entry_hash"

definition entry_hash :: "sha256 \<Rightarrow> EntryData \<Rightarrow> Hash32 \<Rightarrow> Hash32" where
  "entry_hash sha data previous_entry_hash = sha (entry_preimage data previous_entry_hash)"

definition LedgerEntry_create :: "sha256 \<Rightarrow> EntryData \<Rightarrow> Hash32 \<Rightarrow> LedgerEntry" where
  "LedgerEntry_create sha data previous_entry_hash =
     \<lparr>le_data = data, le_previous_entry_hash = previous_entry_hash,
      le_entry_hash = entry_hash sha data previous_entry_hash\<rparr>"

definition root_preimage :: "RaffleId \<Rightarrow> u64 \<Rightarrow> Hash32 \<Rightarrow> bytes" where
  "root_preimage raffle_id entry_count entry_chain_head =
     str_bytes ''OPENPOOL-ENTRIES-V1'' @ [0]
     @ uuid_bytes raffle_id
     @ u64_be entry_count
     @ as_bytes entry_chain_head"

definition entries_root :: "sha256 \<Rightarrow> RaffleId \<Rightarrow> u64 \<Rightarrow> Hash32 \<Rightarrow> Hash32" where
  "entries_root sha raffle_id entry_count entry_chain_head =
     sha (root_preimage raffle_id entry_count entry_chain_head)"

section \<open>Walking the ledger\<close>

text \<open>
  One turn of the loop of \<open>summarize_ledger\<close>. Its state is
  \<open>(expected_ticket_start, previous_hash, total_pool_sats)\<close>.
\<close>

definition ledger_step ::
  "sha256 \<Rightarrow> RaffleId \<Rightarrow> nat \<Rightarrow> LedgerEntry \<Rightarrow> u64 \<times> Hash32 \<times> u64
     \<Rightarrow> ProtocolError + u64 \<times> Hash32 \<times> u64" where
  "ledger_step sha raffle_id position entry st =
     (case st of (expected_ticket_start, previous_hash, total_pool_sats) \<Rightarrow>
       let data = le_data entry; range = ed_ticket_range data in
       bindR (ok_or (u64_try_from position) EntryCountOverflow) (\<lambda>expected_index.
         if ed_raffle_id data \<noteq> raffle_id then Err MixedRaffleIds
         else if ed_entry_index data \<noteq> expected_index
           then Err (NonConsecutiveEntryIndex expected_index (ed_entry_index data))
         else if \<not> range_is_valid range then Err (InvalidTicketCountAt expected_index)
         else if tr_start range \<noteq> expected_ticket_start
           then Err (NonContiguousTicketRange expected_ticket_start (tr_start range))
         else if le_previous_entry_hash entry \<noteq> previous_hash
           then Err (PreviousHashMismatch expected_index)
         else if le_entry_hash entry \<noteq> entry_hash sha data previous_hash
           then Err (EntryHashMismatch expected_index)
         else bindR (ok_or (checked_add total_pool_sats (as_u64 (ed_amount_sats data))) SatsOverflow)
           (\<lambda>total. Ok (tr_end range, le_entry_hash entry, total))))"

fun ledger_loop ::
  "sha256 \<Rightarrow> RaffleId \<Rightarrow> nat \<Rightarrow> u64 \<times> Hash32 \<times> u64 \<Rightarrow> LedgerEntry list
     \<Rightarrow> ProtocolError + u64 \<times> Hash32 \<times> u64" where
  "ledger_loop sha raffle_id position st [] = Ok st"
| "ledger_loop sha raffle_id position st (entry # entries) =
     bindR (ledger_step sha raffle_id position entry st)
       (\<lambda>st'. ledger_loop sha raffle_id (Suc position) st' entries)"

definition summarize_ledger :: "sha256 \<Rightarrow> LedgerEntry list \<Rightarrow> ProtocolError + LedgerSummary" where
  "summarize_ledger sha entries =
     (case entries of [] \<Rightarrow> Err EmptyLedger
      | first # _ \<Rightarrow>
          let raffle_id = ed_raffle_id (le_data first) in
          bindR (ledger_loop sha raffle_id 0 (0, ZERO_HASH, 0) entries)
            (\<lambda>(expected_ticket_start, previous_hash, total_pool_sats).
               bindR (ok_or (u64_try_from (length entries)) EntryCountOverflow) (\<lambda>entry_count.
                 Ok \<lparr>ls_entry_count = entry_count,
                     ls_total_tickets = expected_ticket_start,
                     ls_total_pool_sats = Sats total_pool_sats,
                     ls_entry_chain_head = previous_hash,
                     ls_entries_root = entries_root sha raffle_id entry_count previous_hash\<rparr>)))"

section \<open>What an accepted ledger is\<close>

abbreviation le_range :: "LedgerEntry \<Rightarrow> TicketRange" where
  "le_range e \<equiv> ed_ticket_range (le_data e)"

definition ticket_base :: "LedgerEntry list \<Rightarrow> nat \<Rightarrow> u64" where
  "ticket_base es i = (if i = 0 then 0 else tr_end (le_range (es ! (i - 1))))"

definition chain_hash :: "LedgerEntry list \<Rightarrow> nat \<Rightarrow> Hash32" where
  "chain_hash es i = (if i = 0 then ZERO_HASH else le_entry_hash (es ! (i - 1)))"

definition pool_sum :: "LedgerEntry list \<Rightarrow> nat" where
  "pool_sum es = (\<Sum>e\<leftarrow>es. unat (as_u64 (ed_amount_sats (le_data e))))"

definition entry_ok :: "sha256 \<Rightarrow> RaffleId \<Rightarrow> LedgerEntry list \<Rightarrow> nat \<Rightarrow> bool" where
  "entry_ok sha rid es i \<longleftrightarrow>
     ed_raffle_id (le_data (es ! i)) = rid \<and>
     unat (ed_entry_index (le_data (es ! i))) = i \<and>
     range_is_valid (le_range (es ! i)) \<and>
     tr_start (le_range (es ! i)) = ticket_base es i \<and>
     le_previous_entry_hash (es ! i) = chain_hash es i \<and>
     le_entry_hash (es ! i) = entry_hash sha (le_data (es ! i)) (chain_hash es i)"

definition valid_ledger :: "sha256 \<Rightarrow> RaffleId \<Rightarrow> LedgerEntry list \<Rightarrow> bool" where
  "valid_ledger sha rid es \<longleftrightarrow>
     (\<forall>i < length es. entry_ok sha rid es i) \<and> length es < 2 ^ 64 \<and> pool_sum es < 2 ^ 64"

definition ledger_summary :: "sha256 \<Rightarrow> RaffleId \<Rightarrow> LedgerEntry list \<Rightarrow> LedgerSummary" where
  "ledger_summary sha rid es =
     \<lparr>ls_entry_count = of_nat (length es),
      ls_total_tickets = ticket_base es (length es),
      ls_total_pool_sats = Sats (of_nat (pool_sum es)),
      ls_entry_chain_head = chain_hash es (length es),
      ls_entries_root = entries_root sha rid (of_nat (length es)) (chain_hash es (length es))\<rparr>"

text \<open>An entry without its identifier: what the entry hash commits to.\<close>

definition committed :: "LedgerEntry \<Rightarrow> LedgerEntry" where
  "committed e = e\<lparr>le_data := (le_data e)\<lparr>ed_entry_id := 0\<rparr>\<rparr>"

definition ledger_preimages :: "LedgerEntry list \<Rightarrow> bytes set" where
  "ledger_preimages es = (\<lambda>e. entry_preimage (le_data e) (le_previous_entry_hash e)) ` set es"

section \<open>Lemmas on hashes and preimages\<close>

lemma length_as_bytes [simp]: "length (as_bytes h) = 32"
  using as_bytes [of h] by simp

lemma as_bytes_eq_iff [simp]: "as_bytes a = as_bytes b \<longleftrightarrow> a = b"
  by (rule as_bytes_inject)

lemma as_bytes_hash_of [code abstract]: "as_bytes (hash_of bs) = take 32 (bs @ replicate 32 0)"
  by (simp add: hash_of_def from_bytes_inverse)

lemma hash_of_eq_iff: "length bs = 32 \<Longrightarrow> hash_of bs = h \<longleftrightarrow> as_bytes h = bs"
  by (auto simp flip: as_bytes_eq_iff simp: as_bytes_hash_of)

lemma try_hash_eq_Some [result_simps]: "try_hash bs = Some h \<longleftrightarrow> as_bytes h = bs"
  by (auto simp: try_hash_def hash_of_eq_iff)

lemma try_hash_as_bytes [simp]: "try_hash (as_bytes h) = Some h"
  by (simp add: try_hash_eq_Some)

lemma hash_repeat_0: "hash_repeat 0 = ZERO_HASH"
  by (simp add: hash_repeat_def ZERO_HASH_def)

lemma hash_repeat_eq_iff [simp]: "hash_repeat a = hash_repeat b \<longleftrightarrow> a = b"
  by (auto simp: hash_repeat_def hash_of_eq_iff as_bytes_hash_of)

lemma length_entry_preimage: "length (entry_preimage d p) = 178"
  by (simp add: entry_preimage_def)

lemma length_root_preimage: "length (root_preimage r n h) = 76"
  by (simp add: root_preimage_def)

text \<open>The identifier of an entry is not part of what its hash commits to.\<close>

lemma entry_hash_ignores_entry_id: "entry_hash sha (data\<lparr>ed_entry_id := i\<rparr>) prev = entry_hash sha data prev"
  by (simp add: entry_hash_def entry_preimage_def)

lemma entry_preimage_eq_iff:
  "entry_preimage d p = entry_preimage d' p' \<longleftrightarrow>
     d\<lparr>ed_entry_id := 0\<rparr> = d'\<lparr>ed_entry_id := 0\<rparr> \<and> p = p'"
  by (cases d; cases d')
     (auto simp: entry_preimage_def Sats.expand intro!: TicketRange.equality)

lemma root_preimage_eq_iff:
  "root_preimage r n h = root_preimage r' n' h' \<longleftrightarrow> r = r' \<and> n = n' \<and> h = h'"
  by (simp add: root_preimage_def)

section \<open>Lemmas on the walk\<close>

lemma ledger_step_Ok:
  "ledger_step sha rid i e (start, prev, tot) = Ok (start', prev', tot') \<longleftrightarrow>
     ed_raffle_id (le_data e) = rid \<and>
     unat (ed_entry_index (le_data e)) = i \<and>
     range_is_valid (le_range e) \<and>
     tr_start (le_range e) = start \<and>
     le_previous_entry_hash e = prev \<and>
     le_entry_hash e = entry_hash sha (le_data e) prev \<and>
     start' = tr_end (le_range e) \<and>
     prev' = le_entry_hash e \<and>
     unat tot' = unat tot + unat (as_u64 (ed_amount_sats (le_data e)))"
  by (auto simp: ledger_step_def Let_def bindR_eq_Ok ok_or_eq_Ok u64_try_from_eq_Some
      checked_add_eq_Some split: if_splits)

lemma ledger_loop_append:
  "ledger_loop sha rid i st (xs @ ys) =
     bindR (ledger_loop sha rid i st xs) (\<lambda>st'. ledger_loop sha rid (i + length xs) st' ys)"
proof (induction xs arbitrary: i st)
  case Nil
  then show ?case by simp
next
  case (Cons x xs)
  then show ?case
    by (cases "ledger_step sha rid i x st") simp_all
qed

lemma ticket_base_append [simp]:
  "i \<le> length es \<Longrightarrow> ticket_base (es @ fs) i = ticket_base es i"
  by (cases i) (simp_all add: ticket_base_def nth_append)

lemma chain_hash_append [simp]:
  "i \<le> length es \<Longrightarrow> chain_hash (es @ fs) i = chain_hash es i"
  by (cases i) (simp_all add: chain_hash_def nth_append)

lemma ticket_base_Suc [simp]: "ticket_base es (Suc i) = tr_end (le_range (es ! i))"
  by (simp add: ticket_base_def)

lemma chain_hash_Suc [simp]: "chain_hash es (Suc i) = le_entry_hash (es ! i)"
  by (simp add: chain_hash_def)

lemma pool_sum_simps [simp]:
  "pool_sum [] = 0"
  "pool_sum (e # es) = unat (as_u64 (ed_amount_sats (le_data e))) + pool_sum es"
  "pool_sum (es @ fs) = pool_sum es + pool_sum fs"
  by (simp_all add: pool_sum_def)

lemma entry_ok_append:
  "i < length es \<Longrightarrow> entry_ok sha rid (es @ fs) i = entry_ok sha rid es i"
  by (simp add: entry_ok_def nth_append)

lemma entries_ok_snoc:
  "(\<forall>i < length (es @ [e]). entry_ok sha rid (es @ [e]) i) \<longleftrightarrow>
     (\<forall>i < length es. entry_ok sha rid es i) \<and> entry_ok sha rid (es @ [e]) (length es)"
  by (auto simp: less_Suc_eq entry_ok_append)

lemma valid_ledger_Nil [simp]: "valid_ledger sha rid []"
  by (simp add: valid_ledger_def)

lemma valid_ledger_snoc:
  "valid_ledger sha rid (es @ [e]) \<longleftrightarrow>
     valid_ledger sha rid es \<and> entry_ok sha rid (es @ [e]) (length es) \<and>
     Suc (length es) < 2 ^ 64 \<and> pool_sum (es @ [e]) < 2 ^ 64"
  unfolding valid_ledger_def entries_ok_snoc by auto

lemma valid_ledger_take:
  assumes "valid_ledger sha rid (es @ fs)"
  shows "valid_ledger sha rid es"
proof -
  have "entry_ok sha rid es i" if "i < length es" for i
    using assms that entry_ok_append [of i es sha rid fs] by (simp add: valid_ledger_def)
  then show ?thesis
    using assms by (simp add: valid_ledger_def)
qed

lemma ledger_loop_Ok:
  "ledger_loop sha rid 0 (0, ZERO_HASH, 0) es = Ok (start, prev, tot) \<longleftrightarrow>
     (\<forall>i < length es. entry_ok sha rid es i) \<and> pool_sum es < 2 ^ 64 \<and>
     start = ticket_base es (length es) \<and> prev = chain_hash es (length es) \<and>
     unat tot = pool_sum es"
proof (induction es arbitrary: start prev tot rule: rev_induct)
  case Nil
  then show ?case
    by (auto simp: ticket_base_def chain_hash_def unat_eq_zero)
next
  case (snoc e es)
  have "ledger_loop sha rid 0 (0, ZERO_HASH, 0) (es @ [e]) = Ok (start, prev, tot) \<longleftrightarrow>
    (\<exists>s p t. ledger_loop sha rid 0 (0, ZERO_HASH, 0) es = Ok (s, p, t) \<and>
       ledger_step sha rid (length es) e (s, p, t) = Ok (start, prev, tot))"
    by (auto simp: ledger_loop_append bindR_eq_Ok)
  also have "\<dots> \<longleftrightarrow>
    (\<forall>i < length es. entry_ok sha rid es i) \<and> pool_sum es < 2 ^ 64 \<and>
    (\<exists>t. unat t = pool_sum es \<and>
       ledger_step sha rid (length es) e (ticket_base es (length es), chain_hash es (length es), t)
         = Ok (start, prev, tot))"
    unfolding snoc.IH by auto
  also have "\<dots> \<longleftrightarrow>
    (\<forall>i < length (es @ [e]). entry_ok sha rid (es @ [e]) i) \<and> pool_sum (es @ [e]) < 2 ^ 64 \<and>
    start = ticket_base (es @ [e]) (length (es @ [e])) \<and>
    prev = chain_hash (es @ [e]) (length (es @ [e])) \<and> unat tot = pool_sum (es @ [e])"
    (is "?L \<longleftrightarrow> ?R")
  proof
    assume ?L
    then show ?R
      using unat_u64_less [of tot]
      unfolding ledger_step_Ok entries_ok_snoc
      by (auto simp: entry_ok_def nth_append)
  next
    assume R: ?R
    then have "unat (of_nat (pool_sum es) :: u64) = pool_sum es"
      by (simp add: unat_of_nat)
    with R show ?L
      unfolding ledger_step_Ok entries_ok_snoc
      by (auto simp: entry_ok_def nth_append intro!: exI [of _ "of_nat (pool_sum es)"])
  qed
  finally show ?case .
qed

text \<open>The walk accepts exactly the valid ledgers, and its summary is the declarative one.\<close>

lemma summarize_ledger_Ok:
  "summarize_ledger sha es = Ok s \<longleftrightarrow>
     es \<noteq> [] \<and> valid_ledger sha (ed_raffle_id (le_data (hd es))) es \<and>
     s = ledger_summary sha (ed_raffle_id (le_data (hd es))) es"
proof (cases es)
  case Nil
  then show ?thesis by (simp add: summarize_ledger_def)
next
  case (Cons first rest)
  define rid where "rid = ed_raffle_id (le_data first)"
  define mk where "mk = (\<lambda>(start, prev, tot) (n :: u64).
    \<lparr>ls_entry_count = n, ls_total_tickets = start, ls_total_pool_sats = Sats tot,
     ls_entry_chain_head = prev, ls_entries_root = entries_root sha rid n prev\<rparr>)"
  have "summarize_ledger sha es = Ok s \<longleftrightarrow>
    (\<exists>start prev tot n. ledger_loop sha rid 0 (0, ZERO_HASH, 0) es = Ok (start, prev, tot) \<and>
       length es = unat n \<and> s = mk (start, prev, tot) n)"
    unfolding summarize_ledger_def Cons list.case Let_def rid_def mk_def
    by (auto simp: bindR_eq_Ok ok_or_eq_Ok u64_try_from_eq_Some)
  also have "\<dots> \<longleftrightarrow> valid_ledger sha rid es \<and> s = ledger_summary sha rid es"
  proof
    assume "\<exists>start prev tot n. ledger_loop sha rid 0 (0, ZERO_HASH, 0) es = Ok (start, prev, tot) \<and>
       length es = unat n \<and> s = mk (start, prev, tot) n"
    then obtain tot n where ok: "\<forall>i < length es. entry_ok sha rid es i" "pool_sum es < 2 ^ 64"
      and n: "length es = unat n" and tot: "unat tot = pool_sum es"
      and s: "s = mk (ticket_base es (length es), chain_hash es (length es), tot) n"
      unfolding ledger_loop_Ok by blast
    have "of_nat (length es) = n" "of_nat (pool_sum es) = tot"
      using n tot by (simp_all flip: tot)
    then show "valid_ledger sha rid es \<and> s = ledger_summary sha rid es"
      using ok n s unat_u64_less [of n] by (simp add: valid_ledger_def ledger_summary_def mk_def)
  next
    assume v: "valid_ledger sha rid es \<and> s = ledger_summary sha rid es"
    then have "unat (of_nat (length es) :: u64) = length es"
      and "unat (of_nat (pool_sum es) :: u64) = pool_sum es"
      by (simp_all add: valid_ledger_def unat_of_nat)
    with v show "\<exists>start prev tot n. ledger_loop sha rid 0 (0, ZERO_HASH, 0) es = Ok (start, prev, tot) \<and>
       length es = unat n \<and> s = mk (start, prev, tot) n"
      unfolding ledger_loop_Ok
      by (auto simp: valid_ledger_def ledger_summary_def mk_def
          intro!: exI [of _ "of_nat (length es)"] exI [of _ "of_nat (pool_sum es)"])
  qed
  finally show ?thesis
    by (simp add: Cons rid_def)
qed

section \<open>Tickets\<close>

lemma ticket_end_le:
  "valid_ledger sha rid es \<Longrightarrow> i < length es \<Longrightarrow>
     tr_end (le_range (es ! i)) \<le> ticket_base es (length es)"
proof (induction es rule: rev_induct)
  case Nil
  then show ?case by simp
next
  case (snoc e es)
  have start: "ticket_base es (length es) < tr_end (le_range e)"
    using snoc.prems(1) by (auto simp: valid_ledger_snoc entry_ok_def range_is_valid_def)
  show ?case
  proof (cases "i < length es")
    case True
    with snoc have "tr_end (le_range (es ! i)) \<le> ticket_base es (length es)"
      by (simp add: valid_ledger_snoc)
    with start True show ?thesis
      by (simp add: nth_append)
  next
    case False
    with snoc.prems(2) show ?thesis
      by (simp add: nth_append less_Suc_eq)
  qed
qed

lemma ticket_base_pos:
  assumes "valid_ledger sha rid es" and "es \<noteq> []"
  shows "0 < ticket_base es (length es)"
proof -
  from assms(2) obtain n where n: "length es = Suc n"
    by (cases es) auto
  then have "range_is_valid (le_range (es ! n))"
    using assms(1) by (simp add: valid_ledger_def entry_ok_def)
  then have "tr_start (le_range (es ! n)) < tr_end (le_range (es ! n))"
    by (simp add: range_is_valid_def)
  then have "tr_end (le_range (es ! n)) \<noteq> 0"
    by auto
  then show ?thesis
    by (simp add: n word_gt_0)
qed

text \<open>Every ticket below the total lies in the range of exactly one entry.\<close>

lemma ticket_owner_unique:
  "valid_ledger sha rid es \<Longrightarrow> t < ticket_base es (length es) \<Longrightarrow>
     \<exists>!i. i < length es \<and> range_contains (le_range (es ! i)) t"
proof (induction es rule: rev_induct)
  case Nil
  then show ?case by (simp add: ticket_base_def)
next
  case (snoc e es)
  let ?n = "length es"
  have v: "valid_ledger sha rid es" and start: "tr_start (le_range e) = ticket_base es ?n"
    using snoc.prems(1) by (simp_all add: valid_ledger_snoc entry_ok_def)
  have at: "range_contains (le_range ((es @ [e]) ! i)) t \<longleftrightarrow>
      (if i < ?n then range_contains (le_range (es ! i)) t else range_contains (le_range e) t)"
    if "i < Suc ?n" for i
    using that by (auto simp: nth_append less_Suc_eq)
  show ?case
  proof (cases "t < ticket_base es ?n")
    case True
    then have "\<not> range_contains (le_range e) t"
      by (auto simp: range_contains_def start)
    with snoc.IH [OF v True] show ?thesis
      using at by (auto simp: less_Suc_eq nth_append)
  next
    case False
    have "\<not> range_contains (le_range (es ! i)) t" if "i < ?n" for i
      using ticket_end_le [OF v that] False by (auto simp: range_contains_def)
    moreover have "range_contains (le_range e) t"
      using False snoc.prems(2) by (simp add: range_contains_def start)
    ultimately show ?thesis
      using at by (intro ex1I [of _ ?n]) (auto simp: less_Suc_eq)
  qed
qed

lemma find_ticket_owner:
  assumes "valid_ledger sha rid es" and "t < ticket_base es (length es)"
  obtains i where "i < length es" and "range_contains (le_range (es ! i)) t"
    and "find (\<lambda>e. range_contains (le_range e) t) es = Some (es ! i)"
proof -
  from ticket_owner_unique [OF assms] obtain i
    where i: "i < length es" "range_contains (le_range (es ! i)) t"
      and u: "\<And>j. j < length es \<Longrightarrow> range_contains (le_range (es ! j)) t \<Longrightarrow> j = i"
    by blast
  have "find (\<lambda>e. range_contains (le_range e) t) es = Some (es ! i)"
    using i u by (rule find_eq_Some_unique)
  with i show thesis
    by (rule that)
qed

section \<open>Appending and tampering\<close>

lemma valid_ledger_create:
  assumes "valid_ledger sha rid es"
    and "ed_raffle_id d = rid" and "unat (ed_entry_index d) = length es"
    and "range_is_valid (ed_ticket_range d)" and "tr_start (ed_ticket_range d) = ticket_base es (length es)"
    and "Suc (length es) < 2 ^ 64"
    and "pool_sum es + unat (as_u64 (ed_amount_sats d)) < 2 ^ 64"
  shows "valid_ledger sha rid (es @ [LedgerEntry_create sha d (chain_hash es (length es))])"
  using assms by (simp add: valid_ledger_snoc entry_ok_def LedgerEntry_create_def)

lemma valid_entry_hash:
  assumes "valid_ledger sha rid es" and "i < length es"
  shows "le_entry_hash (es ! i) = sha (entry_preimage (le_data (es ! i)) (le_previous_entry_hash (es ! i)))"
    and "le_previous_entry_hash (es ! i) = chain_hash es i"
  using assms by (simp_all add: valid_ledger_def entry_ok_def entry_hash_def)

lemma committed_eq_iff:
  "committed e = committed e' \<longleftrightarrow>
     (le_data e)\<lparr>ed_entry_id := 0\<rparr> = (le_data e')\<lparr>ed_entry_id := 0\<rparr> \<and>
     le_previous_entry_hash e = le_previous_entry_hash e' \<and> le_entry_hash e = le_entry_hash e'"
  by (cases e; cases e') (simp add: committed_def)

text \<open>
  Two valid ledgers of the same length with the same chain head agree on everything the hashes
  commit to, unless SHA-256 collides on two of their own preimages.
\<close>

lemma chain_head_determines:
  assumes "length xs = length ys"
    and "valid_ledger sha rid xs" and "valid_ledger sha rid' ys"
    and "chain_hash xs (length xs) = chain_hash ys (length ys)"
    and "inj_on sha (ledger_preimages xs \<union> ledger_preimages ys)"
  shows "map committed xs = map committed ys"
  using assms
proof (induction xs arbitrary: ys rule: rev_induct)
  case Nil
  then show ?case by simp
next
  case (snoc x xs)
  from snoc.prems(1) obtain y ys' where ys: "ys = ys' @ [y]" and len: "length xs = length ys'"
    by (cases ys rule: rev_cases) auto
  have vx: "valid_ledger sha rid xs" and vy: "valid_ledger sha rid' ys'"
    using snoc.prems(2,3) by (simp_all add: valid_ledger_snoc ys)
  have px: "le_entry_hash x = sha (entry_preimage (le_data x) (le_previous_entry_hash x))"
      "le_previous_entry_hash x = chain_hash xs (length xs)"
    and py: "le_entry_hash y = sha (entry_preimage (le_data y) (le_previous_entry_hash y))"
      "le_previous_entry_hash y = chain_hash ys' (length ys')"
    using valid_entry_hash [OF snoc.prems(2), of "length xs"]
      valid_entry_hash [OF snoc.prems(3), of "length ys'"] by (simp_all add: ys)
  have heads: "le_entry_hash x = le_entry_hash y"
    using snoc.prems(4) by (simp add: ys)
  have "sha (entry_preimage (le_data x) (le_previous_entry_hash x))
      = sha (entry_preimage (le_data y) (le_previous_entry_hash y))"
    using heads unfolding px(1) py(1) .
  with snoc.prems(5) have "entry_preimage (le_data x) (le_previous_entry_hash x)
      = entry_preimage (le_data y) (le_previous_entry_hash y)"
    by (rule inj_onD) (simp_all add: ledger_preimages_def ys)
  then have same: "committed x = committed y" and prev: "chain_hash xs (length xs) = chain_hash ys' (length ys')"
    using heads px(2) py(2) by (simp_all add: entry_preimage_eq_iff committed_eq_iff)
  have "inj_on sha (ledger_preimages xs \<union> ledger_preimages ys')"
    using snoc.prems(5) by (rule inj_on_subset) (auto simp: ledger_preimages_def ys)
  with snoc.IH [OF len vx vy prev] same show ?case
    by (simp add: ys)
qed

lemma entries_root_determines:
  assumes "valid_ledger sha rid xs" and "valid_ledger sha rid' ys"
    and "ls_entries_root (ledger_summary sha rid xs) = ls_entries_root (ledger_summary sha rid' ys)"
    and "inj_on sha (ledger_preimages xs \<union> ledger_preimages ys \<union>
      {root_preimage rid (of_nat (length xs)) (chain_hash xs (length xs)),
       root_preimage rid' (of_nat (length ys)) (chain_hash ys (length ys))})"
  shows "rid = rid' \<and> map committed xs = map committed ys"
proof -
  let ?x = "root_preimage rid (of_nat (length xs)) (chain_hash xs (length xs))"
  let ?y = "root_preimage rid' (of_nat (length ys)) (chain_hash ys (length ys))"
  have "sha ?x = sha ?y"
    using assms(3) by (simp add: ledger_summary_def entries_root_def)
  with assms(4) have eq: "?x = ?y"
    by (rule inj_onD) simp_all
  then have rid: "rid = rid'" and n: "(of_nat (length xs) :: u64) = of_nat (length ys)"
    and head: "chain_hash xs (length xs) = chain_hash ys (length ys)"
    by (simp_all add: root_preimage_eq_iff)
  have "unat (of_nat (length xs) :: u64) = length xs" "unat (of_nat (length ys) :: u64) = length ys"
    using assms(1,2) by (simp_all add: valid_ledger_def unat_of_nat)
  then have len: "length xs = length ys"
    using n by metis
  have "inj_on sha (ledger_preimages xs \<union> ledger_preimages ys)"
    using assms(4) by (rule inj_on_subset) blast
  with chain_head_determines [OF len assms(1,2) head] rid show ?thesis
    by simp
qed

section \<open>A sample ledger\<close>

definition sample_data :: "u64 \<Rightarrow> u64 \<Rightarrow> u64 \<Rightarrow> u64 \<Rightarrow> EntryData" where
  "sample_data index start end' amount =
     \<lparr>ed_raffle_id = 7, ed_entry_id = ucast index + 1, ed_entry_index = index,
      ed_participant_public_id = hash_repeat 1, ed_payment_reference_hash = hash_repeat 2,
      ed_amount_sats = Sats amount, ed_ticket_range = \<lparr>tr_start = start, tr_end = end'\<rparr>,
      ed_settled_at_unix_ms = 1000\<rparr>"

definition sample_ledger :: "sha256 \<Rightarrow> LedgerEntry list" where
  "sample_ledger sha =
     (let e = LedgerEntry_create sha (sample_data 0 0 2 2000) ZERO_HASH
      in [e, LedgerEntry_create sha (sample_data 1 2 5 3000) (le_entry_hash e)])"

lemma sample_ledger_facts:
  shows length_sample_ledger: "length (sample_ledger sha) = 2"
    and valid_sample_ledger: "valid_ledger sha 7 (sample_ledger sha)"
    and ticket_base_sample_ledger: "ticket_base (sample_ledger sha) 2 = 5"
    and pool_sum_sample_ledger: "pool_sum (sample_ledger sha) = 5000"
    and sample_ledger_hd: "ed_raffle_id (le_data (hd (sample_ledger sha))) = 7"
proof -
  let ?e = "LedgerEntry_create sha (sample_data 0 0 2 2000) ZERO_HASH"
  let ?f = "LedgerEntry_create sha (sample_data 1 2 5 3000) (le_entry_hash ?e)"
  have es: "sample_ledger sha = ([] @ [?e]) @ [?f]"
    by (simp add: sample_ledger_def Let_def)
  have e: "valid_ledger sha 7 ([] @ [LedgerEntry_create sha (sample_data 0 0 2 2000)
      (chain_hash [] (length ([] :: LedgerEntry list)))])"
    by (rule valid_ledger_create)
       (simp_all add: sample_data_def range_is_valid_def ticket_base_def)
  have h: "chain_hash ([] @ [?e]) (length ([] @ [?e])) = le_entry_hash ?e"
    by (simp add: chain_hash_def)
  have z: "chain_hash [] (length ([] :: LedgerEntry list)) = ZERO_HASH"
    by (simp add: chain_hash_def)
  have "valid_ledger sha 7 (([] @ [?e]) @ [LedgerEntry_create sha (sample_data 1 2 5 3000)
      (chain_hash ([] @ [?e]) (length ([] @ [?e])))])"
    by (rule valid_ledger_create)
       (use e in \<open>simp_all add: z [simplified] sample_data_def range_is_valid_def LedgerEntry_create_def ticket_base_def\<close>)
  then show "valid_ledger sha 7 (sample_ledger sha)"
    unfolding h es .
  show "length (sample_ledger sha) = 2" "ticket_base (sample_ledger sha) 2 = 5"
    "pool_sum (sample_ledger sha) = 5000" "ed_raffle_id (le_data (hd (sample_ledger sha))) = 7"
    by (simp_all add: es sample_data_def LedgerEntry_create_def ticket_base_def)
qed

lemma summarize_sample_ledger:
  "summarize_ledger sha (sample_ledger sha) = Ok (ledger_summary sha 7 (sample_ledger sha))"
  using sample_ledger_facts [of sha] by (auto simp: summarize_ledger_Ok)

text \<open>A digest that tells preimages apart by their length, and ledgers of one entry.\<close>

definition length_sha :: sha256 where
  "length_sha bs = hash_repeat (of_nat (length bs))"

definition single_ledger :: "EntryId \<Rightarrow> LedgerEntry list" where
  "single_ledger eid =
     [LedgerEntry_create length_sha ((sample_data 0 0 2 2000)\<lparr>ed_entry_id := eid\<rparr>) ZERO_HASH]"

lemma single_ledger_facts:
  shows summarize_single_ledger:
      "summarize_ledger length_sha (single_ledger eid) = Ok (ledger_summary length_sha 7 (single_ledger eid))"
    and single_ledger_preimages:
      "ledger_preimages (single_ledger eid) = {entry_preimage (sample_data 0 0 2 2000) ZERO_HASH}"
    and single_ledger_summary: "ledger_summary length_sha 7 (single_ledger eid) =
      \<lparr>ls_entry_count = 1, ls_total_tickets = 2, ls_total_pool_sats = Sats 2000,
       ls_entry_chain_head = hash_repeat 178, ls_entries_root = hash_repeat 76\<rparr>"
    and single_ledger_hd: "ed_raffle_id (le_data (hd (single_ledger eid))) = 7"
proof -
  let ?d = "(sample_data 0 0 2 2000)\<lparr>ed_entry_id := eid\<rparr>"
  have "valid_ledger length_sha 7 ([] @ [LedgerEntry_create length_sha ?d
      (chain_hash [] (length ([] :: LedgerEntry list)))])"
    by (rule valid_ledger_create)
       (simp_all add: sample_data_def range_is_valid_def ticket_base_def)
  then show "summarize_ledger length_sha (single_ledger eid) = Ok (ledger_summary length_sha 7 (single_ledger eid))"
    by (simp add: summarize_ledger_Ok single_ledger_def LedgerEntry_create_def sample_data_def chain_hash_def)
  show "ledger_preimages (single_ledger eid) = {entry_preimage (sample_data 0 0 2 2000) ZERO_HASH}"
    by (simp add: ledger_preimages_def single_ledger_def LedgerEntry_create_def entry_preimage_eq_iff)
  show "ledger_summary length_sha 7 (single_ledger eid) =
      \<lparr>ls_entry_count = 1, ls_total_tickets = 2, ls_total_pool_sats = Sats 2000,
       ls_entry_chain_head = hash_repeat 178, ls_entries_root = hash_repeat 76\<rparr>"
    by (simp add: ledger_summary_def single_ledger_def LedgerEntry_create_def sample_data_def
        entry_hash_def entries_root_def length_sha_def length_entry_preimage length_root_preimage)
  show "ed_raffle_id (le_data (hd (single_ledger eid))) = 7"
    by (simp add: single_ledger_def LedgerEntry_create_def sample_data_def)
qed

lemma length_sha_neq: "length_sha (entry_preimage d p) \<noteq> length_sha (root_preimage r n h)"
  by (simp add: length_sha_def length_entry_preimage length_root_preimage)

section \<open>Properties\<close>

text \<open>C20. \<open>summarize_ledger\<close> accepts exactly the non-empty valid ledgers: indices count up from zero,
  ticket ranges are non-empty and contiguous from zero, every entry carries the hash of its own data
  and of its predecessor's hash, all entries belong to the raffle of the first one and the pool fits
  64 bits. The summary it returns is the one read off the last entry.\<close>

theorem summarize_ledger_correct:
  "summarize_ledger sha es = Ok s \<longleftrightarrow>
     (\<exists>rid. es \<noteq> [] \<and> valid_ledger sha rid es \<and> s = ledger_summary sha rid es)"
proof
  assume "\<exists>rid. es \<noteq> [] \<and> valid_ledger sha rid es \<and> s = ledger_summary sha rid es"
  then obtain rid where v: "es \<noteq> []" "valid_ledger sha rid es" "s = ledger_summary sha rid es"
    by blast
  then have "ed_raffle_id (le_data (hd es)) = rid"
    by (cases es) (auto simp: valid_ledger_def entry_ok_def)
  with v show "summarize_ledger sha es = Ok s"
    by (simp add: summarize_ledger_Ok)
qed (auto simp: summarize_ledger_Ok)

text \<open>C27. Tickets are partitioned: in a ledger that \<open>summarize_ledger\<close> accepts, every ticket below the total
  is owned by exactly one entry and no entry owns a ticket at or above it.\<close>

theorem tickets_partitioned:
  assumes "summarize_ledger sha es = Ok s"
  shows "if t < ls_total_tickets s
         then \<exists>!i. i < length es \<and> range_contains (ed_ticket_range (le_data (es ! i))) t
         else \<not> (\<exists>e \<in> set es. range_contains (ed_ticket_range (le_data e)) t)"
proof -
  from assms have v: "valid_ledger sha (ed_raffle_id (le_data (hd es))) es"
    and s: "ls_total_tickets s = ticket_base es (length es)"
    by (simp_all add: summarize_ledger_Ok ledger_summary_def)
  have "\<not> range_contains (le_range e) t" if "e \<in> set es" "\<not> t < ls_total_tickets s" for e
    using that ticket_end_le [OF v] by (fastforce simp: in_set_conv_nth range_contains_def s)
  then show ?thesis
    using ticket_owner_unique [OF v] by (auto simp: s)
qed

theorem tickets_partitioned_witness:
  "\<exists>!i. i < length (sample_ledger (\<lambda>_. ZERO_HASH)) \<and>
     range_contains (ed_ticket_range (le_data (sample_ledger (\<lambda>_. ZERO_HASH) ! i))) 3"
  using tickets_partitioned [OF summarize_sample_ledger, of 3 "\<lambda>_. ZERO_HASH"]
  by (simp add: ledger_summary_def sample_ledger_facts)

text \<open>C21. Tamper evidence: two accepted ledgers with the same entries root belong to the same raffle and
  agree, position by position, on every field that entries commit to (all fields but the entry id),
  unless SHA-256 collides on two of the preimages these two ledgers hash.\<close>

theorem entries_root_binds_ledger:
  assumes "summarize_ledger sha xs = Ok s" and "summarize_ledger sha ys = Ok t"
    and "ls_entries_root s = ls_entries_root t"
    and "inj_on sha (ledger_preimages xs \<union> ledger_preimages ys \<union>
      {root_preimage (ed_raffle_id (le_data (hd xs))) (ls_entry_count s) (ls_entry_chain_head s),
       root_preimage (ed_raffle_id (le_data (hd ys))) (ls_entry_count t) (ls_entry_chain_head t)})"
  shows "map committed xs = map committed ys"
  using entries_root_determines [of sha "ed_raffle_id (le_data (hd xs))" xs "ed_raffle_id (le_data (hd ys))" ys]
    assms by (simp add: summarize_ledger_Ok ledger_summary_def)

theorem entries_root_binds_ledger_witness:
  "map committed (single_ledger 1) = map committed (single_ledger 9)"
  using entries_root_binds_ledger [of length_sha "single_ledger 1" "ledger_summary length_sha 7 (single_ledger 1)"
      "single_ledger 9" "ledger_summary length_sha 7 (single_ledger 9)"]
  by (auto simp: summarize_single_ledger single_ledger_preimages single_ledger_summary
      single_ledger_hd dest: length_sha_neq [THEN notE, OF sym])

end
