(* ===== verification/Draw.thy ===== *)
theory Draw
  imports Ledger
begin

text \<open>
  The draw and the public proof model of \<open>crates/openpool-protocol/src/lib.rs\<close>: the draw seed, the
  reduction of the seed modulo the ticket count, winner selection, and the proof document with its
  hash. The canonical JSON encoder (crate \<open>serde_jcs\<close>) is a parameter that returns the encoded bytes
  or the text of its error.
\<close>

section \<open>Draw\<close>

record DrawInput =
  di_raffle_id :: RaffleId
  di_entries_root :: Hash32
  di_close_block_height :: u64
  di_randomness_block_height :: u64
  di_randomness_block_hash :: Hash32
  di_total_tickets :: u64

record DrawResult =
  dr_seed :: Hash32
  dr_winning_ticket :: u64
  dr_winner_entry_id :: EntryId
  dr_winner_ticket_range :: TicketRange

definition draw_preimage :: "DrawInput \<Rightarrow> bytes" where
  "draw_preimage input =
     str_bytes ''OPENPOOL-DRAW-V1'' @ [0]
     @ uuid_bytes (di_raffle_id input)
     @ as_bytes (di_entries_root input)
     @ u64_be (di_close_block_height input)
     @ u64_be (di_randomness_block_height input)
     @ as_bytes (di_randomness_block_hash input)"

definition draw_seed :: "sha256 \<Rightarrow> DrawInput \<Rightarrow> Hash32" where
  "draw_seed sha input = sha (draw_preimage input)"

definition winning_ticket :: "Hash32 \<Rightarrow> u64 \<Rightarrow> ProtocolError + u64" where
  "winning_ticket seed total_tickets =
     (if total_tickets = 0 then Err ZeroTickets
      else let modulus = (ucast total_tickets :: u128);
               remainder = foldl (\<lambda>remainder byte. (remainder * 256 + ucast byte) mod modulus) 0 (as_bytes seed)
           in Ok (ucast remainder))"

definition draw :: "sha256 \<Rightarrow> LedgerEntry list \<Rightarrow> DrawInput \<Rightarrow> ProtocolError + DrawResult" where
  "draw sha entries input =
     bindR (summarize_ledger sha entries) (\<lambda>summary.
       if ls_total_tickets summary \<noteq> di_total_tickets input
         then Err (TotalTicketsMismatch (ls_total_tickets summary) (di_total_tickets input))
       else if ls_entries_root summary \<noteq> di_entries_root input then Err EntriesRootMismatch
       else let seed = draw_seed sha input in
         bindR (winning_ticket seed (di_total_tickets input)) (\<lambda>ticket.
           bindR (ok_or (find (\<lambda>entry. range_contains (ed_ticket_range (le_data entry)) ticket) entries)
                   (WinningEntryNotFound ticket)) (\<lambda>winner.
             Ok \<lparr>dr_seed = seed, dr_winning_ticket = ticket,
                 dr_winner_entry_id = ed_entry_id (le_data winner),
                 dr_winner_ticket_range = ed_ticket_range (le_data winner)\<rparr>)))"

section \<open>Proof documents\<close>

record FreezeFacts =
  ff_entry_count :: u64
  ff_total_tickets :: u64
  ff_total_pool_sats :: Sats
  ff_entry_chain_head :: Hash32
  ff_entries_root :: Hash32

record BitcoinFacts =
  bf_close_block_height :: u64
  bf_randomness_block_height :: u64
  bf_randomness_block_hash :: Hash32

record ProofPayload =
  pp_protocol_version :: string
  pp_raffle_id :: RaffleId
  pp_payout_split :: PayoutSplit
  pp_entries :: "LedgerEntry list"
  pp_freeze :: FreezeFacts
  pp_bitcoin :: BitcoinFacts
  pp_draw :: DrawResult
  pp_payouts :: PayoutAmounts

record ProofDocument =
  pd_payload :: ProofPayload
  pd_proof_hash :: Hash32

definition PROTOCOL_VERSION :: string where
  "PROTOCOL_VERSION = ''OPENPOOL-1''"

type_synonym jcs = "ProofPayload \<Rightarrow> string + bytes"

definition canonical_proof_json :: "jcs \<Rightarrow> ProofPayload \<Rightarrow> ProtocolError + bytes" where
  "canonical_proof_json jcs payload = map_err ProofSerialization (jcs payload)"

definition proof_hash :: "sha256 \<Rightarrow> jcs \<Rightarrow> ProofPayload \<Rightarrow> ProtocolError + Hash32" where
  "proof_hash sha jcs payload =
     bindR (canonical_proof_json jcs payload) (\<lambda>canonical_json. Ok (sha canonical_json))"

definition ProofDocument_create :: "sha256 \<Rightarrow> jcs \<Rightarrow> ProofPayload \<Rightarrow> ProtocolError + ProofDocument" where
  "ProofDocument_create sha jcs payload =
     bindR (proof_hash sha jcs payload) (\<lambda>h. Ok \<lparr>pd_payload = payload, pd_proof_hash = h\<rparr>)"

section \<open>The winning ticket as a number\<close>

text \<open>The seed read as a 256-bit big-endian number.\<close>

definition be_value :: "bytes \<Rightarrow> nat" where
  "be_value bs = foldl (\<lambda>acc b. acc * 256 + unat b) 0 bs"

lemma be_value_snoc [simp]: "be_value (bs @ [b]) = be_value bs * 256 + unat b"
  by (simp add: be_value_def)

lemma be_value_Nil [simp]: "be_value [] = 0"
  by (simp add: be_value_def)

lemma unat_u8_less: "unat (b :: u8) < 256"
  using unsigned_less [of b] by simp

lemma be_value_less: "be_value bs < 256 ^ length bs"
proof (induction bs rule: rev_induct)
  case Nil
  then show ?case by simp
next
  case (snoc b bs)
  then have "Suc (be_value bs) * 256 \<le> 256 ^ length bs * 256"
    by (intro mult_le_mono1) simp
  with unat_u8_less [of b] show ?case
    by simp
qed

text \<open>The 128-bit accumulator never wraps: it stays below the modulus, which has 64 bits.\<close>

lemma remainder_fold:
  fixes n :: u64
  assumes "n \<noteq> 0"
  shows "unat (foldl (\<lambda>r b. (r * 256 + ucast b) mod ucast n) (0 :: u128) bs) = be_value bs mod unat n"
proof (induction bs rule: rev_induct)
  case Nil
  then show ?case by simp
next
  case (snoc b bs)
  let ?r = "foldl (\<lambda>r b. (r * 256 + ucast b) mod ucast n) (0 :: u128) bs"
  have n: "0 < unat n"
    using assms by (simp add: unat_gt_0)
  then have "unat ?r < unat n"
    by (simp add: snoc.IH)
  then have "unat ?r < 2 ^ 64"
    using unat_u64_less [of n] by linarith
  then have "unat (?r * 256 + ucast b) = unat ?r * 256 + unat b"
    using unat_u8_less [of b] by (simp add: unat_word_ariths unat_ucast_up)
  then have "unat ((?r * 256 + ucast b) mod ucast n) = (unat ?r * 256 + unat b) mod unat n"
    by (simp add: unat_mod_distrib unat_ucast_up)
  also have "\<dots> = (be_value bs * 256 + unat b) mod unat n"
    unfolding snoc.IH by (metis mod_add_left_eq mod_mult_left_eq)
  finally show ?case
    by simp
qed

lemma winning_ticket_value:
  assumes "n \<noteq> 0"
  obtains t where "winning_ticket seed n = Ok t" and "unat t = be_value (as_bytes seed) mod unat n"
    and "t < n"
proof -
  let ?r = "foldl (\<lambda>r b. (r * 256 + ucast b) mod ucast n) (0 :: u128) (as_bytes seed)"
  have r: "unat ?r = be_value (as_bytes seed) mod unat n"
    using assms by (rule remainder_fold)
  have less: "be_value (as_bytes seed) mod unat n < unat n"
    using assms by (simp add: unat_gt_0)
  then have "unat ?r < 2 ^ 64"
    using r unat_u64_less [of n] by linarith
  then have "unat (ucast ?r :: u64) = be_value (as_bytes seed) mod unat n"
    using r by (simp add: unat_ucast_down)
  moreover from this less have "(ucast ?r :: u64) < n"
    by (simp add: word_less_nat_alt)
  ultimately show thesis
    using assms by (intro that [of "ucast ?r"]) (simp_all add: winning_ticket_def Let_def)
qed

lemma be_value_ZERO_HASH: "be_value (as_bytes ZERO_HASH) = 0"
proof -
  have "be_value (replicate n 0) = 0" for n
    by (induction n) (simp_all flip: replicate_append_same)
  then show ?thesis
    by (simp add: ZERO_HASH_def as_bytes_hash_of)
qed

section \<open>Draws on valid ledgers\<close>

lemma draw_preimage_eq_iff:
  "draw_preimage i = draw_preimage j \<longleftrightarrow>
     i\<lparr>di_total_tickets := 0\<rparr> = j\<lparr>di_total_tickets := 0\<rparr>"
  by (cases i; cases j) (simp add: draw_preimage_def)

lemma length_draw_preimage: "length (draw_preimage i) = 113"
  by (simp add: draw_preimage_def)

text \<open>On a ledger it accepts, the draw finds the one entry that owns the winning ticket.\<close>

lemma draw_on_summary:
  assumes "summarize_ledger sha es = Ok s"
    and "di_total_tickets input = ls_total_tickets s" and "di_entries_root input = ls_entries_root s"
  obtains i t where "i < length es" and "winning_ticket (draw_seed sha input) (ls_total_tickets s) = Ok t"
    and "range_contains (le_range (es ! i)) t"
    and "t < ls_total_tickets s"
    and "draw sha es input =
      Ok \<lparr>dr_seed = draw_seed sha input, dr_winning_ticket = t,
          dr_winner_entry_id = ed_entry_id (le_data (es ! i)),
          dr_winner_ticket_range = le_range (es ! i)\<rparr>"
proof -
  let ?rid = "ed_raffle_id (le_data (hd es))"
  from assms(1) have ne: "es \<noteq> []" and v: "valid_ledger sha ?rid es"
    and s: "s = ledger_summary sha ?rid es"
    by (simp_all add: summarize_ledger_Ok)
  have total: "ls_total_tickets s = ticket_base es (length es)"
    by (simp add: s ledger_summary_def)
  have "ls_total_tickets s \<noteq> 0"
    using ticket_base_pos [OF v ne] unfolding total by simp
  then obtain t where t: "winning_ticket (draw_seed sha input) (ls_total_tickets s) = Ok t"
    and less: "t < ls_total_tickets s"
    by (rule winning_ticket_value)
  from less have "t < ticket_base es (length es)"
    by (simp add: total)
  with v obtain i where i: "i < length es" "range_contains (le_range (es ! i)) t"
    and f: "find (\<lambda>e. range_contains (le_range e) t) es = Some (es ! i)"
    by (rule find_ticket_owner)
  have "draw sha es input =
      Ok \<lparr>dr_seed = draw_seed sha input, dr_winning_ticket = t,
          dr_winner_entry_id = ed_entry_id (le_data (es ! i)),
          dr_winner_ticket_range = le_range (es ! i)\<rparr>"
    using assms t f by (simp add: draw_def Let_def)
  with i(1) t i(2) less show thesis
    by (rule that)
qed

lemma draw_Err_cases:
  "draw sha es input = Err e \<longleftrightarrow>
     summarize_ledger sha es = Err e \<or>
     (\<exists>s. summarize_ledger sha es = Ok s \<and>
        (if ls_total_tickets s \<noteq> di_total_tickets input
         then e = TotalTicketsMismatch (ls_total_tickets s) (di_total_tickets input)
         else ls_entries_root s \<noteq> di_entries_root input \<and> e = EntriesRootMismatch))"
proof (cases "summarize_ledger sha es")
  case (Inl e')
  then show ?thesis by (auto simp: draw_def)
next
  case (Inr s)
  show ?thesis
  proof (cases "di_total_tickets input = ls_total_tickets s \<and> di_entries_root input = ls_entries_root s")
    case True
    then have "\<exists>r. draw sha es input = Ok r"
      using draw_on_summary [OF Inr] by metis
    with True Inr show ?thesis by auto
  next
    case False
    with Inr show ?thesis by (auto simp: draw_def)
  qed
qed

section \<open>Seeds as numbers\<close>

lemma be_value_inj: "length xs = length ys \<Longrightarrow> be_value xs = be_value ys \<Longrightarrow> xs = ys"
proof (induction xs arbitrary: ys rule: rev_induct)
  case Nil
  then show ?case by simp
next
  case (snoc x xs)
  from snoc.prems(1) obtain y ys' where ys: "ys = ys' @ [y]" and len: "length xs = length ys'"
    by (cases ys rule: rev_cases) auto
  have eq: "be_value xs * 256 + unat x = be_value ys' * 256 + unat y"
    using snoc.prems(2) by (simp add: ys)
  have "unat x = (be_value xs * 256 + unat x) mod 256" "be_value xs = (be_value xs * 256 + unat x) div 256"
    using unat_u8_less [of x] by simp_all
  moreover have "unat y = (be_value ys' * 256 + unat y) mod 256"
    "be_value ys' = (be_value ys' * 256 + unat y) div 256"
    using unat_u8_less [of y] by simp_all
  ultimately have "unat x = unat y" "be_value xs = be_value ys'"
    using eq by simp_all
  with snoc.IH [OF len] show ?case
    by (simp add: ys word_unat_eq_iff)
qed

lemma seed_values: "bij_betw (\<lambda>h. be_value (as_bytes h)) UNIV {..<2 ^ 256}"
proof -
  let ?B = "{bs :: bytes. length bs = 32}"
  have B: "as_bytes ` UNIV = ?B"
    using type_definition.Rep_range [OF type_definition_Hash32] .
  have card: "card ?B = 256 ^ 32" and fin: "finite ?B"
    using card_lists_length_eq [of "UNIV :: u8 set" 32] finite_lists_length_eq [of "UNIV :: u8 set" 32]
    by (simp_all add: card_word)
  have inj: "inj_on be_value ?B"
    by (auto simp: inj_on_def intro: be_value_inj)
  have "be_value ` ?B = {..<2 ^ 256}"
  proof (rule card_subset_eq)
    show "be_value ` ?B \<subseteq> {..<2 ^ 256}"
    proof
      fix v assume "v \<in> be_value ` ?B"
      then obtain bs where "length bs = 32" "v = be_value bs"
        by blast
      then show "v \<in> {..<2 ^ 256}"
        using be_value_less [of bs] by simp
    qed
    show "card (be_value ` ?B) = card {..<2 ^ 256 :: nat}"
      using card_image [OF inj] card by simp
  qed simp
  then have "bij_betw be_value ?B {..<2 ^ 256}"
    using inj by (simp add: bij_betw_def)
  moreover have "bij_betw as_bytes UNIV ?B"
    using B by (auto simp: bij_betw_def inj_on_def)
  ultimately show ?thesis
    using bij_betw_trans [of as_bytes UNIV ?B be_value] by (simp add: comp_def)
qed

lemma card_residues:
  fixes n t N :: nat
  assumes "t < n"
  shows "N div n \<le> card {x. x < N \<and> x mod n = t}" and "card {x. x < N \<and> x mod n = t} \<le> N div n + 1"
proof -
  let ?f = "\<lambda>k. k * n + t"
  let ?K = "{k. ?f k < N}"
  have inj: "inj ?f"
    using assms by (auto simp: inj_def)
  have img: "{x. x < N \<and> x mod n = t} = ?f ` ?K"
  proof
    show "{x. x < N \<and> x mod n = t} \<subseteq> ?f ` ?K"
    proof
      fix x assume "x \<in> {x. x < N \<and> x mod n = t}"
      then have "?f (x div n) = x" "x < N"
        by (auto simp: mult.commute)
      then show "x \<in> ?f ` ?K"
        by (intro image_eqI [of _ _ "x div n"]) simp_all
    qed
    show "?f ` ?K \<subseteq> {x. x < N \<and> x mod n = t}"
      using assms by auto
  qed
  have up: "?K \<subseteq> {..N div n}"
    using assms by (auto simp: less_eq_div_iff_mult_less_eq)
  have low: "{..<N div n} \<subseteq> ?K"
  proof
    fix k assume "k \<in> {..<N div n}"
    then have "Suc k \<le> N div n"
      by simp
    then have "Suc k * n \<le> N"
      using assms less_eq_div_iff_mult_less_eq [of n "Suc k" N] by simp
    with assms show "k \<in> ?K" by simp
  qed
  have card: "card {x. x < N \<and> x mod n = t} = card ?K"
    unfolding img using inj by (simp add: card_image inj_on_subset)
  show "N div n \<le> card {x. x < N \<and> x mod n = t}"
    unfolding card using card_mono [OF finite_subset [OF up] low] by simp
  show "card {x. x < N \<and> x mod n = t} \<le> N div n + 1"
    unfolding card using card_mono [OF _ up] by simp
qed

section \<open>Properties\<close>

text \<open>The winning ticket is the seed, read as a 256-bit big-endian number, modulo the number of
  tickets; the byte-wise reduction in 128-bit arithmetic never overflows and only a raffle without
  tickets is refused.\<close>

lemma winning_ticket_is_remainder:
  "winning_ticket seed n =
     (if n = 0 then Err ZeroTickets else Ok (of_nat (be_value (as_bytes seed) mod unat n)))"
proof (cases "n = 0")
  case False
  then obtain t where t: "winning_ticket seed n = Ok t" "unat t = be_value (as_bytes seed) mod unat n"
    by (rule winning_ticket_value)
  from t(2) have "t = of_nat (be_value (as_bytes seed) mod unat n)"
    by (simp flip: t(2))
  with False t(1) show ?thesis by simp
qed (simp add: winning_ticket_def)

text \<open>C23. The winning ticket is the seed, read as a 256-bit big-endian number, modulo the number of tickets: the byte-wise
  reduction in 128-bit arithmetic never overflows, and only a raffle without tickets is refused. It is fair: over all
  \<open>2^256\<close> seeds, each ticket of a raffle of \<open>n\<close> tickets wins for \<open>2^256 div n\<close> seeds or for one more.\<close>

theorem winning_ticket_fair:
  assumes "t < n"
  shows "winning_ticket seed n = Ok (of_nat (be_value (as_bytes seed) mod unat n)) \<and> winning_ticket seed 0 = Err ZeroTickets \<and>
    card {seed. winning_ticket seed n = Ok t} \<in> {2 ^ 256 div unat n, 2 ^ 256 div unat n + 1}"
proof -
  let ?v = "\<lambda>h. be_value (as_bytes h)"
  have n: "n \<noteq> 0"
    using assms by auto
  define N :: nat where "N = 2 ^ 256"
  have inj: "inj ?v" and rng: "range ?v = {..<N}"
    using seed_values unfolding bij_betw_def N_def by blast+
  have win: "winning_ticket seed n = Ok t \<longleftrightarrow> ?v seed mod unat n = unat t" for seed
  proof -
    obtain u where u: "winning_ticket seed n = Ok u" "unat u = ?v seed mod unat n"
      using n by (rule winning_ticket_value)
    show ?thesis
      unfolding u(2) [symmetric] by (simp add: u(1) word_unat_eq_iff)
  qed
  have "?v ` {seed. ?v seed mod unat n = unat t} = {x \<in> range ?v. x mod unat n = unat t}"
    by blast
  then have "?v ` {seed. winning_ticket seed n = Ok t} = {x. x < N \<and> x mod unat n = unat t}"
    unfolding win rng by simp
  moreover have "card (?v ` {seed. winning_ticket seed n = Ok t}) = card {seed. winning_ticket seed n = Ok t}"
    by (rule card_image) (rule inj_on_subset [OF inj subset_UNIV])
  ultimately have "card {seed. winning_ticket seed n = Ok t} = card {x. x < N \<and> x mod unat n = unat t}"
    by simp
  moreover have "unat t < unat n"
    using assms by (simp add: word_less_nat_alt)
  ultimately show ?thesis
    using card_residues [of "unat t" "unat n" N] n winning_ticket_is_remainder [of seed]
    unfolding N_def [symmetric] by auto
qed

theorem winning_ticket_fair_witness:
  "winning_ticket ZERO_HASH 7 = Ok 0 \<and> card {seed. winning_ticket seed 7 = Ok 3} \<in> {2 ^ 256 div 7, 2 ^ 256 div 7 + 1}"
  using winning_ticket_fair [of 3 7 ZERO_HASH] by (simp add: be_value_ZERO_HASH)

text \<open>C22. On a ledger that \<open>summarize_ledger\<close> accepts and with the input that names its own totals, \<open>draw\<close>
  cannot fail: it returns the one entry whose range holds the winning ticket derived from the seed.\<close>

theorem draw_selects_unique_winner:
  assumes "summarize_ledger sha es = Ok s"
    and "di_total_tickets input = ls_total_tickets s" and "di_entries_root input = ls_entries_root s"
  shows "\<exists>!i. i < length es \<and> (\<exists>t. winning_ticket (draw_seed sha input) (ls_total_tickets s) = Ok t \<and>
     range_contains (ed_ticket_range (le_data (es ! i))) t \<and>
     draw sha es input =
      Ok \<lparr>dr_seed = draw_seed sha input, dr_winning_ticket = t,
          dr_winner_entry_id = ed_entry_id (le_data (es ! i)),
          dr_winner_ticket_range = ed_ticket_range (le_data (es ! i))\<rparr>)"
proof -
  from assms obtain i t where i: "i < length es"
      "winning_ticket (draw_seed sha input) (ls_total_tickets s) = Ok t"
      "range_contains (le_range (es ! i)) t"
    and less: "t < ls_total_tickets s" and d: "draw sha es input =
      Ok \<lparr>dr_seed = draw_seed sha input, dr_winning_ticket = t,
          dr_winner_entry_id = ed_entry_id (le_data (es ! i)),
          dr_winner_ticket_range = le_range (es ! i)\<rparr>"
    by (rule draw_on_summary)
  have "\<exists>!i. i < length es \<and> range_contains (le_range (es ! i)) t"
    using assms(1) less by (intro ticket_owner_unique [of sha "ed_raffle_id (le_data (hd es))"])
      (simp_all add: summarize_ledger_Ok ledger_summary_def)
  with i d show ?thesis
    by (intro ex1I [of _ i]) auto
qed

theorem draw_selects_unique_winner_witness:
  "\<exists>i. i < length (sample_ledger (\<lambda>_. ZERO_HASH)) \<and>
     draw (\<lambda>_. ZERO_HASH) (sample_ledger (\<lambda>_. ZERO_HASH))
       \<lparr>di_raffle_id = 7, di_entries_root = ZERO_HASH, di_close_block_height = 100,
        di_randomness_block_height = 106, di_randomness_block_hash = hash_repeat 9, di_total_tickets = 5\<rparr> =
     Ok \<lparr>dr_seed = ZERO_HASH, dr_winning_ticket = 0,
         dr_winner_entry_id = ed_entry_id (le_data (sample_ledger (\<lambda>_. ZERO_HASH) ! i)),
         dr_winner_ticket_range = ed_ticket_range (le_data (sample_ledger (\<lambda>_. ZERO_HASH) ! i))\<rparr>"
proof -
  have "winning_ticket ZERO_HASH 5 = Ok 0"
    using winning_ticket_value [of 5 ZERO_HASH] by (auto simp: be_value_ZERO_HASH unat_eq_zero)
  then show ?thesis
    using draw_selects_unique_winner [OF summarize_sample_ledger,
      where input = "\<lparr>di_raffle_id = 7, di_entries_root = ZERO_HASH, di_close_block_height = 100,
        di_randomness_block_height = 106, di_randomness_block_hash = hash_repeat 9, di_total_tickets = 5\<rparr>"
        and sha = "\<lambda>_. ZERO_HASH"]
    by (auto simp: ledger_summary_def sample_ledger_facts entries_root_def draw_seed_def)
qed

text \<open>C28. Domain separation: entry, entries-root and draw preimages never coincide, and each determines all
  the fields it encodes: an entry preimage everything but the entry id, a draw preimage everything
  but the ticket total.\<close>

theorem preimages_separated:
  "entry_preimage d p \<noteq> root_preimage r n h \<and>
   entry_preimage d p \<noteq> draw_preimage i \<and>
   root_preimage r n h \<noteq> draw_preimage i \<and>
   (entry_preimage d p = entry_preimage d' p' \<longleftrightarrow>
      d\<lparr>ed_entry_id := 0\<rparr> = d'\<lparr>ed_entry_id := 0\<rparr> \<and> p = p') \<and>
   (root_preimage r n h = root_preimage r' n' h' \<longleftrightarrow> r = r' \<and> n = n' \<and> h = h') \<and>
   (draw_preimage i = draw_preimage j \<longleftrightarrow> i\<lparr>di_total_tickets := 0\<rparr> = j\<lparr>di_total_tickets := 0\<rparr>)"
proof -
  have "entry_preimage d p \<noteq> root_preimage r n h" "entry_preimage d p \<noteq> draw_preimage i"
    "root_preimage r n h \<noteq> draw_preimage i"
    using length_entry_preimage [of d p] length_root_preimage [of r n h] length_draw_preimage [of i]
    by auto
  then show ?thesis
    by (simp only: entry_preimage_eq_iff root_preimage_eq_iff draw_preimage_eq_iff) blast
qed

end
