(* ===== verification/Verifier.thy ===== *)
theory Verifier
  imports Draw
begin

text \<open>
  The proof verifier of \<open>crates/openpool-verifier/src/lib.rs\<close>: \<open>verify\<close> recomputes every fact of a
  public proof document and collects the mismatches. \<open>proof_valid\<close> is the declarative statement of
  what a document must satisfy; the two agree on every document (\<open>verify_accepts_iff\<close>).
\<close>

section \<open>Reports\<close>

datatype VerificationCode =
    ProtocolVersionMismatch | LedgerInvalid | RaffleIdMismatch | FreezeMismatch
  | RandomnessHeightMismatch | DrawInvalid | PayoutMismatch | ProofHashMismatch

record VerificationIssue =
  vi_code :: VerificationCode
  vi_detail :: string

record VerificationResult =
  vr_issues :: "VerificationIssue list"

definition is_verified :: "VerificationResult \<Rightarrow> bool" where
  "is_verified r \<longleftrightarrow> vr_issues r = []"

definition push :: "VerificationResult \<Rightarrow> VerificationCode \<Rightarrow> string \<Rightarrow> VerificationResult" where
  "push r code detail = r\<lparr>vr_issues := vr_issues r @ [\<lparr>vi_code = code, vi_detail = detail\<rparr>]\<rparr>"

abbreviation show_u64 :: "u64 \<Rightarrow> string" where
  "show_u64 w \<equiv> show_nat (unat w)"

text \<open>The messages \<open>thiserror\<close> derives for \<open>ProtocolError\<close>.\<close>

fun protocol_error_text :: "ProtocolError \<Rightarrow> string" where
  "protocol_error_text InvalidHashEncoding = ''hash must be a 32-byte hexadecimal string''"
| "protocol_error_text EmptyLedger = ''ledger cannot be empty''"
| "protocol_error_text MixedRaffleIds = ''ledger contains entries from different raffles''"
| "protocol_error_text (NonConsecutiveEntryIndex expected actual) =
     ''entry index must be consecutive: expected '' @ show_u64 expected @ '', got '' @ show_u64 actual"
| "protocol_error_text (NonContiguousTicketRange expected actual) =
     ''ticket ranges must be contiguous: expected start '' @ show_u64 expected @ '', got '' @ show_u64 actual"
| "protocol_error_text (PreviousHashMismatch index) =
     ''entry '' @ show_u64 index @ '' previous hash does not match the chain''"
| "protocol_error_text (EntryHashMismatch index) =
     ''entry '' @ show_u64 index @ '' hash does not match canonical input''"
| "protocol_error_text (InvalidTicketCountAt index) =
     ''entry '' @ show_u64 index @ '' has an invalid ticket count''"
| "protocol_error_text SatsOverflow = ''satoshi total overflowed u64''"
| "protocol_error_text EntryCountOverflow = ''entry count overflowed u64''"
| "protocol_error_text ZeroTickets = ''winner selection requires at least one ticket''"
| "protocol_error_text (TotalTicketsMismatch expected actual) =
     ''ledger has '' @ show_u64 expected @ '' tickets but draw input has '' @ show_u64 actual"
| "protocol_error_text EntriesRootMismatch = ''draw input entries root does not match the ledger''"
| "protocol_error_text (WinningEntryNotFound ticket) = ''no entry owns winning ticket '' @ show_u64 ticket"
| "protocol_error_text (ProofSerialization msg) = ''proof serialization failed: '' @ msg"

section \<open>Verification\<close>

text \<open>The block that runs when the ledger could be summarized.\<close>

definition verify_with_summary ::
  "sha256 \<Rightarrow> ProofPayload \<Rightarrow> LedgerSummary \<Rightarrow> VerificationResult \<Rightarrow> VerificationResult" where
  "verify_with_summary sha payload summary result0 =
     (let freeze = pp_freeze payload;
          bitcoin = pp_bitcoin payload;
          result1 =
            (case pp_entries payload of [] \<Rightarrow> result0
             | entry # _ \<Rightarrow>
                 if ed_raffle_id (le_data entry) \<noteq> pp_raffle_id payload
                 then push result0 RaffleIdMismatch ''proof raffle ID does not match the ledger raffle ID''
                 else result0);
          result2 =
            (if ls_entry_count summary \<noteq> ff_entry_count freeze
                \<or> ls_total_tickets summary \<noteq> ff_total_tickets freeze
                \<or> ls_total_pool_sats summary \<noteq> ff_total_pool_sats freeze
                \<or> ls_entry_chain_head summary \<noteq> ff_entry_chain_head freeze
                \<or> ls_entries_root summary \<noteq> ff_entries_root freeze
             then push result1 FreezeMismatch ''freeze facts do not match the recomputed ledger''
             else result1);
          result3 =
            (if bf_randomness_block_height bitcoin \<le> bf_close_block_height bitcoin
             then push result2 RandomnessHeightMismatch
                    ''randomness block height must be greater than close block height''
             else result2);
          input = \<lparr>di_raffle_id = pp_raffle_id payload,
                   di_entries_root = ls_entries_root summary,
                   di_close_block_height = bf_close_block_height bitcoin,
                   di_randomness_block_height = bf_randomness_block_height bitcoin,
                   di_randomness_block_hash = bf_randomness_block_hash bitcoin,
                   di_total_tickets = ls_total_tickets summary\<rparr>;
          result4 =
            (case draw sha (pp_entries payload) input of
               Inr expected \<Rightarrow>
                 if expected \<noteq> pp_draw payload
                 then push result3 DrawInvalid ''stored draw does not match recomputed draw''
                 else result3
             | Inl error \<Rightarrow> push result3 DrawInvalid (protocol_error_text error))
      in if \<not> split_is_valid (pp_payout_split payload)
         then push result4 PayoutMismatch ''payout split does not total 10,000 basis points''
         else if allocate (pp_payout_split payload) (ls_total_pool_sats summary) \<noteq> pp_payouts payload
                 \<or> checked_total (pp_payouts payload) \<noteq> Some (ls_total_pool_sats summary)
         then push result4 PayoutMismatch ''payouts do not reconcile to the frozen pool and split''
         else result4)"

definition verify :: "sha256 \<Rightarrow> jcs \<Rightarrow> ProofDocument \<Rightarrow> VerificationResult" where
  "verify sha jcs document =
     (let result0 = \<lparr>vr_issues = []\<rparr>;
          payload = pd_payload document;
          result1 =
            (if pp_protocol_version payload \<noteq> PROTOCOL_VERSION
             then push result0 ProtocolVersionMismatch
                    (''expected protocol version '' @ PROTOCOL_VERSION @ '', got '' @ pp_protocol_version payload)
             else result0);
          result2 =
            (case summarize_ledger sha (pp_entries payload) of
               Inr summary \<Rightarrow> verify_with_summary sha payload summary result1
             | Inl error \<Rightarrow> push result1 LedgerInvalid (protocol_error_text error))
      in (case proof_hash sha jcs payload of
            Inr expected \<Rightarrow>
              if expected \<noteq> pd_proof_hash document
              then push result2 ProofHashMismatch ''proof hash does not match canonical proof payload''
              else result2
          | Inl error \<Rightarrow> push result2 ProofHashMismatch (protocol_error_text error)))"

text \<open>The text interface; \<open>serde_json\<close> is the decoder of documents and the encoder of reports.\<close>

definition verify_proof_json ::
  "sha256 \<Rightarrow> jcs \<Rightarrow> (string \<Rightarrow> string + ProofDocument) \<Rightarrow> (VerificationResult \<Rightarrow> string + string) \<Rightarrow> string \<Rightarrow> string + string" where
  "verify_proof_json sha jcs from_str to_string document =
     bindR (map_err (\<lambda>error. ''invalid proof JSON: '' @ error) (from_str document)) (\<lambda>proof.
       map_err (\<lambda>error. ''could not encode verification report: '' @ error) (to_string (verify sha jcs proof)))"

definition verify_or_protocol_error :: "sha256 \<Rightarrow> jcs \<Rightarrow> ProofDocument \<Rightarrow> ProtocolError + unit" where
  "verify_or_protocol_error sha jcs document =
     (let result = verify sha jcs document
      in if is_verified result then Ok ()
         else Err (ProofSerialization (join_with ''; '' (map vi_detail (vr_issues result)))))"

section \<open>What a valid proof is\<close>

definition payload_input :: "sha256 \<Rightarrow> ProofPayload \<Rightarrow> DrawInput" where
  "payload_input sha p =
     \<lparr>di_raffle_id = pp_raffle_id p,
      di_entries_root = entries_root sha (pp_raffle_id p) (of_nat (length (pp_entries p)))
        (chain_hash (pp_entries p) (length (pp_entries p))),
      di_close_block_height = bf_close_block_height (pp_bitcoin p),
      di_randomness_block_height = bf_randomness_block_height (pp_bitcoin p),
      di_randomness_block_hash = bf_randomness_block_hash (pp_bitcoin p),
      di_total_tickets = ticket_base (pp_entries p) (length (pp_entries p))\<rparr>"

definition freeze_valid :: "sha256 \<Rightarrow> ProofPayload \<Rightarrow> bool" where
  "freeze_valid sha p \<longleftrightarrow>
     unat (ff_entry_count (pp_freeze p)) = length (pp_entries p) \<and>
     ff_total_tickets (pp_freeze p) = ticket_base (pp_entries p) (length (pp_entries p)) \<and>
     unat (as_u64 (ff_total_pool_sats (pp_freeze p))) = pool_sum (pp_entries p) \<and>
     ff_entry_chain_head (pp_freeze p) = chain_hash (pp_entries p) (length (pp_entries p)) \<and>
     ff_entries_root (pp_freeze p) =
       entries_root sha (pp_raffle_id p) (of_nat (length (pp_entries p)))
         (chain_hash (pp_entries p) (length (pp_entries p)))"

definition draw_valid :: "sha256 \<Rightarrow> ProofPayload \<Rightarrow> bool" where
  "draw_valid sha p \<longleftrightarrow>
     dr_seed (pp_draw p) = sha (draw_preimage (payload_input sha p)) \<and>
     unat (dr_winning_ticket (pp_draw p)) =
       be_value (as_bytes (dr_seed (pp_draw p)))
         mod unat (ticket_base (pp_entries p) (length (pp_entries p))) \<and>
     (\<exists>i < length (pp_entries p).
        range_contains (le_range (pp_entries p ! i)) (dr_winning_ticket (pp_draw p)) \<and>
        dr_winner_entry_id (pp_draw p) = ed_entry_id (le_data (pp_entries p ! i)) \<and>
        dr_winner_ticket_range (pp_draw p) = le_range (pp_entries p ! i))"

definition payouts_valid :: "ProofPayload \<Rightarrow> bool" where
  "payouts_valid p \<longleftrightarrow>
     unat (as_u16 (ps_winner (pp_payout_split p))) + unat (as_u16 (ps_organizer (pp_payout_split p)))
       + unat (as_u16 (ps_platform (pp_payout_split p))) = 10000 \<and>
     unat (as_u64 (pa_winner (pp_payouts p))) =
       pool_sum (pp_entries p) * unat (as_u16 (ps_winner (pp_payout_split p))) div 10000 \<and>
     unat (as_u64 (pa_organizer (pp_payouts p))) =
       pool_sum (pp_entries p) * unat (as_u16 (ps_organizer (pp_payout_split p))) div 10000 \<and>
     unat (as_u64 (pa_winner (pp_payouts p))) + unat (as_u64 (pa_organizer (pp_payouts p)))
       + unat (as_u64 (pa_platform (pp_payouts p))) = pool_sum (pp_entries p)"

definition payload_valid :: "sha256 \<Rightarrow> ProofPayload \<Rightarrow> bool" where
  "payload_valid sha p \<longleftrightarrow>
     pp_protocol_version p = ''OPENPOOL-1'' \<and>
     pp_entries p \<noteq> [] \<and> valid_ledger sha (pp_raffle_id p) (pp_entries p) \<and>
     freeze_valid sha p \<and>
     bf_close_block_height (pp_bitcoin p) < bf_randomness_block_height (pp_bitcoin p) \<and>
     draw_valid sha p \<and> payouts_valid p"

definition proof_valid :: "sha256 \<Rightarrow> jcs \<Rightarrow> ProofDocument \<Rightarrow> bool" where
  "proof_valid sha jcs doc \<longleftrightarrow>
     payload_valid sha (pd_payload doc) \<and>
     (\<exists>json. jcs (pd_payload doc) = Ok json \<and> pd_proof_hash doc = sha json)"

section \<open>Lemmas\<close>

lemma is_verified_push [simp]: "\<not> is_verified (push r c d)"
  by (simp add: is_verified_def push_def)

lemma is_verified_empty [simp]: "is_verified \<lparr>vr_issues = []\<rparr>"
  by (simp add: is_verified_def)

lemma payouts_valid_iff:
  assumes "pool_sum (pp_entries p) < 2 ^ 64"
  shows "payouts_valid p \<longleftrightarrow>
    split_is_valid (pp_payout_split p) \<and>
    allocate (pp_payout_split p) (Sats (of_nat (pool_sum (pp_entries p)))) = pp_payouts p"
proof -
  let ?s = "pp_payout_split p" and ?n = "pool_sum (pp_entries p)"
  let ?a = "allocate ?s (Sats (of_nat ?n))"
  have n: "unat (of_nat ?n :: u64) = ?n"
    using assms by (simp add: unat_of_nat)
  show ?thesis
  proof (cases "split_is_valid ?s")
    case False
    then show ?thesis by (simp add: payouts_valid_def split_is_valid_iff)
  next
    case True
    note a = allocate_unat [OF True, of "Sats (of_nat ?n)", unfolded Sats.sel n]
    have "?a = pp_payouts p \<longleftrightarrow>
        unat (as_u64 (pa_winner ?a)) = unat (as_u64 (pa_winner (pp_payouts p))) \<and>
        unat (as_u64 (pa_organizer ?a)) = unat (as_u64 (pa_organizer (pp_payouts p))) \<and>
        unat (as_u64 (pa_platform ?a)) = unat (as_u64 (pa_platform (pp_payouts p)))"
      by (cases "pp_payouts p"; cases ?a) (auto simp: Sats.expand word_unat_eq_iff)
    also have "\<dots> \<longleftrightarrow> payouts_valid p"
      using True a by (auto simp: payouts_valid_def split_is_valid_iff)
    finally show ?thesis
      using True by simp
  qed
qed

lemma draw_valid_iff:
  assumes "pp_entries p \<noteq> []" and "valid_ledger sha (pp_raffle_id p) (pp_entries p)"
  shows "draw_valid sha p \<longleftrightarrow> draw sha (pp_entries p) (payload_input sha p) = Ok (pp_draw p)"
proof -
  let ?es = "pp_entries p" and ?in = "payload_input sha p"
  let ?s = "ledger_summary sha (pp_raffle_id p) ?es"
  have rid: "ed_raffle_id (le_data (hd ?es)) = pp_raffle_id p"
    using assms by (cases ?es) (auto simp: valid_ledger_def entry_ok_def)
  then have sum: "summarize_ledger sha ?es = Ok ?s"
    using assms by (simp add: summarize_ledger_Ok)
  have inp: "di_total_tickets ?in = ls_total_tickets ?s" "di_entries_root ?in = ls_entries_root ?s"
    by (simp_all add: payload_input_def ledger_summary_def)
  have total: "ls_total_tickets ?s = ticket_base ?es (length ?es)"
    by (simp add: ledger_summary_def)
  obtain i t where i: "i < length ?es" and t: "winning_ticket (draw_seed sha ?in) (ls_total_tickets ?s) = Ok t"
    and c: "range_contains (le_range (?es ! i)) t" and less: "t < ls_total_tickets ?s"
    and d: "draw sha ?es ?in =
      Ok \<lparr>dr_seed = draw_seed sha ?in, dr_winning_ticket = t,
          dr_winner_entry_id = ed_entry_id (le_data (?es ! i)),
          dr_winner_ticket_range = le_range (?es ! i)\<rparr>"
    using sum inp by (rule draw_on_summary)
  have "ls_total_tickets ?s \<noteq> 0"
    using less by auto
  then have tv: "unat t = be_value (as_bytes (draw_seed sha ?in)) mod unat (ticket_base ?es (length ?es))"
    using t winning_ticket_value [of "ls_total_tickets ?s" "draw_seed sha ?in"] total by force
  have own: "j = i" if "j < length ?es" "range_contains (le_range (?es ! j)) t" for j
    using ticket_owner_unique [OF assms(2), of t] i c that less total by auto
  show ?thesis
  proof
    assume v: "draw_valid sha p"
    then have seed: "dr_seed (pp_draw p) = draw_seed sha ?in"
      by (simp add: draw_valid_def draw_seed_def)
    with v tv have win: "dr_winning_ticket (pp_draw p) = t"
      by (simp add: draw_valid_def word_unat_eq_iff)
    with v own have "dr_winner_entry_id (pp_draw p) = ed_entry_id (le_data (?es ! i)) \<and>
        dr_winner_ticket_range (pp_draw p) = le_range (?es ! i)"
      by (auto simp: draw_valid_def)
    with seed win d show "draw sha ?es ?in = Ok (pp_draw p)"
      by (cases "pp_draw p") simp
  next
    assume "draw sha ?es ?in = Ok (pp_draw p)"
    with d have "pp_draw p = \<lparr>dr_seed = draw_seed sha ?in, dr_winning_ticket = t,
          dr_winner_entry_id = ed_entry_id (le_data (?es ! i)),
          dr_winner_ticket_range = le_range (?es ! i)\<rparr>"
      by simp
    with i c tv show "draw_valid sha p"
      by (auto simp: draw_valid_def draw_seed_def)
  qed
qed

lemma is_verified_if_push:
  "is_verified (if c then push r k d else r') \<longleftrightarrow> \<not> c \<and> is_verified r'"
  by (simp add: is_verified_def push_def)

text \<open>The facts of a document over the summary of its ledger.\<close>

lemma freeze_valid_summary:
  assumes "valid_ledger sha (pp_raffle_id p) (pp_entries p)" and "s = ledger_summary sha (pp_raffle_id p) (pp_entries p)"
  shows "freeze_valid sha p \<longleftrightarrow>
    ls_entry_count s = ff_entry_count (pp_freeze p) \<and>
    ls_total_tickets s = ff_total_tickets (pp_freeze p) \<and>
    ls_total_pool_sats s = ff_total_pool_sats (pp_freeze p) \<and>
    ls_entry_chain_head s = ff_entry_chain_head (pp_freeze p) \<and>
    ls_entries_root s = ff_entries_root (pp_freeze p)"
proof -
  let ?es = "pp_entries p"
  have len: "unat (of_nat (length ?es) :: u64) = length ?es" and pool: "unat (of_nat (pool_sum ?es) :: u64) = pool_sum ?es"
    using assms(1) by (simp_all add: valid_ledger_def unat_of_nat)
  have "Sats (of_nat (pool_sum ?es)) = t \<longleftrightarrow> unat (as_u64 t) = pool_sum ?es" for t
    using pool by (cases t) (auto simp: word_unat_eq_iff)
  then show ?thesis
    using len by (auto simp: freeze_valid_def assms(2) ledger_summary_def word_unat_eq_iff)
qed

lemma payload_input_summary:
  assumes "s = ledger_summary sha (pp_raffle_id p) (pp_entries p)"
  shows "payload_input sha p =
    \<lparr>di_raffle_id = pp_raffle_id p, di_entries_root = ls_entries_root s,
     di_close_block_height = bf_close_block_height (pp_bitcoin p),
     di_randomness_block_height = bf_randomness_block_height (pp_bitcoin p),
     di_randomness_block_hash = bf_randomness_block_hash (pp_bitcoin p),
     di_total_tickets = ls_total_tickets s\<rparr>"
  by (simp add: payload_input_def assms ledger_summary_def)

lemma payouts_valid_summary:
  assumes "valid_ledger sha (pp_raffle_id p) (pp_entries p)" and "s = ledger_summary sha (pp_raffle_id p) (pp_entries p)"
  shows "payouts_valid p \<longleftrightarrow> split_is_valid (pp_payout_split p) \<and>
    allocate (pp_payout_split p) (ls_total_pool_sats s) = pp_payouts p \<and>
    checked_total (pp_payouts p) = Some (ls_total_pool_sats s)"
proof -
  have pool: "pool_sum (pp_entries p) < 2 ^ 64"
    using assms(1) by (simp add: valid_ledger_def)
  have tot: "ls_total_pool_sats s = Sats (of_nat (pool_sum (pp_entries p)))"
    by (simp add: assms(2) ledger_summary_def)
  show ?thesis
    unfolding payouts_valid_iff [OF pool] tot using checked_total_allocate by metis
qed

lemma verify_with_summary_iff:
  assumes "summarize_ledger sha (pp_entries p) = Ok s"
  shows "is_verified (verify_with_summary sha p s r) \<longleftrightarrow>
    is_verified r \<and> valid_ledger sha (pp_raffle_id p) (pp_entries p) \<and> freeze_valid sha p \<and>
    bf_close_block_height (pp_bitcoin p) < bf_randomness_block_height (pp_bitcoin p) \<and>
    draw_valid sha p \<and> payouts_valid p"
proof -
  let ?es = "pp_entries p" and ?rid = "ed_raffle_id (le_data (hd (pp_entries p)))"
  from assms have ne: "?es \<noteq> []" and v: "valid_ledger sha ?rid ?es"
    and s: "s = ledger_summary sha ?rid ?es"
    by (simp_all add: summarize_ledger_Ok)
  show ?thesis
  proof (cases "?rid = pp_raffle_id p")
    case False
    have "\<not> valid_ledger sha (pp_raffle_id p) ?es"
      using False ne by (cases ?es) (auto simp: valid_ledger_def entry_ok_def)
    moreover have "\<not> is_verified (verify_with_summary sha p s r)"
      using False ne by (cases ?es) (auto simp: verify_with_summary_def Let_def split: sum.split)
    ultimately show ?thesis by simp
  next
    case True
    note v' = v [unfolded True] and s' = s [unfolded True]
    note fr = freeze_valid_summary [OF v' s'] and pay = payouts_valid_summary [OF v' s'] and inp = payload_input_summary [OF s']
    have dr: "draw_valid sha p \<longleftrightarrow> draw sha ?es (payload_input sha p) = Ok (pp_draw p)"
      using ne v' by (rule draw_valid_iff)
    obtain e es where es: "?es = e # es"
      using ne by (cases ?es) auto
    show ?thesis
    proof (cases "draw sha ?es (payload_input sha p)")
      case (Inl err)
      then show ?thesis
        using v' True unfolding fr pay dr unfolding inp es
        by (simp add: verify_with_summary_def Let_def es not_le)
    next
      case (Inr d)
      then show ?thesis
        using v' True unfolding fr pay dr unfolding inp es
        by (simp add: verify_with_summary_def Let_def es not_le is_verified_if_push split del: if_split) blast
    qed
  qed
qed

text \<open>The verifier accepts exactly the valid proofs.\<close>

lemma verify_accepts_iff: "is_verified (verify sha jcs doc) \<longleftrightarrow> proof_valid sha jcs doc"
proof -
  let ?p = "pd_payload doc"
  have hash: "(\<exists>json. jcs ?p = Ok json \<and> pd_proof_hash doc = sha json) \<longleftrightarrow>
      proof_hash sha jcs ?p = Ok (pd_proof_hash doc)"
    by (auto simp: proof_hash_def canonical_proof_json_def bindR_eq_Ok map_err_eq_Ok)
  show ?thesis
  proof (cases "summarize_ledger sha (pp_entries ?p)")
    case (Inl e)
    then have "\<not> is_verified (verify sha jcs doc)"
      by (auto simp: verify_def Let_def split: sum.split)
    moreover have "\<not> (pp_entries ?p \<noteq> [] \<and> valid_ledger sha (pp_raffle_id ?p) (pp_entries ?p))"
    proof
      assume a: "pp_entries ?p \<noteq> [] \<and> valid_ledger sha (pp_raffle_id ?p) (pp_entries ?p)"
      then have "ed_raffle_id (le_data (hd (pp_entries ?p))) = pp_raffle_id ?p"
        by (cases "pp_entries ?p") (auto simp: valid_ledger_def entry_ok_def)
      with a have "summarize_ledger sha (pp_entries ?p) = Ok (ledger_summary sha (pp_raffle_id ?p) (pp_entries ?p))"
        by (simp add: summarize_ledger_Ok)
      with Inl show False by simp
    qed
    ultimately show ?thesis
      by (auto simp: proof_valid_def payload_valid_def)
  next
    case (Inr s)
    then have ne: "pp_entries ?p \<noteq> []"
      by (simp add: summarize_ledger_Ok)
    show ?thesis
      unfolding proof_valid_def payload_valid_def hash
      by (auto simp: verify_def Let_def Inr verify_with_summary_iff ne PROTOCOL_VERSION_def
          split: sum.split)
  qed
qed

text \<open>The declarative conditions leave no choice in the derived parts of a document.\<close>

lemma freeze_valid_unique:
  assumes "freeze_valid sha p" and "freeze_valid sha q"
    and "pp_entries p = pp_entries q" and "pp_raffle_id p = pp_raffle_id q"
  shows "pp_freeze p = pp_freeze q"
  using assms by (intro FreezeFacts.equality) (simp_all add: freeze_valid_def Sats.expand word_unat_eq_iff)

lemma proof_valid_unique:
  assumes "proof_valid sha jcs d" and "proof_valid sha jcs d'"
    and "pp_raffle_id (pd_payload d) = pp_raffle_id (pd_payload d')"
    and "pp_entries (pd_payload d) = pp_entries (pd_payload d')"
    and "pp_payout_split (pd_payload d) = pp_payout_split (pd_payload d')"
    and "pp_bitcoin (pd_payload d) = pp_bitcoin (pd_payload d')"
  shows "d = d'"
proof -
  let ?p = "pd_payload d" and ?q = "pd_payload d'"
  have inp: "payload_input sha ?p = payload_input sha ?q"
    using assms(3-6) by (simp add: payload_input_def)
  have "pp_draw ?p = pp_draw ?q"
    using assms(1-4) draw_valid_iff [of ?p sha] draw_valid_iff [of ?q sha] inp
    by (simp add: proof_valid_def payload_valid_def)
  moreover have "pp_payouts ?p = pp_payouts ?q"
    using assms(1,2,4,5) payouts_valid_iff [of ?p] payouts_valid_iff [of ?q]
    by (simp add: proof_valid_def payload_valid_def valid_ledger_def)
  moreover have "pp_freeze ?p = pp_freeze ?q"
    using assms(1,2) by (intro freeze_valid_unique [of sha] assms(3,4))
      (simp_all add: proof_valid_def payload_valid_def)
  ultimately have "?p = ?q"
    using assms by (intro ProofPayload.equality) (simp_all add: proof_valid_def payload_valid_def)
  moreover from this have "pd_proof_hash d = pd_proof_hash d'"
    using assms(1,2) by (auto simp: proof_valid_def)
  ultimately show ?thesis
    by (intro ProofDocument.equality) simp_all
qed

section \<open>Properties\<close>

text \<open>C8. The verifier is sound and complete: it reports no issue exactly for the documents whose ledger is
  valid, whose freeze facts restate it, whose randomness block lies after the close block, whose draw
  names the owner of the ticket the seed selects, whose payouts are the floors and the remainder of
  the pool, and whose proof hash is the digest of the canonical payload.\<close>

theorem verify_sound_and_complete:
  "vr_issues (verify sha jcs doc) = [] \<longleftrightarrow> proof_valid sha jcs doc"
  using verify_accepts_iff [of sha jcs doc] by (simp add: is_verified_def)

text \<open>\<open>verify_or_protocol_error\<close> succeeds exactly on valid documents and otherwise reports the details of
  all issues, in order, in one \<open>ProofSerialization\<close> error.\<close>

theorem verify_or_protocol_error_correct:
  "verify_or_protocol_error sha jcs doc =
     (if proof_valid sha jcs doc then Ok ()
      else Err (ProofSerialization (join_with ''; '' (map vi_detail (vr_issues (verify sha jcs doc))))))"
  by (simp add: verify_or_protocol_error_def Let_def verify_accepts_iff)

text \<open>C29. A verified outcome is unique: two accepted documents of the same raffle with the same entries,
  payout split and Bitcoin facts are the same document, so no second winner, payout or proof hash can
  be proved for a frozen raffle and a randomness block.\<close>

theorem verified_proof_unique:
  assumes "is_verified (verify sha jcs d)" and "is_verified (verify sha jcs d')"
    and "pp_raffle_id (pd_payload d) = pp_raffle_id (pd_payload d')"
    and "pp_entries (pd_payload d) = pp_entries (pd_payload d')"
    and "pp_payout_split (pd_payload d) = pp_payout_split (pd_payload d')"
    and "pp_bitcoin (pd_payload d) = pp_bitcoin (pd_payload d')"
  shows "d = d'"
  using assms(1,2) proof_valid_unique [OF _ _ assms(3-6)] by (simp add: verify_accepts_iff)

definition sample_proof :: "u64 \<Rightarrow> ProofDocument" where
  "sample_proof winner =
     \<lparr>pd_payload =
        \<lparr>pp_protocol_version = ''OPENPOOL-1'', pp_raffle_id = 7,
         pp_payout_split = \<lparr>ps_winner = BasisPoints 8000, ps_organizer = BasisPoints 1500,
           ps_platform = BasisPoints 500\<rparr>,
         pp_entries = sample_ledger (\<lambda>_. ZERO_HASH),
         pp_freeze = \<lparr>ff_entry_count = 2, ff_total_tickets = 5, ff_total_pool_sats = Sats 5000,
           ff_entry_chain_head = ZERO_HASH, ff_entries_root = ZERO_HASH\<rparr>,
         pp_bitcoin = \<lparr>bf_close_block_height = 100, bf_randomness_block_height = 106,
           bf_randomness_block_hash = hash_repeat 9\<rparr>,
         pp_draw = \<lparr>dr_seed = ZERO_HASH, dr_winning_ticket = 0, dr_winner_entry_id = 1,
           dr_winner_ticket_range = \<lparr>tr_start = 0, tr_end = 2\<rparr>\<rparr>,
         pp_payouts = \<lparr>pa_winner = Sats winner, pa_organizer = Sats 750, pa_platform = Sats 250\<rparr>\<rparr>,
      pd_proof_hash = ZERO_HASH\<rparr>"

lemma sample_proof_valid: "proof_valid (\<lambda>_. ZERO_HASH) (\<lambda>_. Ok []) (sample_proof 4000)"
proof -
  have es: "sample_ledger (\<lambda>_. ZERO_HASH) \<noteq> []"
    by (simp add: sample_ledger_def Let_def)
  have first: "sample_ledger (\<lambda>_. ZERO_HASH) ! 0 =
      LedgerEntry_create (\<lambda>_. ZERO_HASH) (sample_data 0 0 2 2000) ZERO_HASH"
    by (simp add: sample_ledger_def Let_def)
  have head: "chain_hash (sample_ledger (\<lambda>_. ZERO_HASH)) 2 = ZERO_HASH"
    by (simp add: sample_ledger_def Let_def chain_hash_def LedgerEntry_create_def entry_hash_def)
  show ?thesis
    using es first
    by (auto simp: proof_valid_def payload_valid_def freeze_valid_def draw_valid_def payouts_valid_def
        sample_proof_def sample_ledger_facts head entries_root_def be_value_ZERO_HASH
        LedgerEntry_create_def sample_data_def range_contains_def intro!: exI [of _ 0])
qed

theorem verified_proof_unique_witness:
  "sample_proof 4000 = sample_proof (2000 + 2000) \<and>
   \<not> is_verified (verify (\<lambda>_. ZERO_HASH) (\<lambda>_. Ok []) (sample_proof 4001))"
  using verified_proof_unique [of "\<lambda>_. ZERO_HASH" "\<lambda>_. Ok []" "sample_proof 4000" "sample_proof (2000 + 2000)"]
    verified_proof_unique [of "\<lambda>_. ZERO_HASH" "\<lambda>_. Ok []" "sample_proof 4000" "sample_proof 4001"]
    sample_proof_valid
  by (auto simp: verify_accepts_iff sample_proof_def)

end
