(* ===== verification/Tables.thy ===== *)
theory Tables
  imports Prelude
begin

text \<open>
  The SQL statements the store sends, on tables kept as lists of rows in insertion order. A table is
  described by its row check (column types and CHECK constraints) and by a conflict relation (two rows
  that share a primary key or a unique index). A statement that breaks a constraint is an error, as in
  PostgreSQL: CHECK constraints are tested first, unique indexes next, foreign keys at the end.
  \<open>sql_table\<close> is the interface of a table towards its clients: whatever the statements do, the
  constraints keep holding.
\<close>

section \<open>Statements\<close>

datatype SqlError = RowNotFound | ColumnDecode | CheckViolation | UniqueViolation | ForeignKeyViolation

fun unique_ok :: "('r \<Rightarrow> 'r \<Rightarrow> bool) \<Rightarrow> 'r list \<Rightarrow> bool" where
  "unique_ok conflict [] = True"
| "unique_ok conflict (r # t) \<longleftrightarrow> (\<forall>s \<in> set t. \<not> conflict r s) \<and> unique_ok conflict t"

definition table_ok :: "('r \<Rightarrow> bool) \<Rightarrow> ('r \<Rightarrow> 'r \<Rightarrow> bool) \<Rightarrow> 'r list \<Rightarrow> bool" where
  "table_ok check conflict t \<longleftrightarrow> (\<forall>r \<in> set t. check r) \<and> unique_ok conflict t"

text \<open>\<open>INSERT\<close>; \<open>fk\<close> says that the rows it references exist.\<close>

definition sql_insert ::
  "('r \<Rightarrow> bool) \<Rightarrow> ('r \<Rightarrow> 'r \<Rightarrow> bool) \<Rightarrow> bool \<Rightarrow> 'r \<Rightarrow> 'r list \<Rightarrow> SqlError + 'r list" where
  "sql_insert check conflict fk r t =
     (if \<not> check r then Err CheckViolation
      else if \<exists>s \<in> set t. conflict s r then Err UniqueViolation
      else if \<not> fk then Err ForeignKeyViolation
      else Ok (t @ [r]))"

text \<open>\<open>INSERT ... ON CONFLICT (key) DO NOTHING\<close>; also returns whether a row was inserted.\<close>

definition sql_insert_ignore ::
  "('r \<Rightarrow> bool) \<Rightarrow> ('r \<Rightarrow> 'r \<Rightarrow> bool) \<Rightarrow> ('r \<Rightarrow> 'k) \<Rightarrow> bool \<Rightarrow> 'r \<Rightarrow> 'r list \<Rightarrow> SqlError + 'r list \<times> bool" where
  "sql_insert_ignore check conflict key fk r t =
     (if \<not> check r then Err CheckViolation
      else if \<exists>s \<in> set t. key s = key r then Ok (t, False)
      else bindR (sql_insert check conflict fk r t) (\<lambda>t'. Ok (t', True)))"

definition set_where :: "('r \<Rightarrow> bool) \<Rightarrow> ('r \<Rightarrow> 'r) \<Rightarrow> 'r list \<Rightarrow> 'r list" where
  "set_where P f t = map (\<lambda>r. if P r then f r else r) t"

text \<open>\<open>UPDATE ... SET ... WHERE\<close>, with the number of affected rows.\<close>

definition sql_update ::
  "('r \<Rightarrow> bool) \<Rightarrow> ('r \<Rightarrow> 'r \<Rightarrow> bool) \<Rightarrow> ('r \<Rightarrow> bool) \<Rightarrow> ('r \<Rightarrow> 'r) \<Rightarrow> 'r list \<Rightarrow> SqlError + 'r list \<times> nat" where
  "sql_update check conflict P f t =
     (if \<exists>r \<in> set t. P r \<and> \<not> check (f r) then Err CheckViolation
      else if \<not> unique_ok conflict (set_where P f t) then Err UniqueViolation
      else Ok (set_where P f t, length (filter P t)))"

definition sql_delete :: "('r \<Rightarrow> bool) \<Rightarrow> 'r list \<Rightarrow> 'r list" where
  "sql_delete P t = filter (\<lambda>r. \<not> P r) t"

text \<open>\<open>fetch_optional\<close> and \<open>fetch_one\<close>.\<close>

definition fetch_optional :: "('r \<Rightarrow> bool) \<Rightarrow> 'r list \<Rightarrow> 'r option" where
  "fetch_optional P t = find P t"

definition fetch_one :: "('r \<Rightarrow> bool) \<Rightarrow> 'r list \<Rightarrow> SqlError + 'r" where
  "fetch_one P t = ok_or (find P t) RowNotFound"

text \<open>\<open>ORDER BY key LIMIT 1\<close>.\<close>

definition first_by :: "('r \<Rightarrow> 'k::linorder) \<Rightarrow> 'r list \<Rightarrow> 'r option" where
  "first_by key t = (case sort_key key t of [] \<Rightarrow> None | r # _ \<Rightarrow> Some r)"

section \<open>Lemmas\<close>

lemma unique_ok_append:
  "unique_ok c (xs @ ys) \<longleftrightarrow> unique_ok c xs \<and> unique_ok c ys \<and> (\<forall>x \<in> set xs. \<forall>y \<in> set ys. \<not> c x y)"
  by (induction xs) auto

lemma unique_ok_filter: "unique_ok c t \<Longrightarrow> unique_ok c (filter P t)"
  by (induction t) auto

lemma unique_ok_map:
  assumes "unique_ok c t" and "\<And>r s. r \<in> set t \<Longrightarrow> s \<in> set t \<Longrightarrow> c (g r) (g s) \<Longrightarrow> c r s"
  shows "unique_ok c (map g t)"
  using assms by (induction t) auto

lemma set_where_simps [table_simps]:
  "set_where P f [] = []"
  "set_where P f (r # t) = (if P r then f r else r) # set_where P f t"
  "length (set_where P f t) = length t"
  "map h (set_where P f t) = map (\<lambda>r. h (if P r then f r else r)) t"
  by (simp_all add: set_where_def)

lemma set_set_where: "set (set_where P f t) = f ` {r \<in> set t. P r} \<union> {r \<in> set t. \<not> P r}"
  by (auto simp: set_where_def)

lemma image_set_where:
  assumes "\<And>r. r \<in> set t \<Longrightarrow> P r \<Longrightarrow> k (f r) = k r"
  shows "k ` set (set_where P f t) = k ` set t"
  unfolding set_where_def set_map image_image by (rule image_cong) (simp_all add: assms)

lemma set_where_cong: "(\<And>r. r \<in> set t \<Longrightarrow> \<not> P r) \<Longrightarrow> set_where P f t = t"
  by (simp add: set_where_def map_idI)

lemma sql_insert_Ok [table_simps]:
  "sql_insert check conflict fk r t = Ok t' \<longleftrightarrow>
     check r \<and> (\<forall>s \<in> set t. \<not> conflict s r) \<and> fk \<and> t' = t @ [r]"
  by (auto simp: sql_insert_def)

lemma sql_insert_ignore_Ok [table_simps]:
  "sql_insert_ignore check conflict key fk r t = Ok (t', b) \<longleftrightarrow>
     check r \<and>
     (if \<exists>s \<in> set t. key s = key r then t' = t \<and> \<not> b
      else (\<forall>s \<in> set t. \<not> conflict s r) \<and> fk \<and> t' = t @ [r] \<and> b)"
  by (auto simp: sql_insert_ignore_def bindR_eq_Ok sql_insert_Ok)

lemma sql_update_Ok [table_simps]:
  "sql_update check conflict P f t = Ok (t', n) \<longleftrightarrow>
     (\<forall>r \<in> set t. P r \<longrightarrow> check (f r)) \<and> unique_ok conflict (set_where P f t) \<and>
     t' = set_where P f t \<and> n = length (filter P t)"
  by (auto simp: sql_update_def)

lemma fetch_optional_Some: "fetch_optional P t = Some r \<Longrightarrow> r \<in> set t \<and> P r"
  by (auto simp: fetch_optional_def find_Some_iff in_set_conv_nth)

lemma fetch_optional_None: "fetch_optional P t = None \<longleftrightarrow> (\<forall>r \<in> set t. \<not> P r)"
  by (auto simp: fetch_optional_def find_None_iff)

lemma fetch_one_Ok [table_simps]: "fetch_one P t = Ok r \<longleftrightarrow> fetch_optional P t = Some r"
  by (simp add: fetch_one_def fetch_optional_def ok_or_eq_Ok)

lemma first_by_Some:
  assumes "first_by key t = Some r"
  shows "r \<in> set t" and "s \<in> set t \<Longrightarrow> key r \<le> key s"
proof -
  from assms obtain rs where rs: "sort_key key t = r # rs"
    by (auto simp: first_by_def split: list.splits)
  then show "r \<in> set t"
    by (metis list.set_intros(1) set_sort)
  assume "s \<in> set t"
  then have "s \<in> set (r # rs)"
    by (metis rs set_sort)
  moreover have "sorted (map key (r # rs))"
    by (metis rs sorted_sort_key)
  ultimately show "key r \<le> key s"
    by auto
qed

lemma first_by_None: "first_by key t = None \<longleftrightarrow> t = []"
  by (auto simp: first_by_def split: list.splits) (metis set_empty set_sort)

section \<open>The interface of a table\<close>

locale sql_table =
  fixes check :: "'r \<Rightarrow> bool"
    and conflict :: "'r \<Rightarrow> 'r \<Rightarrow> bool"
  assumes conflict_sym: "conflict r s \<Longrightarrow> conflict s r"
begin

lemma row_unique:
  assumes "table_ok check conflict t" and "r \<in> set t" and "s \<in> set t" and "conflict r s"
  shows "r = s"
proof -
  have "unique_ok conflict t \<Longrightarrow> r = s"
    using assms(2-4) by (induction t) (auto dest: conflict_sym)
  with assms(1) show ?thesis
    by (simp add: table_ok_def)
qed

lemma insert_ok:
  "table_ok check conflict t \<Longrightarrow> sql_insert check conflict fk r t = Ok t' \<Longrightarrow> table_ok check conflict t'"
  by (auto simp: sql_insert_Ok table_ok_def unique_ok_append)

lemma insert_ignore_ok:
  "table_ok check conflict t \<Longrightarrow> sql_insert_ignore check conflict key fk r t = Ok (t', b) \<Longrightarrow>
     table_ok check conflict t'"
  by (auto simp: sql_insert_ignore_Ok table_ok_def unique_ok_append split: if_splits)

lemma update_ok:
  "table_ok check conflict t \<Longrightarrow> sql_update check conflict P f t = Ok (t', n) \<Longrightarrow> table_ok check conflict t'"
  by (auto simp: sql_update_Ok table_ok_def set_set_where)

lemma delete_ok: "table_ok check conflict t \<Longrightarrow> table_ok check conflict (sql_delete P t)"
  by (auto simp: sql_delete_def table_ok_def unique_ok_filter)

text \<open>An update that keeps the checks and touches no key cannot fail.\<close>

lemma update_succeeds:
  assumes "table_ok check conflict t"
    and "\<And>r. r \<in> set t \<Longrightarrow> P r \<Longrightarrow> check (f r)"
    and "\<And>r s. conflict (f r) s \<longleftrightarrow> conflict r s"
  shows "sql_update check conflict P f t = Ok (set_where P f t, length (filter P t))"
proof -
  have key: "conflict (f r) (f s) \<longleftrightarrow> conflict r s" "conflict r (f s) \<longleftrightarrow> conflict r s" for r s
    using assms(3) conflict_sym by metis+
  have "unique_ok conflict (map (\<lambda>r. if P r then f r else r) t)"
    using assms(1) by (intro unique_ok_map) (auto simp: table_ok_def key assms(3) split: if_splits)
  then show ?thesis
    using assms(2) by (auto simp: sql_update_Ok set_where_def)
qed

text \<open>A row found by a condition that only one row can satisfy is that row.\<close>

lemma fetch_unique:
  assumes "table_ok check conflict t" and "r \<in> set t" and "P r" and "\<And>s. P s \<Longrightarrow> conflict r s"
  shows "fetch_optional P t = Some r"
proof (cases "fetch_optional P t")
  case None
  then show ?thesis
    using assms(2,3) by (auto simp: fetch_optional_None)
next
  case (Some s)
  then have "s \<in> set t" "P s"
    by (auto dest: fetch_optional_Some)
  then show ?thesis
    using row_unique [OF assms(1,2)] assms(4) Some by auto
qed

text \<open>A condition that identifies a row affects at most one.\<close>

lemma affected_le_1:
  assumes "table_ok check conflict t" and "\<And>r s. P r \<Longrightarrow> P s \<Longrightarrow> conflict r s"
  shows "length (filter P t) \<le> 1"
proof -
  have u: "unique_ok conflict (filter P t)"
    using assms(1) by (simp add: table_ok_def unique_ok_filter)
  show ?thesis
  proof (rule ccontr)
    assume "\<not> length (filter P t) \<le> 1"
    then obtain r s rs where rs: "filter P t = r # s # rs"
      by (cases "filter P t" rule: remdups_adj.cases) auto
    then have "r \<in> set (filter P t)" "s \<in> set (filter P t)"
      by simp_all
    then have "P r" "P s"
      by simp_all
    moreover have "\<not> conflict r s"
      using u by (simp add: rs)
    ultimately show False
      using assms(2) by blast
  qed
qed

lemma affected_1:
  assumes "table_ok check conflict t" and "r \<in> set t" and "P r" and "\<And>r s. P r \<Longrightarrow> P s \<Longrightarrow> conflict r s"
  shows "length (filter P t) = 1"
proof -
  have "r \<in> set (filter P t)"
    using assms(2,3) by simp
  then have "0 < length (filter P t)"
    by (rule length_pos_if_in_set)
  moreover have "length (filter P t) \<le> 1"
    using assms(1,4) by (rule affected_le_1)
  ultimately show ?thesis
    by linarith
qed

end

end
