(* ===== verification/Schema.thy ===== *)
theory Schema
  imports Tables Verifier
begin

text \<open>
  The durable state of \<open>crates/openpool-core/src/persistence_sqlx.rs\<close>: one record per table of
  \<open>migrations/\<close>, the constraints of each table, the error type, the conversions between rows and
  protocol values, and the audit and outbox writers. A \<open>BIGINT\<close> or \<open>INTEGER\<close> column is an \<open>int\<close>
  whose range is part of the row check; a \<open>TEXT\<close> column with an enumerating CHECK is a datatype; a
  nullable column is an \<open>option\<close>.

  An operation maps the database to an error or to its result and the new database. An error is a
  rolled-back transaction: the caller goes on with the database it had. Identifiers made by
  \<open>Uuid::new_v4\<close> are a supply \<open>ids\<close> passed to the operation, used in call order; \<open>now\<close> is the time
  of the transaction. Code outside the repository is gathered in the record \<open>externals\<close>. Failures of
  the connection itself can strike any statement; they roll back like any other error and carry no
  logic, so they are not a branch of the operations.
\<close>

section \<open>External code\<close>

datatype json = JNull | JBool bool | JNum int | JStr string | JArr "json list" | JObj "(string \<times> json) list"

text \<open>\<open>Value::get\<close> and \<open>Value::as_str\<close>.\<close>

fun json_get :: "string \<Rightarrow> json \<Rightarrow> json option" where
  "json_get key (JObj kvs) = map_of kvs key"
| "json_get key _ = None"

fun json_as_str :: "json \<Rightarrow> string option" where
  "json_as_str (JStr s) = Some s"
| "json_as_str _ = None"

text \<open>
  The crates behind the store: \<open>sha2\<close>, \<open>serde_jcs\<close>, the text form of \<open>uuid\<close> and its parser, \<open>hex\<close>,
  \<open>serde_json\<close> on proof documents, and the round trip of an \<open>OffsetDateTime\<close> through a
  \<open>TIMESTAMPTZ\<close> column.
\<close>

record externals =
  x_sha :: sha256
  x_jcs :: jcs
  x_uuid_text :: "uuid \<Rightarrow> string"
  x_uuid_parse :: "string \<Rightarrow> uuid option"
  x_hex_encode :: "bytes \<Rightarrow> string"
  x_to_value :: "ProofDocument \<Rightarrow> string + json"
  x_from_value :: "json \<Rightarrow> string + ProofDocument"
  x_timestamptz :: "timestamp \<Rightarrow> timestamp"

section \<open>Errors\<close>

text \<open>\<open>Panicked\<close> stands for the panic of \<open>row.get\<close> on a NULL column read at a non-optional type.\<close>

datatype PersistenceError =
    Sqlx SqlError
  | Domain DomainError
  | Protocol ProtocolError
  | ProofInvalid
  | ProofAlreadyPublished
  | ProofEncoding string
  | NotFound string
  | InvoiceNotEligible
  | RaffleNotOpen
  | RaffleClosed
  | InvalidTicketCount
  | InvalidStatus
  | IntegerOverflow
  | InvalidHashLength
  | Panicked string

abbreviation sql :: "SqlError + 'a \<Rightarrow> PersistenceError + 'a" where
  "sql \<equiv> map_err Sqlx"

section \<open>Tables\<close>

datatype OrganizerStatus = OrgActive | OrgDisabled | OrgPendingReview

record organizer_row =
  o_id :: OrganizerId
  o_display_name :: string
  o_lightning_address_ciphertext :: bytes
  o_status :: OrganizerStatus

record raffle_row =
  r_id :: RaffleId
  r_organizer_id :: OrganizerId
  r_name :: string
  r_entry_price_sats :: int
  r_start_time :: timestamp
  r_end_time :: timestamp
  r_status :: RaffleStatus
  r_randomness_delay_blocks :: int
  r_total_pool_sats :: int
  r_total_tickets :: int
  r_entry_chain_head :: "bytes option"
  r_entries_root :: "bytes option"
  r_frozen_at :: "timestamp option"
  r_created_at :: timestamp
  r_updated_at :: timestamp
  r_close_block_height :: "int option"
  r_close_block_hash :: "bytes option"
  r_randomness_block_height :: "int option"
  r_randomness_block_hash :: "bytes option"

record split_row =
  sp_raffle_id :: RaffleId
  sp_winner_bps :: int
  sp_organizer_bps :: int
  sp_platform_bps :: int

datatype InvoiceStatus = InvPending | InvSettled | InvExpired | InvIneligible | InvCollectionFailed

record invoice_row =
  i_id :: InvoiceId
  i_raffle_id :: RaffleId
  i_participant_public_id :: bytes
  i_payment_reference_hash :: bytes
  i_amount_sats :: int
  i_ticket_count :: int
  i_status :: InvoiceStatus
  i_settled_at :: "timestamp option"
  i_created_at :: timestamp
  i_payout_address_ciphertext :: "bytes option"
  i_bolt11 :: "string option"
  i_provider_quote_id :: "string option"
  i_provider_payment_hash :: "string option"
  i_expires_at :: "timestamp option"

record webhook_row =
  w_id :: uuid
  w_provider_name :: string
  w_provider_event_id :: string
  w_payload_hash :: bytes
  w_raw_payload :: json
  w_signature_valid :: bool
  w_received_at :: timestamp

record entry_row =
  e_id :: EntryId
  e_raffle_id :: RaffleId
  e_invoice_id :: InvoiceId
  e_entry_index :: int
  e_participant_public_id :: bytes
  e_payment_reference_hash :: bytes
  e_amount_sats :: int
  e_ticket_start :: int
  e_ticket_end :: int
  e_settled_at :: timestamp
  e_previous_entry_hash :: bytes
  e_entry_hash :: bytes

record block_row =
  b_height :: int
  b_block_hash :: bytes
  b_previous_hash :: bytes
  b_block_time :: timestamp
  b_is_canonical :: bool
  b_observed_at :: timestamp

record draw_row =
  d_id :: uuid
  d_raffle_id :: RaffleId
  d_entries_root :: bytes
  d_randomness_block_hash :: bytes
  d_winning_ticket :: int
  d_winner_entry_id :: EntryId
  d_created_at :: timestamp

datatype RecipientType = RWinner | ROrganizer | RPlatform | RRefund
datatype PayoutStatus = PayPending | PayProcessing | PaySettled | PayFailed

record payout_row =
  p_id :: uuid
  p_raffle_id :: RaffleId
  p_recipient_type :: RecipientType
  p_idempotency_key :: string
  p_amount_sats :: int
  p_status :: PayoutStatus
  p_provider_reference :: "string option"
  p_failure_reason :: "string option"
  p_created_at :: timestamp
  p_settled_at :: "timestamp option"
  p_lease_owner :: "string option"
  p_lease_expires_at :: "timestamp option"

record proof_row =
  pr_id :: uuid
  pr_raffle_id :: RaffleId
  pr_protocol_version :: string
  pr_proof_json :: json
  pr_proof_hash :: bytes
  pr_storage_uri :: "string option"
  pr_created_at :: timestamp
  pr_storage_version_id :: "string option"
  pr_storage_etag :: "string option"
  pr_published_at :: "timestamp option"

datatype JobStatus = Queued | Running | Succeeded | Dead

record job_row =
  j_id :: JobId
  j_kind :: string
  j_deduplication_key :: string
  j_payload :: json
  j_status :: JobStatus
  j_attempts :: int
  j_max_attempts :: int
  j_available_at :: timestamp
  j_lease_owner :: "string option"
  j_lease_expires_at :: "timestamp option"
  j_last_error :: "string option"
  j_created_at :: timestamp
  j_updated_at :: timestamp

record outbox_row =
  x_id :: uuid
  x_aggregate_type :: string
  x_aggregate_id :: uuid
  x_event_type :: string
  x_payload :: json
  x_occurred_at :: timestamp
  x_delivered_at :: "timestamp option"
  x_attempts :: int
  x_lease_owner :: "string option"
  x_lease_expires_at :: "timestamp option"

record audit_row =
  a_id :: uuid
  a_aggregate_type :: string
  a_aggregate_id :: uuid
  a_event_type :: string
  a_actor_type :: string
  a_payload :: json
  a_created_at :: timestamp

datatype RefundReason = LateSettlement | ReasonCancelled | MinimumNotMet | UnsafeDraw
datatype RefundStatus = AwaitingInvoice | RefPending | RefProcessing | RefSettled | RefFailed

record refund_row =
  f_id :: uuid
  f_raffle_id :: RaffleId
  f_invoice_id :: InvoiceId
  f_reason :: RefundReason
  f_status :: RefundStatus
  f_created_at :: timestamp

record session_row =
  s_id :: uuid
  s_subject :: uuid
  s_roles :: json
  s_csrf_token_hash :: bytes
  s_expires_at :: timestamp

record login_row =
  l_state :: string
  l_nonce :: string
  l_pkce_verifier :: string
  l_expires_at :: timestamp

record db =
  organizers :: "organizer_row list"
  raffles :: "raffle_row list"
  payout_splits :: "split_row list"
  invoices :: "invoice_row list"
  webhook_events :: "webhook_row list"
  entries :: "entry_row list"
  bitcoin_blocks :: "block_row list"
  draws :: "draw_row list"
  payouts :: "payout_row list"
  proofs :: "proof_row list"
  jobs :: "job_row list"
  outbox_events :: "outbox_row list"
  audit_events :: "audit_row list"
  refunds :: "refund_row list"
  oidc_sessions :: "session_row list"
  oidc_login_attempts :: "login_row list"

definition empty_db :: db where
  "empty_db = \<lparr>organizers = [], raffles = [], payout_splits = [], invoices = [], webhook_events = [],
     entries = [], bitcoin_blocks = [], draws = [], payouts = [], proofs = [], jobs = [],
     outbox_events = [], audit_events = [], refunds = [], oidc_sessions = [], oidc_login_attempts = []\<rparr>"

text \<open>
  Concrete stand-ins for the external code, used where a theorem is applied to concrete data: unary
  text for identifiers, a constant digest and no loss of precision.
\<close>

definition sample_ext :: externals where
  "sample_ext =
     \<lparr>x_sha = (\<lambda>_. ZERO_HASH), x_jcs = (\<lambda>_. Ok []), x_uuid_text = (\<lambda>u. replicate (unat u) (CHR ''u'')),
      x_uuid_parse = (\<lambda>s. Some (of_nat (length s))), x_hex_encode = (\<lambda>_. ''00''),
      x_to_value = (\<lambda>_. Ok JNull), x_from_value = (\<lambda>_. Err []), x_timestamptz = (\<lambda>t. t)\<rparr>"

section \<open>Constraints\<close>

definition bigint :: "int \<Rightarrow> bool" where
  "bigint v \<longleftrightarrow> - (2 ^ 63) \<le> v \<and> v < 2 ^ 63"

definition integer_col :: "int \<Rightarrow> bool" where
  "integer_col v \<longleftrightarrow> - (2 ^ 31) \<le> v \<and> v < 2 ^ 31"

definition hash_col :: "bytes option \<Rightarrow> bool" where
  "hash_col v = (case v of None \<Rightarrow> True | Some bs \<Rightarrow> length bs = 32)"

definition organizer_conflict :: "organizer_row \<Rightarrow> organizer_row \<Rightarrow> bool" where
  "organizer_conflict a b \<longleftrightarrow> o_id a = o_id b"

definition raffle_check :: "raffle_row \<Rightarrow> bool" where
  "raffle_check r \<longleftrightarrow>
     bigint (r_entry_price_sats r) \<and> 0 < r_entry_price_sats r \<and>
     r_start_time r < r_end_time r \<and>
     integer_col (r_randomness_delay_blocks r) \<and> 0 < r_randomness_delay_blocks r \<and>
     bigint (r_total_pool_sats r) \<and> 0 \<le> r_total_pool_sats r \<and>
     bigint (r_total_tickets r) \<and> 0 \<le> r_total_tickets r \<and>
     (case r_close_block_height r of None \<Rightarrow> True | Some h \<Rightarrow> bigint h) \<and>
     hash_col (r_close_block_hash r) \<and>
     (case r_randomness_block_height r of None \<Rightarrow> True | Some h \<Rightarrow> bigint h) \<and>
     hash_col (r_randomness_block_hash r)"

definition raffle_conflict :: "raffle_row \<Rightarrow> raffle_row \<Rightarrow> bool" where
  "raffle_conflict a b \<longleftrightarrow> r_id a = r_id b"

definition split_check :: "split_row \<Rightarrow> bool" where
  "split_check s \<longleftrightarrow>
     0 \<le> sp_winner_bps s \<and> sp_winner_bps s \<le> 10000 \<and>
     0 \<le> sp_organizer_bps s \<and> sp_organizer_bps s \<le> 10000 \<and>
     0 \<le> sp_platform_bps s \<and> sp_platform_bps s \<le> 10000 \<and>
     sp_winner_bps s + sp_organizer_bps s + sp_platform_bps s = 10000"

definition split_conflict :: "split_row \<Rightarrow> split_row \<Rightarrow> bool" where
  "split_conflict a b \<longleftrightarrow> sp_raffle_id a = sp_raffle_id b"

definition invoice_check :: "invoice_row \<Rightarrow> bool" where
  "invoice_check i \<longleftrightarrow>
     length (i_participant_public_id i) = 32 \<and> length (i_payment_reference_hash i) = 32 \<and>
     bigint (i_amount_sats i) \<and> 0 < i_amount_sats i \<and>
     bigint (i_ticket_count i) \<and> 0 < i_ticket_count i"

text \<open>Partial unique indexes ignore NULL.\<close>

definition same_some :: "'a option \<Rightarrow> 'a option \<Rightarrow> bool" where
  "same_some a b \<longleftrightarrow> a \<noteq> None \<and> a = b"

definition invoice_conflict :: "invoice_row \<Rightarrow> invoice_row \<Rightarrow> bool" where
  "invoice_conflict a b \<longleftrightarrow>
     i_id a = i_id b \<or> i_payment_reference_hash a = i_payment_reference_hash b \<or>
     same_some (i_provider_quote_id a) (i_provider_quote_id b) \<or>
     same_some (i_provider_payment_hash a) (i_provider_payment_hash b)"

definition webhook_check :: "webhook_row \<Rightarrow> bool" where
  "webhook_check w \<longleftrightarrow> length (w_payload_hash w) = 32"

definition webhook_conflict :: "webhook_row \<Rightarrow> webhook_row \<Rightarrow> bool" where
  "webhook_conflict a b \<longleftrightarrow> w_id a = w_id b \<or>
     (w_provider_name a = w_provider_name b \<and> w_provider_event_id a = w_provider_event_id b)"

definition entry_check :: "entry_row \<Rightarrow> bool" where
  "entry_check e \<longleftrightarrow>
     bigint (e_entry_index e) \<and> 0 \<le> e_entry_index e \<and>
     length (e_participant_public_id e) = 32 \<and> length (e_payment_reference_hash e) = 32 \<and>
     bigint (e_amount_sats e) \<and> 0 < e_amount_sats e \<and>
     bigint (e_ticket_start e) \<and> 0 \<le> e_ticket_start e \<and>
     bigint (e_ticket_end e) \<and> e_ticket_start e < e_ticket_end e \<and>
     length (e_previous_entry_hash e) = 32 \<and> length (e_entry_hash e) = 32"

definition entry_conflict :: "entry_row \<Rightarrow> entry_row \<Rightarrow> bool" where
  "entry_conflict a b \<longleftrightarrow> e_id a = e_id b \<or> e_invoice_id a = e_invoice_id b \<or>
     (e_raffle_id a = e_raffle_id b \<and>
       (e_entry_index a = e_entry_index b \<or> e_ticket_start a = e_ticket_start b \<or>
        e_ticket_end a = e_ticket_end b))"

definition block_check :: "block_row \<Rightarrow> bool" where
  "block_check b \<longleftrightarrow> bigint (b_height b) \<and> length (b_block_hash b) = 32 \<and> length (b_previous_hash b) = 32"

definition block_conflict :: "block_row \<Rightarrow> block_row \<Rightarrow> bool" where
  "block_conflict a b \<longleftrightarrow> b_block_hash a = b_block_hash b \<or>
     (b_is_canonical a \<and> b_is_canonical b \<and> b_height a = b_height b)"

definition draw_check :: "draw_row \<Rightarrow> bool" where
  "draw_check d \<longleftrightarrow> length (d_entries_root d) = 32 \<and> length (d_randomness_block_hash d) = 32 \<and>
     bigint (d_winning_ticket d) \<and> 0 \<le> d_winning_ticket d"

definition draw_conflict :: "draw_row \<Rightarrow> draw_row \<Rightarrow> bool" where
  "draw_conflict a b \<longleftrightarrow> d_id a = d_id b \<or> d_raffle_id a = d_raffle_id b"

definition payout_check :: "payout_row \<Rightarrow> bool" where
  "payout_check p \<longleftrightarrow> bigint (p_amount_sats p) \<and> 0 < p_amount_sats p"

definition payout_conflict :: "payout_row \<Rightarrow> payout_row \<Rightarrow> bool" where
  "payout_conflict a b \<longleftrightarrow> p_id a = p_id b \<or> p_idempotency_key a = p_idempotency_key b"

definition proof_check :: "proof_row \<Rightarrow> bool" where
  "proof_check p \<longleftrightarrow> length (pr_proof_hash p) = 32 \<and>
     ((pr_storage_uri p = None \<and> pr_storage_version_id p = None \<and> pr_storage_etag p = None \<and> pr_published_at p = None) \<or>
      (pr_storage_uri p \<noteq> None \<and> pr_storage_version_id p \<noteq> None \<and> pr_storage_etag p \<noteq> None \<and> pr_published_at p \<noteq> None))"

definition proof_conflict :: "proof_row \<Rightarrow> proof_row \<Rightarrow> bool" where
  "proof_conflict a b \<longleftrightarrow> pr_id a = pr_id b \<or>
     (pr_raffle_id a = pr_raffle_id b \<and> pr_protocol_version a = pr_protocol_version b)"

definition job_check :: "job_row \<Rightarrow> bool" where
  "job_check j \<longleftrightarrow> integer_col (j_attempts j) \<and> 0 \<le> j_attempts j \<and>
     integer_col (j_max_attempts j) \<and> 0 < j_max_attempts j"

definition job_conflict :: "job_row \<Rightarrow> job_row \<Rightarrow> bool" where
  "job_conflict a b \<longleftrightarrow> j_id a = j_id b \<or>
     (j_kind a = j_kind b \<and> j_deduplication_key a = j_deduplication_key b)"

definition outbox_check :: "outbox_row \<Rightarrow> bool" where
  "outbox_check x \<longleftrightarrow> integer_col (x_attempts x) \<and> 0 \<le> x_attempts x"

definition outbox_conflict :: "outbox_row \<Rightarrow> outbox_row \<Rightarrow> bool" where
  "outbox_conflict a b \<longleftrightarrow> x_id a = x_id b"

definition audit_conflict :: "audit_row \<Rightarrow> audit_row \<Rightarrow> bool" where
  "audit_conflict a b \<longleftrightarrow> a_id a = a_id b"

definition refund_conflict :: "refund_row \<Rightarrow> refund_row \<Rightarrow> bool" where
  "refund_conflict a b \<longleftrightarrow> f_id a = f_id b \<or> (f_invoice_id a = f_invoice_id b \<and> f_reason a = f_reason b)"

definition session_check :: "session_row \<Rightarrow> bool" where
  "session_check s \<longleftrightarrow> length (s_csrf_token_hash s) = 32"

definition session_conflict :: "session_row \<Rightarrow> session_row \<Rightarrow> bool" where
  "session_conflict a b \<longleftrightarrow> s_id a = s_id b"

definition login_conflict :: "login_row \<Rightarrow> login_row \<Rightarrow> bool" where
  "login_conflict a b \<longleftrightarrow> l_state a = l_state b"

abbreviation no_check :: "'r \<Rightarrow> bool" where
  "no_check \<equiv> \<lambda>_. True"

section \<open>Conversions\<close>

definition db_as_u64 :: "int \<Rightarrow> PersistenceError + u64" where
  "db_as_u64 v = (if v < 0 then Err IntegerOverflow else Ok (of_int v))"

definition db_as_i64 :: "u64 \<Rightarrow> PersistenceError + int" where
  "db_as_i64 v = (if uint v < 2 ^ 63 then Ok (uint v) else Err IntegerOverflow)"

definition hash_from_bytes :: "bytes \<Rightarrow> PersistenceError + Hash32" where
  "hash_from_bytes v = ok_or (try_hash v) InvalidHashLength"

text \<open>\<open>unix_timestamp_nanos().div_euclid(1_000_000) as i64\<close>.\<close>

definition unix_ms :: "timestamp \<Rightarrow> i64" where
  "unix_ms t = of_int (t div 1000000)"

text \<open>An optional hash column, with the zero hash for NULL.\<close>

definition head_or_zero :: "bytes option \<Rightarrow> PersistenceError + Hash32" where
  "head_or_zero v =
     bindR (transposeR (map_option hash_from_bytes v)) (\<lambda>h. Ok (case h of None \<Rightarrow> ZERO_HASH | Some h' \<Rightarrow> h'))"

definition ledger_entry_from_row :: "entry_row \<Rightarrow> PersistenceError + LedgerEntry" where
  "ledger_entry_from_row row =
     bindR (db_as_u64 (e_entry_index row)) (\<lambda>entry_index.
     bindR (hash_from_bytes (e_participant_public_id row)) (\<lambda>participant_public_id.
     bindR (hash_from_bytes (e_payment_reference_hash row)) (\<lambda>payment_reference_hash.
     bindR (db_as_u64 (e_amount_sats row)) (\<lambda>amount_sats.
     bindR (db_as_u64 (e_ticket_start row)) (\<lambda>ticket_start.
     bindR (db_as_u64 (e_ticket_end row)) (\<lambda>ticket_end.
     bindR (map_err Domain (TicketRange_new ticket_start ticket_end)) (\<lambda>ticket_range.
     bindR (hash_from_bytes (e_previous_entry_hash row)) (\<lambda>previous_entry_hash.
     bindR (hash_from_bytes (e_entry_hash row)) (\<lambda>entry_hash.
       Ok \<lparr>le_data =
             \<lparr>ed_raffle_id = e_raffle_id row, ed_entry_id = e_id row, ed_entry_index = entry_index,
              ed_participant_public_id = participant_public_id,
              ed_payment_reference_hash = payment_reference_hash,
              ed_amount_sats = Sats amount_sats, ed_ticket_range = ticket_range,
              ed_settled_at_unix_ms = unix_ms (e_settled_at row)\<rparr>,
           le_previous_entry_hash = previous_entry_hash, le_entry_hash = entry_hash\<rparr>)))))))))"

section \<open>Status text\<close>

fun status_text :: "RaffleStatus \<Rightarrow> string" where
  "status_text Draft = ''DRAFT''"
| "status_text Scheduled = ''SCHEDULED''"
| "status_text Open = ''OPEN''"
| "status_text Closing = ''CLOSING''"
| "status_text RandomnessPending = ''RANDOMNESS_PENDING''"
| "status_text DrawReady = ''DRAW_READY''"
| "status_text WinnerSelected = ''WINNER_SELECTED''"
| "status_text PayoutPending = ''PAYOUT_PENDING''"
| "status_text PaidOut = ''PAID_OUT''"
| "status_text Cancelled = ''CANCELLED''"
| "status_text Refunding = ''REFUNDING''"
| "status_text Refunded = ''REFUNDED''"

fun recipient_text :: "RecipientType \<Rightarrow> string" where
  "recipient_text RWinner = ''winner''"
| "recipient_text ROrganizer = ''organizer''"
| "recipient_text RPlatform = ''platform''"
| "recipient_text RRefund = ''refund''"

section \<open>Audit, outbox and jobs\<close>

definition write_audit ::
  "uuid \<Rightarrow> timestamp \<Rightarrow> uuid \<Rightarrow> string \<Rightarrow> json \<Rightarrow> db \<Rightarrow> PersistenceError + db" where
  "write_audit uid now aggregate_id event_type payload db =
     bindR (sql (sql_insert no_check audit_conflict True
        \<lparr>a_id = uid, a_aggregate_type = ''raffle'', a_aggregate_id = aggregate_id,
         a_event_type = event_type, a_actor_type = ''system'', a_payload = payload, a_created_at = now\<rparr>
        (audit_events db)))
       (\<lambda>t. Ok (db\<lparr>audit_events := t\<rparr>))"

definition write_outbox ::
  "uuid \<Rightarrow> timestamp \<Rightarrow> uuid \<Rightarrow> string \<Rightarrow> json \<Rightarrow> db \<Rightarrow> PersistenceError + db" where
  "write_outbox uid now aggregate_id event_type payload db =
     bindR (sql (sql_insert outbox_check outbox_conflict True
        \<lparr>x_id = uid, x_aggregate_type = ''raffle'', x_aggregate_id = aggregate_id,
         x_event_type = event_type, x_payload = payload, x_occurred_at = now,
         x_delivered_at = None, x_attempts = 0, x_lease_owner = None, x_lease_expires_at = None\<rparr>
        (outbox_events db)))
       (\<lambda>t. Ok (db\<lparr>outbox_events := t\<rparr>))"

text \<open>
  The statement \<open>INSERT INTO jobs (id, kind, deduplication_key, payload) ... ON CONFLICT DO NOTHING\<close>
  that several operations send; the other columns take their defaults.
\<close>

definition default_job :: "uuid \<Rightarrow> timestamp \<Rightarrow> string \<Rightarrow> string \<Rightarrow> json \<Rightarrow> job_row" where
  "default_job uid now kind key payload =
     \<lparr>j_id = uid, j_kind = kind, j_deduplication_key = key, j_payload = payload, j_status = Queued,
      j_attempts = 0, j_max_attempts = 8, j_available_at = now, j_lease_owner = None,
      j_lease_expires_at = None, j_last_error = None, j_created_at = now, j_updated_at = now\<rparr>"

definition insert_job ::
  "uuid \<Rightarrow> timestamp \<Rightarrow> string \<Rightarrow> string \<Rightarrow> json \<Rightarrow> db \<Rightarrow> PersistenceError + db" where
  "insert_job uid now kind key payload db =
     bindR (sql (sql_insert_ignore job_check job_conflict (\<lambda>j. (j_kind j, j_deduplication_key j)) True
        (default_job uid now kind key payload) (jobs db)))
       (\<lambda>(t, _). Ok (db\<lparr>jobs := t\<rparr>))"

section \<open>The tables as interfaces\<close>

lemmas conflict_defs = organizer_conflict_def raffle_conflict_def split_conflict_def invoice_conflict_def
  webhook_conflict_def entry_conflict_def block_conflict_def draw_conflict_def payout_conflict_def
  proof_conflict_def job_conflict_def outbox_conflict_def audit_conflict_def refund_conflict_def
  session_conflict_def login_conflict_def same_some_def

lemma same_some_sym: "same_some a b \<Longrightarrow> same_some b a"
  by (auto simp: same_some_def)

interpretation organizers_tbl: sql_table no_check organizer_conflict
  by unfold_locales (auto simp: conflict_defs)
interpretation raffles_tbl: sql_table raffle_check raffle_conflict
  by unfold_locales (auto simp: conflict_defs)
interpretation splits_tbl: sql_table split_check split_conflict
  by unfold_locales (auto simp: conflict_defs)
interpretation invoices_tbl: sql_table invoice_check invoice_conflict
  by unfold_locales (auto simp: invoice_conflict_def dest: same_some_sym)
interpretation webhooks_tbl: sql_table webhook_check webhook_conflict
  by unfold_locales (auto simp: conflict_defs)
interpretation entries_tbl: sql_table entry_check entry_conflict
  by unfold_locales (auto simp: conflict_defs)
interpretation blocks_tbl: sql_table block_check block_conflict
  by unfold_locales (auto simp: conflict_defs)
interpretation draws_tbl: sql_table draw_check draw_conflict
  by unfold_locales (auto simp: conflict_defs)
interpretation payouts_tbl: sql_table payout_check payout_conflict
  by unfold_locales (auto simp: conflict_defs)
interpretation proofs_tbl: sql_table proof_check proof_conflict
  by unfold_locales (auto simp: conflict_defs)
interpretation jobs_tbl: sql_table job_check job_conflict
  by unfold_locales (auto simp: conflict_defs)
interpretation outbox_tbl: sql_table outbox_check outbox_conflict
  by unfold_locales (auto simp: conflict_defs)
interpretation audit_tbl: sql_table no_check audit_conflict
  by unfold_locales (auto simp: conflict_defs)
interpretation refunds_tbl: sql_table no_check refund_conflict
  by unfold_locales (auto simp: conflict_defs)
interpretation sessions_tbl: sql_table session_check session_conflict
  by unfold_locales (auto simp: conflict_defs)
interpretation logins_tbl: sql_table no_check login_conflict
  by unfold_locales (auto simp: conflict_defs)

section \<open>Lemmas on conversions\<close>

lemma db_as_u64_Ok [result_simps]: "db_as_u64 v = Ok w \<longleftrightarrow> 0 \<le> v \<and> w = of_int v"
  by (auto simp: db_as_u64_def)

lemma db_as_i64_Ok [result_simps]: "db_as_i64 w = Ok v \<longleftrightarrow> v = uint w \<and> v < 2 ^ 63"
  by (auto simp: db_as_i64_def)

lemma uint_of_int: "0 \<le> v \<Longrightarrow> bigint v \<Longrightarrow> uint (of_int v :: u64) = v"
  by (simp add: bigint_def uint_word_of_int)

lemma bigint_uint: "uint (w :: u64) < 2 ^ 63 \<Longrightarrow> bigint (uint w)"
  unfolding bigint_def by (rule conjI, rule order_trans [OF _ uint_ge_0]) simp_all

lemma hash_from_bytes_Ok [result_simps]: "hash_from_bytes v = Ok h \<longleftrightarrow> as_bytes h = v"
  by (simp add: hash_from_bytes_def ok_or_eq_Ok try_hash_eq_Some)

lemma hash_from_as_bytes [simp]: "hash_from_bytes (as_bytes h) = Ok h"
  by (simp add: hash_from_bytes_Ok)

lemma head_or_zero_simps [simp]:
  "head_or_zero None = Ok ZERO_HASH"
  "head_or_zero (Some (as_bytes h)) = Ok h"
  by (simp_all add: head_or_zero_def)

lemma ledger_entry_from_row_Ok:
  "ledger_entry_from_row row = Ok e \<longleftrightarrow>
     0 \<le> e_entry_index row \<and> 0 \<le> e_amount_sats row \<and> 0 \<le> e_ticket_start row \<and> 0 \<le> e_ticket_end row \<and>
     ed_raffle_id (le_data e) = e_raffle_id row \<and> ed_entry_id (le_data e) = e_id row \<and>
     ed_entry_index (le_data e) = of_int (e_entry_index row) \<and>
     as_bytes (ed_participant_public_id (le_data e)) = e_participant_public_id row \<and>
     as_bytes (ed_payment_reference_hash (le_data e)) = e_payment_reference_hash row \<and>
     ed_amount_sats (le_data e) = Sats (of_int (e_amount_sats row)) \<and>
     ed_ticket_range (le_data e) =
       \<lparr>tr_start = of_int (e_ticket_start row), tr_end = of_int (e_ticket_end row)\<rparr> \<and>
     range_is_valid (ed_ticket_range (le_data e)) \<and>
     ed_settled_at_unix_ms (le_data e) = unix_ms (e_settled_at row) \<and>
     as_bytes (le_previous_entry_hash e) = e_previous_entry_hash row \<and>
     as_bytes (le_entry_hash e) = e_entry_hash row" (is "_ \<longleftrightarrow> ?R")
proof
  assume "ledger_entry_from_row row = Ok e"
  then show ?R
    unfolding ledger_entry_from_row_def bindR_eq_Ok map_err_eq_Ok db_as_u64_Ok hash_from_bytes_Ok
      TicketRange_new_Ok
    by auto
next
  assume ?R
  moreover obtain d p h where "e = \<lparr>le_data = d, le_previous_entry_hash = p, le_entry_hash = h\<rparr>"
    by (cases e)
  moreover obtain a b c f g k l n where "d = \<lparr>ed_raffle_id = a, ed_entry_id = b, ed_entry_index = c,
      ed_participant_public_id = f, ed_payment_reference_hash = g, ed_amount_sats = k,
      ed_ticket_range = l, ed_settled_at_unix_ms = n\<rparr>"
    by (cases d)
  ultimately show "ledger_entry_from_row row = Ok e"
    by (auto simp: ledger_entry_from_row_def bindR_eq_Ok map_err_eq_Ok db_as_u64_Ok hash_from_bytes_Ok
        TicketRange_new_Ok)
qed

section \<open>Lemmas on the writers\<close>

lemma write_audit_Ok:
  assumes "write_audit uid now agg ev pl db = Ok db'"
  obtains t where "db' = db\<lparr>audit_events := t\<rparr>"
    and "table_ok no_check audit_conflict (audit_events db) \<Longrightarrow> table_ok no_check audit_conflict t"
    and "set (audit_events db) \<subseteq> set t"
proof -
  from assms obtain t r where t: "sql_insert no_check audit_conflict True r (audit_events db) = Ok t"
    and db': "db' = db\<lparr>audit_events := t\<rparr>"
    unfolding write_audit_def by (auto simp: bindR_eq_Ok map_err_eq_Ok)
  show thesis
    by (rule that [OF db']) (use t audit_tbl.insert_ok in \<open>auto simp: sql_insert_Ok\<close>)
qed

lemma write_outbox_Ok:
  assumes "write_outbox uid now agg ev pl db = Ok db'"
  obtains t where "db' = db\<lparr>outbox_events := t\<rparr>"
    and "table_ok outbox_check outbox_conflict (outbox_events db) \<Longrightarrow> table_ok outbox_check outbox_conflict t"
    and "set (outbox_events db) \<subseteq> set t"
proof -
  from assms obtain t r where t: "sql_insert outbox_check outbox_conflict True r (outbox_events db) = Ok t"
    and db': "db' = db\<lparr>outbox_events := t\<rparr>"
    unfolding write_outbox_def by (auto simp: bindR_eq_Ok map_err_eq_Ok)
  show thesis
    by (rule that [OF db']) (use t outbox_tbl.insert_ok in \<open>auto simp: sql_insert_Ok\<close>)
qed

lemma insert_job_Ok:
  assumes "insert_job uid now kind key pl db = Ok db'"
  obtains t where "db' = db\<lparr>jobs := t\<rparr>"
    and "table_ok job_check job_conflict (jobs db) \<Longrightarrow> table_ok job_check job_conflict t"
    and "set (jobs db) \<subseteq> set t"
    and "\<exists>j \<in> set t. j_kind j = kind \<and> j_deduplication_key j = key"
proof -
  from assms obtain t b where t: "sql_insert_ignore job_check job_conflict (\<lambda>j. (j_kind j, j_deduplication_key j)) True
        (default_job uid now kind key pl) (jobs db) = Ok (t, b)" and db': "db' = db\<lparr>jobs := t\<rparr>"
    by (auto simp: insert_job_def bindR_eq_Ok map_err_eq_Ok)
  show thesis
  proof (rule that [OF db'])
    show "table_ok job_check job_conflict (jobs db) \<Longrightarrow> table_ok job_check job_conflict t"
      using t by (rule jobs_tbl.insert_ignore_ok [rotated])
    show "set (jobs db) \<subseteq> set t"
      using t by (auto simp: sql_insert_ignore_Ok split: if_splits)
    show "\<exists>j \<in> set t. j_kind j = kind \<and> j_deduplication_key j = key"
      using t by (auto simp: sql_insert_ignore_Ok default_job_def split: if_splits)
  qed
qed

end
