(* ===== verification/Store_Raffles.thy ===== *)
theory Store_Raffles
  imports Schema
begin

text \<open>
  Raffle administration and public reads of \<open>crates/openpool-core/src/persistence_sqlx.rs\<close>:
  organizers, draft raffles with their payout splits, the organizer's status changes and edits, and
  the read operations behind the public pages, entry pagination included.
\<close>

section \<open>Administration\<close>

record NewOrganizer =
  no_id :: OrganizerId
  no_display_name :: string
  no_lightning_address_ciphertext :: bytes

text \<open>\<open>randomness_delay_blocks\<close> is an \<open>i32\<close>.\<close>

record NewDraftRaffle =
  nr_id :: RaffleId
  nr_organizer_id :: OrganizerId
  nr_name :: string
  nr_entry_price_sats :: Sats
  nr_start_time :: timestamp
  nr_end_time :: timestamp
  nr_randomness_delay_blocks :: int
  nr_payout_split :: PayoutSplit

definition create_organizer :: "NewOrganizer \<Rightarrow> db \<Rightarrow> PersistenceError + unit \<times> db" where
  "create_organizer organizer db =
     bindR (sql (sql_insert no_check organizer_conflict True
        \<lparr>o_id = no_id organizer, o_display_name = no_display_name organizer,
         o_lightning_address_ciphertext = no_lightning_address_ciphertext organizer,
         o_status = OrgActive\<rparr> (organizers db)))
       (\<lambda>t. Ok ((), db\<lparr>organizers := t\<rparr>))"

definition new_split_row :: "NewDraftRaffle \<Rightarrow> split_row" where
  "new_split_row raffle =
     \<lparr>sp_raffle_id = nr_id raffle,
      sp_winner_bps = uint (as_u16 (ps_winner (nr_payout_split raffle))),
      sp_organizer_bps = uint (as_u16 (ps_organizer (nr_payout_split raffle))),
      sp_platform_bps = uint (as_u16 (ps_platform (nr_payout_split raffle)))\<rparr>"

definition new_raffle_row :: "externals \<Rightarrow> timestamp \<Rightarrow> NewDraftRaffle \<Rightarrow> int \<Rightarrow> raffle_row" where
  "new_raffle_row x now raffle price =
     \<lparr>r_id = nr_id raffle, r_organizer_id = nr_organizer_id raffle, r_name = nr_name raffle,
      r_entry_price_sats = price, r_start_time = x_timestamptz x (nr_start_time raffle),
      r_end_time = x_timestamptz x (nr_end_time raffle), r_status = Draft,
      r_randomness_delay_blocks = nr_randomness_delay_blocks raffle,
      r_total_pool_sats = 0, r_total_tickets = 0, r_entry_chain_head = None, r_entries_root = None,
      r_frozen_at = None, r_created_at = now, r_updated_at = now,
      r_close_block_height = None, r_close_block_hash = None,
      r_randomness_block_height = None, r_randomness_block_hash = None\<rparr>"

definition create_draft_raffle ::
  "externals \<Rightarrow> (nat \<Rightarrow> uuid) \<Rightarrow> timestamp \<Rightarrow> NewDraftRaffle \<Rightarrow> db \<Rightarrow> PersistenceError + unit \<times> db" where
  "create_draft_raffle x ids now raffle db =
     bindR (db_as_i64 (as_u64 (nr_entry_price_sats raffle))) (\<lambda>price.
     bindR (sql (sql_insert raffle_check raffle_conflict
         (\<exists>o' \<in> set (organizers db). o_id o' = nr_organizer_id raffle)
         (new_raffle_row x now raffle price) (raffles db))) (\<lambda>rs.
     bindR (sql (sql_insert split_check split_conflict (\<exists>r \<in> set rs. r_id r = nr_id raffle)
         (new_split_row raffle) (payout_splits db))) (\<lambda>ss.
     bindR (write_audit (ids 0) now (nr_id raffle) ''raffle.created'' (JObj [(''status'', JStr ''DRAFT'')])
         (db\<lparr>raffles := rs, payout_splits := ss\<rparr>)) (\<lambda>db.
     bindR (write_outbox (ids 1) now (nr_id raffle) ''raffle.created''
         (JObj [(''raffle_id'', JStr (x_uuid_text x (nr_id raffle)))]) db) (\<lambda>db.
       Ok ((), db))))))"

definition organizer_exists :: "OrganizerId \<Rightarrow> db \<Rightarrow> bool" where
  "organizer_exists organizer_id db \<longleftrightarrow>
     (\<exists>o' \<in> set (organizers db). o_id o' = organizer_id \<and> o_status o' = OrgActive)"

definition transition_allowed :: "RaffleStatus \<Rightarrow> RaffleStatus \<Rightarrow> bool" where
  "transition_allowed old new \<longleftrightarrow>
     (old = Draft \<and> new = Scheduled) \<or> (old = Scheduled \<and> new = Open) \<or>
     (old \<in> {Draft, Scheduled, Open} \<and> new = Cancelled)"

text \<open>\<open>SET status = .., updated_at = now()\<close>.\<close>

definition set_status :: "timestamp \<Rightarrow> RaffleStatus \<Rightarrow> raffle_row \<Rightarrow> raffle_row" where
  "set_status now status r = r\<lparr>r_status := status, r_updated_at := now\<rparr>"

definition transition_raffle ::
  "externals \<Rightarrow> (nat \<Rightarrow> uuid) \<Rightarrow> timestamp \<Rightarrow> OrganizerId \<Rightarrow> RaffleId \<Rightarrow> RaffleStatus \<Rightarrow> db
     \<Rightarrow> PersistenceError + unit \<times> db" where
  "transition_raffle x ids now organizer_id raffle_id status db =
     bindR (sql (sql_update raffle_check raffle_conflict
         (\<lambda>r. r_id r = raffle_id \<and> r_organizer_id r = organizer_id \<and> transition_allowed (r_status r) status)
         (set_status now status) (raffles db))) (\<lambda>(rs, affected).
     if affected \<noteq> 1 then Err InvalidStatus
     else
     bindR (write_audit (ids 0) now raffle_id ''raffle.status_changed''
         (JObj [(''status'', JStr (status_text status)), (''actor_id'', JStr (x_uuid_text x organizer_id))])
         (db\<lparr>raffles := rs\<rparr>)) (\<lambda>db.
     bindR (write_outbox (ids 1) now raffle_id ''raffle.status_changed''
         (JObj [(''status'', JStr (status_text status))]) db) (\<lambda>db.
       Ok ((), db))))"

definition edit_row :: "externals \<Rightarrow> timestamp \<Rightarrow> NewDraftRaffle \<Rightarrow> int \<Rightarrow> raffle_row \<Rightarrow> raffle_row" where
  "edit_row x now raffle price r =
     r\<lparr>r_name := nr_name raffle, r_entry_price_sats := price,
       r_start_time := x_timestamptz x (nr_start_time raffle),
       r_end_time := x_timestamptz x (nr_end_time raffle),
       r_randomness_delay_blocks := nr_randomness_delay_blocks raffle, r_updated_at := now\<rparr>"

definition edit_split :: "PayoutSplit \<Rightarrow> split_row \<Rightarrow> split_row" where
  "edit_split split s =
     s\<lparr>sp_winner_bps := uint (as_u16 (ps_winner split)),
       sp_organizer_bps := uint (as_u16 (ps_organizer split)),
       sp_platform_bps := uint (as_u16 (ps_platform split))\<rparr>"

definition update_raffle ::
  "externals \<Rightarrow> (nat \<Rightarrow> uuid) \<Rightarrow> timestamp \<Rightarrow> OrganizerId \<Rightarrow> NewDraftRaffle \<Rightarrow> db
     \<Rightarrow> PersistenceError + unit \<times> db" where
  "update_raffle x ids now organizer_id raffle db =
     bindR (db_as_i64 (as_u64 (nr_entry_price_sats raffle))) (\<lambda>price.
     bindR (sql (sql_update raffle_check raffle_conflict
         (\<lambda>r. r_id r = nr_id raffle \<and> r_organizer_id r = organizer_id \<and> r_status r \<in> {Draft, Scheduled})
         (edit_row x now raffle price) (raffles db))) (\<lambda>(rs, affected).
     if affected \<noteq> 1 then Err InvalidStatus
     else
     bindR (sql (sql_update split_check split_conflict (\<lambda>s. sp_raffle_id s = nr_id raffle)
         (edit_split (nr_payout_split raffle)) (payout_splits db))) (\<lambda>(ss, _).
     bindR (write_audit (ids 0) now (nr_id raffle) ''raffle.updated''
         (JObj [(''actor_id'', JStr (x_uuid_text x organizer_id))])
         (db\<lparr>raffles := rs, payout_splits := ss\<rparr>)) (\<lambda>db.
       Ok ((), db)))))"

section \<open>Public reads\<close>

record PublicRaffle =
  pur_id :: RaffleId
  pur_name :: string
  pur_entry_price_sats :: Sats
  pur_start_time :: timestamp
  pur_end_time :: timestamp
  pur_status :: RaffleStatus
  pur_total_pool_sats :: Sats
  pur_total_tickets :: u64
  pur_winner_bps :: int
  pur_organizer_bps :: int
  pur_platform_bps :: int

definition public_raffle_from_row :: "raffle_row \<times> split_row \<Rightarrow> PersistenceError + PublicRaffle" where
  "public_raffle_from_row row =
     (case row of (r, s) \<Rightarrow>
       bindR (db_as_u64 (r_entry_price_sats r)) (\<lambda>price.
       bindR (db_as_u64 (r_total_pool_sats r)) (\<lambda>pool.
       bindR (db_as_u64 (r_total_tickets r)) (\<lambda>tickets.
         Ok \<lparr>pur_id = r_id r, pur_name = r_name r, pur_entry_price_sats = Sats price,
             pur_start_time = r_start_time r, pur_end_time = r_end_time r, pur_status = r_status r,
             pur_total_pool_sats = Sats pool, pur_total_tickets = tickets,
             pur_winner_bps = sp_winner_bps s, pur_organizer_bps = sp_organizer_bps s,
             pur_platform_bps = sp_platform_bps s\<rparr>))))"

text \<open>\<open>raffles JOIN payout_splits ON payout_splits.raffle_id = raffles.id\<close>.\<close>

definition raffles_with_splits :: "db \<Rightarrow> (raffle_row \<times> split_row) list" where
  "raffles_with_splits db =
     [(r, s). r \<leftarrow> raffles db, s \<leftarrow> payout_splits db, sp_raffle_id s = r_id r]"

text \<open>\<open>ORDER BY created_at DESC\<close>.\<close>

definition newest_first :: "(raffle_row \<times> split_row) list \<Rightarrow> (raffle_row \<times> split_row) list" where
  "newest_first = sort_key (\<lambda>(r, s). - r_created_at r)"

definition list_public_raffles :: "db \<Rightarrow> PersistenceError + PublicRaffle list" where
  "list_public_raffles db = collectR public_raffle_from_row (newest_first (raffles_with_splits db))"

definition public_raffle :: "RaffleId \<Rightarrow> db \<Rightarrow> PersistenceError + PublicRaffle" where
  "public_raffle raffle_id db =
     bindR (ok_or (fetch_optional (\<lambda>(r, s). r_id r = raffle_id) (raffles_with_splits db)) (NotFound ''raffle''))
       public_raffle_from_row"

definition organizer_raffles :: "OrganizerId \<Rightarrow> db \<Rightarrow> PersistenceError + PublicRaffle list" where
  "organizer_raffles organizer_id db =
     collectR public_raffle_from_row
       (newest_first (filter (\<lambda>(r, s). r_organizer_id r = organizer_id) (raffles_with_splits db)))"

text \<open>
  The conversion to the wire type; \<open>try_into().expect(..)\<close> panics on a basis-point value that does
  not fit \<open>u16\<close>.
\<close>

definition bps_try_into :: "int \<Rightarrow> PersistenceError + u16" where
  "bps_try_into v =
     (if 0 \<le> v \<and> v < 2 ^ 16 then Ok (of_int v)
      else Err (Panicked ''database payout split is validated''))"

record WireRaffle =
  wr_id :: uuid
  wr_name :: string
  wr_entry_price_sats :: u64
  wr_start_time :: timestamp
  wr_end_time :: timestamp
  wr_status :: RaffleStatus
  wr_total_pool_sats :: u64
  wr_total_tickets :: u64
  wr_winner_bps :: u16
  wr_organizer_bps :: u16
  wr_platform_bps :: u16

definition wire_raffle :: "PublicRaffle \<Rightarrow> PersistenceError + WireRaffle" where
  "wire_raffle value =
     bindR (bps_try_into (pur_winner_bps value)) (\<lambda>winner_bps.
     bindR (bps_try_into (pur_organizer_bps value)) (\<lambda>organizer_bps.
     bindR (bps_try_into (pur_platform_bps value)) (\<lambda>platform_bps.
       Ok \<lparr>wr_id = pur_id value, wr_name = pur_name value,
           wr_entry_price_sats = as_u64 (pur_entry_price_sats value),
           wr_start_time = pur_start_time value, wr_end_time = pur_end_time value,
           wr_status = pur_status value, wr_total_pool_sats = as_u64 (pur_total_pool_sats value),
           wr_total_tickets = pur_total_tickets value, wr_winner_bps = winner_bps,
           wr_organizer_bps = organizer_bps, wr_platform_bps = platform_bps\<rparr>)))"

record PublicPool =
  pp_pool_raffle_id :: RaffleId
  pp_pool_total_pool_sats :: u64
  pp_pool_total_tickets :: u64
  pp_pool_entry_chain_head :: "string option"

definition public_pool :: "externals \<Rightarrow> RaffleId \<Rightarrow> db \<Rightarrow> PersistenceError + PublicPool" where
  "public_pool x raffle_id db =
     bindR (ok_or (fetch_optional (\<lambda>r. r_id r = raffle_id) (raffles db)) (NotFound ''raffle'')) (\<lambda>row.
     bindR (db_as_u64 (r_total_pool_sats row)) (\<lambda>pool.
     bindR (db_as_u64 (r_total_tickets row)) (\<lambda>tickets.
       Ok \<lparr>pp_pool_raffle_id = raffle_id, pp_pool_total_pool_sats = pool, pp_pool_total_tickets = tickets,
           pp_pool_entry_chain_head = map_option (x_hex_encode x) (r_entry_chain_head row)\<rparr>)))"

record PublicEntry =
  pe_entry_index :: u64
  pe_participant_public_id :: string
  pe_payment_reference_hash :: string
  pe_amount_sats :: u64
  pe_ticket_start :: u64
  pe_ticket_end :: u64
  pe_settled_at :: timestamp
  pe_entry_hash :: string

record EntryPage =
  ep_entries :: "PublicEntry list"
  ep_next_cursor :: "u64 option"

definition public_entry_from_row :: "externals \<Rightarrow> entry_row \<Rightarrow> PersistenceError + PublicEntry" where
  "public_entry_from_row x row =
     bindR (db_as_u64 (e_entry_index row)) (\<lambda>entry_index.
     bindR (db_as_u64 (e_amount_sats row)) (\<lambda>amount_sats.
     bindR (db_as_u64 (e_ticket_start row)) (\<lambda>ticket_start.
     bindR (db_as_u64 (e_ticket_end row)) (\<lambda>ticket_end.
       Ok \<lparr>pe_entry_index = entry_index,
           pe_participant_public_id = x_hex_encode x (e_participant_public_id row),
           pe_payment_reference_hash = x_hex_encode x (e_payment_reference_hash row),
           pe_amount_sats = amount_sats, pe_ticket_start = ticket_start, pe_ticket_end = ticket_end,
           pe_settled_at = e_settled_at row, pe_entry_hash = x_hex_encode x (e_entry_hash row)\<rparr>))))"

text \<open>\<open>SELECT ... FROM entries WHERE raffle_id = $1 ORDER BY entry_index\<close>.\<close>

definition entry_rows :: "RaffleId \<Rightarrow> db \<Rightarrow> entry_row list" where
  "entry_rows raffle_id db = sort_key e_entry_index (filter (\<lambda>e. e_raffle_id e = raffle_id) (entries db))"

text \<open>\<open>limit + 1\<close> is unchecked \<open>u32\<close> arithmetic: it wraps to zero at \<open>u32::MAX\<close>.\<close>

definition public_entries :: "externals \<Rightarrow> RaffleId \<Rightarrow> u64 \<Rightarrow> u32 \<Rightarrow> db \<Rightarrow> PersistenceError + EntryPage" where
  "public_entries x raffle_id cursor limit db =
     bindR (db_as_i64 cursor) (\<lambda>from.
       let rows = take (unat (limit + 1)) (filter (\<lambda>e. e_entry_index e \<ge> from) (entry_rows raffle_id db));
           has_more = length rows > unat limit
       in bindR (collectR (public_entry_from_row x) (take (unat limit) rows)) (\<lambda>es.
            Ok \<lparr>ep_entries = es,
                ep_next_cursor = (if has_more then Some (cursor + ucast limit) else None)\<rparr>))"

section \<open>Lemmas\<close>

lemma create_organizer_Ok:
  assumes "create_organizer organizer db = Ok (u, db')"
  obtains o' where "db' = db\<lparr>organizers := organizers db @ [o']\<rparr>" and "o_id o' = no_id organizer"
  using assms unfolding create_organizer_def
  by (auto simp: bindR_eq_Ok map_err_eq_Ok sql_insert_Ok)

lemma create_draft_raffle_Ok:
  assumes "create_draft_raffle x ids now raffle db = Ok (u, db')"
  obtains price t ob where
    "db' = db\<lparr>raffles := raffles db @ [new_raffle_row x now raffle price],
              payout_splits := payout_splits db @ [new_split_row raffle],
              audit_events := t, outbox_events := ob\<rparr>"
    and "raffle_check (new_raffle_row x now raffle price)" and "split_check (new_split_row raffle)"
    and "\<forall>r \<in> set (raffles db). r_id r \<noteq> nr_id raffle"
    and "\<forall>s \<in> set (payout_splits db). sp_raffle_id s \<noteq> nr_id raffle"
    and "price = uint (as_u64 (nr_entry_price_sats raffle))"
  using assms unfolding create_draft_raffle_def
  by (auto simp: bindR_eq_Ok map_err_eq_Ok sql_insert_Ok db_as_i64_Ok raffle_conflict_def split_conflict_def
      new_raffle_row_def new_split_row_def elim!: write_audit_Ok write_outbox_Ok)

lemma transition_raffle_Ok:
  assumes "transition_raffle x ids now oid rid st db = Ok (u, db')"
  obtains t ob where
    "db' = db\<lparr>raffles := set_where (\<lambda>r. r_id r = rid \<and> r_organizer_id r = oid \<and> transition_allowed (r_status r) st)
                (set_status now st) (raffles db),
              audit_events := t, outbox_events := ob\<rparr>"
    and "length (filter (\<lambda>r. r_id r = rid \<and> r_organizer_id r = oid \<and> transition_allowed (r_status r) st)
           (raffles db)) = 1"
  using assms unfolding transition_raffle_def
  by (auto simp: bindR_eq_Ok map_err_eq_Ok sql_update_Ok split: if_splits
      elim!: write_audit_Ok write_outbox_Ok)

lemma update_raffle_Ok:
  assumes "update_raffle x ids now oid raffle db = Ok (u, db')"
  obtains price t where
    "db' = db\<lparr>raffles := set_where
                (\<lambda>r. r_id r = nr_id raffle \<and> r_organizer_id r = oid \<and> r_status r \<in> {Draft, Scheduled})
                (edit_row x now raffle price) (raffles db),
              payout_splits := set_where (\<lambda>s. sp_raffle_id s = nr_id raffle)
                (edit_split (nr_payout_split raffle)) (payout_splits db),
              audit_events := t\<rparr>"
  using assms unfolding update_raffle_def
  by (auto simp: bindR_eq_Ok map_err_eq_Ok sql_update_Ok split: if_splits elim!: write_audit_Ok)

end
