(* ===== verification/Store_Invoices.thy ===== *)
theory Store_Invoices
  imports Store_Raffles
begin

text \<open>
  Invoices and refund records of \<open>crates/openpool-core/src/persistence_sqlx.rs\<close>: the collection
  invoice written before the provider is called, the provider's answer, the terminal outcomes, the
  public view, the verified webhook receipt with its reconciliation job, and refund eligibility.
\<close>

section \<open>Creating invoices\<close>

record NewInvoice =
  ni_id :: InvoiceId
  ni_raffle_id :: RaffleId
  ni_participant_public_id :: Hash32
  ni_payment_reference_hash :: Hash32
  ni_amount_sats :: Sats
  ni_ticket_count :: u64

record NewCollectionInvoice =
  nc_id :: InvoiceId
  nc_raffle_id :: RaffleId
  nc_participant_public_id :: Hash32
  nc_payment_reference_hash :: Hash32
  nc_payout_address_ciphertext :: bytes
  nc_ticket_count :: u64
  nc_requested_at :: timestamp
  nc_expires_at :: timestamp

record PendingCollectionInvoice =
  pc_id :: InvoiceId
  pc_amount_sats :: Sats
  pc_expires_at :: timestamp

definition create_pending_invoice :: "timestamp \<Rightarrow> NewInvoice \<Rightarrow> db \<Rightarrow> PersistenceError + unit \<times> db" where
  "create_pending_invoice now invoice db =
     bindR (db_as_i64 (as_u64 (ni_amount_sats invoice))) (\<lambda>amount.
     bindR (db_as_i64 (ni_ticket_count invoice)) (\<lambda>count.
     bindR (sql (sql_insert invoice_check invoice_conflict (\<exists>r \<in> set (raffles db). r_id r = ni_raffle_id invoice)
         \<lparr>i_id = ni_id invoice, i_raffle_id = ni_raffle_id invoice,
          i_participant_public_id = as_bytes (ni_participant_public_id invoice),
          i_payment_reference_hash = as_bytes (ni_payment_reference_hash invoice),
          i_amount_sats = amount, i_ticket_count = count, i_status = InvPending, i_settled_at = None,
          i_created_at = now, i_payout_address_ciphertext = None, i_bolt11 = None,
          i_provider_quote_id = None, i_provider_payment_hash = None, i_expires_at = None\<rparr>
         (invoices db))) (\<lambda>t.
       Ok ((), db\<lparr>invoices := t\<rparr>))))"

definition create_collection_invoice ::
  "externals \<Rightarrow> (nat \<Rightarrow> uuid) \<Rightarrow> timestamp \<Rightarrow> NewCollectionInvoice \<Rightarrow> db
     \<Rightarrow> PersistenceError + PendingCollectionInvoice \<times> db" where
  "create_collection_invoice x ids now invoice db =
     bindR (ok_or (fetch_optional (\<lambda>r. r_id r = nc_raffle_id invoice) (raffles db)) (NotFound ''raffle'')) (\<lambda>raffle.
     if r_status raffle \<noteq> Open then Err RaffleNotOpen
     else if r_end_time raffle \<le> nc_requested_at invoice then Err RaffleClosed
     else if nc_ticket_count invoice = 0 then Err InvalidTicketCount
     else let expires_at = min (nc_expires_at invoice) (r_end_time raffle) in
     bindR (db_as_u64 (r_entry_price_sats raffle)) (\<lambda>price.
     bindR (ok_or (checked_mul price (nc_ticket_count invoice)) IntegerOverflow) (\<lambda>amount_sats.
     bindR (db_as_i64 amount_sats) (\<lambda>amount.
     bindR (db_as_i64 (nc_ticket_count invoice)) (\<lambda>count.
     bindR (sql (sql_insert invoice_check invoice_conflict (\<exists>r \<in> set (raffles db). r_id r = nc_raffle_id invoice)
         \<lparr>i_id = nc_id invoice, i_raffle_id = nc_raffle_id invoice,
          i_participant_public_id = as_bytes (nc_participant_public_id invoice),
          i_payment_reference_hash = as_bytes (nc_payment_reference_hash invoice),
          i_amount_sats = amount, i_ticket_count = count, i_status = InvPending, i_settled_at = None,
          i_created_at = now, i_payout_address_ciphertext = Some (nc_payout_address_ciphertext invoice),
          i_bolt11 = None, i_provider_quote_id = None, i_provider_payment_hash = None,
          i_expires_at = Some (x_timestamptz x expires_at)\<rparr>
         (invoices db))) (\<lambda>t.
     bindR (write_audit (ids 0) now (nc_raffle_id invoice) ''invoice.collection_requested''
         (JObj [(''invoice_id'', JStr (x_uuid_text x (nc_id invoice))), (''amount_sats'', JNum (uint amount_sats))])
         (db\<lparr>invoices := t\<rparr>)) (\<lambda>db.
       Ok (\<lparr>pc_id = nc_id invoice, pc_amount_sats = Sats amount_sats, pc_expires_at = expires_at\<rparr>, db))))))))"

section \<open>The provider's answer\<close>

definition store_collection_invoice ::
  "externals \<Rightarrow> InvoiceId \<Rightarrow> string \<Rightarrow> string \<Rightarrow> string \<Rightarrow> timestamp \<Rightarrow> db \<Rightarrow> PersistenceError + unit \<times> db" where
  "store_collection_invoice x invoice_id provider_quote_id provider_payment_hash bolt11 expires_at db =
     bindR (sql (sql_update invoice_check invoice_conflict
         (\<lambda>i. i_id i = invoice_id \<and> i_status i = InvPending \<and> i_bolt11 i = None)
         (\<lambda>i. i\<lparr>i_provider_quote_id := Some provider_quote_id,
                i_provider_payment_hash := Some provider_payment_hash,
                i_bolt11 := Some bolt11, i_expires_at := Some (x_timestamptz x expires_at)\<rparr>)
         (invoices db))) (\<lambda>(t, affected).
     if affected \<noteq> 1 then Err InvoiceNotEligible else Ok ((), db\<lparr>invoices := t\<rparr>))"

definition fail_collection_invoice :: "InvoiceId \<Rightarrow> db \<Rightarrow> PersistenceError + unit \<times> db" where
  "fail_collection_invoice invoice_id db =
     bindR (sql (sql_update invoice_check invoice_conflict
         (\<lambda>i. i_id i = invoice_id \<and> i_status i = InvPending \<and> i_bolt11 i = None)
         (\<lambda>i. i\<lparr>i_status := InvCollectionFailed\<rparr>) (invoices db))) (\<lambda>(t, _).
     Ok ((), db\<lparr>invoices := t\<rparr>))"

definition mark_collection_uncollectible :: "InvoiceId \<Rightarrow> db \<Rightarrow> PersistenceError + unit \<times> db" where
  "mark_collection_uncollectible invoice_id db =
     bindR (sql (sql_update invoice_check invoice_conflict
         (\<lambda>i. i_id i = invoice_id \<and> i_status i = InvPending)
         (\<lambda>i. i\<lparr>i_status := InvCollectionFailed\<rparr>) (invoices db))) (\<lambda>(t, _).
     Ok ((), db\<lparr>invoices := t\<rparr>))"

section \<open>Reads\<close>

record PublicInvoice =
  pi_id :: InvoiceId
  pi_amount_sats :: Sats
  pi_ticket_count :: u64
  pi_status :: InvoiceStatus
  pi_bolt11 :: "string option"
  pi_expires_at :: "timestamp option"
  pi_ticket_start :: "u64 option"
  pi_ticket_end :: "u64 option"

text \<open>\<open>invoices i LEFT JOIN entries e ON e.invoice_id = i.id\<close>, restricted to one invoice.\<close>

definition public_invoice :: "InvoiceId \<Rightarrow> db \<Rightarrow> PersistenceError + PublicInvoice" where
  "public_invoice invoice_id db =
     bindR (ok_or (fetch_optional (\<lambda>i. i_id i = invoice_id) (invoices db)) (NotFound ''invoice'')) (\<lambda>row.
     let entry = fetch_optional (\<lambda>e. e_invoice_id e = i_id row) (entries db) in
     bindR (db_as_u64 (i_amount_sats row)) (\<lambda>amount.
     bindR (db_as_u64 (i_ticket_count row)) (\<lambda>count.
     bindR (transposeR (map_option (\<lambda>e. db_as_u64 (e_ticket_start e)) entry)) (\<lambda>ticket_start.
     bindR (transposeR (map_option (\<lambda>e. db_as_u64 (e_ticket_end e)) entry)) (\<lambda>ticket_end.
       Ok \<lparr>pi_id = i_id row, pi_amount_sats = Sats amount, pi_ticket_count = count,
           pi_status = i_status row, pi_bolt11 = i_bolt11 row, pi_expires_at = i_expires_at row,
           pi_ticket_start = ticket_start, pi_ticket_end = ticket_end\<rparr>)))))"

record WireInvoice =
  wi_id :: uuid
  wi_amount_sats :: u64
  wi_ticket_count :: u64
  wi_status :: InvoiceStatus
  wi_bolt11 :: "string option"
  wi_expires_at :: "timestamp option"
  wi_ticket_start :: "u64 option"
  wi_ticket_end :: "u64 option"

definition wire_invoice :: "PublicInvoice \<Rightarrow> WireInvoice" where
  "wire_invoice value =
     \<lparr>wi_id = pi_id value, wi_amount_sats = as_u64 (pi_amount_sats value), wi_ticket_count = pi_ticket_count value,
      wi_status = pi_status value, wi_bolt11 = pi_bolt11 value, wi_expires_at = pi_expires_at value,
      wi_ticket_start = pi_ticket_start value, wi_ticket_end = pi_ticket_end value\<rparr>"

definition collection_payment_reference :: "InvoiceId \<Rightarrow> db \<Rightarrow> PersistenceError + string option" where
  "collection_payment_reference invoice_id db =
     bindR (ok_or (fetch_optional (\<lambda>i. i_id i = invoice_id) (invoices db)) (NotFound ''invoice'')) (\<lambda>row.
     if i_status row \<noteq> InvPending then Ok None else Ok (i_provider_payment_hash row))"

definition pending_invoices :: "RaffleId \<Rightarrow> db \<Rightarrow> nat" where
  "pending_invoices raffle_id db =
     length (filter (\<lambda>i. i_raffle_id i = raffle_id \<and> i_status i = InvPending) (invoices db))"

section \<open>Webhooks\<close>

record NewWebhookEvent =
  nw_provider_name :: string
  nw_provider_event_id :: string
  nw_invoice_id :: InvoiceId
  nw_payload_hash :: Hash32
  nw_raw_payload :: json

definition record_webhook_and_enqueue ::
  "externals \<Rightarrow> (nat \<Rightarrow> uuid) \<Rightarrow> timestamp \<Rightarrow> NewWebhookEvent \<Rightarrow> db \<Rightarrow> PersistenceError + bool \<times> db" where
  "record_webhook_and_enqueue x ids now event db =
     bindR (sql (sql_insert_ignore webhook_check webhook_conflict
         (\<lambda>w. (w_provider_name w, w_provider_event_id w)) True
         \<lparr>w_id = ids 0, w_provider_name = nw_provider_name event,
          w_provider_event_id = nw_provider_event_id event,
          w_payload_hash = as_bytes (nw_payload_hash event), w_raw_payload = nw_raw_payload event,
          w_signature_valid = True, w_received_at = now\<rparr>
         (webhook_events db))) (\<lambda>(ws, inserted).
     if inserted then
       bindR (insert_job (ids 1) now ''payment.reconcile''
           (nw_provider_name event @ '':'' @ nw_provider_event_id event)
           (JObj [(''provider'', JStr (nw_provider_name event)), (''event_id'', JStr (nw_provider_event_id event)),
                  (''invoice_id'', JStr (x_uuid_text x (nw_invoice_id event)))])
           (db\<lparr>webhook_events := ws\<rparr>)) (\<lambda>db. Ok (True, db))
     else Ok (False, db\<lparr>webhook_events := ws\<rparr>))"

section \<open>Refunds\<close>

definition new_refund :: "uuid \<Rightarrow> timestamp \<Rightarrow> RaffleId \<Rightarrow> InvoiceId \<Rightarrow> RefundReason \<Rightarrow> refund_row" where
  "new_refund uid now raffle_id invoice_id reason =
     \<lparr>f_id = uid, f_raffle_id = raffle_id, f_invoice_id = invoice_id, f_reason = reason,
      f_status = AwaitingInvoice, f_created_at = now\<rparr>"

definition insert_refund ::
  "uuid \<Rightarrow> timestamp \<Rightarrow> RaffleId \<Rightarrow> InvoiceId \<Rightarrow> RefundReason \<Rightarrow> db \<Rightarrow> PersistenceError + refund_row list \<times> bool" where
  "insert_refund uid now raffle_id invoice_id reason db =
     sql (sql_insert_ignore no_check refund_conflict (\<lambda>f. (f_invoice_id f, f_reason f))
       ((\<exists>r \<in> set (raffles db). r_id r = raffle_id) \<and> (\<exists>i \<in> set (invoices db). i_id i = invoice_id))
       (new_refund uid now raffle_id invoice_id reason) (refunds db))"

definition create_refund_eligibility ::
  "(nat \<Rightarrow> uuid) \<Rightarrow> timestamp \<Rightarrow> RaffleId \<Rightarrow> InvoiceId \<Rightarrow> RefundReason \<Rightarrow> db \<Rightarrow> PersistenceError + uuid \<times> db" where
  "create_refund_eligibility ids now raffle_id invoice_id reason db =
     bindR (insert_refund (ids 0) now raffle_id invoice_id reason db) (\<lambda>(t, inserted).
     if inserted then Ok (ids 0, db\<lparr>refunds := t\<rparr>)
     else bindR (sql (fetch_one (\<lambda>f. f_invoice_id f = invoice_id \<and> f_reason f = reason) t)) (\<lambda>f.
       Ok (f_id f, db\<lparr>refunds := t\<rparr>)))"

definition mark_late_settlement_for_refund ::
  "externals \<Rightarrow> (nat \<Rightarrow> uuid) \<Rightarrow> timestamp \<Rightarrow> InvoiceId \<Rightarrow> db \<Rightarrow> PersistenceError + uuid \<times> db" where
  "mark_late_settlement_for_refund x ids now invoice_id db =
     bindR (ok_or (fetch_optional (\<lambda>i. i_id i = invoice_id) (invoices db)) (NotFound ''invoice'')) (\<lambda>invoice.
     bindR (if i_status invoice = InvPending
            then sql (sql_update invoice_check invoice_conflict (\<lambda>i. i_id i = invoice_id)
                   (\<lambda>i. i\<lparr>i_status := InvIneligible\<rparr>) (invoices db))
            else Ok (invoices db, 0)) (\<lambda>(is, _).
     bindR (insert_refund (ids 0) now (i_raffle_id invoice) invoice_id LateSettlement db) (\<lambda>(t, _).
     bindR (sql (fetch_one (\<lambda>f. f_invoice_id f = invoice_id \<and> f_reason f = LateSettlement) t)) (\<lambda>f.
     bindR (write_audit (ids 1) now (i_raffle_id invoice) ''invoice.late_settlement''
         (JObj [(''invoice_id'', JStr (x_uuid_text x invoice_id)), (''refund_id'', JStr (x_uuid_text x (f_id f)))])
         (db\<lparr>invoices := is, refunds := t\<rparr>)) (\<lambda>db.
       Ok (f_id f, db))))))"

record PublicRefund =
  prf_id :: uuid
  prf_status :: RefundStatus
  prf_reason :: RefundReason

definition public_refund :: "uuid \<Rightarrow> db \<Rightarrow> PersistenceError + PublicRefund" where
  "public_refund refund_id db =
     bindR (ok_or (fetch_optional (\<lambda>f. f_id f = refund_id) (refunds db)) (NotFound ''refund'')) (\<lambda>row.
       Ok \<lparr>prf_id = f_id row, prf_status = f_status row, prf_reason = f_reason row\<rparr>)"

end
