(* ===== verification/Store_Settlement.thy ===== *)
theory Store_Settlement
  imports Store_Invoices
begin

text \<open>
  Settlement and freezing in \<open>crates/openpool-core/src/persistence_sqlx.rs\<close>: the transaction that turns
  a settled invoice into the next ledger entry and moves the raffle's totals and chain head with it,
  the scheduling of due closes, and the freeze that fixes the entries root.
\<close>

section \<open>Appending an entry\<close>

text \<open>The row written for an entry. \<open>$10\<close> binds the settlement time itself.\<close>

definition entry_row_of :: "externals \<Rightarrow> LedgerEntry \<Rightarrow> InvoiceId \<Rightarrow> timestamp \<Rightarrow> PersistenceError + entry_row" where
  "entry_row_of x entry invoice_id settled_at =
     (let data = le_data entry in
     bindR (db_as_i64 (ed_entry_index data)) (\<lambda>entry_index.
     bindR (db_as_i64 (as_u64 (ed_amount_sats data))) (\<lambda>amount_sats.
     bindR (db_as_i64 (tr_start (ed_ticket_range data))) (\<lambda>ticket_start.
     bindR (db_as_i64 (tr_end (ed_ticket_range data))) (\<lambda>ticket_end.
       Ok \<lparr>e_id = ed_entry_id data, e_raffle_id = ed_raffle_id data, e_invoice_id = invoice_id,
           e_entry_index = entry_index,
           e_participant_public_id = as_bytes (ed_participant_public_id data),
           e_payment_reference_hash = as_bytes (ed_payment_reference_hash data),
           e_amount_sats = amount_sats, e_ticket_start = ticket_start, e_ticket_end = ticket_end,
           e_settled_at = x_timestamptz x settled_at,
           e_previous_entry_hash = as_bytes (le_previous_entry_hash entry),
           e_entry_hash = as_bytes (le_entry_hash entry)\<rparr>)))))"

text \<open>The entry computed from the locked invoice and raffle rows.\<close>

definition next_entry ::
  "externals \<Rightarrow> invoice_row \<Rightarrow> raffle_row \<Rightarrow> nat \<Rightarrow> EntryId \<Rightarrow> timestamp \<Rightarrow> PersistenceError + LedgerEntry" where
  "next_entry x invoice raffle count entry_id settled_at =
     bindR (db_as_u64 (r_total_tickets raffle)) (\<lambda>ticket_start.
     bindR (db_as_u64 (i_ticket_count invoice)) (\<lambda>ticket_count.
     bindR (ok_or (checked_add ticket_start ticket_count) IntegerOverflow) (\<lambda>ticket_end.
     bindR (head_or_zero (r_entry_chain_head raffle)) (\<lambda>previous_hash.
     bindR (db_as_u64 (int count)) (\<lambda>entry_index.
     bindR (hash_from_bytes (i_participant_public_id invoice)) (\<lambda>participant_public_id.
     bindR (hash_from_bytes (i_payment_reference_hash invoice)) (\<lambda>payment_reference_hash.
     bindR (db_as_u64 (i_amount_sats invoice)) (\<lambda>amount_sats.
     bindR (map_err Domain (TicketRange_new ticket_start ticket_end)) (\<lambda>ticket_range.
       Ok (LedgerEntry_create (x_sha x)
         \<lparr>ed_raffle_id = i_raffle_id invoice, ed_entry_id = entry_id, ed_entry_index = entry_index,
          ed_participant_public_id = participant_public_id,
          ed_payment_reference_hash = payment_reference_hash,
          ed_amount_sats = Sats amount_sats, ed_ticket_range = ticket_range,
          ed_settled_at_unix_ms = unix_ms settled_at\<rparr> previous_hash))))))))))"

definition entry_count :: "RaffleId \<Rightarrow> db \<Rightarrow> nat" where
  "entry_count raffle_id db = length (filter (\<lambda>e. e_raffle_id e = raffle_id) (entries db))"

text \<open>The two \<open>UPDATE\<close> statements of the transaction.\<close>

definition mark_settled :: "externals \<Rightarrow> timestamp \<Rightarrow> invoice_row \<Rightarrow> invoice_row" where
  "mark_settled x settled_at i =
     i\<lparr>i_status := InvSettled, i_settled_at := Some (x_timestamptz x settled_at)\<rparr>"

definition credit_raffle :: "timestamp \<Rightarrow> int \<Rightarrow> int \<Rightarrow> Hash32 \<Rightarrow> raffle_row \<Rightarrow> raffle_row" where
  "credit_raffle now total_pool_sats total_tickets chain_head r =
     r\<lparr>r_total_pool_sats := total_pool_sats, r_total_tickets := total_tickets,
       r_entry_chain_head := Some (as_bytes chain_head), r_updated_at := now\<rparr>"

text \<open>The audit and outbox records of an appended entry.\<close>

definition announce_entry ::
  "externals \<Rightarrow> (nat \<Rightarrow> uuid) \<Rightarrow> timestamp \<Rightarrow> RaffleId \<Rightarrow> InvoiceId \<Rightarrow> EntryId \<Rightarrow> db \<Rightarrow> PersistenceError + db" where
  "announce_entry x ids now raffle_id invoice_id entry_id db =
     bindR (write_audit (ids 0) now raffle_id ''entry.appended''
         (JObj [(''entry_id'', JStr (x_uuid_text x entry_id)), (''invoice_id'', JStr (x_uuid_text x invoice_id))]) db) (\<lambda>db.
     write_outbox (ids 1) now raffle_id ''entry.appended''
         (JObj [(''entry_id'', JStr (x_uuid_text x entry_id))]) db)"

text \<open>The part of the transaction that writes the entry and the new totals.\<close>

definition append_entry ::
  "externals \<Rightarrow> (nat \<Rightarrow> uuid) \<Rightarrow> timestamp \<Rightarrow> invoice_row \<Rightarrow> raffle_row \<Rightarrow> EntryId \<Rightarrow> timestamp \<Rightarrow> db
     \<Rightarrow> PersistenceError + LedgerEntry \<times> db" where
  "append_entry x ids now invoice raffle entry_id settled_at db =
     (let invoice_id = i_id invoice; raffle_id = i_raffle_id invoice in
     bindR (next_entry x invoice raffle (entry_count raffle_id db) entry_id settled_at) (\<lambda>entry.
     bindR (entry_row_of x entry invoice_id settled_at) (\<lambda>row.
     bindR (sql (sql_insert entry_check entry_conflict
         ((\<exists>r \<in> set (raffles db). r_id r = raffle_id) \<and> (\<exists>i \<in> set (invoices db). i_id i = invoice_id))
         row (entries db))) (\<lambda>es.
     bindR (db_as_u64 (r_total_pool_sats raffle)) (\<lambda>pool.
     bindR (ok_or (checked_add pool (as_u64 (ed_amount_sats (le_data entry)))) IntegerOverflow) (\<lambda>new_pool.
     bindR (sql (sql_update invoice_check invoice_conflict (\<lambda>i. i_id i = invoice_id)
         (mark_settled x settled_at) (invoices db))) (\<lambda>(is, _).
     bindR (db_as_i64 new_pool) (\<lambda>total_pool_sats.
     bindR (db_as_i64 (tr_end (ed_ticket_range (le_data entry)))) (\<lambda>total_tickets.
     bindR (sql (sql_update raffle_check raffle_conflict (\<lambda>r. r_id r = raffle_id)
         (credit_raffle now total_pool_sats total_tickets (le_entry_hash entry)) (raffles db))) (\<lambda>(rs, _).
     bindR (announce_entry x ids now raffle_id invoice_id entry_id
         (db\<lparr>entries := es, invoices := is, raffles := rs\<rparr>)) (\<lambda>db.
       Ok (entry, db))))))))))))"

definition settle_invoice_and_append_entry ::
  "externals \<Rightarrow> (nat \<Rightarrow> uuid) \<Rightarrow> timestamp \<Rightarrow> InvoiceId \<Rightarrow> EntryId \<Rightarrow> timestamp \<Rightarrow> db
     \<Rightarrow> PersistenceError + LedgerEntry \<times> db" where
  "settle_invoice_and_append_entry x ids now invoice_id entry_id settled_at db =
     bindR (ok_or (fetch_optional (\<lambda>i. i_id i = invoice_id) (invoices db)) (NotFound ''invoice'')) (\<lambda>invoice.
     if i_status invoice = InvSettled then
       bindR (sql (fetch_one (\<lambda>e. e_invoice_id e = invoice_id) (entries db))) (\<lambda>row.
       bindR (ledger_entry_from_row row) (\<lambda>entry. Ok (entry, db)))
     else if i_status invoice \<noteq> InvPending then Err InvoiceNotEligible
     else
     bindR (ok_or (fetch_optional (\<lambda>r. r_id r = i_raffle_id invoice) (raffles db)) (NotFound ''raffle'')) (\<lambda>raffle.
     if r_status raffle \<noteq> Open then Err RaffleNotOpen
     else append_entry x ids now invoice raffle entry_id settled_at db))"

section \<open>Closing and freezing\<close>

definition schedule_one_close ::
  "externals \<Rightarrow> (nat \<Rightarrow> uuid) \<Rightarrow> timestamp \<Rightarrow> nat \<Rightarrow> RaffleId \<Rightarrow> db \<Rightarrow> PersistenceError + db" where
  "schedule_one_close x ids now k rid db =
     bindR (insert_job (ids (2 * k)) now ''raffle.close'' (x_uuid_text x rid)
         (JObj [(''raffle_id'', JStr (x_uuid_text x rid))]) db) (\<lambda>db.
       write_audit (ids (2 * k + 1)) now rid ''raffle.closing'' (JObj []) db)"

fun schedule_closes ::
  "externals \<Rightarrow> (nat \<Rightarrow> uuid) \<Rightarrow> timestamp \<Rightarrow> nat \<Rightarrow> RaffleId list \<Rightarrow> db \<Rightarrow> PersistenceError + db" where
  "schedule_closes x ids now k [] db = Ok db"
| "schedule_closes x ids now k (rid # rids) db =
     bindR (schedule_one_close x ids now k rid db) (\<lambda>db. schedule_closes x ids now (Suc k) rids db)"

definition close_due :: "timestamp \<Rightarrow> raffle_row \<Rightarrow> bool" where
  "close_due now r \<longleftrightarrow> r_status r = Open \<and> r_end_time r \<le> now"

definition schedule_due_closes ::
  "externals \<Rightarrow> (nat \<Rightarrow> uuid) \<Rightarrow> timestamp \<Rightarrow> db \<Rightarrow> PersistenceError + nat \<times> db" where
  "schedule_due_closes x ids now db =
     bindR (sql (sql_update raffle_check raffle_conflict (close_due now)
         (set_status now Closing) (raffles db))) (\<lambda>(rs, _).
     let rids = map r_id (filter (close_due now) (raffles db)) in
     bindR (schedule_closes x ids now 0 rids (db\<lparr>raffles := rs\<rparr>)) (\<lambda>db.
       Ok (length rids, db)))"

definition freeze_row :: "timestamp \<Rightarrow> RaffleStatus \<Rightarrow> Hash32 \<Rightarrow> raffle_row \<Rightarrow> raffle_row" where
  "freeze_row now status root r =
     r\<lparr>r_status := status, r_entries_root := Some (as_bytes root), r_frozen_at := Some now, r_updated_at := now\<rparr>"

text \<open>The audit and outbox records of a freeze, and the draw job unless the raffle is empty.\<close>

definition announce_freeze ::
  "externals \<Rightarrow> (nat \<Rightarrow> uuid) \<Rightarrow> timestamp \<Rightarrow> RaffleId \<Rightarrow> bool \<Rightarrow> Hash32 \<Rightarrow> u64 \<Rightarrow> db \<Rightarrow> PersistenceError + db" where
  "announce_freeze x ids now raffle_id is_empty root count db =
     (let event = (if is_empty then ''raffle.cancelled_empty'' else ''raffle.frozen'');
          payload = JObj [(''entries_root'', JStr (to_hex (x_hex_encode x) root)), (''entry_count'', JNum (uint count))] in
     bindR (write_audit (ids 0) now raffle_id event payload db) (\<lambda>db.
     bindR (write_outbox (ids 1) now raffle_id event payload db) (\<lambda>db.
       if is_empty then Ok db
       else insert_job (ids 2) now ''raffle.draw'' (x_uuid_text x raffle_id)
              (JObj [(''raffle_id'', JStr (x_uuid_text x raffle_id))]) db)))"

definition freeze_raffle ::
  "externals \<Rightarrow> (nat \<Rightarrow> uuid) \<Rightarrow> timestamp \<Rightarrow> RaffleId \<Rightarrow> db \<Rightarrow> PersistenceError + Hash32 \<times> db" where
  "freeze_raffle x ids now raffle_id db =
     bindR (sql (fetch_one (\<lambda>r. r_id r = raffle_id) (raffles db))) (\<lambda>row.
     if r_status row \<noteq> Closing then Err InvalidStatus
     else
     bindR (db_as_u64 (int (entry_count raffle_id db))) (\<lambda>count.
     bindR (head_or_zero (r_entry_chain_head row)) (\<lambda>chain_head.
     let root = entries_root (x_sha x) raffle_id count chain_head;
         is_empty = (r_total_tickets row = 0);
         status = (if is_empty then Cancelled else RandomnessPending) in
     bindR (sql (sql_update raffle_check raffle_conflict (\<lambda>r. r_id r = raffle_id)
         (freeze_row now status root) (raffles db))) (\<lambda>(rs, _).
     bindR (announce_freeze x ids now raffle_id is_empty root count (db\<lparr>raffles := rs\<rparr>)) (\<lambda>db.
       Ok (root, db))))))"

record FrozenDrawContext =
  fd_end_time :: timestamp
  fd_randomness_delay_blocks :: int

definition frozen_draw_context :: "RaffleId \<Rightarrow> db \<Rightarrow> PersistenceError + FrozenDrawContext" where
  "frozen_draw_context raffle_id db =
     bindR (ok_or (fetch_optional (\<lambda>r. r_id r = raffle_id \<and> r_status r = RandomnessPending) (raffles db))
         InvalidStatus) (\<lambda>row.
       Ok \<lparr>fd_end_time = r_end_time row, fd_randomness_delay_blocks = r_randomness_delay_blocks row\<rparr>)"

end
