(* ===== verification/Store_Draw.thy ===== *)
theory Store_Draw
  imports Store_Settlement
begin

text \<open>
  The draw transaction, the terminal proof and its publication record, and the public result, from
  \<open>crates/openpool-core/src/persistence_sqlx.rs\<close>.
\<close>

section \<open>Drawing\<close>

definition ledger_rows :: "RaffleId \<Rightarrow> db \<Rightarrow> PersistenceError + LedgerEntry list" where
  "ledger_rows raffle_id db = collectR ledger_entry_from_row (entry_rows raffle_id db)"

text \<open>\<open>BasisPoints::new(split.get::<i32, _>(..) as u16)\<close>.\<close>

definition load_bps :: "int \<Rightarrow> PersistenceError + BasisPoints" where
  "load_bps v = map_err Domain (BasisPoints_new (of_int v))"

definition load_split :: "RaffleId \<Rightarrow> db \<Rightarrow> PersistenceError + PayoutSplit" where
  "load_split raffle_id db =
     bindR (sql (fetch_one (\<lambda>s. sp_raffle_id s = raffle_id) (payout_splits db))) (\<lambda>split.
     bindR (load_bps (sp_winner_bps split)) (\<lambda>winner.
     bindR (load_bps (sp_organizer_bps split)) (\<lambda>organizer.
     bindR (load_bps (sp_platform_bps split)) (\<lambda>platform.
       map_err Domain (PayoutSplit_new winner organizer platform)))))"

definition payout_key :: "externals \<Rightarrow> RaffleId \<Rightarrow> RecipientType \<Rightarrow> string" where
  "payout_key x raffle_id recipient = ''openpool:'' @ x_uuid_text x raffle_id @ '':'' @ recipient_text recipient"

definition new_payout :: "externals \<Rightarrow> uuid \<Rightarrow> timestamp \<Rightarrow> RaffleId \<Rightarrow> RecipientType \<Rightarrow> int \<Rightarrow> payout_row" where
  "new_payout x uid now raffle_id recipient amount =
     \<lparr>p_id = uid, p_raffle_id = raffle_id, p_recipient_type = recipient,
      p_idempotency_key = payout_key x raffle_id recipient, p_amount_sats = amount, p_status = PayPending,
      p_provider_reference = None, p_failure_reason = None, p_created_at = now, p_settled_at = None,
      p_lease_owner = None, p_lease_expires_at = None\<rparr>"

text \<open>One turn of the loop over the three recipients.\<close>

definition insert_payout ::
  "externals \<Rightarrow> timestamp \<Rightarrow> RaffleId \<Rightarrow> uuid \<times> RecipientType \<times> Sats \<Rightarrow> db \<Rightarrow> PersistenceError + db" where
  "insert_payout x now raffle_id item db =
     (case item of (uid, recipient, amount) \<Rightarrow>
       if as_u64 amount > 0 then
         bindR (db_as_i64 (as_u64 amount)) (\<lambda>a.
         bindR (sql (sql_insert_ignore payout_check payout_conflict p_idempotency_key
             (\<exists>r \<in> set (raffles db). r_id r = raffle_id)
             (new_payout x uid now raffle_id recipient a) (payouts db))) (\<lambda>(t, _).
           Ok (db\<lparr>payouts := t\<rparr>)))
       else Ok db)"

fun insert_payouts ::
  "externals \<Rightarrow> timestamp \<Rightarrow> RaffleId \<Rightarrow> (uuid \<times> RecipientType \<times> Sats) list \<Rightarrow> db \<Rightarrow> PersistenceError + db" where
  "insert_payouts x now raffle_id [] db = Ok db"
| "insert_payouts x now raffle_id (item # items) db =
     bindR (insert_payout x now raffle_id item db) (\<lambda>db. insert_payouts x now raffle_id items db)"

definition drawn_row :: "timestamp \<Rightarrow> int \<Rightarrow> Hash32 \<Rightarrow> int \<Rightarrow> Hash32 \<Rightarrow> raffle_row \<Rightarrow> raffle_row" where
  "drawn_row now close_height close_hash randomness_height randomness_hash r =
     r\<lparr>r_status := PayoutPending, r_close_block_height := Some close_height,
       r_close_block_hash := Some (as_bytes close_hash), r_randomness_block_height := Some randomness_height,
       r_randomness_block_hash := Some (as_bytes randomness_hash), r_updated_at := now\<rparr>"

text \<open>
  What the transaction reads and computes: the root, the draw result and the amounts. The second part
  writes them.
\<close>

definition compute_draw ::
  "externals \<Rightarrow> RaffleId \<Rightarrow> u64 \<Rightarrow> u64 \<Rightarrow> Hash32 \<Rightarrow> raffle_row \<Rightarrow> db
     \<Rightarrow> PersistenceError + Hash32 \<times> DrawResult \<times> PayoutAmounts" where
  "compute_draw x raffle_id close_height randomness_height randomness_hash raffle db =
     bindR (ok_or (r_entries_root raffle) InvalidStatus) (\<lambda>root_bytes.
     bindR (hash_from_bytes root_bytes) (\<lambda>root.
     bindR (ledger_rows raffle_id db) (\<lambda>es.
     bindR (db_as_u64 (r_total_tickets raffle)) (\<lambda>total_tickets.
     bindR (map_err Protocol (draw (x_sha x) es
         \<lparr>di_raffle_id = raffle_id, di_entries_root = root, di_close_block_height = close_height,
          di_randomness_block_height = randomness_height, di_randomness_block_hash = randomness_hash,
          di_total_tickets = total_tickets\<rparr>)) (\<lambda>result.
     bindR (load_split raffle_id db) (\<lambda>split.
     bindR (db_as_u64 (r_total_pool_sats raffle)) (\<lambda>pool.
       Ok (root, result, allocate split (Sats pool)))))))))"

definition draw_row_of :: "uuid \<Rightarrow> timestamp \<Rightarrow> RaffleId \<Rightarrow> Hash32 \<Rightarrow> Hash32 \<Rightarrow> int \<Rightarrow> EntryId \<Rightarrow> draw_row" where
  "draw_row_of uid now raffle_id root randomness_hash ticket winner_entry_id =
     \<lparr>d_id = uid, d_raffle_id = raffle_id, d_entries_root = as_bytes root,
      d_randomness_block_hash = as_bytes randomness_hash, d_winning_ticket = ticket,
      d_winner_entry_id = winner_entry_id, d_created_at = now\<rparr>"

definition enqueue_payouts :: "externals \<Rightarrow> uuid \<Rightarrow> timestamp \<Rightarrow> RaffleId \<Rightarrow> db \<Rightarrow> PersistenceError + db" where
  "enqueue_payouts x uid now raffle_id db =
     insert_job uid now ''payout.execute'' (x_uuid_text x raffle_id)
       (JObj [(''raffle_id'', JStr (x_uuid_text x raffle_id))]) db"

definition announce_draw :: "externals \<Rightarrow> uuid \<Rightarrow> timestamp \<Rightarrow> RaffleId \<Rightarrow> DrawResult \<Rightarrow> db \<Rightarrow> PersistenceError + db" where
  "announce_draw x uid now raffle_id result db =
     write_audit uid now raffle_id ''draw.created''
       (JObj [(''winning_ticket'', JNum (uint (dr_winning_ticket result))),
              (''winner_entry_id'', JStr (x_uuid_text x (dr_winner_entry_id result)))]) db"

definition payout_items :: "(nat \<Rightarrow> uuid) \<Rightarrow> PayoutAmounts \<Rightarrow> (uuid \<times> RecipientType \<times> Sats) list" where
  "payout_items ids amounts =
     [(ids 1, RWinner, pa_winner amounts), (ids 2, ROrganizer, pa_organizer amounts),
      (ids 3, RPlatform, pa_platform amounts)]"

definition create_draw_and_payouts ::
  "externals \<Rightarrow> (nat \<Rightarrow> uuid) \<Rightarrow> timestamp \<Rightarrow> RaffleId \<Rightarrow> u64 \<Rightarrow> Hash32 \<Rightarrow> u64 \<Rightarrow> Hash32 \<Rightarrow> db
     \<Rightarrow> PersistenceError + DrawResult \<times> db" where
  "create_draw_and_payouts x ids now raffle_id close_height close_hash randomness_height randomness_hash db =
     bindR (sql (fetch_one (\<lambda>r. r_id r = raffle_id) (raffles db))) (\<lambda>raffle.
     if r_status raffle \<noteq> RandomnessPending then Err InvalidStatus
     else
     bindR (compute_draw x raffle_id close_height randomness_height randomness_hash raffle db)
       (\<lambda>(root, result, amounts).
     bindR (db_as_i64 (dr_winning_ticket result)) (\<lambda>ticket.
     bindR (sql (sql_insert draw_check draw_conflict
         ((\<exists>r \<in> set (raffles db). r_id r = raffle_id) \<and> (\<exists>e \<in> set (entries db). e_id e = dr_winner_entry_id result))
         (draw_row_of (ids 0) now raffle_id root randomness_hash ticket (dr_winner_entry_id result))
         (draws db))) (\<lambda>ds.
     bindR (insert_payouts x now raffle_id (payout_items ids amounts) (db\<lparr>draws := ds\<rparr>)) (\<lambda>db.
     bindR (enqueue_payouts x (ids 4) now raffle_id db) (\<lambda>db.
     bindR (db_as_i64 close_height) (\<lambda>ch.
     bindR (db_as_i64 randomness_height) (\<lambda>rh.
     bindR (sql (sql_update raffle_check raffle_conflict (\<lambda>r. r_id r = raffle_id)
         (drawn_row now ch close_hash rh randomness_hash) (raffles db))) (\<lambda>(rs, _).
     bindR (announce_draw x (ids 5) now raffle_id result (db\<lparr>raffles := rs\<rparr>)) (\<lambda>db.
       Ok (result, db)))))))))))"

section \<open>The terminal proof\<close>

text \<open>\<open>row.get::<i64, _>\<close> panics on NULL.\<close>

definition get_bigint :: "int option \<Rightarrow> PersistenceError + int" where
  "get_bigint v = ok_or v (Panicked ''unexpected null'')"

text \<open>The payload assembled from the rows.\<close>

definition terminal_payload :: "externals \<Rightarrow> RaffleId \<Rightarrow> raffle_row \<Rightarrow> db \<Rightarrow> PersistenceError + ProofPayload" where
  "terminal_payload x raffle_id raffle db =
     bindR (ledger_rows raffle_id db) (\<lambda>es.
     bindR (ok_or (r_entries_root raffle) InvalidStatus) (\<lambda>root_bytes.
     bindR (hash_from_bytes root_bytes) (\<lambda>root.
     bindR (head_or_zero (r_entry_chain_head raffle)) (\<lambda>head.
     bindR (bindR (get_bigint (r_close_block_height raffle)) db_as_u64) (\<lambda>close_height.
     bindR (bindR (get_bigint (r_randomness_block_height raffle)) db_as_u64) (\<lambda>randomness_height.
     bindR (ok_or (r_randomness_block_hash raffle) InvalidStatus) (\<lambda>hash_bytes.
     bindR (hash_from_bytes hash_bytes) (\<lambda>randomness_hash.
     bindR (db_as_u64 (r_total_tickets raffle)) (\<lambda>total_tickets.
     bindR (map_err Protocol (draw (x_sha x) es
         \<lparr>di_raffle_id = raffle_id, di_entries_root = root, di_close_block_height = close_height,
          di_randomness_block_height = randomness_height, di_randomness_block_hash = randomness_hash,
          di_total_tickets = total_tickets\<rparr>)) (\<lambda>result.
     bindR (load_split raffle_id db) (\<lambda>split.
     bindR (db_as_u64 (r_total_pool_sats raffle)) (\<lambda>pool.
       Ok \<lparr>pp_protocol_version = PROTOCOL_VERSION, pp_raffle_id = raffle_id, pp_payout_split = split,
           pp_entries = es,
           pp_freeze = \<lparr>ff_entry_count = of_nat (entry_count raffle_id db), ff_total_tickets = total_tickets,
             ff_total_pool_sats = Sats pool, ff_entry_chain_head = head, ff_entries_root = root\<rparr>,
           pp_bitcoin = \<lparr>bf_close_block_height = close_height, bf_randomness_block_height = randomness_height,
             bf_randomness_block_hash = randomness_hash\<rparr>,
           pp_draw = result, pp_payouts = allocate split (Sats pool)\<rparr>))))))))))))"

definition generate_terminal_proof ::
  "externals \<Rightarrow> (nat \<Rightarrow> uuid) \<Rightarrow> timestamp \<Rightarrow> RaffleId \<Rightarrow> db \<Rightarrow> PersistenceError + ProofDocument \<times> db" where
  "generate_terminal_proof x ids now raffle_id db =
     bindR (sql (fetch_one (\<lambda>r. r_id r = raffle_id) (raffles db))) (\<lambda>raffle.
     if r_status raffle \<noteq> PaidOut then Err InvalidStatus
     else
     bindR (terminal_payload x raffle_id raffle db) (\<lambda>payload.
     bindR (map_err Protocol (ProofDocument_create (x_sha x) (x_jcs x) payload)) (\<lambda>document.
     if \<not> is_verified (verify (x_sha x) (x_jcs x) document) then Err ProofInvalid
     else
     bindR (map_err ProofEncoding (x_to_value x document)) (\<lambda>value.
     bindR (sql (sql_insert proof_check proof_conflict (\<exists>r \<in> set (raffles db). r_id r = raffle_id)
         \<lparr>pr_id = ids 0, pr_raffle_id = raffle_id, pr_protocol_version = PROTOCOL_VERSION,
          pr_proof_json = value, pr_proof_hash = as_bytes (pd_proof_hash document), pr_storage_uri = None,
          pr_created_at = now, pr_storage_version_id = None, pr_storage_etag = None, pr_published_at = None\<rparr>
         (proofs db))) (\<lambda>t.
     bindR (write_audit (ids 1) now raffle_id ''proof.generated''
         (JObj [(''proof_hash'', JStr (to_hex (x_hex_encode x) (pd_proof_hash document)))])
         (db\<lparr>proofs := t\<rparr>)) (\<lambda>db.
       Ok (document, db)))))))"

section \<open>Publication\<close>

definition is_proof_of :: "RaffleId \<Rightarrow> proof_row \<Rightarrow> bool" where
  "is_proof_of raffle_id p \<longleftrightarrow> pr_raffle_id p = raffle_id \<and> pr_protocol_version p = PROTOCOL_VERSION"

definition public_proof :: "externals \<Rightarrow> RaffleId \<Rightarrow> db \<Rightarrow> PersistenceError + ProofDocument" where
  "public_proof x raffle_id db =
     bindR (ok_or (fetch_optional (is_proof_of raffle_id) (proofs db)) (NotFound ''proof'')) (\<lambda>row.
       map_err ProofEncoding (x_from_value x (pr_proof_json row)))"

record PublicProofMetadata =
  pm_raffle_id :: RaffleId
  pm_proof_hash :: string
  pm_storage_uri :: "string option"
  pm_storage_version_id :: "string option"
  pm_storage_etag :: "string option"
  pm_published_at :: "timestamp option"

definition public_proof_metadata :: "externals \<Rightarrow> RaffleId \<Rightarrow> db \<Rightarrow> PersistenceError + PublicProofMetadata" where
  "public_proof_metadata x raffle_id db =
     bindR (ok_or (fetch_optional (is_proof_of raffle_id) (proofs db)) (NotFound ''proof'')) (\<lambda>row.
     bindR (hash_from_bytes (pr_proof_hash row)) (\<lambda>h.
       Ok \<lparr>pm_raffle_id = raffle_id, pm_proof_hash = to_hex (x_hex_encode x) h,
           pm_storage_uri = pr_storage_uri row, pm_storage_version_id = pr_storage_version_id row,
           pm_storage_etag = pr_storage_etag row, pm_published_at = pr_published_at row\<rparr>))"

definition record_proof_publication ::
  "timestamp \<Rightarrow> RaffleId \<Rightarrow> string \<Rightarrow> string \<Rightarrow> string \<Rightarrow> db \<Rightarrow> PersistenceError + unit \<times> db" where
  "record_proof_publication now raffle_id storage_uri version_id etag db =
     bindR (sql (sql_update proof_check proof_conflict
         (\<lambda>p. is_proof_of raffle_id p \<and> pr_storage_uri p = None)
         (\<lambda>p. p\<lparr>pr_storage_uri := Some storage_uri, pr_storage_version_id := Some version_id,
                pr_storage_etag := Some etag, pr_published_at := Some now\<rparr>) (proofs db))) (\<lambda>(t, affected).
     if affected = 1 then Ok ((), db\<lparr>proofs := t\<rparr>)
     else
     bindR (ok_or (fetch_optional (is_proof_of raffle_id) t) (NotFound ''proof'')) (\<lambda>existing.
       if pr_storage_uri existing = Some storage_uri \<and> pr_storage_version_id existing = Some version_id
          \<and> pr_storage_etag existing = Some etag
       then Ok ((), db\<lparr>proofs := t\<rparr>) else Err ProofAlreadyPublished))"

section \<open>The public result\<close>

record PublicResult =
  pres_raffle_id :: RaffleId
  pres_status :: RaffleStatus
  pres_winning_ticket :: "u64 option"
  pres_payout_statuses :: "PayoutStatus list"
  pres_proof_available :: bool

text \<open>The alphabetical order of the recipient texts.\<close>

fun recipient_order :: "RecipientType \<Rightarrow> nat" where
  "recipient_order ROrganizer = 0"
| "recipient_order RPlatform = 1"
| "recipient_order RRefund = 2"
| "recipient_order RWinner = 3"

definition public_result :: "RaffleId \<Rightarrow> db \<Rightarrow> PersistenceError + PublicResult" where
  "public_result raffle_id db =
     bindR (ok_or (fetch_optional (\<lambda>r. r_id r = raffle_id) (raffles db)) (NotFound ''raffle'')) (\<lambda>raffle.
     bindR (transposeR (map_option (\<lambda>d. db_as_u64 (d_winning_ticket d))
         (fetch_optional (\<lambda>d. d_raffle_id d = raffle_id) (draws db)))) (\<lambda>winning_ticket.
       Ok \<lparr>pres_raffle_id = raffle_id, pres_status = r_status raffle, pres_winning_ticket = winning_ticket,
           pres_payout_statuses = map p_status
             (sort_key (\<lambda>p. recipient_order (p_recipient_type p)) (filter (\<lambda>p. p_raffle_id p = raffle_id) (payouts db))),
           pres_proof_available = (\<exists>p \<in> set (proofs db). is_proof_of raffle_id p)\<rparr>))"

section \<open>Lemmas\<close>

lemma insert_payouts_frame:
  "insert_payouts x now rid items db = Ok db' \<Longrightarrow> \<exists>ps. db' = db\<lparr>payouts := ps\<rparr>"
proof (induction items arbitrary: db)
  case Nil
  then show ?case by (auto intro!: exI [of _ "payouts db"])
next
  case (Cons item items)
  then obtain db1 where db1: "insert_payout x now rid item db = Ok db1"
    and rest: "insert_payouts x now rid items db1 = Ok db'"
    by (auto simp: bindR_eq_Ok)
  from db1 obtain ps where "db1 = db\<lparr>payouts := ps\<rparr>"
  proof (cases "as_u64 (snd (snd item)) > 0")
    case False
    then have "db1 = db\<lparr>payouts := payouts db\<rparr>"
      using db1 by (auto simp: insert_payout_def split: prod.splits)
    then show thesis by (rule that)
  qed (auto simp: insert_payout_def bindR_eq_Ok split: prod.splits)
  then show ?case
    using Cons.IH [OF rest] by auto
qed

text \<open>What a successful draw transaction wrote.\<close>

lemma create_draw_and_payouts_Ok:
  assumes "create_draw_and_payouts x ids now rid ch close_hash rh rand_hash db = Ok (result, db')"
  obtains raffle root amounts db1 js t n where
    "fetch_optional (\<lambda>r. r_id r = rid) (raffles db) = Some raffle" and "r_status raffle = RandomnessPending"
    and "compute_draw x rid ch rh rand_hash raffle db = Ok (root, result, amounts)"
    and "insert_payouts x now rid (payout_items ids amounts)
      (db\<lparr>draws := draws db @ [draw_row_of (ids 0) now rid root rand_hash (uint (dr_winning_ticket result))
         (dr_winner_entry_id result)]\<rparr>) = Ok db1"
    and "\<forall>d \<in> set (draws db). d_raffle_id d \<noteq> rid"
    and "uint ch < 2 ^ 63" and "uint rh < 2 ^ 63"
    and "sql_update raffle_check raffle_conflict (\<lambda>r. r_id r = rid)
         (drawn_row now (uint ch) close_hash (uint rh) rand_hash) (raffles db) = Ok (raffles db', n)"
    and "db' = db1\<lparr>jobs := js, raffles := raffles db', audit_events := t\<rparr>"
    and "\<exists>j \<in> set js. j_kind j = ''payout.execute'' \<and> j_deduplication_key j = x_uuid_text x rid"
proof -
  from assms obtain raffle root amounts ds db1 db2 rs n where
    f: "fetch_optional (\<lambda>r. r_id r = rid) (raffles db) = Some raffle" "r_status raffle = RandomnessPending"
      "compute_draw x rid ch rh rand_hash raffle db = Ok (root, result, amounts)"
    and ds: "\<forall>s \<in> set (draws db). \<not> draw_conflict s (draw_row_of (ids 0) now rid root rand_hash
        (uint (dr_winning_ticket result)) (dr_winner_entry_id result))"
      "ds = draws db @ [draw_row_of (ids 0) now rid root rand_hash (uint (dr_winning_ticket result))
         (dr_winner_entry_id result)]"
    and ps: "insert_payouts x now rid (payout_items ids amounts) (db\<lparr>draws := ds\<rparr>) = Ok db1"
    and js: "enqueue_payouts x (ids 4) now rid db1 = Ok db2"
    and h: "uint ch < 2 ^ 63" "uint rh < 2 ^ 63"
    and rs: "sql_update raffle_check raffle_conflict (\<lambda>r. r_id r = rid)
         (drawn_row now (uint ch) close_hash (uint rh) rand_hash) (raffles db2) = Ok (rs, n)"
    and an: "announce_draw x (ids 5) now rid result (db2\<lparr>raffles := rs\<rparr>) = Ok db'"
    unfolding create_draw_and_payouts_def
    by (auto simp: bindR_eq_Ok map_err_eq_Ok fetch_one_Ok db_as_i64_Ok sql_insert_Ok split: if_splits)
  from js obtain jobs' where db2: "db2 = db1\<lparr>jobs := jobs'\<rparr>"
    and key: "\<exists>j \<in> set jobs'. j_kind j = ''payout.execute'' \<and> j_deduplication_key j = x_uuid_text x rid"
    unfolding enqueue_payouts_def by (rule insert_job_Ok)
  from an obtain t where db': "db' = db2\<lparr>raffles := rs, audit_events := t\<rparr>"
    unfolding announce_draw_def by (rule write_audit_Ok) simp
  have "raffles db2 = raffles db"
    using insert_payouts_frame [OF ps] by (auto simp: db2)
  moreover have "\<forall>d \<in> set (draws db). d_raffle_id d \<noteq> rid"
    using ds(1) by (auto simp: draw_conflict_def draw_row_of_def)
  ultimately show thesis
    using ps [unfolded ds(2)] h rs db' key by (intro that [OF f]) (simp_all add: db2)
qed

end
