(* ===== verification/Store_Ledger.thy ===== *)
theory Store_Ledger
  imports Store_Draw
begin

text \<open>
  The ledger a raffle's rows stand for. \<open>raffle_ledger\<close> relates a raffle row and its entry rows to a
  valid protocol ledger with the same totals and chain head: the abstraction under which the
  transactions of \<open>Store_Settlement\<close> and \<open>Store_Draw\<close> implement the protocol operations
  (settling appends an entry, freezing takes the entries root, drawing draws on the ledger).
\<close>

section \<open>Abstraction\<close>

definition raffle_entries :: "RaffleId \<Rightarrow> db \<Rightarrow> entry_row list" where
  "raffle_entries rid db = filter (\<lambda>e. e_raffle_id e = rid) (entries db)"

definition raffle_ledger :: "externals \<Rightarrow> db \<Rightarrow> raffle_row \<Rightarrow> LedgerEntry list \<Rightarrow> bool" where
  "raffle_ledger x db r es \<longleftrightarrow>
     map ledger_entry_from_row (raffle_entries (r_id r) db) = map Ok es \<and>
     valid_ledger (x_sha x) (r_id r) es \<and>
     r_total_tickets r = uint (ticket_base es (length es)) \<and>
     r_total_pool_sats r = int (pool_sum es) \<and>
     r_entry_chain_head r = (if es = [] then None else Some (as_bytes (chain_hash es (length es))))"

definition ledger_root :: "externals \<Rightarrow> RaffleId \<Rightarrow> LedgerEntry list \<Rightarrow> Hash32" where
  "ledger_root x rid es = entries_root (x_sha x) rid (of_nat (length es)) (chain_hash es (length es))"

section \<open>Reading the ledger\<close>

lemma raffle_ledger_length: "raffle_ledger x db r es \<Longrightarrow> length (raffle_entries (r_id r) db) = length es"
  unfolding raffle_ledger_def by (metis length_map)

lemma entry_count_ledger: "raffle_ledger x db r es \<Longrightarrow> entry_count (r_id r) db = length es"
  using raffle_ledger_length by (simp add: entry_count_def raffle_entries_def)

lemma raffle_ledger_head:
  "raffle_ledger x db r es \<Longrightarrow> head_or_zero (r_entry_chain_head r) = Ok (chain_hash es (length es))"
  by (auto simp: raffle_ledger_def chain_hash_def)

lemma raffle_ledger_empty:
  assumes "raffle_ledger x db r es"
  shows "r_total_tickets r = 0 \<longleftrightarrow> es = []"
proof -
  have "ticket_base es (length es) \<noteq> 0" if "es \<noteq> []"
    using ticket_base_pos [of "x_sha x" "r_id r" es] assms that by (auto simp: raffle_ledger_def)
  then show ?thesis
    using assms by (auto simp: raffle_ledger_def ticket_base_def uint_0_iff)
qed

lemma entry_row_index:
  assumes "raffle_ledger x db r es" and "\<forall>e \<in> set (entries db). entry_check e" and "i < length es"
  shows "e_entry_index (raffle_entries (r_id r) db ! i) = int i"
proof -
  let ?row = "raffle_entries (r_id r) db ! i"
  have len: "length (raffle_entries (r_id r) db) = length es"
    using assms(1) by (rule raffle_ledger_length)
  then have "?row \<in> set (entries db)"
    using assms(3) nth_mem [of i "raffle_entries (r_id r) db"] by (simp add: raffle_entries_def)
  then have c: "0 \<le> e_entry_index ?row" "bigint (e_entry_index ?row)"
    using assms(2) by (auto simp: entry_check_def)
  have "map ledger_entry_from_row (raffle_entries (r_id r) db) ! i = map Ok es ! i"
    using assms(1) by (simp add: raffle_ledger_def)
  then have "ledger_entry_from_row ?row = Ok (es ! i)"
    using assms(3) len by simp
  then have "ed_entry_index (le_data (es ! i)) = of_int (e_entry_index ?row)"
    by (simp add: ledger_entry_from_row_Ok)
  moreover have "unat (ed_entry_index (le_data (es ! i))) = i"
    using assms(1,3) by (simp add: raffle_ledger_def valid_ledger_def entry_ok_def)
  ultimately have "int i = uint (of_int (e_entry_index ?row) :: u64)"
    by (metis uint_nat)
  then show ?thesis
    using uint_of_int [OF c] by simp
qed

lemma entry_rows_ledger:
  assumes "raffle_ledger x db r es" and "\<forall>e \<in> set (entries db). entry_check e"
  shows "entry_rows (r_id r) db = raffle_entries (r_id r) db"
proof -
  let ?rows = "raffle_entries (r_id r) db"
  have "sorted (map e_entry_index ?rows)"
    using entry_row_index [OF assms] raffle_ledger_length [OF assms(1)]
    by (simp add: sorted_iff_nth_mono)
  then have "sort_key e_entry_index ?rows = ?rows"
    by (rule sort_key_id_if_sorted)
  then show ?thesis
    by (simp add: entry_rows_def raffle_entries_def)
qed

lemma ledger_rows_Ok:
  assumes "raffle_ledger x db r es" and "\<forall>e \<in> set (entries db). entry_check e"
  shows "ledger_rows (r_id r) db = Ok es"
  using assms(1) unfolding ledger_rows_def entry_rows_ledger [OF assms] collectR_eq_Ok
  by (simp add: raffle_ledger_def)

section \<open>Appending\<close>

lemma next_entry_Ok:
  assumes "next_entry x invoice raffle count eid settled_at = Ok entry"
  obtains d prev and ts tc te :: u64 where
    "entry = LedgerEntry_create (x_sha x) d prev"
    and "head_or_zero (r_entry_chain_head raffle) = Ok prev"
    and "ts = of_int (r_total_tickets raffle)" and "tc = of_int (i_ticket_count invoice)"
    and "0 \<le> r_total_tickets raffle" and "0 \<le> i_ticket_count invoice"
    and "unat ts + unat tc = unat te" and "ts < te"
    and "ed_raffle_id d = i_raffle_id invoice" and "ed_entry_id d = eid"
    and "ed_entry_index d = of_nat count"
    and "as_bytes (ed_participant_public_id d) = i_participant_public_id invoice"
    and "as_bytes (ed_payment_reference_hash d) = i_payment_reference_hash invoice"
    and "ed_amount_sats d = Sats (of_int (i_amount_sats invoice))" and "0 \<le> i_amount_sats invoice"
    and "ed_ticket_range d = \<lparr>tr_start = ts, tr_end = te\<rparr>"
    and "ed_settled_at_unix_ms d = unix_ms settled_at"
proof -
  let ?ts = "of_int (r_total_tickets raffle) :: u64" and ?tc = "of_int (i_ticket_count invoice) :: u64"
  from assms obtain te prev pid ph where e: "entry = LedgerEntry_create (x_sha x)
      \<lparr>ed_raffle_id = i_raffle_id invoice, ed_entry_id = eid, ed_entry_index = of_nat count,
       ed_participant_public_id = pid, ed_payment_reference_hash = ph,
       ed_amount_sats = Sats (of_int (i_amount_sats invoice)),
       ed_ticket_range = \<lparr>tr_start = ?ts, tr_end = te\<rparr>, ed_settled_at_unix_ms = unix_ms settled_at\<rparr> prev"
    and f: "head_or_zero (r_entry_chain_head raffle) = Ok prev"
      "0 \<le> r_total_tickets raffle" "0 \<le> i_ticket_count invoice" "unat ?ts + unat ?tc = unat te" "?ts < te"
      "as_bytes pid = i_participant_public_id invoice" "as_bytes ph = i_payment_reference_hash invoice"
      "0 \<le> i_amount_sats invoice"
    unfolding next_entry_def
    by (auto simp: bindR_eq_Ok map_err_eq_Ok ok_or_eq_Ok db_as_u64_Ok checked_add_eq_Some hash_from_bytes_Ok
        TicketRange_new_Ok range_is_valid_def)
  show thesis
    by (rule that [OF e f(1) refl refl f(2-5)]) (simp_all add: f)
qed

text \<open>Writing an entry and reading it back gives the same entry, if the time column keeps milliseconds.\<close>

lemma entry_row_ids:
  assumes "entry_row_of x entry iid settled_at = Ok row"
  shows "e_raffle_id row = ed_raffle_id (le_data entry)" and "e_invoice_id row = iid"
    and "e_id row = ed_entry_id (le_data entry)"
  using assms unfolding entry_row_of_def Let_def by (auto simp: bindR_eq_Ok db_as_i64_Ok)

lemma entry_row_roundtrip:
  assumes "entry_row_of x entry iid settled_at = Ok row"
    and "unix_ms (x_timestamptz x settled_at) = ed_settled_at_unix_ms (le_data entry)"
    and "range_is_valid (ed_ticket_range (le_data entry))"
  shows "ledger_entry_from_row row = Ok entry" and "e_raffle_id row = ed_raffle_id (le_data entry)"
    and "e_invoice_id row = iid"
    and "uint (ed_entry_index (le_data entry)) < 2 ^ 63"
proof -
  obtain d p h where e: "entry = \<lparr>le_data = d, le_previous_entry_hash = p, le_entry_hash = h\<rparr>"
    by (cases entry)
  show "ledger_entry_from_row row = Ok entry" "e_raffle_id row = ed_raffle_id (le_data entry)"
    "e_invoice_id row = iid" "uint (ed_entry_index (le_data entry)) < 2 ^ 63"
    using assms unfolding entry_row_of_def ledger_entry_from_row_Ok Let_def
    by (auto simp: bindR_eq_Ok db_as_i64_Ok)
qed

text \<open>The database after a settlement, and the entry it returns.\<close>

lemma announce_entry_Ok:
  assumes "announce_entry x ids now rid iid eid db = Ok db'"
  obtains t ob where "db' = db\<lparr>audit_events := t, outbox_events := ob\<rparr>"
  using assms unfolding announce_entry_def
  by (auto simp: bindR_eq_Ok elim!: write_audit_Ok write_outbox_Ok)

lemma append_entry_Ok:
  assumes "append_entry x ids now invoice raffle eid settled_at db = Ok (entry, db')"
  obtains row and np :: u64 and n m t ob where
    "next_entry x invoice raffle (entry_count (i_raffle_id invoice) db) eid settled_at = Ok entry"
    and "entry_row_of x entry (i_id invoice) settled_at = Ok row"
    and "entry_check row" and "\<forall>e \<in> set (entries db). \<not> entry_conflict e row"
    and "0 \<le> r_total_pool_sats raffle"
    and "unat (of_int (r_total_pool_sats raffle) :: u64) + unat (as_u64 (ed_amount_sats (le_data entry))) = unat np"
    and "uint np < 2 ^ 63" and "uint (tr_end (ed_ticket_range (le_data entry))) < 2 ^ 63"
    and "sql_update invoice_check invoice_conflict (\<lambda>i. i_id i = i_id invoice) (mark_settled x settled_at) (invoices db)
      = Ok (invoices db', n)"
    and "sql_update raffle_check raffle_conflict (\<lambda>r. r_id r = i_raffle_id invoice)
      (credit_raffle now (uint np) (uint (tr_end (ed_ticket_range (le_data entry)))) (le_entry_hash entry)) (raffles db)
      = Ok (raffles db', m)"
    and "db' = db\<lparr>entries := entries db @ [row], invoices := invoices db', raffles := raffles db',
      audit_events := t, outbox_events := ob\<rparr>"
proof -
  from assms obtain row and np :: u64 and ivs n rs m where
    e: "next_entry x invoice raffle (entry_count (i_raffle_id invoice) db) eid settled_at = Ok entry"
      "entry_row_of x entry (i_id invoice) settled_at = Ok row"
      "entry_check row" "\<forall>e \<in> set (entries db). \<not> entry_conflict e row" "0 \<le> r_total_pool_sats raffle"
      "unat (of_int (r_total_pool_sats raffle) :: u64) + unat (as_u64 (ed_amount_sats (le_data entry))) = unat np"
      "uint np < 2 ^ 63" "uint (tr_end (ed_ticket_range (le_data entry))) < 2 ^ 63"
    and iv: "sql_update invoice_check invoice_conflict (\<lambda>i. i_id i = i_id invoice) (mark_settled x settled_at)
      (invoices db) = Ok (ivs, n)"
    and rs: "sql_update raffle_check raffle_conflict (\<lambda>r. r_id r = i_raffle_id invoice)
      (credit_raffle now (uint np) (uint (tr_end (ed_ticket_range (le_data entry)))) (le_entry_hash entry)) (raffles db)
      = Ok (rs, m)"
    and an: "announce_entry x ids now (i_raffle_id invoice) (i_id invoice) eid
      (db\<lparr>entries := entries db @ [row], invoices := ivs, raffles := rs\<rparr>) = Ok db'"
    unfolding append_entry_def Let_def
    by (auto simp: bindR_eq_Ok map_err_eq_Ok ok_or_eq_Ok db_as_u64_Ok db_as_i64_Ok checked_add_eq_Some sql_insert_Ok)
  obtain t ob where db': "db' = db\<lparr>entries := entries db @ [row], invoices := ivs, raffles := rs,
      audit_events := t, outbox_events := ob\<rparr>"
    using an by (rule announce_entry_Ok) simp
  show thesis
    by (rule that [OF e]) (use iv rs db' in simp_all)
qed

text \<open>
  Settling appends: the entry the transaction returns extends the raffle's ledger, and the updated
  raffle row matches the longer ledger. Rows of other raffles keep their ledgers.
\<close>

lemma credited_pool:
  assumes "raffle_ledger x db r es" and "invoice_check invoice"
    and "unat (of_int (r_total_pool_sats r) :: u64) + unat (of_int (i_amount_sats invoice) :: u64) = unat (np :: u64)"
  shows "uint np = r_total_pool_sats r + i_amount_sats invoice"
proof -
  have pos: "0 < i_amount_sats invoice" "bigint (i_amount_sats invoice)"
    using assms(2) by (simp_all add: invoice_check_def)
  then have "unat (of_int (i_amount_sats invoice) :: u64) = nat (i_amount_sats invoice)"
    using uint_of_int by (simp flip: nat_uint_eq)
  moreover have led: "r_total_pool_sats r = int (pool_sum es)" "valid_ledger (x_sha x) (r_id r) es"
    using assms(1) by (simp_all add: raffle_ledger_def)
  then have "unat (of_int (r_total_pool_sats r) :: u64) = pool_sum es"
    by (simp add: valid_ledger_def unat_of_nat)
  ultimately have "unat np = pool_sum es + nat (i_amount_sats invoice)"
    using assms(3) by simp
  then show ?thesis
    using pos led(1) by (simp add: uint_nat)
qed

lemma raffle_ledger_append:
  assumes "raffle_ledger x db r es" and "r_id r = i_raffle_id invoice"
    and "append_entry x ids now invoice r eid settled_at db = Ok (entry, db')"
    and "unix_ms (x_timestamptz x settled_at) = unix_ms settled_at"
    and "invoice_check invoice"
    and "r' = credit_raffle now (r_total_pool_sats r + i_amount_sats invoice)
      (uint (tr_end (ed_ticket_range (le_data entry)))) (le_entry_hash entry) r"
  shows "raffle_ledger x db' r' (es @ [entry])"
proof -
  from assms(3) obtain row and np :: u64 and n m t ob where
    nx: "next_entry x invoice r (entry_count (i_raffle_id invoice) db) eid settled_at = Ok entry"
    and row: "entry_row_of x entry (i_id invoice) settled_at = Ok row"
    and np: "unat (of_int (r_total_pool_sats r) :: u64) + unat (as_u64 (ed_amount_sats (le_data entry))) = unat np"
    and db': "db' = db\<lparr>entries := entries db @ [row], invoices := invoices db', raffles := raffles db',
      audit_events := t, outbox_events := ob\<rparr>"
    by (rule append_entry_Ok)
  from nx obtain d prev and ts tc te :: u64 where
    e: "entry = LedgerEntry_create (x_sha x) d prev" and prev: "head_or_zero (r_entry_chain_head r) = Ok prev"
    and ts: "ts = of_int (r_total_tickets r)" and te: "ts < te"
    and d: "ed_raffle_id d = i_raffle_id invoice" "ed_entry_index d = of_nat (entry_count (i_raffle_id invoice) db)"
      "ed_amount_sats d = Sats (of_int (i_amount_sats invoice))"
      "ed_ticket_range d = \<lparr>tr_start = ts, tr_end = te\<rparr>" "ed_settled_at_unix_ms d = unix_ms settled_at"
    by (rule next_entry_Ok)
  have led: "map ledger_entry_from_row (raffle_entries (r_id r) db) = map Ok es"
    "valid_ledger (x_sha x) (r_id r) es" "r_total_tickets r = uint (ticket_base es (length es))"
    "r_total_pool_sats r = int (pool_sum es)"
    using assms(1) by (simp_all add: raffle_ledger_def)
  have data: "le_data entry = d"
    by (simp add: e LedgerEntry_create_def)
  have valid: "range_is_valid (ed_ticket_range d)"
    using te by (simp add: d range_is_valid_def)
  have rt: "ledger_entry_from_row row = Ok entry" "e_raffle_id row = i_raffle_id invoice"
    "uint (ed_entry_index d) < 2 ^ 63"
    using entry_row_roundtrip [OF row] assms(4) valid by (simp_all add: data d)
  have idx: "unat (ed_entry_index d) = length es"
    using entry_count_ledger [OF assms(1)] led(2) by (simp add: d assms(2) unat_of_nat valid_ledger_def)
  have len: "Suc (length es) < 2 ^ 64"
    using rt(3) idx by (simp add: uint_nat)
  have np1: "uint np = r_total_pool_sats r + i_amount_sats invoice"
    using assms(1,5) np unfolding data d Sats.sel by (rule credited_pool)
  have np2: "unat np = pool_sum es + unat (as_u64 (ed_amount_sats d))"
    using np led(2) by (simp add: data led(4) valid_ledger_def unat_of_nat)
  have pool: "r_total_pool_sats r + i_amount_sats invoice = int (pool_sum (es @ [entry]))"
    unfolding np1 [symmetric] uint_nat np2 by (simp add: data)
  have psum: "pool_sum es + unat (as_u64 (ed_amount_sats d)) < 2 ^ 64"
    unfolding np2 [symmetric] by (rule unat_u64_less)
  have start: "tr_start (ed_ticket_range d) = ticket_base es (length es)"
    by (simp add: d ts led(3))
  have "prev = chain_hash es (length es)"
    using raffle_ledger_head [OF assms(1)] prev by simp
  then have val: "valid_ledger (x_sha x) (r_id r) (es @ [entry])"
    unfolding e using valid_ledger_create [OF led(2) d(1) [folded assms(2)] idx valid start len psum] by simp
  have "entries db' = entries db @ [row]"
    by (subst db') simp
  then have rows: "raffle_entries (r_id r) db' = raffle_entries (r_id r) db @ [row]"
    by (simp add: raffle_entries_def rt assms(2))
  have id': "r_id r' = r_id r"
    by (simp add: assms(6) credit_raffle_def)
  show ?thesis
    unfolding raffle_ledger_def id' rows using led(1) rt(1) val pool
    by (simp add: assms(6) credit_raffle_def nth_append)
qed

lemma raffle_ledger_other:
  assumes "raffle_ledger x db r es" and "r_id r \<noteq> i_raffle_id invoice"
    and "append_entry x ids now invoice raffle eid settled_at db = Ok (entry, db')"
  shows "raffle_ledger x db' r es"
proof -
  from assms(3) obtain row and np :: u64 and n m t ob where
    nx: "next_entry x invoice raffle (entry_count (i_raffle_id invoice) db) eid settled_at = Ok entry"
    and row: "entry_row_of x entry (i_id invoice) settled_at = Ok row"
    and db': "db' = db\<lparr>entries := entries db @ [row], invoices := invoices db', raffles := raffles db',
      audit_events := t, outbox_events := ob\<rparr>"
    by (rule append_entry_Ok)
  from nx have "ed_raffle_id (le_data entry) = i_raffle_id invoice"
    by (rule next_entry_Ok) (simp add: LedgerEntry_create_def)
  then have "e_raffle_id row = i_raffle_id invoice"
    using entry_row_ids(1) [OF row] by simp
  moreover have "entries db' = entries db @ [row]"
    by (subst db') simp
  ultimately show ?thesis
    using assms(1,2) by (simp add: raffle_ledger_def raffle_entries_def)
qed

end
