(* ===== verification/Leases.thy ===== *)
theory Leases
  imports Schema
begin

text \<open>
  The lease discipline shared by the three work tables (jobs, outbox events, payouts): a claim picks
  the first claimable row that no concurrent transaction has locked, gives it to a worker until a
  deadline, and only the owner can finish it. The claim statements are written in the theories that own
  the tables; this theory states the contract they have in common.
\<close>

section \<open>Claiming\<close>

text \<open>\<open>lease_expires_at < now()\<close>, which is not true for NULL.\<close>

definition lease_expired :: "timestamp \<Rightarrow> timestamp option \<Rightarrow> bool" where
  "lease_expired now lease = (case lease of None \<Rightarrow> False | Some t \<Rightarrow> t < now)"

text \<open>
  \<open>WITH candidate AS (SELECT id ... WHERE claimable ORDER BY key FOR UPDATE SKIP LOCKED LIMIT 1)\<close>;
  \<open>locked\<close> holds of the rows other transactions have locked.
\<close>

definition candidate ::
  "('r \<Rightarrow> bool) \<Rightarrow> ('r \<Rightarrow> bool) \<Rightarrow> ('r \<Rightarrow> 'k::linorder) \<Rightarrow> 'r list \<Rightarrow> 'r option" where
  "candidate claimable locked key t = first_by key (filter (\<lambda>r. claimable r \<and> \<not> locked r) t)"

lemma candidate_Some:
  assumes "candidate claimable locked key t = Some r"
  shows "r \<in> set t" and "claimable r" and "\<not> locked r"
    and "s \<in> set t \<Longrightarrow> claimable s \<Longrightarrow> \<not> locked s \<Longrightarrow> key r \<le> key s"
  using first_by_Some [of key "filter (\<lambda>r. claimable r \<and> \<not> locked r) t" r] assms
  by (auto simp: candidate_def)

lemma candidate_None:
  "candidate claimable locked key t = None \<longleftrightarrow> (\<forall>r \<in> set t. claimable r \<longrightarrow> locked r)"
  by (auto simp: candidate_def first_by_None filter_empty_conv)

section \<open>The contract\<close>

text \<open>
  A work table: \<open>take_lease now owner deadline\<close> updates the claimed row, \<open>holds now owner row\<close> says that
  the worker owns the row under a lease that has not run out. The laws are what the statements promise:
  a claimable row is held once claimed, up to the deadline, by one owner, and a held row is not
  claimable by anyone.
\<close>

locale lease_table =
  fixes uid :: "'r \<Rightarrow> uuid"
    and claimable :: "timestamp \<Rightarrow> 'r \<Rightarrow> bool"
    and holds :: "timestamp \<Rightarrow> string \<Rightarrow> 'r \<Rightarrow> bool"
    and take_lease :: "timestamp \<Rightarrow> string \<Rightarrow> timestamp \<Rightarrow> 'r \<Rightarrow> 'r"
  assumes claim_holds: "claimable now r \<Longrightarrow> t \<le> deadline \<Longrightarrow> holds t owner (take_lease now owner deadline r)"
    and held_not_claimable: "holds t owner r \<Longrightarrow> \<not> claimable t r"
    and holder_unique: "holds t owner r \<Longrightarrow> holds t owner' r \<Longrightarrow> owner = owner'"
    and uid_kept: "uid (take_lease now owner deadline r) = uid r"
begin

text \<open>
  \<open>rows\<close> with one row per identifier, \<open>c\<close> the candidate of a claim: until the deadline the claimed row
  is held by its owner and by nobody else, and no later claim returns it.
\<close>

lemma claimed_row:
  assumes "candidate (claimable now) locked key rows = Some c"
    and "\<And>r. r \<in> set rows \<Longrightarrow> uid r = uid c \<Longrightarrow> r = c"
    and "r \<in> set (set_where (\<lambda>r. uid r = uid c) (take_lease now owner deadline) rows)" and "uid r = uid c"
  shows "r = take_lease now owner deadline c"
  using assms(2-4) by (auto simp: set_set_where uid_kept)

lemma claimed_exclusive:
  assumes "candidate (claimable now) locked key rows = Some c"
    and "\<And>r. r \<in> set rows \<Longrightarrow> uid r = uid c \<Longrightarrow> r = c"
    and "r \<in> set (set_where (\<lambda>r. uid r = uid c) (take_lease now owner deadline) rows)" and "uid r = uid c"
    and "t \<le> deadline"
  shows "holds t owner r" and "\<not> claimable t r" and "holds t other r \<Longrightarrow> other = owner"
proof -
  have r: "r = take_lease now owner deadline c"
    using assms(1-4) by (rule claimed_row)
  show h: "holds t owner r"
    unfolding r using candidate_Some(2) [OF assms(1)] assms(5) by (rule claim_holds)
  show "\<not> claimable t r"
    using h by (rule held_not_claimable)
  show "holds t other r \<Longrightarrow> other = owner"
    using h holder_unique by blast
qed

lemma next_claim_differs:
  assumes "candidate (claimable now) locked key rows = Some c"
    and "\<And>r. r \<in> set rows \<Longrightarrow> uid r = uid c \<Longrightarrow> r = c"
    and "t \<le> deadline"
    and "candidate (claimable t) locked' key' rows' = Some c'"
    and "set rows' = set (set_where (\<lambda>r. uid r = uid c) (take_lease now owner deadline) rows)"
  shows "uid c' \<noteq> uid c"
  using candidate_Some(1,2) [OF assms(4)] claimed_exclusive(2) [OF assms(1,2) _ _ assms(3)] assms(5) by blast

text \<open>A claim leaves every row that is held at that time as it is.\<close>

lemma held_row_survives_claim:
  assumes "candidate (claimable now) locked key rows = Some c" and "holds now owner r" and "r \<in> set rows"
    and "\<And>r. r \<in> set rows \<Longrightarrow> uid r = uid c \<Longrightarrow> r = c"
  shows "r \<in> set (set_where (\<lambda>r. uid r = uid c) f rows)"
proof -
  have "uid r \<noteq> uid c"
    using assms held_not_claimable candidate_Some(2) [OF assms(1)] by blast
  with assms(3) show ?thesis
    by (auto simp: set_set_where)
qed

end

end
