(* ===== verification/Store_Jobs.thy ===== *)
theory Store_Jobs
  imports Leases
begin

text \<open>
  The durable job queue and the outbox of \<open>crates/openpool-core/src/jobs.rs\<close>, with the operator's views
  of the queue from \<open>persistence_sqlx.rs\<close>. Both tables are instances of the lease contract.
\<close>

definition seconds :: "int \<Rightarrow> timestamp" where
  "seconds n = n * 1000000000"

datatype JobError = JobSqlx SqlError | LeaseLost

abbreviation job_sql :: "SqlError + 'a \<Rightarrow> JobError + 'a" where
  "job_sql \<equiv> map_err JobSqlx"

section \<open>Jobs\<close>

record NewJob =
  nj_id :: JobId
  nj_kind :: string
  nj_deduplication_key :: string
  nj_payload :: json
  nj_max_attempts :: int
  nj_available_at :: timestamp

record ClaimedJob =
  cj_id :: JobId
  cj_kind :: string
  cj_deduplication_key :: string
  cj_payload :: json
  cj_attempts :: int
  cj_max_attempts :: int
  cj_lease_expires_at :: timestamp

datatype JobDisposition = Retried | DispositionDead

definition queued_job :: "externals \<Rightarrow> timestamp \<Rightarrow> NewJob \<Rightarrow> job_row" where
  "queued_job x now job =
     \<lparr>j_id = nj_id job, j_kind = nj_kind job, j_deduplication_key = nj_deduplication_key job,
      j_payload = nj_payload job, j_status = Queued, j_attempts = 0, j_max_attempts = nj_max_attempts job,
      j_available_at = x_timestamptz x (nj_available_at job), j_lease_owner = None,
      j_lease_expires_at = None, j_last_error = None, j_created_at = now, j_updated_at = now\<rparr>"

definition enqueue :: "externals \<Rightarrow> timestamp \<Rightarrow> NewJob \<Rightarrow> db \<Rightarrow> JobError + bool \<times> db" where
  "enqueue x now job db =
     bindR (job_sql (sql_insert_ignore job_check job_conflict (\<lambda>j. (j_kind j, j_deduplication_key j)) True
         (queued_job x now job)
         (jobs db))) (\<lambda>(t, inserted). Ok (inserted, db\<lparr>jobs := t\<rparr>))"

definition job_claimable :: "timestamp \<Rightarrow> job_row \<Rightarrow> bool" where
  "job_claimable now j \<longleftrightarrow>
     (j_status j = Queued \<and> j_available_at j \<le> now) \<or>
     (j_status j = Running \<and> lease_expired now (j_lease_expires_at j))"

definition job_take_lease :: "timestamp \<Rightarrow> string \<Rightarrow> timestamp \<Rightarrow> job_row \<Rightarrow> job_row" where
  "job_take_lease now worker_id deadline j =
     j\<lparr>j_status := Running, j_attempts := j_attempts j + 1, j_lease_owner := Some worker_id,
       j_lease_expires_at := Some deadline, j_updated_at := now\<rparr>"

definition claimed_job :: "timestamp \<Rightarrow> job_row \<Rightarrow> ClaimedJob" where
  "claimed_job deadline j =
     \<lparr>cj_id = j_id j, cj_kind = j_kind j, cj_deduplication_key = j_deduplication_key j,
      cj_payload = j_payload j, cj_attempts = j_attempts j, cj_max_attempts = j_max_attempts j,
      cj_lease_expires_at = deadline\<rparr>"

text \<open>\<open>ORDER BY available_at, created_at\<close>: a stable sort by the second key, then by the first.\<close>

definition claim_job ::
  "(job_row \<Rightarrow> bool) \<Rightarrow> timestamp \<Rightarrow> string \<Rightarrow> int \<Rightarrow> db \<Rightarrow> JobError + ClaimedJob option \<times> db" where
  "claim_job locked now worker_id lease_seconds db =
     (case candidate (job_claimable now) locked j_available_at (sort_key j_created_at (jobs db)) of
        None \<Rightarrow> Ok (None, db)
      | Some j \<Rightarrow>
          let deadline = now + seconds lease_seconds in
          bindR (job_sql (sql_update job_check job_conflict (\<lambda>r. j_id r = j_id j)
              (job_take_lease now worker_id deadline) (jobs db))) (\<lambda>(t, _).
            Ok (Some (claimed_job deadline (job_take_lease now worker_id deadline j)), db\<lparr>jobs := t\<rparr>)))"

definition succeed :: "timestamp \<Rightarrow> JobId \<Rightarrow> string \<Rightarrow> db \<Rightarrow> JobError + unit \<times> db" where
  "succeed now job_id worker_id db =
     bindR (job_sql (sql_update job_check job_conflict
         (\<lambda>j. j_id j = job_id \<and> j_status j = Running \<and> j_lease_owner j = Some worker_id)
         (\<lambda>j. j\<lparr>j_status := Succeeded, j_lease_owner := None, j_lease_expires_at := None, j_updated_at := now\<rparr>)
         (jobs db))) (\<lambda>(t, affected).
     if affected \<noteq> 1 then Err LeaseLost else Ok ((), db\<lparr>jobs := t\<rparr>))"

definition fail_or_retry ::
  "timestamp \<Rightarrow> ClaimedJob \<Rightarrow> string \<Rightarrow> int \<Rightarrow> string \<Rightarrow> db \<Rightarrow> JobError + JobDisposition \<times> db" where
  "fail_or_retry now job worker_id retry_after_seconds error db =
     (let status = (if cj_attempts job \<ge> cj_max_attempts job then Dead else Queued) in
     bindR (job_sql (sql_update job_check job_conflict
         (\<lambda>j. j_id j = cj_id job \<and> j_status j = Running \<and> j_lease_owner j = Some worker_id)
         (\<lambda>j. j\<lparr>j_status := status, j_available_at := now + seconds retry_after_seconds,
                j_lease_owner := None, j_lease_expires_at := None, j_last_error := Some error,
                j_updated_at := now\<rparr>)
         (jobs db))) (\<lambda>(t, affected).
     if affected \<noteq> 1 then Err LeaseLost
     else Ok (if status = Dead then DispositionDead else Retried, db\<lparr>jobs := t\<rparr>)))"

section \<open>Operator views\<close>

text \<open>\<open>ORDER BY updated_at DESC LIMIT 100\<close>.\<close>

record OperatorJob =
  oj_id :: uuid
  oj_kind :: string
  oj_status :: JobStatus
  oj_attempts :: int
  oj_max_attempts :: int
  oj_last_error :: "string option"

definition operator_job :: "job_row \<Rightarrow> OperatorJob" where
  "operator_job j =
     \<lparr>oj_id = j_id j, oj_kind = j_kind j, oj_status = j_status j, oj_attempts = j_attempts j,
      oj_max_attempts = j_max_attempts j, oj_last_error = j_last_error j\<rparr>"

definition operator_jobs :: "db \<Rightarrow> OperatorJob list" where
  "operator_jobs db = map operator_job (take 100 (sort_key (\<lambda>j. - j_updated_at j) (jobs db)))"

definition retry_dead_job :: "timestamp \<Rightarrow> uuid \<Rightarrow> db \<Rightarrow> PersistenceError + bool \<times> db" where
  "retry_dead_job now uid db =
     bindR (sql (sql_update job_check job_conflict (\<lambda>j. j_id j = uid \<and> j_status j = Dead)
         (\<lambda>j. j\<lparr>j_status := Queued, j_attempts := 0, j_available_at := now, j_lease_owner := None,
                j_lease_expires_at := None, j_last_error := None, j_updated_at := now\<rparr>)
         (jobs db))) (\<lambda>(t, affected). Ok (affected = 1, db\<lparr>jobs := t\<rparr>))"

section \<open>Outbox\<close>

record ClaimedOutboxEvent =
  ce_id :: uuid
  ce_aggregate_type :: string
  ce_aggregate_id :: uuid
  ce_event_type :: string
  ce_payload :: json

definition outbox_claimable :: "timestamp \<Rightarrow> outbox_row \<Rightarrow> bool" where
  "outbox_claimable now r \<longleftrightarrow>
     x_delivered_at r = None \<and> (x_lease_expires_at r = None \<or> lease_expired now (x_lease_expires_at r))"

definition outbox_take_lease :: "timestamp \<Rightarrow> string \<Rightarrow> timestamp \<Rightarrow> outbox_row \<Rightarrow> outbox_row" where
  "outbox_take_lease now consumer deadline r =
     r\<lparr>x_lease_owner := Some consumer, x_lease_expires_at := Some deadline, x_attempts := x_attempts r + 1\<rparr>"

definition claim_outbox ::
  "(outbox_row \<Rightarrow> bool) \<Rightarrow> timestamp \<Rightarrow> string \<Rightarrow> int \<Rightarrow> db \<Rightarrow> JobError + ClaimedOutboxEvent option \<times> db" where
  "claim_outbox locked now consumer lease_seconds db =
     (case candidate (outbox_claimable now) locked x_occurred_at (outbox_events db) of
        None \<Rightarrow> Ok (None, db)
      | Some r \<Rightarrow>
          bindR (job_sql (sql_update outbox_check outbox_conflict (\<lambda>s. x_id s = x_id r)
              (outbox_take_lease now consumer (now + seconds lease_seconds)) (outbox_events db))) (\<lambda>(t, _).
            Ok (Some \<lparr>ce_id = x_id r, ce_aggregate_type = x_aggregate_type r, ce_aggregate_id = x_aggregate_id r,
                      ce_event_type = x_event_type r, ce_payload = x_payload r\<rparr>, db\<lparr>outbox_events := t\<rparr>)))"

definition mark_delivered :: "timestamp \<Rightarrow> uuid \<Rightarrow> string \<Rightarrow> db \<Rightarrow> JobError + unit \<times> db" where
  "mark_delivered now event_id consumer db =
     bindR (job_sql (sql_update outbox_check outbox_conflict
         (\<lambda>r. x_id r = event_id \<and> x_lease_owner r = Some consumer \<and> x_delivered_at r = None)
         (\<lambda>r. r\<lparr>x_delivered_at := Some now, x_lease_owner := None, x_lease_expires_at := None\<rparr>)
         (outbox_events db))) (\<lambda>(t, affected).
     if affected \<noteq> 1 then Err LeaseLost else Ok ((), db\<lparr>outbox_events := t\<rparr>))"

section \<open>Instances of the lease contract\<close>

definition job_holds :: "timestamp \<Rightarrow> string \<Rightarrow> job_row \<Rightarrow> bool" where
  "job_holds now owner j \<longleftrightarrow> j_status j = Running \<and> j_lease_owner j = Some owner \<and>
     (\<exists>t. j_lease_expires_at j = Some t \<and> now \<le> t)"

definition outbox_holds :: "timestamp \<Rightarrow> string \<Rightarrow> outbox_row \<Rightarrow> bool" where
  "outbox_holds now owner r \<longleftrightarrow> x_delivered_at r = None \<and> x_lease_owner r = Some owner \<and>
     (\<exists>t. x_lease_expires_at r = Some t \<and> now \<le> t)"

interpretation job_lease: lease_table j_id job_claimable job_holds job_take_lease
  by unfold_locales
     (auto simp: job_holds_def job_claimable_def job_take_lease_def lease_expired_def)

interpretation outbox_lease: lease_table x_id outbox_claimable outbox_holds outbox_take_lease
  by unfold_locales
     (auto simp: outbox_holds_def outbox_claimable_def outbox_take_lease_def lease_expired_def)

section \<open>Lemmas\<close>

lemma job_row_unique:
  "table_ok job_check job_conflict t \<Longrightarrow> r \<in> set t \<Longrightarrow> s \<in> set t \<Longrightarrow> j_id r = j_id s \<Longrightarrow> r = s"
  by (rule jobs_tbl.row_unique) (auto simp: job_conflict_def)

lemma claim_job_Some:
  assumes "claim_job locked now w n db = Ok (Some c, db')"
  obtains j where "candidate (job_claimable now) locked j_available_at (sort_key j_created_at (jobs db)) = Some j"
    and "db' = db\<lparr>jobs := set_where (\<lambda>r. j_id r = j_id j) (job_take_lease now w (now + seconds n)) (jobs db)\<rparr>"
    and "c = claimed_job (now + seconds n) (job_take_lease now w (now + seconds n) j)"
  using assms unfolding claim_job_def
  by (auto simp: Let_def bindR_eq_Ok map_err_eq_Ok sql_update_Ok split: option.splits)

lemma claim_job_None:
  "claim_job locked now w n db = Ok (None, db') \<Longrightarrow> db' = db"
  by (auto simp: claim_job_def Let_def bindR_eq_Ok split: option.splits)

lemma claim_job_ok:
  assumes "claim_job locked now w n db = Ok (c, db')" and "table_ok job_check job_conflict (jobs db)"
  shows "table_ok job_check job_conflict (jobs db')"
  using assms by (auto simp: claim_job_def Let_def bindR_eq_Ok map_err_eq_Ok split: option.splits
      dest: jobs_tbl.update_ok)

section \<open>Queue steps\<close>

text \<open>What a worker can do to the queue at a given time.\<close>

inductive queue_step :: "externals \<Rightarrow> timestamp \<Rightarrow> string \<Rightarrow> db \<Rightarrow> db \<Rightarrow> bool" for x now w where
  step_enqueue: "enqueue x now job db = Ok (b, db') \<Longrightarrow> queue_step x now w db db'"
| step_claim: "claim_job locked now w n db = Ok (c, db') \<Longrightarrow> queue_step x now w db db'"
| step_succeed: "succeed now jid w db = Ok (u, db') \<Longrightarrow> queue_step x now w db db'"
| step_fail: "fail_or_retry now job w n err db = Ok (d, db') \<Longrightarrow> queue_step x now w db db'"
| step_retry_dead: "retry_dead_job now uid db = Ok (b, db') \<Longrightarrow> queue_step x now w db db'"

lemma queue_step_ok:
  assumes "queue_step x now w db db'" and "table_ok job_check job_conflict (jobs db)"
  shows "table_ok job_check job_conflict (jobs db')"
  using assms
proof cases
  case (step_claim locked n c)
  then show ?thesis
    using assms(2) claim_job_ok by blast
qed (use assms(2) in \<open>auto simp: enqueue_def succeed_def fail_or_retry_def retry_dead_job_def Let_def bindR_eq_Ok
      map_err_eq_Ok split: if_splits dest: jobs_tbl.insert_ignore_ok jobs_tbl.update_ok\<close>)

text \<open>A lease that has not run out survives every step of every other worker.\<close>

lemma held_job_survives:
  assumes "queue_step x now w db db'" and "table_ok job_check job_conflict (jobs db)"
    and "j \<in> set (jobs db)" and "job_holds now owner j" and "w \<noteq> owner"
  shows "j \<in> set (jobs db')"
  using assms(1)
proof cases
  case (step_claim locked n c)
  show ?thesis
  proof (cases c)
    case None
    then show ?thesis
      using step_claim claim_job_None assms(3) by blast
  next
    case (Some d)
    then obtain k where k: "candidate (job_claimable now) locked j_available_at (sort_key j_created_at (jobs db)) = Some k"
      and db': "db' = db\<lparr>jobs := set_where (\<lambda>r. j_id r = j_id k) (job_take_lease now w (now + seconds n)) (jobs db)\<rparr>"
      using step_claim claim_job_Some by blast
    have "k \<in> set (jobs db)"
      using candidate_Some(1) [OF k] by simp
    then have u: "r = k" if "r \<in> set (sort_key j_created_at (jobs db))" "j_id r = j_id k" for r
      using that job_row_unique [OF assms(2)] by simp
    have "j \<in> set (set_where (\<lambda>r. j_id r = j_id k) (job_take_lease now w (now + seconds n)) (sort_key j_created_at (jobs db)))"
      using k assms(4) _ u by (rule job_lease.held_row_survives_claim) (simp add: assms(3))
    then show ?thesis
      by (simp add: db' set_set_where)
  qed
qed (use assms(3-5) in \<open>auto simp: enqueue_def succeed_def fail_or_retry_def retry_dead_job_def Let_def bindR_eq_Ok
      map_err_eq_Ok sql_insert_ignore_Ok sql_update_Ok set_set_where job_holds_def split: if_splits\<close>)

definition sample_queue :: db where
  "sample_queue = empty_db\<lparr>jobs := [default_job 1 0 ''k'' ''a'' JNull, default_job 2 0 ''k'' ''b'' JNull]\<rparr>"

section \<open>Properties\<close>

text \<open>C25. Mutual exclusion of job claims: whatever other workers do to the queue after a claim, for as
  long as the lease runs the job stays running under its owner, and no claim of another worker returns
  it.\<close>

theorem claimed_job_is_exclusive:
  assumes "table_ok job_check job_conflict (jobs db)"
    and "claim_job locked now w n db = Ok (Some c, db1)"
    and "(\<lambda>a b. \<exists>t w'. t \<le> now + seconds n \<and> w' \<noteq> w \<and> queue_step x t w' a b)\<^sup>*\<^sup>* db1 db2"
    and "t \<le> now + seconds n" and "claim_job locked' t w' m db2 = Ok (Some c', db3)"
  shows "cj_id c' \<noteq> cj_id c \<and>
    (\<exists>j \<in> set (jobs db2). j_id j = cj_id c \<and> j_status j = Running \<and> j_lease_owner j = Some w)"
proof -
  obtain k where k: "candidate (job_claimable now) locked j_available_at (sort_key j_created_at (jobs db)) = Some k"
    and db1: "db1 = db\<lparr>jobs := set_where (\<lambda>r. j_id r = j_id k) (job_take_lease now w (now + seconds n)) (jobs db)\<rparr>"
    and c: "c = claimed_job (now + seconds n) (job_take_lease now w (now + seconds n) k)"
    using assms(2) by (rule claim_job_Some)
  let ?j = "job_take_lease now w (now + seconds n) k"
  have holds: "job_holds t w ?j" if "t \<le> now + seconds n" for t
    using candidate_Some(2) [OF k] that by (rule job_lease.claim_holds)
  have "?j \<in> set (jobs db1)" "table_ok job_check job_conflict (jobs db1)"
    using candidate_Some(1) [OF k] claim_job_ok [OF assms(2,1)] by (auto simp: db1 set_set_where)
  with assms(3) have inv: "?j \<in> set (jobs db2) \<and> table_ok job_check job_conflict (jobs db2)"
    by (induction rule: rtranclp_induct) (blast intro: held_job_survives queue_step_ok holds)+
  obtain k' where k': "candidate (job_claimable t) locked' j_available_at (sort_key j_created_at (jobs db2)) = Some k'"
    and c': "c' = claimed_job (t + seconds m) (job_take_lease t w' (t + seconds m) k')"
    using assms(5) by (rule claim_job_Some)
  have "k' \<noteq> ?j" "k' \<in> set (jobs db2)"
    using candidate_Some(1,2) [OF k'] job_lease.held_not_claimable [OF holds [OF assms(4)]] by auto
  then have "j_id k' \<noteq> j_id ?j"
    using job_row_unique inv by blast
  then have "cj_id c' \<noteq> cj_id c"
    by (simp add: c c' claimed_job_def job_take_lease_def)
  moreover have "j_id ?j = cj_id c \<and> j_status ?j = Running \<and> j_lease_owner ?j = Some w"
    by (simp add: c claimed_job_def job_take_lease_def)
  ultimately show ?thesis
    using inv by blast
qed

theorem claimed_job_is_exclusive_witness:
  "\<exists>c db1. claim_job (\<lambda>_. False) 10 ''w1'' 60 sample_queue = Ok (Some c, db1) \<and>
     (\<exists>c' db3. claim_job (\<lambda>_. False) 20 ''w2'' 60 db1 = Ok (Some c', db3) \<and> cj_id c' \<noteq> cj_id c)"
proof -
  obtain c db1 where c: "claim_job (\<lambda>_. False) 10 ''w1'' 60 sample_queue = Ok (Some c, db1)"
    and j: "jobs db1 = [job_take_lease 10 ''w1'' (10 + seconds 60) (default_job 1 0 ''k'' ''a'' JNull),
      default_job 2 0 ''k'' ''b'' JNull]"
    by (simp add: claim_job_def sample_queue_def candidate_def first_by_def job_claimable_def default_job_def
        sql_update_def set_where_def job_check_def job_take_lease_def job_conflict_def integer_col_def Let_def)
  obtain c' db3 where c': "claim_job (\<lambda>_. False) 20 ''w2'' 60 db1 = Ok (Some c', db3)"
    by (simp add: claim_job_def j candidate_def first_by_def job_claimable_def default_job_def seconds_def
        sql_update_def set_where_def job_check_def job_take_lease_def job_conflict_def integer_col_def Let_def
        lease_expired_def)
  have "table_ok job_check job_conflict (jobs sample_queue)"
    by (simp add: table_ok_def sample_queue_def default_job_def job_check_def job_conflict_def integer_col_def)
  then have "cj_id c' \<noteq> cj_id c"
    using claimed_job_is_exclusive [OF _ c _ _ c'] by (auto simp: seconds_def)
  with c c' show ?thesis by blast
qed

text \<open>The queue is idempotent per kind and key: \<open>enqueue\<close> reports an insertion exactly when no job of
  that kind and key exists, and then adds one queued job; otherwise the queue is unchanged.\<close>

theorem enqueue_idempotent:
  assumes "enqueue x now job db = Ok (inserted, db')"
  shows "inserted = (\<forall>j \<in> set (jobs db). (j_kind j, j_deduplication_key j) \<noteq> (nj_kind job, nj_deduplication_key job)) \<and>
    db' = (if inserted then db\<lparr>jobs := jobs db @ [queued_job x now job]\<rparr> else db) \<and>
    enqueue x now job db' = Ok (False, db')"
proof -
  let ?j = "queued_job x now job" and ?key = "\<lambda>j. (j_kind j, j_deduplication_key j)"
  have key: "?key ?j = (nj_kind job, nj_deduplication_key job)"
    by (simp add: queued_job_def)
  from assms obtain t where t: "sql_insert_ignore job_check job_conflict ?key True ?j (jobs db) = Ok (t, inserted)"
    and db': "db' = db\<lparr>jobs := t\<rparr>"
    unfolding enqueue_def by (auto simp: bindR_eq_Ok map_err_eq_Ok)
  from t have check: "job_check ?j" and present: "\<exists>j \<in> set t. ?key j = ?key ?j"
    and ins: "inserted = (\<forall>j \<in> set (jobs db). ?key j \<noteq> ?key ?j)"
    and t': "t = (if inserted then jobs db @ [?j] else jobs db)"
    by (auto simp: sql_insert_ignore_Ok split: if_splits)
  have "enqueue x now job db' = Ok (False, db')"
    using check present by (simp add: enqueue_def db' sql_insert_ignore_def)
  then show ?thesis
    using ins t' db' unfolding key by simp
qed

theorem enqueue_idempotent_witness:
  "enqueue sample_ext 5 \<lparr>nj_id = 9, nj_kind = ''k'', nj_deduplication_key = ''a'', nj_payload = JNull,
     nj_max_attempts = 3, nj_available_at = 0\<rparr> sample_queue = Ok (False, sample_queue)"
proof -
  have "\<exists>b db'. enqueue sample_ext 5 \<lparr>nj_id = 9, nj_kind = ''k'', nj_deduplication_key = ''a'', nj_payload = JNull,
     nj_max_attempts = 3, nj_available_at = 0\<rparr> sample_queue = Ok (b, db')"
    by (simp add: enqueue_def sql_insert_ignore_def queued_job_def job_check_def integer_col_def sample_queue_def
        default_job_def) blast
  then show ?thesis
    using enqueue_idempotent by (fastforce simp: sample_queue_def default_job_def)
qed

text \<open>The retry budget: a claimed job that fails is queued again with the requested delay while its
  attempts are below the maximum and dead otherwise; a dead job is never claimable, and only
  \<open>retry_dead_job\<close> revives it, with a fresh budget.\<close>

theorem failed_job_disposition:
  assumes "table_ok job_check job_conflict (jobs db)" and "j \<in> set (jobs db)"
    and "j_id j = cj_id job" and "j_status j = Running" and "j_lease_owner j = Some w"
  shows "\<exists>db' j'. fail_or_retry now job w delay err db =
      Ok (if cj_attempts job < cj_max_attempts job then Retried else DispositionDead, db') \<and>
    j' \<in> set (jobs db') \<and> j_id j' = cj_id job \<and> j_attempts j' = j_attempts j \<and>
    (if cj_attempts job < cj_max_attempts job
     then \<forall>t. job_claimable t j' \<longleftrightarrow> now + seconds delay \<le> t
     else (\<forall>t. \<not> job_claimable t j') \<and> (\<exists>db''. retry_dead_job t0 (cj_id job) db' = Ok (True, db'')))"
proof -
  let ?P = "\<lambda>j. j_id j = cj_id job \<and> j_status j = Running \<and> j_lease_owner j = Some w"
  let ?st = "if cj_attempts job \<ge> cj_max_attempts job then Dead else Queued"
  let ?f = "\<lambda>j. j\<lparr>j_status := ?st, j_available_at := now + seconds delay,
                j_lease_owner := None, j_lease_expires_at := None, j_last_error := Some err, j_updated_at := now\<rparr>"
  let ?t = "set_where ?P ?f (jobs db)" and ?j = "?f j"
  have upd: "sql_update job_check job_conflict ?P ?f (jobs db) = Ok (?t, length (filter ?P (jobs db)))"
    by (rule jobs_tbl.update_succeeds [OF assms(1)])
       (use assms(1) in \<open>auto simp: table_ok_def job_check_def job_conflict_def\<close>)
  have one: "length (filter ?P (jobs db)) = 1"
    by (rule jobs_tbl.affected_1 [OF assms(1,2)]) (use assms(3-5) in \<open>auto simp: job_conflict_def\<close>)
  have j: "?j \<in> set ?t"
    using assms(2-5) by (auto simp: set_set_where)
  have ok: "table_ok job_check job_conflict ?t"
    using assms(1) upd by (rule jobs_tbl.update_ok)
  have retry: "\<exists>db''. retry_dead_job t0 (cj_id job) (db\<lparr>jobs := ?t\<rparr>) = Ok (True, db'')"
    if "cj_attempts job \<ge> cj_max_attempts job"
  proof -
    let ?Q = "\<lambda>j. j_id j = cj_id job \<and> j_status j = Dead"
    let ?g = "\<lambda>j. j\<lparr>j_status := Queued, j_attempts := 0, j_available_at := t0, j_lease_owner := None,
                j_lease_expires_at := None, j_last_error := None, j_updated_at := t0\<rparr>"
    have "length (filter ?Q ?t) = 1"
      by (rule jobs_tbl.affected_1 [OF ok j]) (use that assms(3) in \<open>auto simp: job_conflict_def\<close>)
    moreover have "sql_update job_check job_conflict ?Q ?g ?t = Ok (set_where ?Q ?g ?t, length (filter ?Q ?t))"
      by (rule jobs_tbl.update_succeeds [OF ok])
         (use ok in \<open>auto simp: table_ok_def job_check_def job_conflict_def integer_col_def\<close>)
    ultimately show ?thesis
      by (simp add: retry_dead_job_def)
  qed
  show ?thesis
    unfolding fail_or_retry_def Let_def upd map_err.simps bindR.simps prod.case one
    using j assms(3) retry by (intro exI [of _ "db\<lparr>jobs := ?t\<rparr>"] exI [of _ ?j]) (auto simp: job_claimable_def)
qed

theorem failed_job_disposition_witness:
  "\<exists>db'. fail_or_retry 20 (claimed_job 100 (job_take_lease 10 ''w'' 100 (default_job 1 0 ''k'' ''a'' JNull))) ''w'' 15 ''e''
     (empty_db\<lparr>jobs := [job_take_lease 10 ''w'' 100 (default_job 1 0 ''k'' ''a'' JNull)]\<rparr>) = Ok (Retried, db')"
  using failed_job_disposition [of "empty_db\<lparr>jobs := [job_take_lease 10 ''w'' 100 (default_job 1 0 ''k'' ''a'' JNull)]\<rparr>"
      "job_take_lease 10 ''w'' 100 (default_job 1 0 ''k'' ''a'' JNull)"
      "claimed_job 100 (job_take_lease 10 ''w'' 100 (default_job 1 0 ''k'' ''a'' JNull))" "''w''" 20 15 "''e''" 0]
  by (auto simp: job_take_lease_def default_job_def claimed_job_def table_ok_def job_check_def integer_col_def)

end
