(* ===== verification/Store_Payouts.thy ===== *)
theory Store_Payouts
  imports Store_Draw Store_Jobs
begin

text \<open>
  Payout execution in \<open>crates/openpool-core/src/persistence_sqlx.rs\<close>: claiming a payout before the
  provider is called, finding its recipient, settling it (which completes the raffle with the last
  one) and recording a failure. Payouts are the third instance of the lease contract.
\<close>

section \<open>Operations\<close>

record ClaimedPayout =
  cp_id :: uuid
  cp_raffle_id :: RaffleId
  cp_recipient_type :: RecipientType
  cp_amount_sats :: Sats
  cp_idempotency_key :: string

definition payout_claimable :: "RaffleId \<Rightarrow> timestamp \<Rightarrow> payout_row \<Rightarrow> bool" where
  "payout_claimable raffle_id now p \<longleftrightarrow>
     p_raffle_id p = raffle_id \<and>
     (p_status p \<in> {PayPending, PayFailed} \<or>
      (p_status p = PayProcessing \<and> lease_expired now (p_lease_expires_at p)))"

definition payout_take_lease :: "timestamp \<Rightarrow> string \<Rightarrow> timestamp \<Rightarrow> payout_row \<Rightarrow> payout_row" where
  "payout_take_lease now worker_id deadline p =
     p\<lparr>p_status := PayProcessing, p_failure_reason := None, p_lease_owner := Some worker_id,
       p_lease_expires_at := Some deadline\<rparr>"

text \<open>\<open>ORDER BY CASE WHEN status = 'processing' THEN 0 ELSE 1 END, created_at\<close>.\<close>

definition payout_rank :: "payout_row \<Rightarrow> nat" where
  "payout_rank p = (if p_status p = PayProcessing then 0 else 1)"

definition claim_payout ::
  "(payout_row \<Rightarrow> bool) \<Rightarrow> timestamp \<Rightarrow> RaffleId \<Rightarrow> string \<Rightarrow> db \<Rightarrow> PersistenceError + ClaimedPayout option \<times> db" where
  "claim_payout locked now raffle_id worker_id db =
     (case candidate (payout_claimable raffle_id now) locked payout_rank (sort_key p_created_at (payouts db)) of
        None \<Rightarrow> Ok (None, db)
      | Some p \<Rightarrow>
          bindR (sql (sql_update payout_check payout_conflict (\<lambda>r. p_id r = p_id p)
              (payout_take_lease now worker_id (now + seconds 60)) (payouts db))) (\<lambda>(t, _).
          bindR (db_as_u64 (p_amount_sats p)) (\<lambda>amount.
            Ok (Some \<lparr>cp_id = p_id p, cp_raffle_id = p_raffle_id p, cp_recipient_type = p_recipient_type p,
                      cp_amount_sats = Sats amount, cp_idempotency_key = p_idempotency_key p\<rparr>,
                db\<lparr>payouts := t\<rparr>))))"

text \<open>
  The winner's ciphertext comes through the draw, its entry and the entry's invoice. A NULL column in
  a found row is a decoding error of \<open>query_scalar\<close>.
\<close>

definition winner_ciphertexts :: "RaffleId \<Rightarrow> db \<Rightarrow> bytes option list" where
  "winner_ciphertexts raffle_id db =
     [i_payout_address_ciphertext i. d \<leftarrow> draws db, d_raffle_id d = raffle_id,
        e \<leftarrow> entries db, e_id e = d_winner_entry_id d, i \<leftarrow> invoices db, i_id i = e_invoice_id e]"

definition organizer_ciphertexts :: "RaffleId \<Rightarrow> db \<Rightarrow> bytes option list" where
  "organizer_ciphertexts raffle_id db =
     [Some (o_lightning_address_ciphertext o'). r \<leftarrow> raffles db, r_id r = raffle_id,
        o' \<leftarrow> organizers db, o_id o' = r_organizer_id r]"

definition first_ciphertext :: "bytes option list \<Rightarrow> PersistenceError + bytes option" where
  "first_ciphertext cs =
     (case cs of [] \<Rightarrow> Ok None
      | None # _ \<Rightarrow> Err (Sqlx ColumnDecode)
      | Some c # _ \<Rightarrow> Ok (Some c))"

definition payout_recipient_ciphertext :: "ClaimedPayout \<Rightarrow> db \<Rightarrow> PersistenceError + bytes option" where
  "payout_recipient_ciphertext payout db =
     (case cp_recipient_type payout of
        RWinner \<Rightarrow> first_ciphertext (winner_ciphertexts (cp_raffle_id payout) db)
      | ROrganizer \<Rightarrow> first_ciphertext (organizer_ciphertexts (cp_raffle_id payout) db)
      | RPlatform \<Rightarrow> Ok None
      | RRefund \<Rightarrow> Err InvalidStatus)"

definition settle_row :: "timestamp \<Rightarrow> string \<Rightarrow> payout_row \<Rightarrow> payout_row" where
  "settle_row now provider_reference p =
     p\<lparr>p_status := PaySettled, p_provider_reference := Some provider_reference,
       p_settled_at := Some now, p_lease_owner := None, p_lease_expires_at := None\<rparr>"

definition fail_row :: "string \<Rightarrow> payout_row \<Rightarrow> payout_row" where
  "fail_row reason p =
     p\<lparr>p_status := PayFailed, p_failure_reason := Some reason,
       p_lease_owner := None, p_lease_expires_at := None\<rparr>"

definition settle_payout ::
  "externals \<Rightarrow> (nat \<Rightarrow> uuid) \<Rightarrow> timestamp \<Rightarrow> uuid \<Rightarrow> string \<Rightarrow> string \<Rightarrow> db \<Rightarrow> PersistenceError + bool \<times> db" where
  "settle_payout x ids now payout_id worker_id provider_reference db =
     (let mine = (\<lambda>p. p_id p = payout_id \<and> p_status p = PayProcessing \<and> p_lease_owner p = Some worker_id) in
     bindR (sql (sql_update payout_check payout_conflict mine
         (settle_row now provider_reference) (payouts db))) (\<lambda>(t, _).
     bindR (sql (fetch_one mine (payouts db))) (\<lambda>p.
     let raffle_id = p_raffle_id p;
         remaining = length (filter (\<lambda>p. p_raffle_id p = raffle_id \<and> p_status p \<noteq> PaySettled) t) in
     if remaining = 0 then
       bindR (sql (sql_update raffle_check raffle_conflict (\<lambda>r. r_id r = raffle_id \<and> r_status r = PayoutPending)
           (set_status now PaidOut) (raffles db))) (\<lambda>(rs, _).
       bindR (insert_job (ids 0) now ''proof.generate'' (x_uuid_text x raffle_id)
           (JObj [(''raffle_id'', JStr (x_uuid_text x raffle_id))]) (db\<lparr>payouts := t, raffles := rs\<rparr>)) (\<lambda>db.
         Ok (True, db)))
     else Ok (False, db\<lparr>payouts := t\<rparr>))))"

definition fail_payout :: "uuid \<Rightarrow> string \<Rightarrow> string \<Rightarrow> db \<Rightarrow> PersistenceError + unit \<times> db" where
  "fail_payout payout_id worker_id reason db =
     bindR (sql (sql_update payout_check payout_conflict
         (\<lambda>p. p_id p = payout_id \<and> p_status p = PayProcessing \<and> p_lease_owner p = Some worker_id)
         (fail_row reason) (payouts db))) (\<lambda>(t, _). Ok ((), db\<lparr>payouts := t\<rparr>))"

section \<open>The lease contract\<close>

definition payout_holds :: "timestamp \<Rightarrow> string \<Rightarrow> payout_row \<Rightarrow> bool" where
  "payout_holds now owner p \<longleftrightarrow> p_status p = PayProcessing \<and> p_lease_owner p = Some owner \<and>
     (\<exists>t. p_lease_expires_at p = Some t \<and> now \<le> t)"

interpretation payout_lease: lease_table p_id "payout_claimable rid" payout_holds payout_take_lease
  for rid
  by unfold_locales
     (auto simp: payout_holds_def payout_claimable_def payout_take_lease_def lease_expired_def)

section \<open>Lemmas\<close>

lemma payout_row_unique:
  "table_ok payout_check payout_conflict t \<Longrightarrow> r \<in> set t \<Longrightarrow> s \<in> set t \<Longrightarrow> p_id r = p_id s \<Longrightarrow> r = s"
  by (rule payouts_tbl.row_unique) (auto simp: payout_conflict_def)

lemma claim_payout_Some:
  assumes "claim_payout locked now rid w db = Ok (Some c, db')"
  obtains p where
    "candidate (payout_claimable rid now) locked payout_rank (sort_key p_created_at (payouts db)) = Some p"
    and "db' = db\<lparr>payouts := set_where (\<lambda>r. p_id r = p_id p) (payout_take_lease now w (now + seconds 60)) (payouts db)\<rparr>"
    and "c = \<lparr>cp_id = p_id p, cp_raffle_id = p_raffle_id p, cp_recipient_type = p_recipient_type p,
              cp_amount_sats = Sats (of_int (p_amount_sats p)), cp_idempotency_key = p_idempotency_key p\<rparr>"
    and "0 \<le> p_amount_sats p"
  using assms unfolding claim_payout_def
  by (auto simp: bindR_eq_Ok map_err_eq_Ok sql_update_Ok db_as_u64_Ok split: option.splits)

lemma claim_payout_None:
  assumes "claim_payout locked now rid w db = Ok (None, db')"
  shows "db' = db" and "\<forall>p \<in> set (payouts db). payout_claimable rid now p \<longrightarrow> locked p"
  using assms by (auto simp: claim_payout_def bindR_eq_Ok candidate_None split: option.splits)

end
