(* ===== verification/Store_Bitcoin.thy ===== *)
theory Store_Bitcoin
  imports Schema
begin

text \<open>
  Observed Bitcoin blocks in \<open>crates/openpool-core/src/persistence_sqlx.rs\<close>: recording a canonical
  block, which demotes the blocks it displaces, and the check that a block is still canonical.
\<close>

section \<open>Operations\<close>

definition block_row_of :: "externals \<Rightarrow> timestamp \<Rightarrow> int \<Rightarrow> Hash32 \<Rightarrow> Hash32 \<Rightarrow> timestamp \<Rightarrow> block_row" where
  "block_row_of x now height block_hash previous_hash block_time =
     \<lparr>b_height = height, b_block_hash = as_bytes block_hash, b_previous_hash = as_bytes previous_hash,
      b_block_time = x_timestamptz x block_time, b_is_canonical = True, b_observed_at = now\<rparr>"

text \<open>\<open>INSERT ... ON CONFLICT (block_hash) DO UPDATE\<close>: the height of a known block is kept.\<close>

definition refresh_block :: "block_row \<Rightarrow> block_row \<Rightarrow> block_row" where
  "refresh_block row b =
     b\<lparr>b_previous_hash := b_previous_hash row, b_block_time := b_block_time row,
       b_is_canonical := True, b_observed_at := b_observed_at row\<rparr>"

definition upsert_block :: "block_row \<Rightarrow> block_row list \<Rightarrow> SqlError + block_row list" where
  "upsert_block row t =
     (if \<not> block_check row then Err CheckViolation
      else if \<exists>b \<in> set t. b_block_hash b = b_block_hash row then
        bindR (sql_update block_check block_conflict (\<lambda>b. b_block_hash b = b_block_hash row)
            (refresh_block row) t) (\<lambda>(t', _). Ok t')
      else sql_insert block_check block_conflict True row t)"

definition demote :: "block_row \<Rightarrow> block_row" where
  "demote b = b\<lparr>b_is_canonical := False\<rparr>"

definition record_canonical_block ::
  "externals \<Rightarrow> timestamp \<Rightarrow> u64 \<Rightarrow> Hash32 \<Rightarrow> Hash32 \<Rightarrow> timestamp \<Rightarrow> db \<Rightarrow> PersistenceError + unit \<times> db" where
  "record_canonical_block x now height block_hash previous_hash block_time db =
     bindR (db_as_i64 height) (\<lambda>h.
     let existing = map_option b_block_hash
           (fetch_optional (\<lambda>b. b_height b = h \<and> b_is_canonical b) (bitcoin_blocks db)) in
     bindR (if existing \<noteq> Some (as_bytes block_hash)
            then sql (sql_update block_check block_conflict (\<lambda>b. b_is_canonical b \<and> b_height b \<ge> h) demote
                   (bitcoin_blocks db))
            else Ok (bitcoin_blocks db, 0)) (\<lambda>(t, _).
     bindR (sql (upsert_block (block_row_of x now h block_hash previous_hash block_time) t)) (\<lambda>t'.
       Ok ((), db\<lparr>bitcoin_blocks := t'\<rparr>))))"

definition canonical_block_matches :: "u64 \<Rightarrow> Hash32 \<Rightarrow> db \<Rightarrow> PersistenceError + bool" where
  "canonical_block_matches height block_hash db =
     bindR (db_as_i64 height) (\<lambda>h.
       Ok (\<exists>b \<in> set (bitcoin_blocks db).
             b_height b = h \<and> b_block_hash b = as_bytes block_hash \<and> b_is_canonical b))"

section \<open>Lemmas\<close>

lemma refresh_block_simps [simp]:
  "b_height (refresh_block row b) = b_height b" "b_block_hash (refresh_block row b) = b_block_hash b"
  "b_is_canonical (refresh_block row b)" "b_previous_hash (refresh_block row b) = b_previous_hash row"
  by (simp_all add: refresh_block_def)

abbreviation blocks_ok :: "block_row list \<Rightarrow> bool" where
  "blocks_ok \<equiv> table_ok block_check block_conflict"

lemma upsert_block_ok: "blocks_ok t \<Longrightarrow> upsert_block row t = Ok t' \<Longrightarrow> blocks_ok t'"
  by (auto simp: upsert_block_def bindR_eq_Ok split: if_splits
      dest: blocks_tbl.update_ok blocks_tbl.insert_ok)

lemma record_canonical_block_Ok:
  assumes "record_canonical_block x now height bh ph bt db = Ok (u, db')"
  obtains t' where "db' = db\<lparr>bitcoin_blocks := t'\<rparr>"
  using assms unfolding record_canonical_block_def Let_def
  by (auto simp: bindR_eq_Ok map_err_eq_Ok split: if_splits)

text \<open>What the table holds after the demotion.\<close>

definition displaced :: "int \<Rightarrow> Hash32 \<Rightarrow> block_row list \<Rightarrow> block_row list" where
  "displaced h bh t =
     (if map_option b_block_hash (fetch_optional (\<lambda>b. b_height b = h \<and> b_is_canonical b) t) \<noteq> Some (as_bytes bh)
      then set_where (\<lambda>b. b_is_canonical b \<and> b_height b \<ge> h) demote t else t)"

lemma displaced_ok: "blocks_ok t \<Longrightarrow> blocks_ok (displaced h bh t)"
proof -
  assume ok: "blocks_ok t"
  have "unique_ok block_conflict (map (\<lambda>b. if b_is_canonical b \<and> b_height b \<ge> h then demote b else b) t)"
    using ok by (intro unique_ok_map) (auto simp: table_ok_def block_conflict_def demote_def split: if_splits)
  then show ?thesis
    using ok by (auto simp: displaced_def table_ok_def set_where_def block_check_def demote_def)
qed

lemma displaced_canonical:
  assumes "b \<in> set (displaced h bh t)" and "b_is_canonical b"
  shows "b \<in> set t"
    and "map_option b_block_hash (fetch_optional (\<lambda>b. b_height b = h \<and> b_is_canonical b) t) \<noteq> Some (as_bytes bh)
      \<Longrightarrow> b_height b < h"
  using assms by (auto simp: displaced_def set_set_where demote_def split: if_splits)

lemma record_canonical_block_step:
  assumes "blocks_ok (bitcoin_blocks db)" and "db_as_i64 height = Ok h"
  shows "record_canonical_block x now height bh ph bt db =
     bindR (sql (upsert_block (block_row_of x now h bh ph bt) (displaced h bh (bitcoin_blocks db))))
       (\<lambda>t'. Ok ((), db\<lparr>bitcoin_blocks := t'\<rparr>))"
proof -
  have "sql_update block_check block_conflict (\<lambda>b. b_is_canonical b \<and> b_height b \<ge> h) demote (bitcoin_blocks db)
      = Ok (set_where (\<lambda>b. b_is_canonical b \<and> b_height b \<ge> h) demote (bitcoin_blocks db),
            length (filter (\<lambda>b. b_is_canonical b \<and> b_height b \<ge> h) (bitcoin_blocks db)))"
    if "unique_ok block_conflict (set_where (\<lambda>b. b_is_canonical b \<and> b_height b \<ge> h) demote (bitcoin_blocks db))"
    using that assms(1) by (auto simp: sql_update_Ok table_ok_def block_check_def demote_def)
  then show ?thesis
    using displaced_ok [OF assms(1), of h bh] assms(2)
    by (auto simp: record_canonical_block_def displaced_def table_ok_def)
qed

text \<open>The upsert of a block whose height is not canonical for another hash succeeds.\<close>

lemma upsert_block_Ok:
  assumes "blocks_ok t" and "block_check row" and "b_is_canonical row"
    and "\<And>b. b \<in> set t \<Longrightarrow> b_block_hash b = b_block_hash row \<Longrightarrow> b_height b = b_height row"
    and "\<And>b. b \<in> set t \<Longrightarrow> b_is_canonical b \<Longrightarrow> b_height b = b_height row \<Longrightarrow> b_block_hash b = b_block_hash row"
  shows "\<exists>t'. upsert_block row t = Ok t' \<and>
    (\<exists>b \<in> set t'. b_height b = b_height row \<and> b_block_hash b = b_block_hash row \<and> b_is_canonical b) \<and>
    (\<forall>b \<in> set t'. b_is_canonical b \<longrightarrow> b_height b \<noteq> b_height row \<longrightarrow> b \<in> set t) \<and>
    (\<lambda>b. (b_height b, b_block_hash b)) ` set t \<subseteq> (\<lambda>b. (b_height b, b_block_hash b)) ` set t'"
proof (cases "\<exists>b \<in> set t. b_block_hash b = b_block_hash row")
  case True
  let ?P = "\<lambda>b. b_block_hash b = b_block_hash row"
  let ?f = "refresh_block row"
  have "unique_ok block_conflict (map (\<lambda>b. if ?P b then ?f b else b) t)"
    using assms(1) by (intro unique_ok_map)
      (auto simp: table_ok_def block_conflict_def assms(4) dest: assms(5) split: if_splits)
  then have "upsert_block row t = Ok (set_where ?P ?f t)"
    using True assms(1,2) by (auto simp: upsert_block_def bindR_eq_Ok sql_update_def set_where_def
        table_ok_def block_check_def)
  moreover have "(\<lambda>b. (b_height b, b_block_hash b)) ` set t \<subseteq>
      (\<lambda>b. (b_height b, b_block_hash b)) ` set (set_where ?P ?f t)"
    by (subst image_set_where) simp_all
  moreover obtain b where "b \<in> set t" "?P b"
    using True by blast
  then have "refresh_block row b \<in> set (set_where ?P ?f t)" "b_height b = b_height row"
    using assms(4) by (auto simp: set_set_where)
  moreover have "b_height b = b_height row" if "b \<in> set (set_where ?P ?f t)" "b \<notin> set t" for b
    using that assms(4) by (auto simp: set_set_where)
  ultimately show ?thesis
    using \<open>?P b\<close> by (metis (no_types, lifting) refresh_block_simps(1-3))
next
  case False
  then have "sql_insert block_check block_conflict True row t = Ok (t @ [row])"
    using assms(2,5) by (auto simp: sql_insert_Ok block_conflict_def)
  with False assms(2,3) show ?thesis
    by (auto simp: upsert_block_def)
qed

section \<open>Properties\<close>

text \<open>The blocks left canonical after the displacement, and the row that is then written.\<close>

lemma displaced_keys:
  "(\<lambda>b. (b_height b, b_block_hash b)) ` set (displaced h bh t) = (\<lambda>b. (b_height b, b_block_hash b)) ` set t"
  by (simp add: displaced_def image_set_where demote_def)

lemma displaced_same_hash:
  assumes "blocks_ok t" and b: "b \<in> set (displaced h bh t)" "b_is_canonical b" "b_height b = h"
  shows "b_block_hash b = as_bytes bh"
proof -
  have ex: "map_option b_block_hash (fetch_optional (\<lambda>b. b_height b = h \<and> b_is_canonical b) t) = Some (as_bytes bh)"
    and bt: "b \<in> set t"
    using displaced_canonical [OF b(1,2)] b(3) by force+
  then obtain b' where b': "b' \<in> set t" "b_height b' = h" "b_is_canonical b'" "b_block_hash b' = as_bytes bh"
    by (auto dest: fetch_optional_Some)
  then have "b = b'"
    using blocks_tbl.row_unique [OF assms(1) bt b'(1)] b by (simp add: block_conflict_def)
  with b' show ?thesis by simp
qed

lemma displaced_below:
  assumes "b \<in> set (displaced h bh t)" and "b_is_canonical b" and "b_height b \<noteq> h"
    and "\<not> (\<exists>b \<in> set t. b_height b = h \<and> b_block_hash b = as_bytes bh \<and> b_is_canonical b)"
  shows "b_height b < h"
proof (rule displaced_canonical(2) [OF assms(1,2)])
  show "map_option b_block_hash (fetch_optional (\<lambda>b. b_height b = h \<and> b_is_canonical b) t) \<noteq> Some (as_bytes bh)"
    using assms(4) by (auto simp: map_option_eq_Some dest: fetch_optional_Some)
qed

lemma upsert_displaced:
  fixes height :: u64
  assumes "blocks_ok (bitcoin_blocks db)" and "uint height < 2 ^ 63"
    and "\<And>b. b \<in> set (bitcoin_blocks db) \<Longrightarrow> b_block_hash b = as_bytes bh \<Longrightarrow> b_height b = uint height"
  obtains t' where "upsert_block (block_row_of x now (uint height) bh ph bt) (displaced (uint height) bh (bitcoin_blocks db)) = Ok t'"
    and "\<exists>b \<in> set t'. b_height b = uint height \<and> b_block_hash b = as_bytes bh \<and> b_is_canonical b"
    and "\<And>b. b \<in> set t' \<Longrightarrow> b_is_canonical b \<Longrightarrow> b_height b \<noteq> uint height \<Longrightarrow> b \<in> set (displaced (uint height) bh (bitcoin_blocks db))"
    and "(\<lambda>b. (b_height b, b_block_hash b)) ` set (bitcoin_blocks db) \<subseteq> (\<lambda>b. (b_height b, b_block_hash b)) ` set t'"
proof -
  let ?t = "displaced (uint height) bh (bitcoin_blocks db)" and ?row = "block_row_of x now (uint height) bh ph bt"
  let ?key = "\<lambda>b. (b_height b, b_block_hash b)"
  have mem: "\<exists>b' \<in> set (bitcoin_blocks db). ?key b' = ?key b" if "b \<in> set ?t" for b
    using imageI [OF that, of ?key] unfolding displaced_keys by force
  have "\<exists>t'. upsert_block ?row ?t = Ok t' \<and>
    (\<exists>b \<in> set t'. b_height b = b_height ?row \<and> b_block_hash b = b_block_hash ?row \<and> b_is_canonical b) \<and>
    (\<forall>b \<in> set t'. b_is_canonical b \<longrightarrow> b_height b \<noteq> b_height ?row \<longrightarrow> b \<in> set ?t) \<and> ?key ` set ?t \<subseteq> ?key ` set t'"
  proof (rule upsert_block_Ok [OF displaced_ok [OF assms(1)]])
    show "block_check ?row" "b_is_canonical ?row"
      using assms(2) by (simp_all add: block_check_def block_row_of_def bigint_uint)
    show "b_height b = b_height ?row" if "b \<in> set ?t" "b_block_hash b = b_block_hash ?row" for b
      using mem [OF that(1)] that(2) assms(3) by (auto simp: block_row_of_def)
    show "b_block_hash b = b_block_hash ?row" if "b \<in> set ?t" "b_is_canonical b" "b_height b = b_height ?row" for b
      using displaced_same_hash [OF assms(1)] that by (simp add: block_row_of_def)
  qed
  then show thesis
    using that by (auto simp: block_row_of_def displaced_keys)
qed

text \<open>C30. Recording a canonical block whose hash is new, or known at that height, succeeds and makes it the
  only canonical block of its height. If it displaces another block, or fills an empty height, no
  canonical block remains above it; every block ever observed stays in the table as evidence.\<close>

theorem record_canonical_block_correct:
  assumes "blocks_ok (bitcoin_blocks db)" and "uint height < 2 ^ 63"
    and "\<And>b. b \<in> set (bitcoin_blocks db) \<Longrightarrow> b_block_hash b = as_bytes bh \<Longrightarrow> b_height b = uint height"
  shows "\<exists>db'. record_canonical_block x now height bh ph bt db = Ok ((), db') \<and>
    blocks_ok (bitcoin_blocks db') \<and> canonical_block_matches height bh db' = Ok True \<and>
    (canonical_block_matches height bh db = Ok False \<longrightarrow>
       (\<forall>b \<in> set (bitcoin_blocks db'). b_is_canonical b \<longrightarrow> b_height b \<le> uint height)) \<and>
    (\<lambda>b. (b_height b, b_block_hash b)) ` set (bitcoin_blocks db) \<subseteq>
       (\<lambda>b. (b_height b, b_block_hash b)) ` set (bitcoin_blocks db')"
proof -
  have i64: "db_as_i64 height = Ok (uint height)"
    using assms(2) by (simp add: db_as_i64_Ok)
  obtain t' where up: "upsert_block (block_row_of x now (uint height) bh ph bt) (displaced (uint height) bh (bitcoin_blocks db)) = Ok t'"
    and has: "\<exists>b \<in> set t'. b_height b = uint height \<and> b_block_hash b = as_bytes bh \<and> b_is_canonical b"
    and old: "\<And>b. b \<in> set t' \<Longrightarrow> b_is_canonical b \<Longrightarrow> b_height b \<noteq> uint height \<Longrightarrow> b \<in> set (displaced (uint height) bh (bitcoin_blocks db))"
    and sub: "(\<lambda>b. (b_height b, b_block_hash b)) ` set (bitcoin_blocks db) \<subseteq> (\<lambda>b. (b_height b, b_block_hash b)) ` set t'"
    using upsert_displaced [OF assms] by blast
  have rec: "record_canonical_block x now height bh ph bt db = Ok ((), db\<lparr>bitcoin_blocks := t'\<rparr>)"
    using record_canonical_block_step [OF assms(1) i64] up by simp
  have above: "b_height b \<le> uint height"
    if "canonical_block_matches height bh db = Ok False" "b \<in> set t'" "b_is_canonical b" for b
  proof (cases "b_height b = uint height")
    case False
    have "\<not> (\<exists>b \<in> set (bitcoin_blocks db). b_height b = uint height \<and> b_block_hash b = as_bytes bh \<and> b_is_canonical b)"
      using that(1) i64 by (simp add: canonical_block_matches_def)
    then show ?thesis
      using displaced_below [OF old [OF that(2,3) False] that(3) False] by simp
  qed simp
  show ?thesis
    using rec has above sub upsert_block_ok [OF displaced_ok [OF assms(1)] up] i64
    by (intro exI [of _ "db\<lparr>bitcoin_blocks := t'\<rparr>"]) (auto simp: canonical_block_matches_def)
qed

theorem record_canonical_block_correct_witness:
  "\<exists>db'. record_canonical_block sample_ext 0 100 (hash_repeat 2) (hash_repeat 1) 50 empty_db = Ok ((), db') \<and>
     canonical_block_matches 100 (hash_repeat 2) db' = Ok True"
  using record_canonical_block_correct [of empty_db 100 "hash_repeat 2" sample_ext 0 "hash_repeat 1" 50]
  by (auto simp: empty_db_def table_ok_def)

end
