(* ===== verification/Store_Sessions.thy ===== *)
theory Store_Sessions
  imports Schema
begin

text \<open>
  Sign-in state of \<open>crates/openpool-core/src/persistence_sqlx.rs\<close>: OIDC sessions with an expiry, and
  login attempts that are consumed by the callback.
\<close>

section \<open>Sessions\<close>

record NewOidcSession =
  ns_id :: uuid
  ns_subject :: uuid
  ns_roles :: json
  ns_csrf_token_hash :: bytes
  ns_expires_at :: timestamp

record OidcSession =
  os_subject :: uuid
  os_roles :: json
  os_csrf_token_hash :: bytes
  os_expires_at :: timestamp

definition create_oidc_session :: "externals \<Rightarrow> NewOidcSession \<Rightarrow> db \<Rightarrow> PersistenceError + unit \<times> db" where
  "create_oidc_session x session db =
     bindR (sql (sql_insert session_check session_conflict True
         \<lparr>s_id = ns_id session, s_subject = ns_subject session, s_roles = ns_roles session,
          s_csrf_token_hash = ns_csrf_token_hash session,
          s_expires_at = x_timestamptz x (ns_expires_at session)\<rparr> (oidc_sessions db)))
       (\<lambda>t. Ok ((), db\<lparr>oidc_sessions := t\<rparr>))"

definition oidc_session :: "timestamp \<Rightarrow> uuid \<Rightarrow> db \<Rightarrow> OidcSession option" where
  "oidc_session now uid db =
     map_option (\<lambda>row. \<lparr>os_subject = s_subject row, os_roles = s_roles row,
         os_csrf_token_hash = s_csrf_token_hash row, os_expires_at = s_expires_at row\<rparr>)
       (fetch_optional (\<lambda>s. s_id s = uid \<and> s_expires_at s > now) (oidc_sessions db))"

definition delete_oidc_session :: "uuid \<Rightarrow> db \<Rightarrow> db" where
  "delete_oidc_session uid db = db\<lparr>oidc_sessions := sql_delete (\<lambda>s. s_id s = uid) (oidc_sessions db)\<rparr>"

section \<open>Login attempts\<close>

record NewOidcLoginAttempt =
  nl_state :: string
  nl_nonce :: string
  nl_pkce_verifier :: string
  nl_expires_at :: timestamp

record OidcLoginAttempt =
  ol_nonce :: string
  ol_pkce_verifier :: string

definition create_oidc_login_attempt :: "externals \<Rightarrow> NewOidcLoginAttempt \<Rightarrow> db \<Rightarrow> PersistenceError + unit \<times> db" where
  "create_oidc_login_attempt x attempt db =
     bindR (sql (sql_insert no_check login_conflict True
         \<lparr>l_state = nl_state attempt, l_nonce = nl_nonce attempt, l_pkce_verifier = nl_pkce_verifier attempt,
          l_expires_at = x_timestamptz x (nl_expires_at attempt)\<rparr> (oidc_login_attempts db)))
       (\<lambda>t. Ok ((), db\<lparr>oidc_login_attempts := t\<rparr>))"

text \<open>\<open>DELETE ... WHERE state = $1 AND expires_at > now() RETURNING nonce, pkce_verifier\<close>.\<close>

definition consume_oidc_login_attempt :: "timestamp \<Rightarrow> string \<Rightarrow> db \<Rightarrow> OidcLoginAttempt option \<times> db" where
  "consume_oidc_login_attempt now state db =
     (let live = (\<lambda>l. l_state l = state \<and> l_expires_at l > now) in
      (map_option (\<lambda>l. \<lparr>ol_nonce = l_nonce l, ol_pkce_verifier = l_pkce_verifier l\<rparr>)
         (fetch_optional live (oidc_login_attempts db)),
       db\<lparr>oidc_login_attempts := sql_delete live (oidc_login_attempts db)\<rparr>))"

section \<open>Properties\<close>

text \<open>A login attempt is single use: once a state has been consumed, no later call at a time that is not
  earlier returns it again, and an expired attempt is never returned.\<close>

theorem login_attempt_single_use:
  assumes "now \<le> later"
  shows "fst (consume_oidc_login_attempt later state (snd (consume_oidc_login_attempt now state db))) = None \<and>
    (\<forall>a. fst (consume_oidc_login_attempt now state db) = Some a \<longrightarrow>
       (\<exists>l \<in> set (oidc_login_attempts db). l_state l = state \<and> now < l_expires_at l \<and>
          ol_nonce a = l_nonce l \<and> ol_pkce_verifier a = l_pkce_verifier l))"
  using assms
  by (auto simp: consume_oidc_login_attempt_def Let_def fetch_optional_None sql_delete_def
      dest!: fetch_optional_Some)

definition sample_logins :: db where
  "sample_logins = empty_db\<lparr>oidc_login_attempts :=
     [\<lparr>l_state = ''s'', l_nonce = ''n'', l_pkce_verifier = ''v'', l_expires_at = 100\<rparr>]\<rparr>"

theorem login_attempt_single_use_witness:
  "fst (consume_oidc_login_attempt 10 ''s'' sample_logins) = Some \<lparr>ol_nonce = ''n'', ol_pkce_verifier = ''v''\<rparr> \<and>
   fst (consume_oidc_login_attempt 11 ''s'' (snd (consume_oidc_login_attempt 10 ''s'' sample_logins))) = None"
  using login_attempt_single_use [of 10 11 "''s''" sample_logins]
  by (simp add: consume_oidc_login_attempt_def sample_logins_def fetch_optional_def Let_def)

end
