(* ===== verification/Store_Invariant.thy ===== *)
theory Store_Invariant
  imports Store_Ledger Store_Payouts Store_Bitcoin Store_Sessions
begin

text \<open>
  The store invariant: every raffle row stands for a valid ledger with matching totals and chain head,
  a frozen raffle carries the entries root of its ledger, and a drawn raffle carries its two block
  heights in order. Every operation of the store keeps it, so it holds of every database the service
  can reach; the draw and the terminal proof then cannot fail for protocol reasons.
\<close>

section \<open>The invariant\<close>

definition frozen_status :: "RaffleStatus \<Rightarrow> bool" where
  "frozen_status s \<longleftrightarrow> s \<in> {RandomnessPending, PayoutPending, PaidOut}"

definition drawn_status :: "RaffleStatus \<Rightarrow> bool" where
  "drawn_status s \<longleftrightarrow> s \<in> {PayoutPending, PaidOut}"

definition drawn_ok :: "raffle_row \<Rightarrow> bool" where
  "drawn_ok r \<longleftrightarrow> (drawn_status (r_status r) \<longrightarrow>
     (\<exists>c h rh. r_close_block_height r = Some c \<and> r_randomness_block_height r = Some h \<and>
        0 \<le> c \<and> c < h \<and> r_randomness_block_hash r = Some (as_bytes rh)))"

definition raffle_ok :: "externals \<Rightarrow> db \<Rightarrow> raffle_row \<Rightarrow> bool" where
  "raffle_ok x db r \<longleftrightarrow>
     (\<exists>es. raffle_ledger x db r es \<and>
        (frozen_status (r_status r) \<longrightarrow>
           es \<noteq> [] \<and> r_entries_root r = Some (as_bytes (ledger_root x (r_id r) es)))) \<and>
     drawn_ok r"

definition store_ok :: "externals \<Rightarrow> db \<Rightarrow> bool" where
  "store_ok x db \<longleftrightarrow>
     table_ok raffle_check raffle_conflict (raffles db) \<and>
     table_ok split_check split_conflict (payout_splits db) \<and>
     table_ok entry_check entry_conflict (entries db) \<and>
     table_ok invoice_check invoice_conflict (invoices db) \<and>
     (\<forall>e \<in> set (entries db). e_raffle_id e \<in> r_id ` set (raffles db)) \<and>
     r_id ` set (raffles db) \<subseteq> sp_raffle_id ` set (payout_splits db) \<and>
     (\<forall>r \<in> set (raffles db). raffle_ok x db r)"

lemma store_okD:
  assumes "store_ok x db"
  shows "table_ok raffle_check raffle_conflict (raffles db)"
    and "table_ok split_check split_conflict (payout_splits db)"
    and "table_ok entry_check entry_conflict (entries db)"
    and "table_ok invoice_check invoice_conflict (invoices db)"
    and "e \<in> set (entries db) \<Longrightarrow> e_raffle_id e \<in> r_id ` set (raffles db)"
    and "r_id ` set (raffles db) \<subseteq> sp_raffle_id ` set (payout_splits db)"
    and "r \<in> set (raffles db) \<Longrightarrow> raffle_ok x db r"
    and "\<forall>e \<in> set (entries db). entry_check e"
    and "r \<in> set (raffles db) \<Longrightarrow> raffle_check r"
  using assms by (auto simp: store_ok_def table_ok_def)

lemma store_ok_empty: "store_ok x empty_db"
  by (simp add: store_ok_def empty_db_def table_ok_def)

lemma raffle_ledger_cong: "entries db' = entries db \<Longrightarrow> raffle_ledger x db' r es = raffle_ledger x db r es"
  by (simp add: raffle_ledger_def raffle_entries_def)

lemma raffle_ok_cong:
  assumes "entries db' = entries db"
  shows "raffle_ok x db' r = raffle_ok x db r"
  unfolding raffle_ok_def raffle_ledger_cong [OF assms] ..

lemma raffle_ledger_row:
  assumes "r_id r' = r_id r" and "r_total_tickets r' = r_total_tickets r"
    and "r_total_pool_sats r' = r_total_pool_sats r" and "r_entry_chain_head r' = r_entry_chain_head r"
  shows "raffle_ledger x db r' es = raffle_ledger x db r es"
  by (simp add: raffle_ledger_def assms)

text \<open>Operations on other tables.\<close>

lemma store_ok_frame:
  assumes "store_ok x db" and "raffles db' = raffles db" and "payout_splits db' = payout_splits db"
    and "entries db' = entries db" and "table_ok invoice_check invoice_conflict (invoices db')"
  shows "store_ok x db'"
  using assms raffle_ok_cong [OF assms(4)] by (simp add: store_ok_def)

text \<open>Operations that rewrite raffle rows without touching entries.\<close>

lemma store_ok_raffles:
  assumes "store_ok x db" and "sql_update raffle_check raffle_conflict P f (raffles db) = Ok (raffles db', n)"
    and "entries db' = entries db" and "invoices db' = invoices db"
    and "table_ok split_check split_conflict (payout_splits db')"
    and "sp_raffle_id ` set (payout_splits db') = sp_raffle_id ` set (payout_splits db)"
    and "\<And>r. r_id (f r) = r_id r"
    and "\<And>r. r \<in> set (raffles db) \<Longrightarrow> P r \<Longrightarrow> raffle_ok x db r \<Longrightarrow> raffle_ok x db (f r)"
  shows "store_ok x db'"
proof -
  note ok = store_okD [OF assms(1)]
  have rs: "raffles db' = set_where P f (raffles db)"
    using assms(2) by (simp add: sql_update_Ok)
  have ids: "r_id ` set (raffles db') = r_id ` set (raffles db)"
    unfolding rs by (rule image_set_where) (simp add: assms(7))
  have "\<forall>r \<in> set (raffles db'). raffle_ok x db r"
    using assms(8) ok(7) by (auto simp: rs set_set_where)
  then show ?thesis
    using ok raffles_tbl.update_ok [OF ok(1) assms(2)] assms(3-6) raffle_ok_cong [OF assms(3)]
    by (auto simp: store_ok_def ids)
qed

text \<open>A new status keeps a raffle row in order if it neither freezes nor draws it.\<close>

lemma raffle_ok_set_status:
  assumes "raffle_ok x db r"
    and "frozen_status st \<Longrightarrow> frozen_status (r_status r)" and "drawn_status st \<Longrightarrow> drawn_status (r_status r)"
  shows "raffle_ok x db (set_status now st r)"
proof -
  let ?r = "set_status now st r"
  have f: "r_id ?r = r_id r" "r_total_tickets ?r = r_total_tickets r"
    "r_total_pool_sats ?r = r_total_pool_sats r" "r_entry_chain_head ?r = r_entry_chain_head r"
    "r_entries_root ?r = r_entries_root r" "r_status ?r = st"
    "r_close_block_height ?r = r_close_block_height r" "r_randomness_block_height ?r = r_randomness_block_height r"
    "r_randomness_block_hash ?r = r_randomness_block_hash r"
    by (simp_all add: set_status_def)
  show ?thesis
    using assms unfolding raffle_ok_def drawn_ok_def raffle_ledger_row [OF f(1-4)] f by blast
qed

section \<open>Preservation: administration and invoices\<close>

lemma create_draft_raffle_keeps:
  assumes "create_draft_raffle x ids now raffle db = Ok (u, db')" and "store_ok x db"
  shows "store_ok x db'"
proof -
  from assms(1) obtain price t ob where
    db': "db' = db\<lparr>raffles := raffles db @ [new_raffle_row x now raffle price],
              payout_splits := payout_splits db @ [new_split_row raffle],
              audit_events := t, outbox_events := ob\<rparr>"
    and c: "raffle_check (new_raffle_row x now raffle price)" "split_check (new_split_row raffle)"
    and fresh: "\<forall>r \<in> set (raffles db). r_id r \<noteq> nr_id raffle"
      "\<forall>s \<in> set (payout_splits db). sp_raffle_id s \<noteq> nr_id raffle"
    by (rule create_draft_raffle_Ok)
  note ok = store_okD [OF assms(2)]
  let ?r = "new_raffle_row x now raffle price"
  have id: "r_id ?r = nr_id raffle" "sp_raffle_id (new_split_row raffle) = nr_id raffle"
    by (simp_all add: new_raffle_row_def new_split_row_def)
  have "raffle_entries (nr_id raffle) db = []"
    using ok(5) fresh(1) by (fastforce simp: raffle_entries_def filter_empty_conv)
  then have "raffle_ledger x db ?r []"
    unfolding raffle_ledger_def id by (simp add: new_raffle_row_def ticket_base_def)
  then have "raffle_ok x db ?r"
    by (auto simp: raffle_ok_def drawn_ok_def frozen_status_def drawn_status_def new_raffle_row_def)
  then have "\<forall>r \<in> set (raffles db'). raffle_ok x db r"
    using ok(7) by (auto simp: db')
  moreover have "entries db' = entries db"
    by (simp add: db')
  moreover have "table_ok raffle_check raffle_conflict (raffles db')"
    using ok(1) c(1) fresh(1) by (auto simp: db' table_ok_def unique_ok_append raffle_conflict_def id)
  moreover have "table_ok split_check split_conflict (payout_splits db')"
    using ok(2) c(2) fresh(2) by (auto simp: db' table_ok_def unique_ok_append split_conflict_def id)
  ultimately show ?thesis
    using ok(3-6) raffle_ok_cong [of db' db x] by (auto simp: store_ok_def db' id)
qed

lemma transition_raffle_keeps:
  assumes "transition_raffle x ids now oid rid st db = Ok (u, db')" and "store_ok x db"
  shows "store_ok x db'"
proof -
  let ?P = "\<lambda>r. r_id r = rid \<and> r_organizer_id r = oid \<and> transition_allowed (r_status r) st"
  from assms(1) obtain t ob where db': "db' = db\<lparr>raffles := set_where ?P (set_status now st) (raffles db),
      audit_events := t, outbox_events := ob\<rparr>"
    by (rule transition_raffle_Ok)
  note ok = store_okD [OF assms(2)]
  have "sql_update raffle_check raffle_conflict ?P (set_status now st) (raffles db)
      = Ok (raffles db', length (filter ?P (raffles db)))"
    using raffles_tbl.update_succeeds [OF ok(1), of ?P "set_status now st"] ok(9)
    by (simp add: db' set_status_def raffle_check_def raffle_conflict_def)
  then show ?thesis
  proof (rule store_ok_raffles [OF assms(2)])
    show "raffle_ok x db (set_status now st r)" if "?P r" "raffle_ok x db r" for r
      using that(2) by (rule raffle_ok_set_status)
        (use that(1) in \<open>auto simp: transition_allowed_def frozen_status_def drawn_status_def\<close>)
  qed (use ok(2) in \<open>simp_all add: db' set_status_def\<close>)
qed

lemma update_raffle_keeps:
  assumes "update_raffle x ids now oid raffle db = Ok (u, db')" and "store_ok x db"
  shows "store_ok x db'"
proof -
  let ?P = "\<lambda>r. r_id r = nr_id raffle \<and> r_organizer_id r = oid \<and> r_status r \<in> {Draft, Scheduled}"
  let ?Q = "\<lambda>s. sp_raffle_id s = nr_id raffle"
  from assms(1) obtain price ss n m t where
    rs: "sql_update raffle_check raffle_conflict ?P (edit_row x now raffle price) (raffles db) = Ok (raffles db', n)"
    and ss: "sql_update split_check split_conflict ?Q (edit_split (nr_payout_split raffle)) (payout_splits db)
      = Ok (payout_splits db', m)"
    and db': "db' = db\<lparr>raffles := raffles db', payout_splits := payout_splits db', audit_events := t\<rparr>"
    unfolding update_raffle_def
    by (auto simp: bindR_eq_Ok map_err_eq_Ok split: if_splits elim!: write_audit_Ok)
  have same: "entries db' = entries db" "invoices db' = invoices db"
    by (subst db', simp)+
  have "payout_splits db' = set_where ?Q (edit_split (nr_payout_split raffle)) (payout_splits db)"
    using ss by (simp add: sql_update_Ok)
  then have ids: "sp_raffle_id ` set (payout_splits db') = sp_raffle_id ` set (payout_splits db)"
    by (simp add: image_set_where edit_split_def)
  show ?thesis
    using assms(2) rs same splits_tbl.update_ok [OF store_okD(2) [OF assms(2)] ss] ids
  proof (rule store_ok_raffles)
    show "raffle_ok x db (edit_row x now raffle price r)" if "raffle_ok x db r" for r
      using that unfolding raffle_ok_def drawn_ok_def
      by (subst raffle_ledger_row [of _ r]) (simp_all add: edit_row_def)
  qed (simp add: edit_row_def)
qed

lemma schedule_closes_frame:
  "schedule_closes x ids now k rids db = Ok db' \<Longrightarrow>
     \<exists>js t. db' = db\<lparr>jobs := js, audit_events := t\<rparr>"
proof (induction rids arbitrary: k db)
  case Nil
  then show ?case by (auto intro!: exI [of _ "audit_events db"] exI [of _ "jobs db"])
next
  case (Cons rid rids)
  then obtain db1 where db1: "schedule_one_close x ids now k rid db = Ok db1"
    and rest: "schedule_closes x ids now (Suc k) rids db1 = Ok db'"
    by (auto simp: bindR_eq_Ok)
  from db1 obtain js t where "db1 = db\<lparr>jobs := js, audit_events := t\<rparr>"
    unfolding schedule_one_close_def by (auto simp: bindR_eq_Ok elim!: write_audit_Ok insert_job_Ok)
  then show ?case
    using Cons.IH [OF rest] by auto
qed

lemma schedule_due_closes_keeps:
  assumes "schedule_due_closes x ids now db = Ok (n, db')" and "store_ok x db"
  shows "store_ok x db'"
proof -
  from assms(1) obtain rs m where
    rs: "sql_update raffle_check raffle_conflict (close_due now) (set_status now Closing) (raffles db) = Ok (rs, m)"
    and c: "schedule_closes x ids now 0 (map r_id (filter (close_due now) (raffles db))) (db\<lparr>raffles := rs\<rparr>) = Ok db'"
    unfolding schedule_due_closes_def by (auto simp: Let_def bindR_eq_Ok map_err_eq_Ok)
  from schedule_closes_frame [OF c] obtain js t where db': "db' = db\<lparr>raffles := rs, jobs := js, audit_events := t\<rparr>"
    by auto
  have "sql_update raffle_check raffle_conflict (close_due now) (set_status now Closing) (raffles db) = Ok (raffles db', m)"
    using rs by (simp add: db')
  with assms(2) show ?thesis
  proof (rule store_ok_raffles)
    show "raffle_ok x db (set_status now Closing r)" if "raffle_ok x db r" for r
      using that by (rule raffle_ok_set_status) (simp_all add: frozen_status_def drawn_status_def)
  qed (use store_okD(2) [OF assms(2)] in \<open>simp_all add: db' set_status_def\<close>)
qed

section \<open>Preservation: settlement, freeze and draw\<close>

lemma raffle_row_unique:
  "store_ok x db \<Longrightarrow> r \<in> set (raffles db) \<Longrightarrow> s \<in> set (raffles db) \<Longrightarrow> r_id r = r_id s \<Longrightarrow> r = s"
  by (rule raffles_tbl.row_unique) (auto simp: raffle_conflict_def dest: store_okD(1))

lemma fetch_raffle:
  "store_ok x db \<Longrightarrow> r \<in> set (raffles db) \<Longrightarrow> fetch_optional (\<lambda>s. r_id s = r_id r) (raffles db) = Some r"
  by (rule raffles_tbl.fetch_unique) (auto simp: raffle_conflict_def dest: store_okD(1))

text \<open>An appended entry leaves every raffle in order when it leaves its own one in order.\<close>

lemma credited_raffle_ok:
  assumes "store_ok x db" and "append_entry x ids now invoice r eid settled_at db = Ok (entry, db')"
    and "raffles db' = set_where (\<lambda>r. r_id r = i_raffle_id invoice) f (raffles db)"
    and "\<And>s. r_id (f s) = r_id s" and "\<And>s. r_status (f s) = r_status s"
    and "r \<in> set (raffles db)" and "r_id r = i_raffle_id invoice" and "r_status r = Open"
    and "raffle_ledger x db' (f r) es" and "s' \<in> set (raffles db')"
  shows "raffle_ok x db' s'"
proof (cases "r_id s' = i_raffle_id invoice")
  case True
  then obtain s where "s \<in> set (raffles db)" "s' = f s"
    using assms(10) by (auto simp: assms(3) set_set_where)
  then have "s' = f r"
    using raffle_row_unique [OF assms(1), of s r] True assms(6,7) by (simp add: assms(4))
  then show ?thesis
    using assms(8,9) unfolding raffle_ok_def drawn_ok_def
    by (auto simp: assms(5) frozen_status_def drawn_status_def)
next
  case False
  then have s: "s' \<in> set (raffles db)"
    using assms(10) by (auto simp: assms(3,4) set_set_where)
  show ?thesis
    using store_okD(7) [OF assms(1) s] raffle_ledger_other [OF _ False assms(2)] unfolding raffle_ok_def by blast
qed

lemma append_entry_keeps:
  assumes "append_entry x ids now invoice r eid settled_at db = Ok (entry, db')" and "store_ok x db"
    and "invoice \<in> set (invoices db)" and "r \<in> set (raffles db)" and "r_id r = i_raffle_id invoice"
    and "r_status r = Open" and "unix_ms (x_timestamptz x settled_at) = unix_ms settled_at"
  shows "store_ok x db'"
proof -
  note ok = store_okD [OF assms(2)]
  from assms(1) obtain row and np :: u64 and n m t ob where
    nx: "next_entry x invoice r (entry_count (i_raffle_id invoice) db) eid settled_at = Ok entry"
    and row: "entry_row_of x entry (i_id invoice) settled_at = Ok row"
    and chk: "entry_check row" "\<forall>e \<in> set (entries db). \<not> entry_conflict e row"
    and np: "unat (of_int (r_total_pool_sats r) :: u64) + unat (as_u64 (ed_amount_sats (le_data entry))) = unat np"
    and iv: "sql_update invoice_check invoice_conflict (\<lambda>i. i_id i = i_id invoice) (mark_settled x settled_at)
      (invoices db) = Ok (invoices db', n)"
    and rs: "sql_update raffle_check raffle_conflict (\<lambda>r. r_id r = i_raffle_id invoice)
      (credit_raffle now (uint np) (uint (tr_end (ed_ticket_range (le_data entry)))) (le_entry_hash entry)) (raffles db)
      = Ok (raffles db', m)"
    and db': "db' = db\<lparr>entries := entries db @ [row], invoices := invoices db', raffles := raffles db',
      audit_events := t, outbox_events := ob\<rparr>"
    by (rule append_entry_Ok)
  let ?f = "credit_raffle now (uint np) (uint (tr_end (ed_ticket_range (le_data entry)))) (le_entry_hash entry)"
  have fields: "r_id (?f s) = r_id s" "r_status (?f s) = r_status s" for s
    by (simp_all add: credit_raffle_def)
  have es': "entries db' = entries db @ [row]" and ss': "payout_splits db' = payout_splits db"
    by (subst db', simp)+
  have rs': "raffles db' = set_where (\<lambda>r. r_id r = i_raffle_id invoice) ?f (raffles db)"
    using rs by (simp add: sql_update_Ok)
  have ic: "invoice_check invoice"
    using ok(4) assms(3) by (simp add: table_ok_def)
  have le: "ed_amount_sats (le_data entry) = Sats (of_int (i_amount_sats invoice))"
      "ed_raffle_id (le_data entry) = i_raffle_id invoice"
    using nx by (rule next_entry_Ok, simp add: LedgerEntry_create_def)+
  have ids: "r_id ` set (raffles db') = r_id ` set (raffles db)"
    unfolding rs' by (rule image_set_where) (simp add: fields)
  have row_raffle: "e_raffle_id row \<in> r_id ` set (raffles db)"
    using entry_row_ids(1) [OF row] le(2) assms(4,5) by (metis image_eqI)
  obtain es where led: "raffle_ledger x db r es"
    using ok(7) [OF assms(4)] by (auto simp: raffle_ok_def)
  have "uint np = r_total_pool_sats r + i_amount_sats invoice"
    using led ic np unfolding le Sats.sel by (rule credited_pool)
  then have mine: "raffle_ledger x db' (?f r) (es @ [entry])"
    by (intro raffle_ledger_append [OF led assms(5,1,7) ic]) simp
  have "raffle_ok x db' s'" if "s' \<in> set (raffles db')" for s'
    by (rule credited_raffle_ok [OF assms(2,1) rs' fields assms(4,5,6) mine that])
  moreover have "table_ok entry_check entry_conflict (entries db')"
    using ok(3) chk by (auto simp: es' table_ok_def unique_ok_append)
  ultimately show ?thesis
    using ok(2,5,6) row_raffle raffles_tbl.update_ok [OF ok(1) rs] invoices_tbl.update_ok [OF ok(4) iv]
    unfolding store_ok_def es' ss' ids by auto
qed

lemma settle_keeps:
  assumes "settle_invoice_and_append_entry x ids now iid eid settled_at db = Ok (entry, db')" and "store_ok x db"
    and "unix_ms (x_timestamptz x settled_at) = unix_ms settled_at"
  shows "store_ok x db'"
proof -
  from assms(1) obtain invoice where inv: "fetch_optional (\<lambda>i. i_id i = iid) (invoices db) = Some invoice"
    by (auto simp: settle_invoice_and_append_entry_def bindR_eq_Ok ok_or_eq_Ok)
  consider "db' = db" | r where "fetch_optional (\<lambda>r. r_id r = i_raffle_id invoice) (raffles db) = Some r"
      "r_status r = Open" "append_entry x ids now invoice r eid settled_at db = Ok (entry, db')"
    using assms(1) inv
    by (auto simp: settle_invoice_and_append_entry_def bindR_eq_Ok ok_or_eq_Ok split: if_splits)
  then show ?thesis
  proof cases
    case 2
    show ?thesis
      by (rule append_entry_keeps [OF 2(3) assms(2) _ _ _ 2(2) assms(3)])
         (use fetch_optional_Some [OF inv] fetch_optional_Some [OF 2(1)] in auto)
  qed (simp add: assms(2))
qed

lemma announce_freeze_Ok:
  assumes "announce_freeze x ids now rid emp root count db = Ok db'"
  obtains t ob js where "db' = db\<lparr>audit_events := t, outbox_events := ob, jobs := js\<rparr>"
    and "\<not> emp \<Longrightarrow> \<exists>j \<in> set js. j_kind j = ''raffle.draw'' \<and> j_deduplication_key j = x_uuid_text x rid"
proof -
  from assms obtain ev pl db1 db2 where au: "write_audit (ids 0) now rid ev pl db = Ok db1"
    and ob: "write_outbox (ids 1) now rid ev pl db1 = Ok db2"
    and js: "(if emp then Ok db2 else insert_job (ids 2) now ''raffle.draw'' (x_uuid_text x rid)
              (JObj [(''raffle_id'', JStr (x_uuid_text x rid))]) db2) = Ok db'"
    unfolding announce_freeze_def Let_def bindR_eq_Ok by blast
  obtain t where db1: "db1 = db\<lparr>audit_events := t\<rparr>"
    using au by (rule write_audit_Ok)
  obtain u where db2: "db2 = db\<lparr>audit_events := t, outbox_events := u\<rparr>"
    using ob unfolding db1 by (rule write_outbox_Ok) simp
  show thesis
  proof (cases emp)
    case True
    then have "db' = db2"
      using js by simp
    then have "db' = db\<lparr>audit_events := t, outbox_events := u, jobs := jobs db\<rparr>"
      unfolding db2 by simp
    then show thesis
      by (rule that) (simp add: True)
  next
    case False
    then have "insert_job (ids 2) now ''raffle.draw'' (x_uuid_text x rid)
        (JObj [(''raffle_id'', JStr (x_uuid_text x rid))]) db2 = Ok db'"
      using js by simp
    then show thesis
      by (rule insert_job_Ok) (simp add: db2 that)
  qed
qed

lemma freeze_raffle_Ok:
  assumes "freeze_raffle x ids now rid db = Ok (root, db')"
  obtains row head n js t ob where "fetch_optional (\<lambda>r. r_id r = rid) (raffles db) = Some row"
    and "r_status row = Closing" and "head_or_zero (r_entry_chain_head row) = Ok head"
    and "root = entries_root (x_sha x) rid (of_nat (entry_count rid db)) head"
    and "sql_update raffle_check raffle_conflict (\<lambda>r. r_id r = rid)
      (freeze_row now (if r_total_tickets row = 0 then Cancelled else RandomnessPending) root) (raffles db)
      = Ok (raffles db', n)"
    and "db' = db\<lparr>raffles := raffles db', audit_events := t, outbox_events := ob, jobs := js\<rparr>"
    and "r_total_tickets row \<noteq> 0 \<longrightarrow>
      (\<exists>j \<in> set js. j_kind j = ''raffle.draw'' \<and> j_deduplication_key j = x_uuid_text x rid)"
proof -
  from assms obtain row head rs n count where
    f: "fetch_optional (\<lambda>r. r_id r = rid) (raffles db) = Some row" "r_status row = Closing"
      "head_or_zero (r_entry_chain_head row) = Ok head"
    and root: "root = entries_root (x_sha x) rid (of_nat (entry_count rid db)) head"
    and rs: "sql_update raffle_check raffle_conflict (\<lambda>r. r_id r = rid)
      (freeze_row now (if r_total_tickets row = 0 then Cancelled else RandomnessPending) root) (raffles db) = Ok (rs, n)"
    and an: "announce_freeze x ids now rid (r_total_tickets row = 0) root count (db\<lparr>raffles := rs\<rparr>) = Ok db'"
    unfolding freeze_raffle_def Let_def
    by (auto simp: bindR_eq_Ok map_err_eq_Ok fetch_one_Ok db_as_u64_Ok split: if_split_asm)
  from an obtain t ob js where "db' = db\<lparr>raffles := rs, audit_events := t, outbox_events := ob, jobs := js\<rparr>"
    and "r_total_tickets row \<noteq> 0 \<Longrightarrow>
      \<exists>j \<in> set js. j_kind j = ''raffle.draw'' \<and> j_deduplication_key j = x_uuid_text x rid"
    by (rule announce_freeze_Ok) auto
  with rs show thesis
    by (intro that [OF f root]) (simp_all, blast)
qed

lemma freeze_keeps:
  assumes "freeze_raffle x ids now rid db = Ok (root, db')" and "store_ok x db"
  shows "store_ok x db'"
proof -
  from assms(1) obtain row head n js t ob where
    row: "fetch_optional (\<lambda>r. r_id r = rid) (raffles db) = Some row" "r_status row = Closing"
    and head: "head_or_zero (r_entry_chain_head row) = Ok head"
    and root: "root = entries_root (x_sha x) rid (of_nat (entry_count rid db)) head"
    and rs: "sql_update raffle_check raffle_conflict (\<lambda>r. r_id r = rid)
      (freeze_row now (if r_total_tickets row = 0 then Cancelled else RandomnessPending) root) (raffles db)
      = Ok (raffles db', n)"
    and db': "db' = db\<lparr>raffles := raffles db', audit_events := t, outbox_events := ob, jobs := js\<rparr>"
    by (rule freeze_raffle_Ok)
  let ?f = "freeze_row now (if r_total_tickets row = 0 then Cancelled else RandomnessPending) root"
  have in_row: "row \<in> set (raffles db)" "r_id row = rid"
    using fetch_optional_Some [OF row(1)] by simp_all
  have same: "entries db' = entries db" "invoices db' = invoices db" "payout_splits db' = payout_splits db"
    by (subst db', simp)+
  show ?thesis
    using assms(2) rs same(1,2)
  proof (rule store_ok_raffles)
    show "raffle_ok x db (?f r)" if r: "r \<in> set (raffles db)" "r_id r = rid" "raffle_ok x db r" for r
    proof -
      have [simp]: "r = row"
        using raffle_row_unique [OF assms(2) r(1) in_row(1)] r(2) in_row(2) by simp
      obtain es where led: "raffle_ledger x db row es"
        using r(3) by (auto simp: raffle_ok_def)
      have "raffle_ledger x db (?f row) es"
        using led by (subst raffle_ledger_row [of _ row]) (simp_all add: freeze_row_def)
      moreover have "root = ledger_root x rid es"
        using raffle_ledger_head [OF led] entry_count_ledger [OF led] head in_row(2)
        by (simp add: root ledger_root_def)
      ultimately show ?thesis
        using raffle_ledger_empty [OF led] in_row(2) unfolding raffle_ok_def drawn_ok_def
        by (auto simp: freeze_row_def frozen_status_def drawn_status_def)
    qed
  qed (use store_okD(2) [OF assms(2)] in \<open>simp_all add: same freeze_row_def\<close>)
qed

lemma create_draw_keeps:
  assumes "create_draw_and_payouts x ids now rid ch close_hash rh rand_hash db = Ok (result, db')"
    and "store_ok x db" and "ch < rh"
  shows "store_ok x db'"
proof -
  from assms(1) obtain raffle root amounts db1 js t n where
    row: "fetch_optional (\<lambda>r. r_id r = rid) (raffles db) = Some raffle" "r_status raffle = RandomnessPending"
    and ps: "insert_payouts x now rid (payout_items ids amounts)
      (db\<lparr>draws := draws db @ [draw_row_of (ids 0) now rid root rand_hash (uint (dr_winning_ticket result))
         (dr_winner_entry_id result)]\<rparr>) = Ok db1"
    and rs: "sql_update raffle_check raffle_conflict (\<lambda>r. r_id r = rid)
         (drawn_row now (uint ch) close_hash (uint rh) rand_hash) (raffles db) = Ok (raffles db', n)"
    and db': "db' = db1\<lparr>jobs := js, raffles := raffles db', audit_events := t\<rparr>"
    by (rule create_draw_and_payouts_Ok)
  let ?f = "drawn_row now (uint ch) close_hash (uint rh) rand_hash"
  obtain ps' where db1: "db1 = db\<lparr>draws := draws db @ [draw_row_of (ids 0) now rid root rand_hash
      (uint (dr_winning_ticket result)) (dr_winner_entry_id result)], payouts := ps'\<rparr>"
    using insert_payouts_frame [OF ps] by auto
  have in_row: "raffle \<in> set (raffles db)" "r_id raffle = rid"
    using fetch_optional_Some [OF row(1)] by simp_all
  have same: "entries db' = entries db" "invoices db' = invoices db" "payout_splits db' = payout_splits db"
    by (subst db', simp add: db1)+
  show ?thesis
    using assms(2) rs same(1,2)
  proof (rule store_ok_raffles)
    show "raffle_ok x db (?f r)" if r: "r \<in> set (raffles db)" "r_id r = rid" "raffle_ok x db r" for r
    proof -
      have [simp]: "r = raffle"
        using raffle_row_unique [OF assms(2) r(1) in_row(1)] r(2) in_row(2) by simp
      obtain es where led: "raffle_ledger x db raffle es" and
        fr: "es \<noteq> [] \<and> r_entries_root raffle = Some (as_bytes (ledger_root x rid es))"
        using r(3) row(2) in_row(2) by (auto simp: raffle_ok_def frozen_status_def)
      have "raffle_ledger x db (?f raffle) es"
        using led by (subst raffle_ledger_row [of _ raffle]) (simp_all add: drawn_row_def)
      moreover have "uint ch < uint rh"
        using assms(3) by (simp add: word_less_def)
      ultimately show ?thesis
        using fr in_row(2) unfolding raffle_ok_def drawn_ok_def by (auto simp: drawn_row_def)
    qed
  qed (use store_okD(2) [OF assms(2)] in \<open>simp_all add: same drawn_row_def\<close>)
qed

end
