(* ===== verification/Store_Payout_Invariant.thy ===== *)
theory Store_Payout_Invariant
  imports Store_Invariant
begin

text \<open>
  The payout invariant: payouts exist only for drawn raffles, under their deterministic keys; the
  payouts of a drawn raffle add up to its pool, and a raffle is paid out only when all of them are
  settled. The text form of identifiers is injective, as the text of a UUID is.
\<close>

section \<open>The invariant\<close>

definition payouts_of :: "RaffleId \<Rightarrow> payout_row list \<Rightarrow> payout_row list" where
  "payouts_of rid ps = filter (\<lambda>p. p_raffle_id p = rid) ps"

definition payouts_total :: "RaffleId \<Rightarrow> payout_row list \<Rightarrow> int" where
  "payouts_total rid ps = (\<Sum>p\<leftarrow>payouts_of rid ps. p_amount_sats p)"

definition drawn_raffles :: "db \<Rightarrow> raffle_row set" where
  "drawn_raffles db = {r \<in> set (raffles db). drawn_status (r_status r)}"

definition payouts_ok :: "externals \<Rightarrow> db \<Rightarrow> bool" where
  "payouts_ok x db \<longleftrightarrow>
     table_ok payout_check payout_conflict (payouts db) \<and>
     (\<forall>p \<in> set (payouts db). p_idempotency_key p = payout_key x (p_raffle_id p) (p_recipient_type p) \<and>
        p_raffle_id p \<in> r_id ` drawn_raffles db) \<and>
     (\<forall>r \<in> drawn_raffles db. payouts_total (r_id r) (payouts db) = r_total_pool_sats r \<and>
        (r_status r = PaidOut \<longrightarrow> (\<forall>p \<in> set (payouts_of (r_id r) (payouts db)). p_status p = PaySettled)))"

lemma payouts_ok_empty: "payouts_ok x empty_db"
  by (simp add: payouts_ok_def empty_db_def table_ok_def drawn_raffles_def)

lemma payouts_ok_frame:
  assumes "payouts_ok x db" and "payouts db' = payouts db" and "drawn_raffles db' = drawn_raffles db"
  shows "payouts_ok x db'"
  using assms by (simp add: payouts_ok_def)

lemma drawn_raffles_update:
  assumes "raffles db' = set_where P f (raffles db)"
    and "\<And>r. r \<in> set (raffles db) \<Longrightarrow> P r \<Longrightarrow> \<not> drawn_status (r_status r)"
    and "\<And>r. r \<in> set (raffles db) \<Longrightarrow> P r \<Longrightarrow> \<not> drawn_status (r_status (f r))"
  shows "drawn_raffles db' = drawn_raffles db"
  using assms by (auto simp: drawn_raffles_def set_set_where)

section \<open>Amounts written by a draw\<close>

lemma insert_payout_cases:
  assumes "insert_payout x now rid (uid, rec, amount) db = Ok db'"
    and "\<forall>p \<in> set (payouts db). p_idempotency_key p \<noteq> payout_key x rid rec"
  shows "payouts db' = payouts db @ (if as_u64 amount > 0 then [new_payout x uid now rid rec (uint (as_u64 amount))] else [])"
    and "raffles db' = raffles db"
    and "table_ok payout_check payout_conflict (payouts db) \<Longrightarrow> table_ok payout_check payout_conflict (payouts db')"
proof -
  have "\<not> (\<exists>p \<in> set (payouts db). p_idempotency_key p = p_idempotency_key (new_payout x uid now rid rec a))" for a
    using assms(2) by (simp add: new_payout_def)
  then show "payouts db' = payouts db @ (if as_u64 amount > 0 then [new_payout x uid now rid rec (uint (as_u64 amount))] else [])"
    and "raffles db' = raffles db"
    using assms(1) by (auto simp: insert_payout_def bindR_eq_Ok map_err_eq_Ok sql_insert_ignore_Ok db_as_i64_Ok
        split: if_splits)
  show "table_ok payout_check payout_conflict (payouts db) \<Longrightarrow> table_ok payout_check payout_conflict (payouts db')"
    using assms(1) by (auto simp: insert_payout_def bindR_eq_Ok map_err_eq_Ok split: if_splits
        dest: payouts_tbl.insert_ignore_ok)
qed

lemma payout_key_inj:
  assumes "inj (x_uuid_text x)" and "payout_key x r a = payout_key x s a"
  shows "r = s"
  using assms by (auto simp: payout_key_def inj_def)

lemma payout_key_recipient: "payout_key x r a = payout_key x r b \<longleftrightarrow> a = b"
  by (cases a; cases b) (simp_all add: payout_key_def)

text \<open>
  Two keys of different raffles differ because the text of an identifier contains no colon.
\<close>

definition uuid_text_ok :: "externals \<Rightarrow> bool" where
  "uuid_text_ok x \<longleftrightarrow> inj (x_uuid_text x) \<and> (\<forall>u. CHR '':'' \<notin> set (x_uuid_text x u))"

lemma append_colon_inj:
  "CHR '':'' \<notin> set s \<Longrightarrow> CHR '':'' \<notin> set t \<Longrightarrow> s @ CHR '':'' # a = t @ CHR '':'' # b \<Longrightarrow> s = t \<and> a = b"
proof (induction s arbitrary: t)
  case Nil
  then show ?case by (cases t) auto
next
  case (Cons c s)
  then show ?case by (cases t) auto
qed

lemma payout_key_eq:
  assumes "uuid_text_ok x"
  shows "payout_key x r a = payout_key x s b \<longleftrightarrow> r = s \<and> a = b"
proof
  assume eq: "payout_key x r a = payout_key x s b"
  then have "x_uuid_text x r @ CHR '':'' # recipient_text a = x_uuid_text x s @ CHR '':'' # recipient_text b"
    by (simp add: payout_key_def)
  then have "x_uuid_text x r = x_uuid_text x s"
    using assms append_colon_inj by (auto simp: uuid_text_ok_def)
  then have "r = s"
    using assms by (auto simp: uuid_text_ok_def inj_def)
  then show "r = s \<and> a = b"
    using eq payout_key_recipient by blast
qed simp

text \<open>The payouts a draw owes: each recipient whose share is not zero.\<close>

definition payout_plan :: "PayoutAmounts \<Rightarrow> (RecipientType \<times> int) list" where
  "payout_plan amounts = filter (\<lambda>(_, sats). 0 < sats)
     [(RWinner, uint (as_u64 (pa_winner amounts))), (ROrganizer, uint (as_u64 (pa_organizer amounts))),
      (RPlatform, uint (as_u64 (pa_platform amounts)))]"

lemma insert_draw_payouts:
  assumes "insert_payouts x now rid (payout_items ids amounts) db = Ok db'"
    and "\<forall>p \<in> set (payouts db). p_raffle_id p \<noteq> rid \<and>
      p_idempotency_key p = payout_key x (p_raffle_id p) (p_recipient_type p)"
    and "uuid_text_ok x" and "table_ok payout_check payout_conflict (payouts db)"
  shows "\<exists>new. payouts db' = payouts db @ new \<and> table_ok payout_check payout_conflict (payouts db') \<and>
    (\<forall>p \<in> set new. p_raffle_id p = rid \<and> p_status p = PayPending \<and>
       p_idempotency_key p = payout_key x rid (p_recipient_type p)) \<and>
    map (\<lambda>p. (p_recipient_type p, p_amount_sats p)) new = payout_plan amounts \<and>
    (\<Sum>p\<leftarrow>new. p_amount_sats p) = uint (as_u64 (pa_winner amounts)) + uint (as_u64 (pa_organizer amounts))
      + uint (as_u64 (pa_platform amounts))"
proof -
  from assms(1) obtain d1 d2 where
    i1: "insert_payout x now rid (ids 1, RWinner, pa_winner amounts) db = Ok d1" and
    i2: "insert_payout x now rid (ids 2, ROrganizer, pa_organizer amounts) d1 = Ok d2" and
    i3: "insert_payout x now rid (ids 3, RPlatform, pa_platform amounts) d2 = Ok db'"
    by (auto simp: payout_items_def bindR_eq_Ok)
  note key = payout_key_eq [OF assms(3)]
  note c1 = insert_payout_cases [OF i1]
  have k1: "\<forall>p \<in> set (payouts db). p_idempotency_key p \<noteq> payout_key x rid rec" for rec
    using assms(2) by (auto simp: key)
  note p1 = c1 [OF k1]
  have k2: "\<forall>p \<in> set (payouts d1). p_idempotency_key p \<noteq> payout_key x rid ROrganizer"
    using k1 by (auto simp: p1 new_payout_def key)
  note p2 = insert_payout_cases [OF i2 k2]
  have k3: "\<forall>p \<in> set (payouts d2). p_idempotency_key p \<noteq> payout_key x rid RPlatform"
    using k1 by (auto simp: p1 p2 new_payout_def key)
  note p3 = insert_payout_cases [OF i3 k3]
  have zero: "\<not> 0 < w \<Longrightarrow> uint w = 0" for w :: u64
    by (simp add: word_gt_0)
  show ?thesis
    using p3(3) [OF p2(3) [OF p1(3) [OF assms(4)]]]
    by (intro exI [of _ "drop (length (payouts db)) (payouts db')"])
       (auto simp: p1 p2 p3 new_payout_def zero payout_plan_def word_less_def)
qed

section \<open>Preservation by the draw\<close>

lemma load_split_Ok:
  "load_split rid db = Ok split \<Longrightarrow> split_is_valid split"
  by (auto simp: load_split_def bindR_eq_Ok map_err_eq_Ok PayoutSplit_new_Ok)

lemma compute_draw_Ok:
  assumes "compute_draw x rid ch rh rand_hash raffle db = Ok (root, result, amounts)"
  obtains split where "split_is_valid split" and "0 \<le> r_total_pool_sats raffle"
    and "amounts = allocate split (Sats (of_int (r_total_pool_sats raffle)))"
proof -
  from assms obtain split and pool :: u64 where "load_split rid db = Ok split"
    and "db_as_u64 (r_total_pool_sats raffle) = Ok pool" and "amounts = allocate split (Sats pool)"
    unfolding compute_draw_def bindR_eq_Ok by blast
  then show thesis
    by (intro that [of split]) (simp_all add: db_as_u64_Ok load_split_Ok)
qed

lemma sum_uint:
  fixes a b c d :: u64
  shows "unat a + unat b + unat c = unat d \<Longrightarrow> uint a + uint b + uint c = uint d"
  unfolding uint_nat by linarith

lemma compute_draw_amounts:
  assumes "compute_draw x rid ch rh rand_hash raffle db = Ok (root, result, amounts)" and "raffle_check raffle"
  shows "uint (as_u64 (pa_winner amounts)) + uint (as_u64 (pa_organizer amounts))
    + uint (as_u64 (pa_platform amounts)) = r_total_pool_sats raffle"
proof -
  from assms(1) obtain split where s: "split_is_valid split" "0 \<le> r_total_pool_sats raffle"
    and a: "amounts = allocate split (Sats (of_int (r_total_pool_sats raffle)))"
    by (rule compute_draw_Ok)
  have "uint (of_int (r_total_pool_sats raffle) :: u64) = r_total_pool_sats raffle"
    using s(2) assms(2) by (intro uint_of_int) (simp_all add: raffle_check_def)
  then show ?thesis
    using sum_uint [OF allocate_unat(3) [OF s(1), of "Sats (of_int (r_total_pool_sats raffle))"]]
    by (simp add: a)
qed

lemma payouts_of_append [simp]:
  "payouts_of rid (ps @ qs) = payouts_of rid ps @ payouts_of rid qs"
  by (simp add: payouts_of_def)

lemma payouts_total_append [simp]:
  "payouts_total rid (ps @ qs) = payouts_total rid ps + payouts_total rid qs"
  by (simp add: payouts_total_def)

lemma payouts_of_other: "\<forall>p \<in> set ps. p_raffle_id p \<noteq> rid \<Longrightarrow> payouts_of rid ps = []"
  by (simp add: payouts_of_def filter_empty_conv)

lemma payouts_of_all: "\<forall>p \<in> set ps. p_raffle_id p = rid \<Longrightarrow> payouts_of rid ps = ps"
  by (simp add: payouts_of_def)

lemma drawn_raffles_insert:
  assumes "raffles db' = set_where (\<lambda>r. r_id r = rid) f (raffles db)"
    and "raffle \<in> set (raffles db)" and "r_id raffle = rid"
    and "\<And>r. r \<in> set (raffles db) \<Longrightarrow> r_id r = rid \<Longrightarrow> r = raffle"
    and "rid \<notin> r_id ` drawn_raffles db" and "drawn_status (r_status (f raffle))"
  shows "drawn_raffles db' = insert (f raffle) (drawn_raffles db)"
proof -
  have "{r \<in> set (raffles db). r_id r = rid} = {raffle}"
    using assms(2-4) by blast
  then have "set (raffles db') = insert (f raffle) {r \<in> set (raffles db). r_id r \<noteq> rid}"
    unfolding assms(1) set_set_where by simp
  then show ?thesis
    using assms(5,6) by (auto simp: drawn_raffles_def)
qed

lemma payouts_ok_draw:
  assumes "payouts_ok x db" and "drawn_raffles db' = insert r (drawn_raffles db)"
    and "payouts db' = payouts db @ new" and "table_ok payout_check payout_conflict (payouts db')"
    and "\<forall>p \<in> set new. p_raffle_id p = r_id r \<and> p_status p = PayPending \<and>
       p_idempotency_key p = payout_key x (r_id r) (p_recipient_type p)"
    and "payouts_total (r_id r) (payouts db @ new) = r_total_pool_sats r" and "r_status r = PayoutPending"
    and "\<And>s. s \<in> drawn_raffles db \<Longrightarrow> payouts_of (r_id s) new = []"
  shows "payouts_ok x db'"
proof -
  have "\<forall>p \<in> set (payouts db'). p_idempotency_key p = payout_key x (p_raffle_id p) (p_recipient_type p) \<and>
        p_raffle_id p \<in> r_id ` drawn_raffles db'"
    using assms(1,5) unfolding assms(2,3) payouts_ok_def by auto
  moreover have "payouts_total (r_id s) (payouts db') = r_total_pool_sats s \<and>
        (r_status s = PaidOut \<longrightarrow> (\<forall>p \<in> set (payouts_of (r_id s) (payouts db')). p_status p = PaySettled))"
    if "s \<in> drawn_raffles db" for s
    using assms(1) assms(8) [OF that] that
    unfolding assms(3) payouts_ok_def payouts_of_append payouts_total_def by simp
  ultimately show ?thesis
    using assms(4,6,7) unfolding payouts_ok_def assms(2) by (simp add: assms(3))
qed

text \<open>A raffle in a state before the draw has no payouts.\<close>

lemma waiting_raffle:
  assumes "store_ok x db" and "payouts_ok x db" and "fetch_optional (\<lambda>r. r_id r = rid) (raffles db) = Some raffle"
    and "r_status raffle = RandomnessPending"
  shows "raffle \<in> set (raffles db)" and "r_id raffle = rid" and "r \<in> set (raffles db) \<Longrightarrow> r_id r = rid \<Longrightarrow> r = raffle"
    and "rid \<notin> r_id ` drawn_raffles db"
    and "\<forall>p \<in> set (payouts db). p_raffle_id p \<noteq> rid \<and> p_idempotency_key p = payout_key x (p_raffle_id p) (p_recipient_type p)"
proof -
  show in_row: "raffle \<in> set (raffles db)" "r_id raffle = rid"
    using fetch_optional_Some [OF assms(3)] by simp_all
  show only: "r = raffle" if "r \<in> set (raffles db)" "r_id r = rid" for r
    using raffle_row_unique [OF assms(1) that(1) in_row(1)] that(2) in_row(2) by simp
  show undrawn: "rid \<notin> r_id ` drawn_raffles db"
    using only assms(4) by (auto simp: drawn_raffles_def drawn_status_def)
  then show "\<forall>p \<in> set (payouts db). p_raffle_id p \<noteq> rid \<and>
      p_idempotency_key p = payout_key x (p_raffle_id p) (p_recipient_type p)"
    using assms(2) unfolding payouts_ok_def by blast
qed

text \<open>The payouts that a committed draw adds.\<close>

lemma create_draw_new_payouts:
  assumes "create_draw_and_payouts x ids now rid ch close_hash rh rand_hash db = Ok (result, db')"
    and "store_ok x db" and "payouts_ok x db" and "uuid_text_ok x"
    and "fetch_optional (\<lambda>r. r_id r = rid) (raffles db) = Some raffle"
    and "compute_draw x rid ch rh rand_hash raffle db = Ok (root, result, amounts)"
  obtains new where "payouts db' = payouts db @ new" and "table_ok payout_check payout_conflict (payouts db')"
    and "\<forall>p \<in> set new. p_raffle_id p = rid \<and> p_status p = PayPending \<and>
       p_idempotency_key p = payout_key x rid (p_recipient_type p)"
    and "map (\<lambda>p. (p_recipient_type p, p_amount_sats p)) new = payout_plan amounts"
    and "payouts_total rid (payouts db @ new) = r_total_pool_sats raffle"
proof -
  from assms(1) obtain raffle' root' amounts' db1 js t n where
    row': "fetch_optional (\<lambda>r. r_id r = rid) (raffles db) = Some raffle'" "r_status raffle' = RandomnessPending"
    and comp': "compute_draw x rid ch rh rand_hash raffle' db = Ok (root', result, amounts')"
    and ps': "insert_payouts x now rid (payout_items ids amounts')
      (db\<lparr>draws := draws db @ [draw_row_of (ids 0) now rid root' rand_hash (uint (dr_winning_ticket result))
         (dr_winner_entry_id result)]\<rparr>) = Ok db1"
    and db': "db' = db1\<lparr>jobs := js, raffles := raffles db', audit_events := t\<rparr>"
    by (rule create_draw_and_payouts_Ok)
  have row: "r_status raffle = RandomnessPending" and same: "raffle' = raffle" "root' = root" "amounts' = amounts"
    using row' comp' assms(5,6) by auto
  note ps = ps' [unfolded same]
  note old = waiting_raffle(5) [OF assms(2,3,5) row]
  have ok: "table_ok payout_check payout_conflict (payouts db)"
    using assms(3) by (simp add: payouts_ok_def)
  from insert_draw_payouts [OF ps] old ok assms(4) obtain new where
    new: "payouts db1 = payouts db @ new" "table_ok payout_check payout_conflict (payouts db1)"
    and pn: "\<forall>p \<in> set new. p_raffle_id p = rid \<and> p_status p = PayPending \<and>
       p_idempotency_key p = payout_key x rid (p_recipient_type p)"
    and plan: "map (\<lambda>p. (p_recipient_type p, p_amount_sats p)) new = payout_plan amounts"
    and sum: "(\<Sum>p\<leftarrow>new. p_amount_sats p) = uint (as_u64 (pa_winner amounts))
      + uint (as_u64 (pa_organizer amounts)) + uint (as_u64 (pa_platform amounts))"
    by auto
  have db1: "payouts db' = payouts db1"
    by (subst db') simp
  have "payouts_total rid (payouts db @ new) = r_total_pool_sats raffle"
    using old pn sum compute_draw_amounts [OF assms(6) store_okD(9) [OF assms(2) waiting_raffle(1) [OF assms(2,3,5) row]]]
    by (simp add: payouts_total_def payouts_of_other payouts_of_all)
  with new pn plan show thesis
    by (intro that) (simp_all add: db1)
qed

lemma create_draw_keeps_payouts:
  assumes "create_draw_and_payouts x ids now rid ch close_hash rh rand_hash db = Ok (result, db')"
    and "store_ok x db" and "payouts_ok x db" and "uuid_text_ok x"
  shows "payouts_ok x db'"
proof -
  from assms(1) obtain raffle root amounts n where
    row: "fetch_optional (\<lambda>r. r_id r = rid) (raffles db) = Some raffle" "r_status raffle = RandomnessPending"
    and comp: "compute_draw x rid ch rh rand_hash raffle db = Ok (root, result, amounts)"
    and rs: "sql_update raffle_check raffle_conflict (\<lambda>r. r_id r = rid)
         (drawn_row now (uint ch) close_hash (uint rh) rand_hash) (raffles db) = Ok (raffles db', n)"
    by (rule create_draw_and_payouts_Ok)
  let ?f = "drawn_row now (uint ch) close_hash (uint rh) rand_hash"
  note waiting = waiting_raffle [OF assms(2,3) row]
  obtain new where ps': "payouts db' = payouts db @ new" "table_ok payout_check payout_conflict (payouts db')"
    and pn: "\<forall>p \<in> set new. p_raffle_id p = rid \<and> p_status p = PayPending \<and>
       p_idempotency_key p = payout_key x rid (p_recipient_type p)"
    and total: "payouts_total rid (payouts db @ new) = r_total_pool_sats raffle"
    using assms row(1) comp by (rule create_draw_new_payouts)
  have f: "r_id (?f r) = r_id r" "r_status (?f r) = PayoutPending" "r_total_pool_sats (?f r) = r_total_pool_sats r" for r
    by (simp_all add: drawn_row_def)
  have rs': "raffles db' = set_where (\<lambda>r. r_id r = rid) ?f (raffles db)"
    using rs by (simp add: sql_update_Ok)
  have drawn: "drawn_raffles db' = insert (?f raffle) (drawn_raffles db)"
    using rs' waiting(1-4) by (rule drawn_raffles_insert) (simp_all add: f drawn_status_def)
  have other: "payouts_of (r_id r) new = []" if "r \<in> drawn_raffles db" for r
    using that waiting(4) pn by (intro payouts_of_other) auto
  show ?thesis
    using assms(3) drawn ps' pn total other f waiting(2)
    by (intro payouts_ok_draw [of x db db' "?f raffle" new]) simp_all
qed

section \<open>Preservation by payout execution\<close>

lemma payouts_total_update:
  assumes "\<And>p. p_raffle_id (f p) = p_raffle_id p" and "\<And>p. p_amount_sats (f p) = p_amount_sats p"
  shows "payouts_total rid (set_where P f ps) = payouts_total rid ps"
  by (induction ps) (auto simp: set_where_def payouts_total_def payouts_of_def assms)

lemma set_payouts_of_update:
  assumes "\<And>p. p_raffle_id (f p) = p_raffle_id p"
  shows "set (payouts_of rid (set_where P f ps)) = (\<lambda>p. if P p then f p else p) ` set (payouts_of rid ps)"
  by (auto simp: payouts_of_def set_where_def assms)

text \<open>An update of payout rows that keeps keys and amounts and leaves settled rows settled.\<close>

lemma payouts_ok_update:
  assumes "payouts_ok x db"
    and "sql_update payout_check payout_conflict P f (payouts db) = Ok (payouts db', n)"
    and "drawn_raffles db' = drawn_raffles db"
    and "\<And>p. p_raffle_id (f p) = p_raffle_id p" and "\<And>p. p_amount_sats (f p) = p_amount_sats p"
    and "\<And>p. p_idempotency_key (f p) = p_idempotency_key p" and "\<And>p. p_recipient_type (f p) = p_recipient_type p"
    and "\<And>p. p \<in> set (payouts db) \<Longrightarrow> P p \<Longrightarrow> p_status p = PaySettled \<Longrightarrow> p_status (f p) = PaySettled"
  shows "payouts_ok x db'"
proof -
  have t: "payouts db' = set_where P f (payouts db)"
    using assms(2) by (simp add: sql_update_Ok)
  have ok: "table_ok payout_check payout_conflict (payouts db')"
    using assms(1,2) payouts_tbl.update_ok by (auto simp: payouts_ok_def)
  have rows: "\<exists>q \<in> set (payouts db). p_idempotency_key p = p_idempotency_key q \<and> p_raffle_id p = p_raffle_id q \<and>
      p_recipient_type p = p_recipient_type q" if "p \<in> set (payouts db')" for p
    using that by (auto simp: t set_set_where assms(4,6,7))
  have settled: "p_status p = PaySettled"
    if "p \<in> set (payouts_of rid (payouts db'))" "\<forall>p \<in> set (payouts_of rid (payouts db)). p_status p = PaySettled" for p rid
    using that assms(8) by (auto simp: t set_payouts_of_update assms(4)) (auto simp: payouts_of_def)
  show ?thesis
    using assms(1) ok rows settled unfolding payouts_ok_def assms(3)
    by (auto simp: payouts_total_update [OF assms(4,5)] t) metis+
qed

lemma claim_payout_keeps:
  assumes "claim_payout locked now rid w db = Ok (c, db')" and "payouts_ok x db"
  shows "payouts_ok x db'"
proof (cases c)
  case None
  then show ?thesis
    using assms claim_payout_None(1) by blast
next
  case (Some d)
  then obtain p where p: "candidate (payout_claimable rid now) locked payout_rank (sort_key p_created_at (payouts db)) = Some p"
    and db': "db' = db\<lparr>payouts := set_where (\<lambda>r. p_id r = p_id p) (payout_take_lease now w (now + seconds 60)) (payouts db)\<rparr>"
    using assms(1) claim_payout_Some by blast
  let ?f = "payout_take_lease now w (now + seconds 60)"
  have ok: "table_ok payout_check payout_conflict (payouts db)"
    using assms(2) by (simp add: payouts_ok_def)
  have upd: "sql_update payout_check payout_conflict (\<lambda>r. p_id r = p_id p) ?f (payouts db)
      = Ok (payouts db', length (filter (\<lambda>r. p_id r = p_id p) (payouts db)))"
    using payouts_tbl.update_succeeds [OF ok, of "\<lambda>r. p_id r = p_id p" ?f] ok
    by (simp add: db' table_ok_def payout_take_lease_def payout_check_def payout_conflict_def)
  have p_in: "p \<in> set (payouts db)" "payout_claimable rid now p"
    using candidate_Some(1,2) [OF p] by simp_all
  show ?thesis
    using assms(2) upd
  proof (rule payouts_ok_update)
    show "p_status (?f q) = PaySettled" if "q \<in> set (payouts db)" "p_id q = p_id p" "p_status q = PaySettled" for q
      using payout_row_unique [OF ok that(1) p_in(1) that(2)] that(3) p_in(2) by (auto simp: payout_claimable_def)
  qed (simp_all add: db' drawn_raffles_def payout_take_lease_def)
qed

lemma fail_payout_keeps:
  assumes "fail_payout pid w reason db = Ok (u, db')" and "payouts_ok x db"
  shows "payouts_ok x db'"
proof -
  let ?P = "\<lambda>p. p_id p = pid \<and> p_status p = PayProcessing \<and> p_lease_owner p = Some w"
  from assms(1) obtain t n where t: "sql_update payout_check payout_conflict ?P (fail_row reason) (payouts db) = Ok (t, n)"
    and db': "db' = db\<lparr>payouts := t\<rparr>"
    by (auto simp: fail_payout_def bindR_eq_Ok map_err_eq_Ok)
  have "sql_update payout_check payout_conflict ?P (fail_row reason) (payouts db) = Ok (payouts db', n)"
    using t by (simp add: db')
  with assms(2) show ?thesis
    by (rule payouts_ok_update) (auto simp: db' drawn_raffles_def fail_row_def)
qed

lemma drawn_raffles_status:
  assumes "raffles db' = set_where (\<lambda>r. r_id r = rid \<and> r_status r = PayoutPending) (set_status now PaidOut) (raffles db)"
  shows "drawn_raffles db' =
    (\<lambda>r. if r_id r = rid \<and> r_status r = PayoutPending then set_status now PaidOut r else r) ` drawn_raffles db"
  using assms by (auto simp: drawn_raffles_def set_where_def set_status_def drawn_status_def split: if_splits)

lemma payouts_ok_paid:
  assumes "payouts_ok x db"
    and "raffles db' = set_where (\<lambda>r. r_id r = rid \<and> r_status r = PayoutPending) (set_status now PaidOut) (raffles db)"
    and "payouts db' = payouts db" and "\<forall>p \<in> set (payouts_of rid (payouts db)). p_status p = PaySettled"
  shows "payouts_ok x db'"
proof -
  let ?g = "\<lambda>r. if r_id r = rid \<and> r_status r = PayoutPending then set_status now PaidOut r else r"
  have g: "r_id (?g r) = r_id r" "r_total_pool_sats (?g r) = r_total_pool_sats r"
    "r_status (?g r) = PaidOut \<Longrightarrow> r_status r = PaidOut \<or> r_id r = rid" for r
    by (simp_all add: set_status_def split: if_split_asm)
  have drawn: "drawn_raffles db' = ?g ` drawn_raffles db"
    using assms(2) by (rule drawn_raffles_status)
  have "r_id ` drawn_raffles db' = r_id ` drawn_raffles db"
    unfolding drawn image_image g(1) ..
  moreover have "payouts_total (r_id (?g r)) (payouts db) = r_total_pool_sats (?g r) \<and>
      (r_status (?g r) = PaidOut \<longrightarrow> (\<forall>p \<in> set (payouts_of (r_id (?g r)) (payouts db)). p_status p = PaySettled))"
    if "r \<in> drawn_raffles db" for r
    using assms(1,4) that g(3) [of r] unfolding g(1,2) payouts_ok_def by blast
  ultimately show ?thesis
    using assms(1) unfolding payouts_ok_def assms(3) drawn by blast
qed

lemma settle_payout_Ok:
  assumes "settle_payout x ids now pid w ref db = Ok (done, db')"
  obtains t n rid where
    "sql_update payout_check payout_conflict
       (\<lambda>p. p_id p = pid \<and> p_status p = PayProcessing \<and> p_lease_owner p = Some w) (settle_row now ref) (payouts db) = Ok (t, n)"
    and "payouts db' = t"
    and "done \<longleftrightarrow> (\<forall>p \<in> set (payouts_of rid t). p_status p = PaySettled)"
    and "\<exists>p \<in> set (payouts db). p_id p = pid \<and> p_status p = PayProcessing \<and> p_lease_owner p = Some w \<and> p_raffle_id p = rid"
    and "\<exists>rs js. db' = db\<lparr>payouts := t, raffles := rs, jobs := js\<rparr>"
    and "raffles db' = (if done then set_where (\<lambda>r. r_id r = rid \<and> r_status r = PayoutPending) (set_status now PaidOut)
       (raffles db) else raffles db)"
    and "done \<longrightarrow> (\<exists>j \<in> set (jobs db'). j_kind j = ''proof.generate'' \<and> j_deduplication_key j = x_uuid_text x rid)"
proof -
  let ?P = "\<lambda>p. p_id p = pid \<and> p_status p = PayProcessing \<and> p_lease_owner p = Some w"
  from assms obtain t n p where t: "sql_update payout_check payout_conflict ?P (settle_row now ref) (payouts db) = Ok (t, n)"
    and p: "fetch_optional ?P (payouts db) = Some p"
    and rest: "(if length (filter (\<lambda>q. p_raffle_id q = p_raffle_id p \<and> p_status q \<noteq> PaySettled) t) = 0 then
       bindR (sql (sql_update raffle_check raffle_conflict (\<lambda>r. r_id r = p_raffle_id p \<and> r_status r = PayoutPending)
           (set_status now PaidOut) (raffles db))) (\<lambda>(rs, _).
       bindR (insert_job (ids 0) now ''proof.generate'' (x_uuid_text x (p_raffle_id p))
           (JObj [(''raffle_id'', JStr (x_uuid_text x (p_raffle_id p)))]) (db\<lparr>payouts := t, raffles := rs\<rparr>)) (\<lambda>db.
         Ok (True, db)))
     else Ok (False, db\<lparr>payouts := t\<rparr>)) = Ok (done, db')"
    unfolding settle_payout_def Let_def by (auto simp: bindR_eq_Ok map_err_eq_Ok fetch_one_Ok)
  have pin: "\<exists>q \<in> set (payouts db). ?P q \<and> p_raffle_id q = p_raffle_id p"
    using fetch_optional_Some [OF p] by blast
  have all: "length (filter (\<lambda>q. p_raffle_id q = p_raffle_id p \<and> p_status q \<noteq> PaySettled) t) = 0 \<longleftrightarrow>
      (\<forall>q \<in> set (payouts_of (p_raffle_id p) t). p_status q = PaySettled)"
    by (auto simp: payouts_of_def filter_empty_conv)
  show thesis
  proof (cases "\<forall>q \<in> set (payouts_of (p_raffle_id p) t). p_status q = PaySettled")
    case True
    with rest all obtain rs m where
      rs: "sql_update raffle_check raffle_conflict (\<lambda>r. r_id r = p_raffle_id p \<and> r_status r = PayoutPending)
           (set_status now PaidOut) (raffles db) = Ok (rs, m)"
      and j: "insert_job (ids 0) now ''proof.generate'' (x_uuid_text x (p_raffle_id p))
           (JObj [(''raffle_id'', JStr (x_uuid_text x (p_raffle_id p)))]) (db\<lparr>payouts := t, raffles := rs\<rparr>) = Ok db'"
      and d: "done"
      by (auto simp: bindR_eq_Ok map_err_eq_Ok)
    from j obtain js where db': "db' = db\<lparr>payouts := t, raffles := rs, jobs := js\<rparr>"
      and key: "\<exists>j \<in> set js. j_kind j = ''proof.generate'' \<and> j_deduplication_key j = x_uuid_text x (p_raffle_id p)"
      by (rule insert_job_Ok) auto
    show thesis
      using pin True d rs key by (intro that [OF t, of "p_raffle_id p"]) (auto simp: db' sql_update_Ok)
  next
    case False
    with rest all have db': "db' = db\<lparr>payouts := t\<rparr>" and d: "\<not> done"
      by auto
    have "db' = db\<lparr>payouts := t, raffles := raffles db, jobs := jobs db\<rparr>"
      by (simp add: db')
    then have "\<exists>rs js. db' = db\<lparr>payouts := t, raffles := rs, jobs := js\<rparr>"
      by blast
    with pin False d show thesis
      by (intro that [OF t, of "p_raffle_id p"]) (auto simp: db')
  qed
qed

lemma settle_payout_keeps:
  assumes "settle_payout x ids now pid w ref db = Ok (done, db')" and "payouts_ok x db"
  shows "payouts_ok x db'"
proof -
  let ?P = "\<lambda>p. p_id p = pid \<and> p_status p = PayProcessing \<and> p_lease_owner p = Some w"
  from assms(1) obtain t n rid where
    t: "sql_update payout_check payout_conflict ?P (settle_row now ref) (payouts db) = Ok (t, n)"
    and t': "payouts db' = t"
    and d: "done \<longleftrightarrow> (\<forall>p \<in> set (payouts_of rid t). p_status p = PaySettled)"
    and rs: "raffles db' = (if done then set_where (\<lambda>r. r_id r = rid \<and> r_status r = PayoutPending)
       (set_status now PaidOut) (raffles db) else raffles db)"
    by (rule settle_payout_Ok)
  let ?d = "db\<lparr>payouts := t\<rparr>"
  have "sql_update payout_check payout_conflict ?P (settle_row now ref) (payouts db) = Ok (payouts ?d, n)"
    using t by simp
  with assms(2) have ok: "payouts_ok x ?d"
    by (rule payouts_ok_update) (auto simp: drawn_raffles_def settle_row_def)
  show ?thesis
  proof (cases "done")
    case True
    with ok d rs t' show ?thesis
      by (intro payouts_ok_paid [of x ?d db' rid now]) simp_all
  next
    case False
    with ok rs t' show ?thesis
      by (intro payouts_ok_frame [OF ok]) (simp_all add: drawn_raffles_def)
  qed
qed

lemma settle_payout_keeps_store:
  assumes "settle_payout x ids now pid w ref db = Ok (done, db')" and "store_ok x db"
  shows "store_ok x db'"
proof -
  from assms(1) obtain t rid where ex: "\<exists>rs js. db' = db\<lparr>payouts := t, raffles := rs, jobs := js\<rparr>"
    and rs: "raffles db' = (if done then set_where (\<lambda>r. r_id r = rid \<and> r_status r = PayoutPending)
       (set_status now PaidOut) (raffles db) else raffles db)"
    by (rule settle_payout_Ok)
  from ex obtain rs js where db': "db' = db\<lparr>payouts := t, raffles := rs, jobs := js\<rparr>"
    by blast
  note ok = store_okD [OF assms(2)]
  show ?thesis
  proof (cases "done")
    case True
    let ?P = "\<lambda>r. r_id r = rid \<and> r_status r = PayoutPending"
    have "sql_update raffle_check raffle_conflict ?P (set_status now PaidOut) (raffles db)
        = Ok (raffles db', length (filter ?P (raffles db)))"
      using raffles_tbl.update_succeeds [OF ok(1), of ?P "set_status now PaidOut"] ok(9) True
      by (simp add: rs set_status_def raffle_check_def raffle_conflict_def)
    then show ?thesis
    proof (rule store_ok_raffles [OF assms(2)])
      show "raffle_ok x db (set_status now PaidOut r)" if "?P r" "raffle_ok x db r" for r
        using that(2) by (rule raffle_ok_set_status)
          (use that(1) in \<open>auto simp: frozen_status_def drawn_status_def\<close>)
    qed (use ok(2) in \<open>simp_all add: db' set_status_def\<close>)
  next
    case False
    with ok(4) rs show ?thesis
      by (intro store_ok_frame [OF assms(2)]) (simp_all add: db')
  qed
qed

end
