(* ===== verification/Store_System.thy ===== *)
theory Store_System
  imports Store_Payout_Invariant
begin

text \<open>
  The store as a transition system. A step is one committed transaction of
  \<open>crates/openpool-core/src/persistence_sqlx.rs\<close> or \<open>jobs.rs\<close>; a transaction that returns an error is
  rolled back and leaves the database as it was. Since every transaction locks the rows it decides on,
  the interleavings of the API processes and workers are sequences of such steps. \<open>invariant_system\<close> is
  the interface: what holds initially and is kept by every step holds in every reachable state.
\<close>

section \<open>Invariants of transition systems\<close>

inductive reachable :: "('s \<Rightarrow> 's \<Rightarrow> bool) \<Rightarrow> 's \<Rightarrow> 's \<Rightarrow> bool" for step init where
  start: "reachable step init init"
| step: "reachable step init s \<Longrightarrow> step s t \<Longrightarrow> reachable step init t"

locale invariant_system =
  fixes init :: 's and step :: "'s \<Rightarrow> 's \<Rightarrow> bool" and inv :: "'s \<Rightarrow> bool"
  assumes inv_init: "inv init"
    and inv_step: "inv s \<Longrightarrow> step s t \<Longrightarrow> inv t"
begin

lemma inv_reachable: "reachable step init s \<Longrightarrow> inv s"
  by (induction rule: reachable.induct) (auto intro: inv_init inv_step)

lemma inv_steps: "reachable step s t \<Longrightarrow> inv s \<Longrightarrow> inv t"
  by (induction rule: reachable.induct) (auto intro: inv_step)

end

section \<open>Transactions outside the ledger\<close>

text \<open>
  What most transactions leave alone: raffles, splits, entries and payouts. The invoices may change,
  within their constraints.
\<close>

definition keeps_core :: "db \<Rightarrow> db \<Rightarrow> bool" where
  "keeps_core db db' \<longleftrightarrow>
     raffles db' = raffles db \<and> payout_splits db' = payout_splits db \<and> entries db' = entries db \<and>
     payouts db' = payouts db \<and>
     (table_ok invoice_check invoice_conflict (invoices db) \<longrightarrow> table_ok invoice_check invoice_conflict (invoices db'))"

lemma keeps_core_store:
  assumes "keeps_core db db'" and "store_ok x db \<and> payouts_ok x db"
  shows "store_ok x db' \<and> payouts_ok x db'"
proof
  show "store_ok x db'"
    by (rule store_ok_frame [of x db]) (use assms store_okD(4) [of x db] in \<open>simp_all add: keeps_core_def\<close>)
  show "payouts_ok x db'"
    by (rule payouts_ok_frame [of x db]) (use assms in \<open>auto simp: keeps_core_def drawn_raffles_def\<close>)
qed

lemmas keeps_simps = keeps_core_def bindR_eq_Ok map_err_eq_Ok ok_or_eq_Ok

lemma keeps_create_organizer: "create_organizer org db = Ok (u, db') \<Longrightarrow> keeps_core db db'"
  by (auto simp: create_organizer_def keeps_simps)

lemma keeps_create_pending_invoice: "create_pending_invoice now i db = Ok (u, db') \<Longrightarrow> keeps_core db db'"
  by (auto simp: create_pending_invoice_def keeps_simps dest: invoices_tbl.insert_ok)

lemma keeps_create_collection_invoice:
  "create_collection_invoice x ids now i db = Ok (u, db') \<Longrightarrow> keeps_core db db'"
  by (auto simp: create_collection_invoice_def keeps_simps Let_def split: if_splits
      elim!: write_audit_Ok dest: invoices_tbl.insert_ok)

lemma keeps_store_collection_invoice:
  "store_collection_invoice x iid q h b t db = Ok (u, db') \<Longrightarrow> keeps_core db db'"
  by (auto simp: store_collection_invoice_def keeps_simps split: if_splits dest: invoices_tbl.update_ok)

lemma keeps_fail_collection_invoice: "fail_collection_invoice iid db = Ok (u, db') \<Longrightarrow> keeps_core db db'"
  by (auto simp: fail_collection_invoice_def keeps_simps dest: invoices_tbl.update_ok)

lemma keeps_mark_collection_uncollectible:
  "mark_collection_uncollectible iid db = Ok (u, db') \<Longrightarrow> keeps_core db db'"
  by (auto simp: mark_collection_uncollectible_def keeps_simps dest: invoices_tbl.update_ok)

lemma keeps_record_webhook: "record_webhook_and_enqueue x ids now ev db = Ok (u, db') \<Longrightarrow> keeps_core db db'"
  by (auto simp: record_webhook_and_enqueue_def keeps_simps split: if_splits elim!: insert_job_Ok)

lemma keeps_create_refund_eligibility:
  "create_refund_eligibility ids now rid iid reason db = Ok (u, db') \<Longrightarrow> keeps_core db db'"
  by (auto simp: create_refund_eligibility_def keeps_simps split: if_splits)

lemma keeps_mark_late_settlement:
  "mark_late_settlement_for_refund x ids now iid db = Ok (u, db') \<Longrightarrow> keeps_core db db'"
  by (auto simp: mark_late_settlement_for_refund_def keeps_simps split: if_splits
      elim!: write_audit_Ok dest: invoices_tbl.update_ok)

lemma keeps_generate_terminal_proof:
  "generate_terminal_proof x ids now rid db = Ok (u, db') \<Longrightarrow> keeps_core db db'"
  unfolding generate_terminal_proof_def
  by (auto simp: keeps_simps split: if_splits elim!: write_audit_Ok)

lemma keeps_record_proof_publication:
  "record_proof_publication now rid uri v e db = Ok (u, db') \<Longrightarrow> keeps_core db db'"
  by (auto simp: record_proof_publication_def keeps_simps split: if_splits)

lemma keeps_record_canonical_block:
  "record_canonical_block x now h bh prev t db = Ok (u, db') \<Longrightarrow> keeps_core db db'"
  by (auto simp: record_canonical_block_def keeps_simps)

lemma keeps_sessions:
  "create_oidc_session x s db = Ok (u, db') \<Longrightarrow> keeps_core db db'"
  "db' = delete_oidc_session uid db \<Longrightarrow> keeps_core db db'"
  "create_oidc_login_attempt x l db = Ok (u, db') \<Longrightarrow> keeps_core db db'"
  "db' = snd (consume_oidc_login_attempt now st db) \<Longrightarrow> keeps_core db db'"
  by (auto simp: create_oidc_session_def delete_oidc_session_def create_oidc_login_attempt_def
      consume_oidc_login_attempt_def keeps_simps Let_def)

lemma keeps_queue:
  "enqueue x now job db = Ok (b, db') \<Longrightarrow> keeps_core db db'"
  "claim_job locked now w ls db = Ok (c, db') \<Longrightarrow> keeps_core db db'"
  "succeed now jid w db = Ok (u, db') \<Longrightarrow> keeps_core db db'"
  "fail_or_retry now cj w ra er db = Ok (d, db') \<Longrightarrow> keeps_core db db'"
  "retry_dead_job now uid db = Ok (b, db') \<Longrightarrow> keeps_core db db'"
  by (auto simp: enqueue_def claim_job_def succeed_def fail_or_retry_def retry_dead_job_def keeps_simps Let_def
      split: if_splits option.splits)

lemma keeps_outbox:
  "claim_outbox lockedx now w ls db = Ok (ce, db') \<Longrightarrow> keeps_core db db'"
  "mark_delivered now uid w db = Ok (u, db') \<Longrightarrow> keeps_core db db'"
  by (auto simp: claim_outbox_def mark_delivered_def keeps_simps Let_def split: if_splits option.splits)

section \<open>The steps of the store\<close>

text \<open>
  The environment of a step: a settlement time that the timestamp column keeps to the millisecond, and
  a draw on two blocks in the order the worker finds them.
\<close>

definition settlement_time_ok :: "externals \<Rightarrow> timestamp \<Rightarrow> bool" where
  "settlement_time_ok x t \<longleftrightarrow> unix_ms (x_timestamptz x t) = unix_ms t"

inductive db_step :: "externals \<Rightarrow> db \<Rightarrow> db \<Rightarrow> bool" for x where
  create_organizer: "create_organizer org db = Ok (u, db') \<Longrightarrow> db_step x db db'"
| create_draft_raffle: "create_draft_raffle x ids now raffle db = Ok (u, db') \<Longrightarrow> db_step x db db'"
| transition_raffle: "transition_raffle x ids now oid rid st db = Ok (u, db') \<Longrightarrow> db_step x db db'"
| update_raffle: "update_raffle x ids now oid raffle db = Ok (u, db') \<Longrightarrow> db_step x db db'"
| create_pending_invoice: "create_pending_invoice now invoice db = Ok (u, db') \<Longrightarrow> db_step x db db'"
| create_collection_invoice: "create_collection_invoice x ids now col db = Ok (pc, db') \<Longrightarrow> db_step x db db'"
| store_collection_invoice: "store_collection_invoice x iid q h b t db = Ok (u, db') \<Longrightarrow> db_step x db db'"
| fail_collection_invoice: "fail_collection_invoice iid db = Ok (u, db') \<Longrightarrow> db_step x db db'"
| mark_collection_uncollectible: "mark_collection_uncollectible iid db = Ok (u, db') \<Longrightarrow> db_step x db db'"
| record_webhook_and_enqueue: "record_webhook_and_enqueue x ids now ev db = Ok (f, db') \<Longrightarrow> db_step x db db'"
| create_refund_eligibility: "create_refund_eligibility ids now rid iid reason db = Ok (uid, db') \<Longrightarrow> db_step x db db'"
| mark_late_settlement: "mark_late_settlement_for_refund x ids now iid db = Ok (uid, db') \<Longrightarrow> db_step x db db'"
| settle_invoice: "settle_invoice_and_append_entry x ids now iid eid t db = Ok (entry, db') \<Longrightarrow>
    settlement_time_ok x t \<Longrightarrow> db_step x db db'"
| schedule_due_closes: "schedule_due_closes x ids now db = Ok (n, db') \<Longrightarrow> db_step x db db'"
| freeze_raffle: "freeze_raffle x ids now rid db = Ok (root, db') \<Longrightarrow> db_step x db db'"
| create_draw: "create_draw_and_payouts x ids now rid ch bh rh rand db = Ok (result, db') \<Longrightarrow>
    ch < rh \<Longrightarrow> db_step x db db'"
| claim_payout: "claim_payout plocked now rid w db = Ok (cp, db') \<Longrightarrow> db_step x db db'"
| settle_payout: "settle_payout x ids now pid w ref db = Ok (f, db') \<Longrightarrow> db_step x db db'"
| fail_payout: "fail_payout pid w failure db = Ok (u, db') \<Longrightarrow> db_step x db db'"
| generate_terminal_proof: "generate_terminal_proof x ids now rid db = Ok (doc, db') \<Longrightarrow> db_step x db db'"
| record_proof_publication: "record_proof_publication now rid uri v etag db = Ok (u, db') \<Longrightarrow> db_step x db db'"
| record_canonical_block: "record_canonical_block x now h bh prev t db = Ok (u, db') \<Longrightarrow> db_step x db db'"
| create_oidc_session: "create_oidc_session x session db = Ok (u, db') \<Longrightarrow> db_step x db db'"
| delete_oidc_session: "db_step x db (delete_oidc_session uid db)"
| create_oidc_login_attempt: "create_oidc_login_attempt x attempt db = Ok (u, db') \<Longrightarrow> db_step x db db'"
| consume_oidc_login_attempt: "db_step x db (snd (consume_oidc_login_attempt now state db))"
| enqueue: "enqueue x now job db = Ok (f, db') \<Longrightarrow> db_step x db db'"
| claim_job: "claim_job jlocked now w ls db = Ok (cj, db') \<Longrightarrow> db_step x db db'"
| succeed: "succeed now jid w db = Ok (u, db') \<Longrightarrow> db_step x db db'"
| fail_or_retry: "fail_or_retry now claimed w ra er db = Ok (d, db') \<Longrightarrow> db_step x db db'"
| retry_dead_job: "retry_dead_job now uid db = Ok (f, db') \<Longrightarrow> db_step x db db'"
| claim_outbox: "claim_outbox olocked now w ls db = Ok (ce, db') \<Longrightarrow> db_step x db db'"
| mark_delivered: "mark_delivered now uid w db = Ok (u, db') \<Longrightarrow> db_step x db db'"

text \<open>Steps that rewrite raffle rows or payouts, and what each keeps of the payout invariant.\<close>

lemma create_draft_raffle_keeps_payouts:
  assumes "create_draft_raffle x ids now raffle db = Ok (u, db')" and "payouts_ok x db"
  shows "payouts_ok x db'"
proof -
  from assms(1) obtain price t ob where
    "db' = db\<lparr>raffles := raffles db @ [new_raffle_row x now raffle price],
              payout_splits := payout_splits db @ [new_split_row raffle], audit_events := t, outbox_events := ob\<rparr>"
    by (rule create_draft_raffle_Ok)
  then show ?thesis
    by (intro payouts_ok_frame [OF assms(2)])
       (auto simp: drawn_raffles_def new_raffle_row_def drawn_status_def)
qed

lemma transition_raffle_keeps_payouts:
  assumes "transition_raffle x ids now oid rid st db = Ok (u, db')" and "payouts_ok x db"
  shows "payouts_ok x db'"
proof -
  from assms(1) obtain t ob where db': "db' = db\<lparr>raffles := set_where
      (\<lambda>r. r_id r = rid \<and> r_organizer_id r = oid \<and> transition_allowed (r_status r) st) (set_status now st) (raffles db),
      audit_events := t, outbox_events := ob\<rparr>"
    by (rule transition_raffle_Ok)
  have "raffles db' = set_where (\<lambda>r. r_id r = rid \<and> r_organizer_id r = oid \<and> transition_allowed (r_status r) st)
      (set_status now st) (raffles db)"
    by (simp add: db')
  then have "drawn_raffles db' = drawn_raffles db"
    by (rule drawn_raffles_update) (auto simp: transition_allowed_def set_status_def drawn_status_def)
  then show ?thesis
    by (intro payouts_ok_frame [OF assms(2)]) (simp_all add: db')
qed

lemma update_raffle_keeps_payouts:
  assumes "update_raffle x ids now oid raffle db = Ok (u, db')" and "payouts_ok x db"
  shows "payouts_ok x db'"
proof -
  let ?P = "\<lambda>r. r_id r = nr_id raffle \<and> r_organizer_id r = oid \<and> r_status r \<in> {Draft, Scheduled}"
  from assms(1) obtain price rs ss n t where
    rs: "sql_update raffle_check raffle_conflict ?P (edit_row x now raffle price) (raffles db) = Ok (rs, n)"
    and db': "db' = db\<lparr>raffles := rs, payout_splits := ss, audit_events := t\<rparr>"
    unfolding update_raffle_def
    by (auto simp: bindR_eq_Ok map_err_eq_Ok split: if_splits elim!: write_audit_Ok)
  have "raffles db' = set_where ?P (edit_row x now raffle price) (raffles db)"
    using rs by (simp add: db' sql_update_Ok)
  then have "drawn_raffles db' = drawn_raffles db"
    by (rule drawn_raffles_update) (auto simp: edit_row_def drawn_status_def)
  then show ?thesis
    by (intro payouts_ok_frame [OF assms(2)]) (simp_all add: db')
qed

lemma settle_keeps_payouts:
  assumes "settle_invoice_and_append_entry x ids now iid eid settled_at db = Ok (entry, db')"
    and "store_ok x db" and "payouts_ok x db"
  shows "payouts_ok x db'"
proof -
  consider "db' = db" | r invoice where "fetch_optional (\<lambda>r. r_id r = i_raffle_id invoice) (raffles db) = Some r"
      "r_status r = Open" "append_entry x ids now invoice r eid settled_at db = Ok (entry, db')"
    using assms(1)
    by (auto simp: settle_invoice_and_append_entry_def bindR_eq_Ok ok_or_eq_Ok split: if_splits)
  then show ?thesis
  proof cases
    case (2 r invoice)
    from 2(3) obtain row t ob m n and np :: u64 where
      rs: "sql_update raffle_check raffle_conflict (\<lambda>r. r_id r = i_raffle_id invoice)
        (credit_raffle now (uint np) (uint (tr_end (ed_ticket_range (le_data entry)))) (le_entry_hash entry)) (raffles db)
        = Ok (raffles db', m)"
      and db': "db' = db\<lparr>entries := entries db @ [row], invoices := invoices db', raffles := raffles db',
        audit_events := t, outbox_events := ob\<rparr>"
      by (rule append_entry_Ok)
    have only: "s = r" if "s \<in> set (raffles db)" "r_id s = i_raffle_id invoice" for s
      using raffle_row_unique [OF assms(2) that(1)] that(2) fetch_optional_Some [OF 2(1)] by simp
    have "raffles db' = set_where (\<lambda>r. r_id r = i_raffle_id invoice)
        (credit_raffle now (uint np) (uint (tr_end (ed_ticket_range (le_data entry)))) (le_entry_hash entry)) (raffles db)"
      using rs by (simp add: sql_update_Ok)
    then have "drawn_raffles db' = drawn_raffles db"
      by (rule drawn_raffles_update) (use only 2(2) in \<open>auto simp: credit_raffle_def drawn_status_def\<close>)
    moreover have "payouts db' = payouts db"
      by (subst db') simp
    ultimately show ?thesis
      by (intro payouts_ok_frame [OF assms(3)])
  qed (simp add: assms(3))
qed

lemma schedule_due_closes_keeps_payouts:
  assumes "schedule_due_closes x ids now db = Ok (n, db')" and "payouts_ok x db"
  shows "payouts_ok x db'"
proof -
  from assms(1) obtain rs m where
    rs: "sql_update raffle_check raffle_conflict (close_due now) (set_status now Closing) (raffles db) = Ok (rs, m)"
    and c: "schedule_closes x ids now 0 (map r_id (filter (close_due now) (raffles db))) (db\<lparr>raffles := rs\<rparr>) = Ok db'"
    unfolding schedule_due_closes_def by (auto simp: Let_def bindR_eq_Ok map_err_eq_Ok)
  from schedule_closes_frame [OF c] obtain js t where db': "db' = db\<lparr>raffles := rs, jobs := js, audit_events := t\<rparr>"
    by auto
  have "raffles db' = set_where (close_due now) (set_status now Closing) (raffles db)"
    using rs by (simp add: db' sql_update_Ok)
  then have "drawn_raffles db' = drawn_raffles db"
    by (rule drawn_raffles_update) (auto simp: close_due_def set_status_def drawn_status_def)
  then show ?thesis
    by (intro payouts_ok_frame [OF assms(2)]) (simp_all add: db')
qed

lemma freeze_keeps_payouts:
  assumes "freeze_raffle x ids now rid db = Ok (root, db')" and "store_ok x db" and "payouts_ok x db"
  shows "payouts_ok x db'"
proof -
  from assms(1) obtain row n js t ob where
    row: "fetch_optional (\<lambda>r. r_id r = rid) (raffles db) = Some row" "r_status row = Closing"
    and rs: "sql_update raffle_check raffle_conflict (\<lambda>r. r_id r = rid)
      (freeze_row now (if r_total_tickets row = 0 then Cancelled else RandomnessPending) root) (raffles db)
      = Ok (raffles db', n)"
    and db': "db' = db\<lparr>raffles := raffles db', audit_events := t, outbox_events := ob, jobs := js\<rparr>"
    by (rule freeze_raffle_Ok)
  have only: "s = row" if "s \<in> set (raffles db)" "r_id s = rid" for s
    using raffle_row_unique [OF assms(2) that(1)] that(2) fetch_optional_Some [OF row(1)] by simp
  have "raffles db' = set_where (\<lambda>r. r_id r = rid)
      (freeze_row now (if r_total_tickets row = 0 then Cancelled else RandomnessPending) root) (raffles db)"
    using rs by (simp add: sql_update_Ok)
  then have "drawn_raffles db' = drawn_raffles db"
    by (rule drawn_raffles_update) (use only row(2) in \<open>auto simp: freeze_row_def drawn_status_def\<close>)
  moreover have "payouts db' = payouts db"
    by (subst db') simp
  ultimately show ?thesis
    by (intro payouts_ok_frame [OF assms(3)])
qed

lemma payout_steps_keep_store:
  "claim_payout locked now rid w db = Ok (c, db') \<Longrightarrow> store_ok x db \<Longrightarrow> store_ok x db'"
  "fail_payout pid w reason db = Ok (u, db') \<Longrightarrow> store_ok x db \<Longrightarrow> store_ok x db'"
proof -
  show "claim_payout locked now rid w db = Ok (c, db') \<Longrightarrow> store_ok x db \<Longrightarrow> store_ok x db'"
    by (rule store_ok_frame [of x db])
       (auto simp: claim_payout_def keeps_simps split: option.splits dest: store_okD(4))
  show "fail_payout pid w reason db = Ok (u, db') \<Longrightarrow> store_ok x db \<Longrightarrow> store_ok x db'"
    by (rule store_ok_frame [of x db]) (auto simp: fail_payout_def keeps_simps dest: store_okD(4))
qed

section \<open>The invariant of the store\<close>

definition db_ok :: "externals \<Rightarrow> db \<Rightarrow> bool" where
  "db_ok x db \<longleftrightarrow> store_ok x db \<and> payouts_ok x db"

lemmas keeps_steps = keeps_create_organizer keeps_create_pending_invoice keeps_create_collection_invoice
  keeps_store_collection_invoice keeps_fail_collection_invoice keeps_mark_collection_uncollectible
  keeps_record_webhook keeps_create_refund_eligibility keeps_mark_late_settlement
  keeps_generate_terminal_proof keeps_record_proof_publication keeps_record_canonical_block
  keeps_sessions keeps_queue keeps_outbox

lemmas store_keeps = create_draft_raffle_keeps transition_raffle_keeps update_raffle_keeps schedule_due_closes_keeps
  freeze_keeps create_draw_keeps payout_steps_keep_store settle_payout_keeps_store
  settle_keeps [folded settlement_time_ok_def]

lemmas payouts_keep = create_draft_raffle_keeps_payouts transition_raffle_keeps_payouts update_raffle_keeps_payouts
  schedule_due_closes_keeps_payouts claim_payout_keeps settle_payout_keeps fail_payout_keeps

lemmas payouts_keep_store = settle_keeps_payouts freeze_keeps_payouts

lemma db_step_store_ok:
  assumes "db_step x db db'" and "db_ok x db"
  shows "store_ok x db'"
proof -
  have ok: "store_ok x db"
    using assms(2) by (simp add: db_ok_def)
  have core: "store_ok x d" if "keeps_core db d" for d
    using keeps_core_store [OF that] assms(2) unfolding db_ok_def by blast
  show ?thesis
    using assms(1)
    by cases ((erule keeps_steps [THEN core] | erule store_keeps [OF _ ok]); assumption?)+
qed

lemma db_step_payouts_ok:
  assumes "db_step x db db'" and "db_ok x db" and "uuid_text_ok x"
  shows "payouts_ok x db'"
proof -
  have ok: "store_ok x db" "payouts_ok x db"
    using assms(2) by (simp_all add: db_ok_def)
  have core: "payouts_ok x d" if "keeps_core db d" for d
    using keeps_core_store [OF that] ok by blast
  show ?thesis
    using assms(1)
    by cases ((erule keeps_steps [THEN core] | erule payouts_keep [OF _ ok(2)]
        | erule payouts_keep_store [OF _ ok] | erule create_draw_keeps_payouts [OF _ ok assms(3)]); assumption?)+
qed

text \<open>
  The database with the text function of its identifiers, as one system: the invariant is kept by every
  transaction of the store, in any order.
\<close>

definition db_inv :: "externals \<Rightarrow> db \<Rightarrow> bool" where
  "db_inv x db \<longleftrightarrow> (uuid_text_ok x \<longrightarrow> db_ok x db)"

interpretation store: invariant_system empty_db "db_step x" "db_inv x"
  for x
proof unfold_locales
  show "db_inv x empty_db"
    by (simp add: db_inv_def db_ok_def store_ok_empty payouts_ok_empty)
  show "db_inv x t" if "db_inv x s" "db_step x s t" for s t
    using that db_step_store_ok db_step_payouts_ok by (auto simp: db_inv_def db_ok_def)
qed

lemma reachable_db_ok:
  assumes "reachable (db_step x) empty_db db" and "uuid_text_ok x"
  shows "store_ok x db" and "payouts_ok x db"
  using store.inv_reachable [OF assms(1)] assms(2) by (simp_all add: db_inv_def db_ok_def)

end
