(* ===== verification/Store_Samples.thy ===== *)
theory Store_Samples
  imports Store_System
begin

text \<open>
  A small database in order: one organizer, one raffle in a given status with one settled entry of three
  tickets, one invoice still pending, and the payouts a drawn raffle has. The properties that assume the
  store invariant are applied to it.
\<close>

section \<open>Rows\<close>

definition sample_entry :: LedgerEntry where
  "sample_entry = LedgerEntry_create (\<lambda>_. ZERO_HASH)
     \<lparr>ed_raffle_id = 2, ed_entry_id = 7, ed_entry_index = 0, ed_participant_public_id = hash_repeat 1,
      ed_payment_reference_hash = hash_repeat 5, ed_amount_sats = Sats 300,
      ed_ticket_range = \<lparr>tr_start = 0, tr_end = 3\<rparr>, ed_settled_at_unix_ms = 15\<rparr> ZERO_HASH"

definition sample_entry_row :: entry_row where
  "sample_entry_row =
     \<lparr>e_id = 7, e_raffle_id = 2, e_invoice_id = 5, e_entry_index = 0,
      e_participant_public_id = as_bytes (hash_repeat 1), e_payment_reference_hash = as_bytes (hash_repeat 5),
      e_amount_sats = 300, e_ticket_start = 0, e_ticket_end = 3, e_settled_at = 15000000,
      e_previous_entry_hash = as_bytes ZERO_HASH, e_entry_hash = as_bytes ZERO_HASH\<rparr>"

definition sample_raffle_row :: "RaffleStatus \<Rightarrow> raffle_row" where
  "sample_raffle_row st =
     \<lparr>r_id = 2, r_organizer_id = 1, r_name = ''pool'', r_entry_price_sats = 100, r_start_time = 0,
      r_end_time = 1000, r_status = st, r_randomness_delay_blocks = 1, r_total_pool_sats = 300,
      r_total_tickets = 3, r_entry_chain_head = Some (as_bytes ZERO_HASH),
      r_entries_root = Some (as_bytes ZERO_HASH), r_frozen_at = None, r_created_at = 1, r_updated_at = 2,
      r_close_block_height = Some 100, r_close_block_hash = Some (as_bytes ZERO_HASH),
      r_randomness_block_height = Some 101, r_randomness_block_hash = Some (as_bytes ZERO_HASH)\<rparr>"

definition sample_split_row :: split_row where
  "sample_split_row = \<lparr>sp_raffle_id = 2, sp_winner_bps = 8000, sp_organizer_bps = 1500, sp_platform_bps = 500\<rparr>"

definition sample_invoice_row :: "InvoiceId \<Rightarrow> InvoiceStatus \<Rightarrow> int \<Rightarrow> invoice_row" where
  "sample_invoice_row iid st count =
     \<lparr>i_id = iid, i_raffle_id = 2, i_participant_public_id = as_bytes (hash_repeat 1),
      i_payment_reference_hash = as_bytes (hash_repeat (ucast iid)), i_amount_sats = 100 * count,
      i_ticket_count = count, i_status = st, i_settled_at = None, i_created_at = 3,
      i_payout_address_ciphertext = Some [1], i_bolt11 = None, i_provider_quote_id = None,
      i_provider_payment_hash = None, i_expires_at = None\<rparr>"

definition sample_payout_row :: "PayoutStatus \<Rightarrow> uuid \<Rightarrow> RecipientType \<Rightarrow> int \<Rightarrow> payout_row" where
  "sample_payout_row st uid rec amount =
     (new_payout sample_ext uid 4 2 rec amount)\<lparr>p_status := st\<rparr>"

definition sample_payouts :: "RaffleStatus \<Rightarrow> payout_row list" where
  "sample_payouts st =
     (if drawn_status st then
        (let ps = (if st = PaidOut then PaySettled else PayPending)
         in [sample_payout_row ps 31 RWinner 240, sample_payout_row ps 32 ROrganizer 45,
             sample_payout_row ps 33 RPlatform 15])
      else [])"

definition sample_store :: "RaffleStatus \<Rightarrow> db" where
  "sample_store st = empty_db\<lparr>
     organizers := [\<lparr>o_id = 1, o_display_name = ''org'', o_lightning_address_ciphertext = [7], o_status = OrgActive\<rparr>],
     raffles := [sample_raffle_row st], payout_splits := [sample_split_row],
     invoices := [sample_invoice_row 5 InvSettled 3, sample_invoice_row 6 InvPending 2],
     entries := [sample_entry_row], payouts := sample_payouts st\<rparr>"

section \<open>The sample is in order\<close>

lemma sample_store_sel [simp]:
  "raffles (sample_store st) = [sample_raffle_row st]"
  "payout_splits (sample_store st) = [sample_split_row]"
  "invoices (sample_store st) = [sample_invoice_row 5 InvSettled 3, sample_invoice_row 6 InvPending 2]"
  "entries (sample_store st) = [sample_entry_row]"
  "payouts (sample_store st) = sample_payouts st"
  "jobs (sample_store st) = []" "audit_events (sample_store st) = []" "outbox_events (sample_store st) = []"
  "draws (sample_store st) = []" "proofs (sample_store st) = []" "refunds (sample_store st) = []"
  "webhook_events (sample_store st) = []"
  by (simp_all add: sample_store_def empty_db_def)

lemma sample_raffle_sel [simp]:
  "r_id (sample_raffle_row st) = 2" "r_status (sample_raffle_row st) = st"
  "r_total_tickets (sample_raffle_row st) = 3" "r_total_pool_sats (sample_raffle_row st) = 300"
  "r_entries_root (sample_raffle_row st) = Some (as_bytes ZERO_HASH)"
  by (simp_all add: sample_raffle_row_def)

lemma sample_ext_sel [simp]:
  "x_sha sample_ext = (\<lambda>_. ZERO_HASH)" "x_timestamptz sample_ext = (\<lambda>t. t)" "x_jcs sample_ext = (\<lambda>_. Ok [])"
  by (simp_all add: sample_ext_def)

lemma sample_uuid_text_ok [simp]: "uuid_text_ok sample_ext"
proof -
  have "inj (\<lambda>u :: uuid. replicate (unat u) (CHR ''u''))"
    by (auto simp: inj_def replicate_eq_replicate word_unat_eq_iff)
  then show ?thesis
    by (simp add: uuid_text_ok_def sample_ext_def)
qed

lemma sample_settlement_time_ok [simp]: "settlement_time_ok sample_ext t"
  by (simp add: settlement_time_ok_def)

lemma sample_entry_valid: "valid_ledger (\<lambda>_. ZERO_HASH) 2 [sample_entry]"
  by (simp add: valid_ledger_def entry_ok_def sample_entry_def LedgerEntry_create_def entry_hash_def
      ticket_base_def chain_hash_def range_is_valid_def)

lemma sample_raffle_ledger: "raffle_ledger sample_ext (sample_store st) (sample_raffle_row st) [sample_entry]"
proof -
  have "ledger_entry_from_row sample_entry_row = Ok sample_entry"
    by (simp add: ledger_entry_from_row_Ok)
       (simp add: sample_entry_row_def sample_entry_def LedgerEntry_create_def entry_hash_def range_is_valid_def unix_ms_def)
  then show ?thesis
    using sample_entry_valid
    by (simp add: raffle_ledger_def raffle_entries_def sample_raffle_row_def)
       (simp add: sample_entry_row_def sample_entry_def LedgerEntry_create_def entry_hash_def ticket_base_def chain_hash_def)
qed

lemma sample_store_ok: "store_ok sample_ext (sample_store st)"
proof -
  have "raffle_ok sample_ext (sample_store st) (sample_raffle_row st)"
    unfolding raffle_ok_def drawn_ok_def
    using sample_raffle_ledger [of st]
    by (auto simp: ledger_root_def entries_root_def sample_raffle_row_def intro!: exI [of _ "[sample_entry]"])
  moreover have "raffle_check (sample_raffle_row st)"
    by (simp add: raffle_check_def sample_raffle_row_def bigint_def integer_col_def hash_col_def)
  moreover have "entry_check sample_entry_row"
    by (simp add: entry_check_def sample_entry_row_def bigint_def)
  moreover have "split_check sample_split_row"
    by (simp add: split_check_def sample_split_row_def)
  moreover have "table_ok invoice_check invoice_conflict [sample_invoice_row 5 InvSettled 3, sample_invoice_row 6 InvPending 2]"
    by (simp add: table_ok_def invoice_check_def invoice_conflict_def sample_invoice_row_def bigint_def same_some_def)
  ultimately show ?thesis
    by (simp add: store_ok_def table_ok_def) (simp add: sample_entry_row_def sample_split_row_def)
qed

lemma sample_payouts_ok: "payouts_ok sample_ext (sample_store st)"
proof -
  have drawn: "drawn_raffles (sample_store st) = (if drawn_status st then {sample_raffle_row st} else {})"
    by (auto simp: drawn_raffles_def)
  have row: "p_id (sample_payout_row s u rec a) = u" "p_raffle_id (sample_payout_row s u rec a) = 2"
    "p_status (sample_payout_row s u rec a) = s" "p_recipient_type (sample_payout_row s u rec a) = rec"
    "p_amount_sats (sample_payout_row s u rec a) = a"
    "p_idempotency_key (sample_payout_row s u rec a) = payout_key sample_ext 2 rec" for s u rec a
    by (simp_all add: sample_payout_row_def new_payout_def)
  have "table_ok payout_check payout_conflict (sample_payouts st)"
    by (simp add: sample_payouts_def table_ok_def Let_def payout_check_def payout_conflict_def row bigint_def
        payout_key_recipient)
  then show ?thesis
    by (auto simp: payouts_ok_def drawn sample_payouts_def Let_def row payouts_total_def payouts_of_def)
qed

lemma sample_db_ok: "db_ok sample_ext (sample_store st)"
  by (simp add: db_ok_def sample_store_ok sample_payouts_ok)

text \<open>Definitions that evaluate a transaction on the sample.\<close>

lemmas sample_rows = sample_raffle_row_def sample_entry_row_def sample_split_row_def sample_invoice_row_def
  sample_payout_row_def new_payout_def

lemmas eval_sql = sql_insert_def sql_insert_ignore_def sql_update_def set_where_def fetch_optional_def fetch_one_def
  db_as_u64_def db_as_i64_def write_audit_def write_outbox_def insert_job_def default_job_def Let_def
  conflict_defs bigint_def integer_col_def hash_col_def outbox_check_def job_check_def

end
