(* ===== verification/Store_Guarantees.thy ===== *)
theory Store_Guarantees
  imports Store_Samples
begin

text \<open>
  What the store guarantees: the ledger of a raffle under settlement, freezing, drawing and proof
  generation, as a refinement of the protocol operations on \<open>ledger_rows\<close>.
\<close>

section \<open>The ledger read back from the rows\<close>

lemma raffle_rows_ledger:
  assumes "store_ok x db" and "r \<in> set (raffles db)"
  obtains es where "raffle_ledger x db r es" and "ledger_rows (r_id r) db = Ok es"
    and "frozen_status (r_status r) \<Longrightarrow> es \<noteq> [] \<and> r_entries_root r = Some (as_bytes (ledger_root x (r_id r) es))"
  using store_okD(7) [OF assms] store_okD(8) [OF assms(1)] ledger_rows_Ok
  unfolding raffle_ok_def by blast

lemma raffle_ledger_unique:
  assumes "raffle_ledger x db r es" and "raffle_ledger x db r es'"
  shows "es = es'"
proof -
  have "map Ok es = (map Ok es' :: (PersistenceError + LedgerEntry) list)"
    using assms by (simp add: raffle_ledger_def)
  then show ?thesis
    by (simp add: inj_map_eq_map [OF inj_Inr])
qed

lemma valid_ledger_hd: "valid_ledger sha rid es \<Longrightarrow> es \<noteq> [] \<Longrightarrow> ed_raffle_id (le_data (hd es)) = rid"
  by (cases es) (auto simp: valid_ledger_def entry_ok_def)

lemma frozen_summary:
  assumes "raffle_ledger x db r es" and "es \<noteq> []"
  shows "summarize_ledger (x_sha x) es = Ok (ledger_summary (x_sha x) (r_id r) es)"
    and "ls_total_tickets (ledger_summary (x_sha x) (r_id r) es) = of_int (r_total_tickets r)"
    and "ls_entries_root (ledger_summary (x_sha x) (r_id r) es) = ledger_root x (r_id r) es"
  using assms valid_ledger_hd
  by (auto simp: summarize_ledger_Ok raffle_ledger_def ledger_summary_def ledger_root_def)

section \<open>Settlement\<close>

lemma settle_cases:
  assumes "settle_invoice_and_append_entry x ids now iid eid t db = Ok (entry, db')"
  obtains (again) invoice where "fetch_optional (\<lambda>i. i_id i = iid) (invoices db) = Some invoice"
      "i_status invoice = InvSettled" "db' = db"
      "\<exists>row. fetch_optional (\<lambda>e. e_invoice_id e = iid) (entries db) = Some row \<and> ledger_entry_from_row row = Ok entry"
  | (append) invoice r where "fetch_optional (\<lambda>i. i_id i = iid) (invoices db) = Some invoice"
      "i_status invoice = InvPending" "fetch_optional (\<lambda>r. r_id r = i_raffle_id invoice) (raffles db) = Some r"
      "r_status r = Open" "append_entry x ids now invoice r eid t db = Ok (entry, db')"
  using assms
  by (auto simp: settle_invoice_and_append_entry_def bindR_eq_Ok ok_or_eq_Ok map_err_eq_Ok fetch_one_Ok split: if_splits)

lemma entries_ledger_rows:
  "entries db' = entries db \<Longrightarrow> ledger_rows rid db' = ledger_rows rid db"
  by (simp add: ledger_rows_def entry_rows_def)

lemma append_entry_ledger:
  assumes "append_entry x ids now invoice r eid t db = Ok (entry, db')" and "store_ok x db" and "store_ok x db'"
    and "r \<in> set (raffles db)" "r_id r = i_raffle_id invoice" "invoice_check invoice" "settlement_time_ok x t"
    and "ledger_rows rid db = Ok es"
  shows "ledger_rows rid db' = Ok (if rid = i_raffle_id invoice then es @ [entry] else es)"
proof (cases "rid = i_raffle_id invoice")
  case True
  obtain es' where es': "raffle_ledger x db r es'" "ledger_rows (r_id r) db = Ok es'"
    using raffle_rows_ledger [OF assms(2,4)] by blast
  then have "es' = es"
    using assms(5,8) True by simp
  moreover from es'(1) assms(5,1) assms(7) [unfolded settlement_time_ok_def] assms(6) refl
  have "raffle_ledger x db' (credit_raffle now (r_total_pool_sats r + i_amount_sats invoice)
      (uint (tr_end (ed_ticket_range (le_data entry)))) (le_entry_hash entry) r) (es' @ [entry])"
    by (rule raffle_ledger_append)
  from ledger_rows_Ok [OF this store_okD(8) [OF assms(3)]]
  have "ledger_rows (r_id r) db' = Ok (es' @ [entry])"
    by (simp add: credit_raffle_def)
  ultimately show ?thesis
    using True assms(5) by simp
next
  case False
  from assms(1) obtain row and np :: u64 and n m u ob where
    nx: "next_entry x invoice r (entry_count (i_raffle_id invoice) db) eid t = Ok entry"
    and row: "entry_row_of x entry (i_id invoice) t = Ok row"
    and db': "db' = db\<lparr>entries := entries db @ [row], invoices := invoices db', raffles := raffles db',
      audit_events := u, outbox_events := ob\<rparr>"
    by (rule append_entry_Ok)
  from nx have "ed_raffle_id (le_data entry) = i_raffle_id invoice"
    by (rule next_entry_Ok) (simp add: LedgerEntry_create_def)
  then have "e_raffle_id row \<noteq> rid"
    using entry_row_ids(1) [OF row] False by simp
  moreover have "entries db' = entries db @ [row]"
    by (subst db') simp
  ultimately show ?thesis
    using assms(8) False by (simp add: ledger_rows_def entry_rows_def)
qed

lemma append_entry_again:
  assumes "append_entry x ids now invoice r eid t db = Ok (entry, db')" and "store_ok x db" and "store_ok x db'"
    and "invoice \<in> set (invoices db)" and "settlement_time_ok x t"
  shows "settle_invoice_and_append_entry x ids' now' (i_id invoice) eid' t' db' = Ok (entry, db')"
    and "\<exists>i \<in> set (invoices db'). i_id i = i_id invoice \<and> i_status i = InvSettled"
proof -
  from assms(1) obtain row and np :: u64 and n m u ob where
    nx: "next_entry x invoice r (entry_count (i_raffle_id invoice) db) eid t = Ok entry"
    and row: "entry_row_of x entry (i_id invoice) t = Ok row"
    and iv: "sql_update invoice_check invoice_conflict (\<lambda>i. i_id i = i_id invoice) (mark_settled x t) (invoices db)
      = Ok (invoices db', n)"
    and db': "db' = db\<lparr>entries := entries db @ [row], invoices := invoices db', raffles := raffles db',
      audit_events := u, outbox_events := ob\<rparr>"
    by (rule append_entry_Ok)
  from nx have "ed_settled_at_unix_ms (le_data entry) = unix_ms t" "range_is_valid (ed_ticket_range (le_data entry))"
    by (rule next_entry_Ok, simp add: LedgerEntry_create_def range_is_valid_def)+
  then have rt: "ledger_entry_from_row row = Ok entry" "e_invoice_id row = i_id invoice"
    using entry_row_roundtrip [OF row] assms(5) by (simp_all add: settlement_time_ok_def)
  have "row \<in> set (entries db')"
    by (subst db') simp
  then have e: "fetch_optional (\<lambda>e. e_invoice_id e = i_id invoice) (entries db') = Some row"
    by (rule entries_tbl.fetch_unique [OF store_okD(3) [OF assms(3)]]) (auto simp: rt(2) entry_conflict_def)
  have in': "mark_settled x t invoice \<in> set (invoices db')"
    using iv assms(4) by (auto simp: sql_update_Ok set_set_where)
  have i: "fetch_optional (\<lambda>i. i_id i = i_id invoice) (invoices db') = Some (mark_settled x t invoice)"
    by (rule invoices_tbl.fetch_unique [OF store_okD(4) [OF assms(3)] in'])
       (auto simp: mark_settled_def invoice_conflict_def)
  show "settle_invoice_and_append_entry x ids' now' (i_id invoice) eid' t' db' = Ok (entry, db')"
    unfolding settle_invoice_and_append_entry_def i by (simp add: mark_settled_def fetch_one_def e [unfolded fetch_optional_def] rt(1))
  show "\<exists>i \<in> set (invoices db'). i_id i = i_id invoice \<and> i_status i = InvSettled"
    using in' by (intro bexI [of _ "mark_settled x t invoice"]) (simp_all add: mark_settled_def)
qed

section \<open>Properties of settlement\<close>

text \<open>C5. Settlement refines the append of the protocol ledger: a pending invoice appends exactly the returned
  entry to the ledger of its raffle, a settled one changes nothing, and no other raffle's ledger moves;
  afterwards every further settlement of the invoice, whatever entry identifier and time it brings,
  returns the same entry and leaves the database as it is.\<close>

theorem settle_refines_append:
  assumes "db_ok x db" and "settlement_time_ok x t"
    and "settle_invoice_and_append_entry x ids now iid eid t db = Ok (entry, db')"
    and "ledger_rows rid db = Ok es"
  shows "(\<exists>invoice \<in> set (invoices db). i_id invoice = iid \<and> i_status invoice \<in> {InvPending, InvSettled} \<and>
      (i_status invoice = InvSettled \<longrightarrow> db' = db) \<and>
      ledger_rows rid db' =
        Ok (if i_status invoice = InvPending \<and> rid = i_raffle_id invoice then es @ [entry] else es)) \<and>
    settle_invoice_and_append_entry x ids' now' iid eid' t' db' = Ok (entry, db')"
proof -
  have ok: "store_ok x db"
    using assms(1) by (simp add: db_ok_def)
  from assms(3) show ?thesis
  proof (cases rule: settle_cases)
    case (again invoice)
    then have "settle_invoice_and_append_entry x ids' now' iid eid' t' db' = Ok (entry, db')"
      by (auto simp: settle_invoice_and_append_entry_def fetch_one_def fetch_optional_def)
    then show ?thesis
      using again(2,3) assms(4) fetch_optional_Some [OF again(1)]
      by (intro conjI bexI [of _ invoice]) simp_all
  next
    case (append invoice r)
    have i: "invoice \<in> set (invoices db)" "i_id invoice = iid" "r \<in> set (raffles db)" "r_id r = i_raffle_id invoice"
      using fetch_optional_Some [OF append(1)] fetch_optional_Some [OF append(3)] by simp_all
    have ok': "store_ok x db'"
      using append_entry_keeps [OF append(5) ok i(1,3,4) append(4)] assms(2) by (simp add: settlement_time_ok_def)
    have "invoice_check invoice"
      using store_okD(4) [OF ok] i(1) by (simp add: table_ok_def)
    from append_entry_ledger [OF append(5) ok ok' i(3,4) this assms(2,4)]
      append_entry_again(1) [OF append(5) ok ok' i(1) assms(2)] i(1,2) append(2)
    show ?thesis
      by (intro conjI bexI [of _ invoice]) simp_all
  qed
qed

lemma sample_settle:
  "\<exists>entry db'. settle_invoice_and_append_entry sample_ext (\<lambda>n. of_nat (40 + n)) 20 6 8 16000000 (sample_store Open)
     = Ok (entry, db')"
  by (simp add: settle_invoice_and_append_entry_def append_entry_def next_entry_def entry_row_of_def eval_sql
      sample_rows checked_add_def entry_count_def TicketRange_new_def LedgerEntry_create_def entry_check_def
      mark_settled_def credit_raffle_def raffle_check_def invoice_check_def announce_entry_def)

theorem settle_refines_append_witness:
  "\<exists>entry db'. settle_invoice_and_append_entry sample_ext (\<lambda>n. of_nat (40 + n)) 20 6 8 16000000 (sample_store Open)
       = Ok (entry, db') \<and>
     ledger_rows 2 (sample_store Open) = Ok [sample_entry] \<and> ledger_rows 2 db' = Ok [sample_entry, entry] \<and>
     settle_invoice_and_append_entry sample_ext (\<lambda>n. of_nat (60 + n)) 30 6 9 17000000 db' = Ok (entry, db')"
proof -
  obtain entry db' where s: "settle_invoice_and_append_entry sample_ext (\<lambda>n. of_nat (40 + n)) 20 6 8 16000000
      (sample_store Open) = Ok (entry, db')"
    using sample_settle by blast
  have l: "ledger_rows 2 (sample_store Open) = Ok [sample_entry]"
    using ledger_rows_Ok [OF sample_raffle_ledger store_okD(8) [OF sample_store_ok]] by simp
  from settle_refines_append [OF sample_db_ok sample_settlement_time_ok s l, of "\<lambda>n. of_nat (60 + n)" 30 9 17000000]
  show ?thesis
    using s l by (auto simp: sample_invoice_row_def)
qed

section \<open>Freezing\<close>

text \<open>C31. Freezing commits to the ledger: the returned root is the entries root of the raffle's ledger, which
  the transaction leaves as it is; a raffle without entries is cancelled, any other waits for its
  randomness block with the root in its row and a draw job queued.\<close>

theorem freeze_commits_ledger:
  assumes "db_ok x db" and "freeze_raffle x ids now rid db = Ok (root, db')"
  shows "\<exists>es. ledger_rows rid db = Ok es \<and> ledger_rows rid db' = Ok es \<and>
    root = entries_root (x_sha x) rid (of_nat (length es)) (chain_hash es (length es)) \<and>
    (\<exists>r \<in> set (raffles db'). r_id r = rid \<and> r_entries_root r = Some (as_bytes root) \<and>
       r_status r = (if es = [] then Cancelled else RandomnessPending)) \<and>
    (es \<noteq> [] \<longrightarrow> (\<exists>s. summarize_ledger (x_sha x) es = Ok s \<and> ls_entries_root s = root) \<and>
       (\<exists>j \<in> set (jobs db'). j_kind j = ''raffle.draw'' \<and> j_deduplication_key j = x_uuid_text x rid))"
proof -
  have ok: "store_ok x db"
    using assms(1) by (simp add: db_ok_def)
  from assms(2) obtain row head n js t ob where
    row: "fetch_optional (\<lambda>r. r_id r = rid) (raffles db) = Some row"
    and head: "head_or_zero (r_entry_chain_head row) = Ok head"
    and root: "root = entries_root (x_sha x) rid (of_nat (entry_count rid db)) head"
    and rs: "sql_update raffle_check raffle_conflict (\<lambda>r. r_id r = rid)
      (freeze_row now (if r_total_tickets row = 0 then Cancelled else RandomnessPending) root) (raffles db)
      = Ok (raffles db', n)"
    and db': "db' = db\<lparr>raffles := raffles db', audit_events := t, outbox_events := ob, jobs := js\<rparr>"
    and job: "r_total_tickets row \<noteq> 0 \<longrightarrow>
      (\<exists>j \<in> set js. j_kind j = ''raffle.draw'' \<and> j_deduplication_key j = x_uuid_text x rid)"
    by (rule freeze_raffle_Ok)
  let ?f = "freeze_row now (if r_total_tickets row = 0 then Cancelled else RandomnessPending) root"
  have r: "row \<in> set (raffles db)" "r_id row = rid"
    using fetch_optional_Some [OF row] by simp_all
  obtain es where led: "raffle_ledger x db row es" "ledger_rows rid db = Ok es"
    using raffle_rows_ledger [OF ok r(1)] r(2) by blast
  have "entries db' = entries db" "jobs db' = js"
    by (subst db', simp)+
  then have same: "ledger_rows rid db' = Ok es" "jobs db' = js"
    using entries_ledger_rows [of db' db rid] led(2) by simp_all
  have rt: "root = ledger_root x rid es"
    using raffle_ledger_head [OF led(1)] entry_count_ledger [OF led(1)] head r(2) by (simp add: root ledger_root_def)
  have new: "?f row \<in> set (raffles db')"
    using rs r by (auto simp: sql_update_Ok set_set_where)
  have "r_id (?f row) = rid \<and> r_entries_root (?f row) = Some (as_bytes root) \<and>
      r_status (?f row) = (if es = [] then Cancelled else RandomnessPending)"
    using raffle_ledger_empty [OF led(1)] r(2) by (simp add: freeze_row_def)
  moreover have "\<exists>s. summarize_ledger (x_sha x) es = Ok s \<and> ls_entries_root s = root" if "es \<noteq> []"
    using frozen_summary(1,3) [OF led(1) that] r(2) by (simp add: rt)
  moreover have "\<exists>j \<in> set js. j_kind j = ''raffle.draw'' \<and> j_deduplication_key j = x_uuid_text x rid" if "es \<noteq> []"
    using job raffle_ledger_empty [OF led(1)] that by simp
  ultimately show ?thesis
    using led(2) same rt new unfolding ledger_root_def by blast
qed

lemma sample_freeze:
  "\<exists>root db'. freeze_raffle sample_ext (\<lambda>n. of_nat (40 + n)) 1001 2 (sample_store Closing) = Ok (root, db')"
  by (simp add: freeze_raffle_def announce_freeze_def freeze_row_def eval_sql sample_rows raffle_check_def
      entry_count_def)

theorem freeze_commits_ledger_witness:
  "\<exists>root db'. freeze_raffle sample_ext (\<lambda>n. of_nat (40 + n)) 1001 2 (sample_store Closing) = Ok (root, db') \<and>
     ledger_rows 2 db' = Ok [sample_entry] \<and> (\<exists>j \<in> set (jobs db'). j_kind j = ''raffle.draw'')"
proof -
  obtain root db' where f: "freeze_raffle sample_ext (\<lambda>n. of_nat (40 + n)) 1001 2 (sample_store Closing) = Ok (root, db')"
    using sample_freeze by blast
  have "ledger_rows 2 (sample_store Closing) = Ok [sample_entry]"
    using ledger_rows_Ok [OF sample_raffle_ledger store_okD(8) [OF sample_store_ok]] by simp
  with freeze_commits_ledger [OF sample_db_ok f] f show ?thesis
    by auto
qed

end
