(* ===== verification/Store_Outcome.thy ===== *)
theory Store_Outcome
  imports Store_Guarantees
begin

text \<open>
  The draw and the terminal proof on a store in order: neither can fail for reasons of the protocol, the
  draw names the owner of the winning ticket, and the generated document passes the public verifier.
\<close>

section \<open>Loading the split\<close>

lemma unat_bps: "0 \<le> v \<Longrightarrow> v \<le> 10000 \<Longrightarrow> unat (of_int v :: u16) = nat v"
  by (simp add: unat_eq_nat_uint uint_word_of_int)

lemma load_bps_Ok: "0 \<le> v \<Longrightarrow> v \<le> 10000 \<Longrightarrow> load_bps v = Ok (BasisPoints (of_int v))"
  by (auto simp: load_bps_def map_err_eq_Ok BasisPoints_new_def BASIS_POINTS_TOTAL_def word_less_nat_alt unat_bps)

lemma load_split_succeeds:
  assumes "store_ok x db" and "r \<in> set (raffles db)"
  obtains split where "load_split (r_id r) db = Ok split" and "split_is_valid split"
proof -
  obtain s where s: "s \<in> set (payout_splits db)" "sp_raffle_id s = r_id r"
    using store_okD(6) [OF assms(1)] assms(2) by fastforce
  have c: "split_check s"
    using store_okD(2) [OF assms(1)] s(1) by (simp add: table_ok_def)
  have f: "fetch_optional (\<lambda>t. sp_raffle_id t = r_id r) (payout_splits db) = Some s"
    by (rule splits_tbl.fetch_unique [OF store_okD(2) [OF assms(1)] s(1)]) (simp_all add: s(2) split_conflict_def)
  let ?b = "\<lambda>v. BasisPoints (of_int v)"
  let ?split = "\<lparr>ps_winner = ?b (sp_winner_bps s), ps_organizer = ?b (sp_organizer_bps s), ps_platform = ?b (sp_platform_bps s)\<rparr>"
  have v: "split_is_valid ?split"
    using c by (simp add: split_is_valid_iff split_check_def unat_bps flip: nat_add_distrib)
  have "load_split (r_id r) db = Ok ?split"
    using c v f [unfolded fetch_optional_def]
    by (simp add: load_split_def fetch_one_def split_check_def load_bps_Ok map_err_eq_Ok PayoutSplit_new_Ok)
  then show thesis
    using v by (rule that)
qed

section \<open>The draw\<close>

definition draw_facts :: "externals \<Rightarrow> raffle_row \<Rightarrow> LedgerEntry list \<Rightarrow> u64 \<Rightarrow> u64 \<Rightarrow> Hash32 \<Rightarrow> DrawInput" where
  "draw_facts x r es ch rh rand =
     \<lparr>di_raffle_id = r_id r, di_entries_root = ledger_root x (r_id r) es, di_close_block_height = ch,
      di_randomness_block_height = rh, di_randomness_block_hash = rand,
      di_total_tickets = of_int (r_total_tickets r)\<rparr>"

text \<open>On the ledger of a frozen raffle the protocol's draw returns the owner of the winning ticket.\<close>

lemma frozen_draw:
  assumes "raffle_ledger x db r es" and "es \<noteq> []" and "raffle_check r"
  obtains i t where "i < length es" and "range_contains (le_range (es ! i)) t"
    and "unat t = be_value (as_bytes (draw_seed (x_sha x) (draw_facts x r es ch rh rand))) mod nat (r_total_tickets r)"
    and "draw (x_sha x) es (draw_facts x r es ch rh rand) =
      Ok \<lparr>dr_seed = draw_seed (x_sha x) (draw_facts x r es ch rh rand), dr_winning_ticket = t,
          dr_winner_entry_id = ed_entry_id (le_data (es ! i)), dr_winner_ticket_range = le_range (es ! i)\<rparr>"
proof -
  have pos: "0 \<le> r_total_tickets r" "bigint (r_total_tickets r)"
    using assms(3) by (simp_all add: raffle_check_def)
  let ?in = "draw_facts x r es ch rh rand" and ?s = "ledger_summary (x_sha x) (r_id r) es"
  note sum = frozen_summary [OF assms(1,2)]
  from sum(1) obtain i t where i: "i < length es" "range_contains (le_range (es ! i)) t"
    and w: "winning_ticket (draw_seed (x_sha x) ?in) (ls_total_tickets ?s) = Ok t"
    and d: "draw (x_sha x) es ?in = Ok \<lparr>dr_seed = draw_seed (x_sha x) ?in, dr_winning_ticket = t,
        dr_winner_entry_id = ed_entry_id (le_data (es ! i)), dr_winner_ticket_range = le_range (es ! i)\<rparr>"
    by (rule draw_on_summary [where input = ?in]) (simp_all add: sum draw_facts_def)
  have "ls_total_tickets ?s \<noteq> 0"
    using w by (auto simp: winning_ticket_def)
  then have "unat t = be_value (as_bytes (draw_seed (x_sha x) ?in)) mod unat (ls_total_tickets ?s)"
    by (rule winning_ticket_value [where seed = "draw_seed (x_sha x) ?in"]) (use w in simp)
  then have "unat t = be_value (as_bytes (draw_seed (x_sha x) ?in)) mod nat (r_total_tickets r)"
    unfolding sum(2) unat_eq_nat_uint [of "of_int (r_total_tickets r)"] uint_of_int [OF pos] .
  with i show thesis
    using d by (rule that)
qed

lemma compute_draw_frozen:
  assumes "store_ok x db" and "r \<in> set (raffles db)" and "frozen_status (r_status r)"
  obtains es result amounts where "raffle_ledger x db r es" and "es \<noteq> []"
    and "draw (x_sha x) es (draw_facts x r es ch rh rand) = Ok result"
    and "compute_draw x (r_id r) ch rh rand r db = Ok (ledger_root x (r_id r) es, result, amounts)"
proof -
  obtain es where led: "raffle_ledger x db r es" "ledger_rows (r_id r) db = Ok es"
    and root: "es \<noteq> []" "r_entries_root r = Some (as_bytes (ledger_root x (r_id r) es))"
    using raffle_rows_ledger [OF assms(1,2)] assms(3) by blast
  have c: "raffle_check r"
    using assms(1,2) by (rule store_okD(9))
  then have pos: "0 \<le> r_total_tickets r" "0 \<le> r_total_pool_sats r"
    by (simp_all add: raffle_check_def)
  obtain result where d: "draw (x_sha x) es (draw_facts x r es ch rh rand) = Ok result"
    using led(1) root(1) c by (rule frozen_draw)
  obtain split where split: "load_split (r_id r) db = Ok split"
    using assms(1,2) by (rule load_split_succeeds)
  show thesis
    by (rule that [OF led(1) root(1) d])
       (use led root pos d split in \<open>simp add: compute_draw_def db_as_u64_def draw_facts_def\<close>)
qed

text \<open>Failures of the database itself: a refused statement, or a number that does not fit its column.\<close>

definition database_failure :: "PersistenceError \<Rightarrow> bool" where
  "database_failure e \<longleftrightarrow> e = IntegerOverflow \<or> (\<exists>s. e = Sqlx s)"

lemma database_failure_simps [simp]: "database_failure (Sqlx s)" "database_failure IntegerOverflow"
  by (simp_all add: database_failure_def)

named_theorems failure_dests \<open>calls that can only fail in the database\<close>

lemma sql_Err [failure_dests]: "sql m = Err e \<Longrightarrow> database_failure e"
  by (cases m) (auto simp: database_failure_def)

lemma db_as_i64_Err [failure_dests]: "db_as_i64 w = Err e \<Longrightarrow> database_failure e"
  by (auto simp: db_as_i64_def database_failure_def split: if_splits)

lemma write_audit_Err [failure_dests]: "write_audit u n a ev pl d = Err e \<Longrightarrow> database_failure e"
  by (auto simp: write_audit_def bindR_eq_Err intro: sql_Err)

lemma insert_job_Err [failure_dests]: "insert_job u n k key pl d = Err e \<Longrightarrow> database_failure e"
  by (auto simp: insert_job_def bindR_eq_Err intro: sql_Err)

lemma insert_payout_Err: "insert_payout x now rid item db = Err e \<Longrightarrow> database_failure e"
  by (auto simp: insert_payout_def bindR_eq_Err split: prod.splits if_splits intro: sql_Err db_as_i64_Err)

lemma insert_payouts_Err [failure_dests]: "insert_payouts x now rid items db = Err e \<Longrightarrow> database_failure e"
  by (induction items arbitrary: db) (auto simp: bindR_eq_Err intro: insert_payout_Err)

lemma create_draw_Err:
  assumes "create_draw_and_payouts x ids now rid ch bh rh rand db = Err e"
    and "fetch_optional (\<lambda>r. r_id r = rid) (raffles db) = Some r" and "r_status r = RandomnessPending"
    and "compute_draw x rid ch rh rand r db = Ok c"
  shows "database_failure e"
proof -
  obtain root result amounts where c: "c = (root, result, amounts)"
    by (cases c)
  have "find (\<lambda>r. r_id r = rid) (raffles db) = Some r"
    using assms(2) by (simp add: fetch_optional_def)
  then show ?thesis
    using assms(1,3,4) unfolding create_draw_and_payouts_def enqueue_payouts_def announce_draw_def
    by (auto simp: fetch_one_def c bindR_eq_Err dest: failure_dests)
qed

lemma raffle_entry_row:
  assumes "raffle_ledger x db r es" and "i < length es"
  obtains row where "row \<in> set (entries db)" and "e_raffle_id row = r_id r" and "ledger_entry_from_row row = Ok (es ! i)"
proof -
  let ?rows = "raffle_entries (r_id r) db"
  have l: "i < length ?rows"
    using raffle_ledger_length [OF assms(1)] assms(2) by simp
  have "map ledger_entry_from_row ?rows ! i = map Ok es ! i"
    using assms(1) by (simp add: raffle_ledger_def)
  then have "ledger_entry_from_row (?rows ! i) = Ok (es ! i)"
    using l assms(2) by simp
  moreover have "?rows ! i \<in> set ?rows"
    using l by (rule nth_mem)
  ultimately show thesis
    by (intro that [of "?rows ! i"]) (auto simp: raffle_entries_def)
qed

lemma entry_row_range:
  assumes "ledger_entry_from_row row = Ok e" and "entry_check row"
  shows "e_id row = ed_entry_id (le_data e)"
    and "range_contains (le_range e) t \<longleftrightarrow> e_ticket_start row \<le> uint t \<and> uint t < e_ticket_end row"
proof -
  show "e_id row = ed_entry_id (le_data e)"
    using assms(1) by (simp add: ledger_entry_from_row_Ok)
  have b: "0 \<le> e_ticket_start row" "bigint (e_ticket_start row)" "0 \<le> e_ticket_end row" "bigint (e_ticket_end row)"
    using assms(2) by (auto simp: entry_check_def)
  have "le_range e = \<lparr>tr_start = of_int (e_ticket_start row), tr_end = of_int (e_ticket_end row)\<rparr>"
    using assms(1) by (simp add: ledger_entry_from_row_Ok)
  then show "range_contains (le_range e) t \<longleftrightarrow> e_ticket_start row \<le> uint t \<and> uint t < e_ticket_end row"
    using uint_of_int [OF b(1,2)] uint_of_int [OF b(3,4)]
    by (simp add: range_contains_def word_le_def word_less_def)
qed

text \<open>The winner of the protocol's draw is a row of the raffle that owns the ticket.\<close>

lemma drawn_winner_row:
  assumes "raffle_ledger x db r es" and "es \<noteq> []" and "raffle_check r" and "\<forall>e \<in> set (entries db). entry_check e"
    and "draw (x_sha x) es (draw_facts x r es ch rh rand) = Ok result"
  shows "unat (dr_winning_ticket result) = be_value (as_bytes (dr_seed result)) mod nat (r_total_tickets r)"
    and "\<exists>w \<in> set (entries db). e_raffle_id w = r_id r \<and> e_id w = dr_winner_entry_id result \<and>
       e_ticket_start w \<le> uint (dr_winning_ticket result) \<and> uint (dr_winning_ticket result) < e_ticket_end w"
proof -
  from assms(1-3) obtain i t where i: "i < length es" "range_contains (le_range (es ! i)) t"
    and t: "unat t = be_value (as_bytes (draw_seed (x_sha x) (draw_facts x r es ch rh rand))) mod nat (r_total_tickets r)"
    and d: "draw (x_sha x) es (draw_facts x r es ch rh rand) =
      Ok \<lparr>dr_seed = draw_seed (x_sha x) (draw_facts x r es ch rh rand), dr_winning_ticket = t,
          dr_winner_entry_id = ed_entry_id (le_data (es ! i)), dr_winner_ticket_range = le_range (es ! i)\<rparr>"
    by (rule frozen_draw)
  have res: "dr_winning_ticket result = t" "dr_winner_entry_id result = ed_entry_id (le_data (es ! i))"
    "dr_seed result = draw_seed (x_sha x) (draw_facts x r es ch rh rand)"
    using d assms(5) by auto
  show "unat (dr_winning_ticket result) = be_value (as_bytes (dr_seed result)) mod nat (r_total_tickets r)"
    using t by (simp add: res)
  obtain row where row: "row \<in> set (entries db)" "e_raffle_id row = r_id r" "ledger_entry_from_row row = Ok (es ! i)"
    using assms(1) i(1) by (rule raffle_entry_row)
  have "entry_check row"
    using assms(4) row(1) by blast
  then show "\<exists>w \<in> set (entries db). e_raffle_id w = r_id r \<and> e_id w = dr_winner_entry_id result \<and>
       e_ticket_start w \<le> uint (dr_winning_ticket result) \<and> uint (dr_winning_ticket result) < e_ticket_end w"
    using row i(2) entry_row_range [OF row(3)] unfolding res by blast
qed

text \<open>What a committed draw leaves on record.\<close>

lemma create_draw_records:
  assumes "create_draw_and_payouts x ids now rid ch bh rh rand db = Ok (result, db')"
    and "fetch_optional (\<lambda>s. r_id s = rid) (raffles db) = Some r"
  shows "\<exists>root amounts. compute_draw x rid ch rh rand r db = Ok (root, result, amounts)"
    and "\<exists>d \<in> set (draws db'). d_raffle_id d = rid \<and> d_winning_ticket d = uint (dr_winning_ticket result) \<and>
       d_winner_entry_id d = dr_winner_entry_id result \<and> d_randomness_block_hash d = as_bytes rand"
    and "\<exists>r' \<in> set (raffles db'). r_id r' = rid \<and> r_status r' = PayoutPending"
proof -
  from assms(1) obtain raffle root amounts db1 js u n where
    f: "fetch_optional (\<lambda>s. r_id s = rid) (raffles db) = Some raffle"
    and comp: "compute_draw x rid ch rh rand raffle db = Ok (root, result, amounts)"
    and ps: "insert_payouts x now rid (payout_items ids amounts)
      (db\<lparr>draws := draws db @ [draw_row_of (ids 0) now rid root rand (uint (dr_winning_ticket result))
         (dr_winner_entry_id result)]\<rparr>) = Ok db1"
    and rs: "sql_update raffle_check raffle_conflict (\<lambda>s. r_id s = rid)
         (drawn_row now (uint ch) bh (uint rh) rand) (raffles db) = Ok (raffles db', n)"
    and db': "db' = db1\<lparr>jobs := js, raffles := raffles db', audit_events := u\<rparr>"
    by (rule create_draw_and_payouts_Ok)
  have [simp]: "raffle = r"
    using f assms(2) by simp
  show "\<exists>root amounts. compute_draw x rid ch rh rand r db = Ok (root, result, amounts)"
    using comp by simp
  have "draws db' = draws db @ [draw_row_of (ids 0) now rid root rand (uint (dr_winning_ticket result))
         (dr_winner_entry_id result)]"
    using insert_payouts_frame [OF ps] by (subst db') auto
  then show "\<exists>d \<in> set (draws db'). d_raffle_id d = rid \<and> d_winning_ticket d = uint (dr_winning_ticket result) \<and>
       d_winner_entry_id d = dr_winner_entry_id result \<and> d_randomness_block_hash d = as_bytes rand"
    by (simp add: draw_row_of_def)
  have r: "r \<in> set (raffles db)" "r_id r = rid"
    using fetch_optional_Some [OF assms(2)] by simp_all
  then have "drawn_row now (uint ch) bh (uint rh) rand r \<in> set (raffles db')"
    using rs by (auto simp: sql_update_Ok set_set_where)
  then show "\<exists>r' \<in> set (raffles db'). r_id r' = rid \<and> r_status r' = PayoutPending"
    by (rule bexI [rotated]) (simp add: drawn_row_def r)
qed

text \<open>A committed draw pays out the pool: one pending payout for each recipient with a share, by the split on record.\<close>

lemma create_draw_pays:
  assumes "create_draw_and_payouts x ids now (r_id r) ch bh rh rand db = Ok (result, db')"
    and "db_ok x db" and "uuid_text_ok x" and "r \<in> set (raffles db)" and "r_status r = RandomnessPending"
  shows "\<exists>split. load_split (r_id r) db = Ok split \<and>
    map (\<lambda>p. (p_recipient_type p, p_amount_sats p)) (payouts_of (r_id r) (payouts db')) =
      payout_plan (allocate split (Sats (of_int (r_total_pool_sats r)))) \<and>
    (\<forall>p \<in> set (payouts_of (r_id r) (payouts db')). p_status p = PayPending \<and>
       p_idempotency_key p = payout_key x (r_id r) (p_recipient_type p)) \<and>
    payouts_total (r_id r) (payouts db') = r_total_pool_sats r \<and>
    filter (\<lambda>p. p_raffle_id p \<noteq> r_id r) (payouts db') = payouts db"
proof -
  have ok: "store_ok x db" "payouts_ok x db"
    using assms(2) by (simp_all add: db_ok_def)
  note fetch = fetch_raffle [OF ok(1) assms(4)]
  obtain root amounts where comp: "compute_draw x (r_id r) ch rh rand r db = Ok (root, result, amounts)"
    using create_draw_records(1) [OF assms(1) fetch] by blast
  then obtain split and pool :: u64 where split: "load_split (r_id r) db = Ok split"
    and "db_as_u64 (r_total_pool_sats r) = Ok pool" and "amounts = allocate split (Sats pool)"
    unfolding compute_draw_def bindR_eq_Ok by blast
  then have amounts: "amounts = allocate split (Sats (of_int (r_total_pool_sats r)))"
    by (simp add: db_as_u64_Ok)
  obtain new where new: "payouts db' = payouts db @ new"
    "\<forall>p \<in> set new. p_raffle_id p = r_id r \<and> p_status p = PayPending \<and>
       p_idempotency_key p = payout_key x (r_id r) (p_recipient_type p)"
    "map (\<lambda>p. (p_recipient_type p, p_amount_sats p)) new = payout_plan amounts"
    "payouts_total (r_id r) (payouts db @ new) = r_total_pool_sats r"
    using assms(1) ok assms(3) fetch comp by (rule create_draw_new_payouts)
  have old: "\<forall>p \<in> set (payouts db). p_raffle_id p \<noteq> r_id r"
    using waiting_raffle(5) [OF ok fetch assms(5)] by blast
  have "payouts_of (r_id r) (payouts db') = new" "filter (\<lambda>p. p_raffle_id p \<noteq> r_id r) (payouts db') = payouts db"
    using old new(1,2) by (simp_all add: payouts_of_other payouts_of_all filter_empty_conv)
  then show ?thesis
    using new split amounts by (intro exI [of _ split]) simp
qed

text \<open>C6. The draw transaction on a frozen raffle can only fail in the database, never for reasons of the
  protocol. When it commits, the seed is the digest of the raffle's stored entries root, its ticket count and the
  randomness block; the winning ticket is the seed modulo the tickets sold, the winner is an
  entry of the raffle whose ticket range holds it, and the draw is on record with the same ticket, winner and block hash
  while the raffle awaits its payouts. These are exactly the shares of the split on record, one pending payout for each
  recipient whose share is not zero; they add up to the pool, and no other payout has changed.\<close>

theorem draw_names_ticket_owner:
  assumes "db_ok x db" and "uuid_text_ok x" and "r \<in> set (raffles db)" and "r_status r = RandomnessPending"
  shows "case create_draw_and_payouts x ids now (r_id r) ch bh rh rand db of
      Inl e \<Rightarrow> database_failure e
    | Inr (result, db') \<Rightarrow>
        (\<exists>root. r_entries_root r = Some (as_bytes root) \<and>
           dr_seed result = draw_seed (x_sha x) \<lparr>di_raffle_id = r_id r, di_entries_root = root, di_close_block_height = ch,
             di_randomness_block_height = rh, di_randomness_block_hash = rand,
             di_total_tickets = of_int (r_total_tickets r)\<rparr>) \<and>
        unat (dr_winning_ticket result) = be_value (as_bytes (dr_seed result)) mod nat (r_total_tickets r) \<and>
        (\<exists>w \<in> set (entries db). e_raffle_id w = r_id r \<and> e_id w = dr_winner_entry_id result \<and>
           e_ticket_start w \<le> uint (dr_winning_ticket result) \<and> uint (dr_winning_ticket result) < e_ticket_end w) \<and>
        (\<exists>d \<in> set (draws db'). d_raffle_id d = r_id r \<and> d_winning_ticket d = uint (dr_winning_ticket result) \<and>
           d_winner_entry_id d = dr_winner_entry_id result \<and> d_randomness_block_hash d = as_bytes rand) \<and>
        (\<exists>r' \<in> set (raffles db'). r_id r' = r_id r \<and> r_status r' = PayoutPending) \<and>
        (\<exists>split. load_split (r_id r) db = Ok split \<and>
           map (\<lambda>p. (p_recipient_type p, p_amount_sats p)) (payouts_of (r_id r) (payouts db')) =
             payout_plan (allocate split (Sats (of_int (r_total_pool_sats r)))) \<and>
           (\<forall>p \<in> set (payouts_of (r_id r) (payouts db')). p_status p = PayPending \<and>
              p_idempotency_key p = payout_key x (r_id r) (p_recipient_type p)) \<and>
           payouts_total (r_id r) (payouts db') = r_total_pool_sats r \<and>
           filter (\<lambda>p. p_raffle_id p \<noteq> r_id r) (payouts db') = payouts db)"
proof -
  have ok: "store_ok x db"
    using assms(1) by (simp add: db_ok_def)
  have fetch: "fetch_optional (\<lambda>s. r_id s = r_id r) (raffles db) = Some r"
    using ok assms(3) by (rule fetch_raffle)
  have fz: "frozen_status (r_status r)"
    using assms(4) by (simp add: frozen_status_def)
  with ok assms(3) obtain es result amounts where es: "raffle_ledger x db r es" "es \<noteq> []"
    "draw (x_sha x) es (draw_facts x r es ch rh rand) = Ok result"
    and c: "compute_draw x (r_id r) ch rh rand r db = Ok (ledger_root x (r_id r) es, result, amounts)"
    by (rule compute_draw_frozen)
  have root: "r_entries_root r = Some (as_bytes (ledger_root x (r_id r) es))"
    using c by (auto simp: compute_draw_def bindR_eq_Ok ok_or_eq_Ok hash_from_bytes_Ok)
  have seed: "dr_seed result = draw_seed (x_sha x) (draw_facts x r es ch rh rand)"
    using es(3) by (auto simp: draw_def bindR_eq_Ok Let_def split: if_splits option.splits)
  note win = drawn_winner_row [OF es(1,2) store_okD(9) [OF ok assms(3)] store_okD(8) [OF ok] es(3)]
  show ?thesis
  proof (cases "create_draw_and_payouts x ids now (r_id r) ch bh rh rand db")
    case (Inl e)
    then show ?thesis
      using create_draw_Err [OF Inl fetch assms(4) c] by simp
  next
    case (Inr p)
    obtain res db' where p: "p = (res, db')"
      by (cases p)
    note rec = create_draw_records [OF Inr [unfolded p] fetch]
    then have "res = result"
      using c by auto
    with rec(2,3) win create_draw_pays [OF Inr [unfolded p] assms(1-4)] root seed show ?thesis
      by (simp add: Inr p draw_facts_def)
  qed
qed

definition sample_result :: DrawResult where
  "sample_result = \<lparr>dr_seed = ZERO_HASH, dr_winning_ticket = 0, dr_winner_entry_id = 7,
     dr_winner_ticket_range = \<lparr>tr_start = 0, tr_end = 3\<rparr>\<rparr>"

definition sample_amounts :: PayoutAmounts where
  "sample_amounts = \<lparr>pa_winner = Sats 240, pa_organizer = Sats 45, pa_platform = Sats 15\<rparr>"

definition sample_split :: PayoutSplit where
  "sample_split = \<lparr>ps_winner = BasisPoints 8000, ps_organizer = BasisPoints 1500, ps_platform = BasisPoints 500\<rparr>"

lemma sample_draw_result:
  "draw (\<lambda>_. ZERO_HASH) [sample_entry] (draw_facts sample_ext (sample_raffle_row st) [sample_entry] 100 101 ZERO_HASH)
     = Ok sample_result"
proof -
  have "raffle_check (sample_raffle_row st)"
    using store_okD(9) [OF sample_store_ok, of _ st] by simp
  from sample_raffle_ledger _ this obtain i t where i: "i < length [sample_entry]"
    and t: "unat t = be_value (as_bytes (draw_seed (x_sha sample_ext)
        (draw_facts sample_ext (sample_raffle_row st) [sample_entry] 100 101 ZERO_HASH)))
      mod nat (r_total_tickets (sample_raffle_row st))"
    and d: "draw (x_sha sample_ext) [sample_entry] (draw_facts sample_ext (sample_raffle_row st) [sample_entry] 100 101 ZERO_HASH) =
      Ok \<lparr>dr_seed = draw_seed (x_sha sample_ext)
          (draw_facts sample_ext (sample_raffle_row st) [sample_entry] 100 101 ZERO_HASH), dr_winning_ticket = t,
          dr_winner_entry_id = ed_entry_id (le_data ([sample_entry] ! i)),
          dr_winner_ticket_range = le_range ([sample_entry] ! i)\<rparr>"
    by (rule frozen_draw) simp
  have "t = 0"
    using t by (simp add: draw_seed_def be_value_ZERO_HASH unat_eq_0)
  with d i show ?thesis
    by (simp add: sample_result_def draw_seed_def sample_entry_def LedgerEntry_create_def)
qed

lemma sample_load_split: "load_split 2 (sample_store st) = Ok sample_split"
  by (simp add: load_split_def fetch_one_def sample_split_row_def load_bps_Ok map_err_eq_Ok PayoutSplit_new_Ok
      sample_split_def split_is_valid_iff)

lemma sample_allocate: "allocate sample_split (Sats 300) = sample_amounts"
  unfolding sample_split_def sample_amounts_def by code_simp

lemma sample_compute_draw:
  "compute_draw sample_ext 2 100 101 ZERO_HASH (sample_raffle_row st) (sample_store st)
     = Ok (ZERO_HASH, sample_result, sample_amounts)"
  using sample_draw_result [of st] ledger_rows_Ok [OF sample_raffle_ledger store_okD(8) [OF sample_store_ok], of st]
  by (simp add: compute_draw_def db_as_u64_def draw_facts_def sample_load_split sample_allocate ledger_root_def
      entries_root_def)

lemma sample_draw:
  "\<exists>db'. create_draw_and_payouts sample_ext (\<lambda>n. of_nat (40 + n)) 1002 2 100 ZERO_HASH 101 ZERO_HASH
       (sample_store RandomnessPending) = Ok (sample_result, db')"
  by (simp add: create_draw_and_payouts_def fetch_one_def sample_compute_draw)
     (simp add: eval_sql sample_result_def sample_amounts_def sample_rows payout_items_def insert_payout_def draw_row_of_def draw_check_def
       payout_check_def enqueue_payouts_def announce_draw_def drawn_row_def raffle_check_def sample_payouts_def
       drawn_status_def payout_key_recipient)

theorem draw_names_ticket_owner_witness:
  "\<exists>result db'. create_draw_and_payouts sample_ext (\<lambda>n. of_nat (40 + n)) 1002 2 100 ZERO_HASH 101 ZERO_HASH
       (sample_store RandomnessPending) = Ok (result, db') \<and>
     (\<exists>d \<in> set (draws db'). d_raffle_id d = 2 \<and> d_winner_entry_id d = dr_winner_entry_id result) \<and>
     (\<exists>w \<in> set (entries (sample_store RandomnessPending)). e_id w = dr_winner_entry_id result) \<and>
     payouts_total 2 (payouts db') = 300"
  using draw_names_ticket_owner [OF sample_db_ok sample_uuid_text_ok, where r = "sample_raffle_row RandomnessPending"
      and ids = "\<lambda>n. of_nat (40 + n)" and now = 1002 and ch = 100 and bh = ZERO_HASH and rh = 101 and rand = ZERO_HASH,
      of RandomnessPending] sample_draw
  by auto

section \<open>The terminal proof\<close>

lemma payouts_valid_allocate:
  assumes "split_is_valid (pp_payout_split p)" and "pool_sum (pp_entries p) < 2 ^ 64"
    and "pp_payouts p = allocate (pp_payout_split p) (Sats (of_nat (pool_sum (pp_entries p))))"
  shows "payouts_valid p"
  using assms by (simp add: payouts_valid_iff)

text \<open>The payload assembled for a paid-out raffle is valid: it restates the raffle's own ledger.\<close>

lemma terminal_payload_valid:
  assumes "store_ok x db" and "r \<in> set (raffles db)" and "drawn_status (r_status r)"
  obtains p where "terminal_payload x (r_id r) r db = Ok p" and "payload_valid (x_sha x) p"
    and "pp_raffle_id p = r_id r" and "ledger_rows (r_id r) db = Ok (pp_entries p)"
proof -
  have fz: "frozen_status (r_status r)"
    using assms(3) by (auto simp: drawn_status_def frozen_status_def)
  obtain es where led: "raffle_ledger x db r es" "ledger_rows (r_id r) db = Ok es"
    and root: "es \<noteq> []" "r_entries_root r = Some (as_bytes (ledger_root x (r_id r) es))"
    using raffle_rows_ledger [OF assms(1,2)] fz by blast
  have c: "raffle_check r"
    using assms(1,2) by (rule store_okD(9))
  obtain cl h rand where blk: "r_close_block_height r = Some cl" "r_randomness_block_height r = Some h"
    "0 \<le> cl" "cl < h" "r_randomness_block_hash r = Some (as_bytes rand)"
    using store_okD(7) [OF assms(1,2)] assms(3) by (auto simp: raffle_ok_def drawn_ok_def)
  let ?ch = "of_int cl :: u64" and ?rh = "of_int h :: u64"
  obtain split where split: "load_split (r_id r) db = Ok split" "split_is_valid split"
    using assms(1,2) by (rule load_split_succeeds)
  obtain result where d: "draw (x_sha x) es (draw_facts x r es ?ch ?rh rand) = Ok result"
    using led(1) root(1) c by (rule frozen_draw)
  have v: "valid_ledger (x_sha x) (r_id r) es" and tot: "of_int (r_total_tickets r) = ticket_base es (length es)"
    and pool: "r_total_pool_sats r = int (pool_sum es)"
    using led(1) by (simp_all add: raffle_ledger_def)
  have sizes: "pool_sum es < 2 ^ 64" "length es < 2 ^ 64"
    using v by (simp_all add: valid_ledger_def)
  have "bigint cl" "bigint h"
    using c blk by (simp_all add: raffle_check_def)
  then have heights: "?ch < ?rh"
    using blk(3,4) uint_of_int by (simp add: word_less_def)
  define p where "p = \<lparr>pp_protocol_version = PROTOCOL_VERSION, pp_raffle_id = r_id r, pp_payout_split = split,
     pp_entries = es,
     pp_freeze = \<lparr>ff_entry_count = of_nat (entry_count (r_id r) db), ff_total_tickets = of_int (r_total_tickets r),
       ff_total_pool_sats = Sats (of_int (r_total_pool_sats r)), ff_entry_chain_head = chain_hash es (length es),
       ff_entries_root = ledger_root x (r_id r) es\<rparr>,
     pp_bitcoin = \<lparr>bf_close_block_height = ?ch, bf_randomness_block_height = ?rh, bf_randomness_block_hash = rand\<rparr>,
     pp_draw = result, pp_payouts = allocate split (Sats (of_int (r_total_pool_sats r)))\<rparr>"
  have payload: "terminal_payload x (r_id r) r db = Ok p"
    using led root blk c d split raffle_ledger_head [OF led(1)]
    by (simp add: terminal_payload_def p_def get_bigint_def db_as_u64_def draw_facts_def raffle_check_def)
  have "payload_input (x_sha x) p = draw_facts x r es ?ch ?rh rand"
    by (simp add: p_def payload_input_def draw_facts_def ledger_root_def tot)
  then have "draw_valid (x_sha x) p"
    using draw_valid_iff [of p "x_sha x"] root(1) v d by (simp add: p_def)
  moreover have "payouts_valid p"
    using split(2) sizes by (intro payouts_valid_allocate) (simp_all add: p_def pool)
  moreover have "freeze_valid (x_sha x) p"
    using entry_count_ledger [OF led(1)] sizes
    by (simp add: freeze_valid_def p_def tot pool ledger_root_def unat_of_nat)
  ultimately have "payload_valid (x_sha x) p"
    using root(1) v heights by (simp add: payload_valid_def p_def PROTOCOL_VERSION_def)
  then show thesis
    by (intro that [OF payload]) (simp_all add: p_def led(2))
qed

lemma create_document:
  assumes "ProofDocument_create sha jcs p = Ok doc" and "payload_valid sha p"
  shows "is_verified (verify sha jcs doc)" and "pd_payload doc = p"
  using assms by (auto simp: ProofDocument_create_def proof_hash_def canonical_proof_json_def bindR_eq_Ok map_err_eq_Ok
      verify_accepts_iff proof_valid_def)

lemma create_document_Err: "ProofDocument_create sha jcs p = Err e \<Longrightarrow> \<exists>m. e = ProofSerialization m"
  by (cases "jcs p") (auto simp: ProofDocument_create_def proof_hash_def canonical_proof_json_def)

text \<open>C7. The terminal proof of a paid-out raffle always verifies: apart from the database, only the encoders of
  the document can make its generation fail, \<open>ProofInvalid\<close> is never returned, and a returned document is
  accepted by the public verifier, carries the raffle's own ledger and pays out exactly what the payout
  rows of the raffle sum up to.\<close>

theorem terminal_proof_verifies:
  assumes "db_ok x db" and "r \<in> set (raffles db)" and "r_status r = PaidOut"
  shows "case generate_terminal_proof x ids now (r_id r) db of
      Inl e \<Rightarrow> database_failure e \<or> (\<exists>m. e = ProofEncoding m) \<or> (\<exists>m. e = Protocol (ProofSerialization m))
    | Inr (doc, db') \<Rightarrow>
        is_verified (verify (x_sha x) (x_jcs x) doc) \<and> pp_raffle_id (pd_payload doc) = r_id r \<and>
        ledger_rows (r_id r) db = Ok (pp_entries (pd_payload doc)) \<and>
        payouts_total (r_id r) (payouts db) = uint (as_u64 (ff_total_pool_sats (pp_freeze (pd_payload doc))))"
proof -
  have ok: "store_ok x db" and pay: "payouts_ok x db"
    using assms(1) by (simp_all add: db_ok_def)
  have fetch: "find (\<lambda>s. r_id s = r_id r) (raffles db) = Some r"
    using fetch_raffle [OF ok assms(2)] by (simp add: fetch_optional_def)
  have dr: "drawn_status (r_status r)"
    using assms(3) by (simp add: drawn_status_def)
  from ok assms(2) dr obtain p where p: "terminal_payload x (r_id r) r db = Ok p" "payload_valid (x_sha x) p"
    "pp_raffle_id p = r_id r" "ledger_rows (r_id r) db = Ok (pp_entries p)"
    by (rule terminal_payload_valid)
  have "payouts_total (r_id r) (payouts db) = r_total_pool_sats r"
    using pay assms(2) dr by (simp add: payouts_ok_def drawn_raffles_def)
  also have "\<dots> = uint (as_u64 (ff_total_pool_sats (pp_freeze p)))"
  proof -
    obtain es where "raffle_ledger x db r es" "ledger_rows (r_id r) db = Ok es"
      using raffle_rows_ledger [OF ok assms(2)] by blast
    then have "r_total_pool_sats r = int (pool_sum (pp_entries p))"
      using p(4) by (simp add: raffle_ledger_def)
    also have "\<dots> = int (unat (as_u64 (ff_total_pool_sats (pp_freeze p))))"
      using p(2) by (simp add: payload_valid_def freeze_valid_def)
    finally show ?thesis
      unfolding uint_nat .
  qed
  finally have total: "payouts_total (r_id r) (payouts db) = uint (as_u64 (ff_total_pool_sats (pp_freeze p)))" .
  note eq = generate_terminal_proof_def fetch_one_def fetch p(1) assms(3)
  show ?thesis
  proof (cases "ProofDocument_create (x_sha x) (x_jcs x) p")
    case (Inl e)
    then show ?thesis
      using create_document_Err [OF Inl] by (simp add: eq)
  next
    case (Inr doc)
    note doc = create_document [OF Inr p(2)]
    show ?thesis
      using Inr doc p total
      by (auto simp: eq bindR_eq_Err bindR_eq_Ok map_err_eq_Err split: sum.splits dest: failure_dests)
  qed
qed

lemma sample_terminal_proof:
  "\<exists>doc db'. generate_terminal_proof sample_ext (\<lambda>n. of_nat (40 + n)) 1003 2 (sample_store PaidOut) = Ok (doc, db')"
proof -
  have "drawn_status PaidOut"
    by (simp add: drawn_status_def)
  then obtain p where p: "terminal_payload sample_ext 2 (sample_raffle_row PaidOut) (sample_store PaidOut) = Ok p"
      "payload_valid (\<lambda>_. ZERO_HASH) p"
    using terminal_payload_valid [OF sample_store_ok, of "sample_raffle_row PaidOut" PaidOut] by auto
  have c: "ProofDocument_create (\<lambda>_. ZERO_HASH) (\<lambda>_. Ok []) p = Ok \<lparr>pd_payload = p, pd_proof_hash = ZERO_HASH\<rparr>"
    by (simp add: ProofDocument_create_def proof_hash_def canonical_proof_json_def)
  have "is_verified (verify (\<lambda>_. ZERO_HASH) (\<lambda>_. Ok []) \<lparr>pd_payload = p, pd_proof_hash = ZERO_HASH\<rparr>)"
    using c p(2) by (rule create_document)
  moreover have "x_to_value sample_ext = (\<lambda>_. Ok JNull)"
    by (simp add: sample_ext_def)
  ultimately show ?thesis
    by (simp add: generate_terminal_proof_def fetch_one_def p(1) c sql_insert_def proof_check_def write_audit_def)
qed

theorem terminal_proof_verifies_witness:
  "\<exists>doc db'. generate_terminal_proof sample_ext (\<lambda>n. of_nat (40 + n)) 1003 2 (sample_store PaidOut) = Ok (doc, db') \<and>
     is_verified (verify (x_sha sample_ext) (x_jcs sample_ext) doc) \<and> pp_raffle_id (pd_payload doc) = 2"
  using terminal_proof_verifies [OF sample_db_ok, of "sample_raffle_row PaidOut" PaidOut "\<lambda>n. of_nat (40 + n)" 1003]
    sample_terminal_proof
  by auto

end
