(* ===== verification/Store_Operations.thy ===== *)
theory Store_Operations
  imports Store_Outcome
begin

text \<open>
  Contracts of single operations of the store: retries of webhooks, publications and refund records are
  idempotent, and a claimed payout cannot be claimed or settled by anyone else.
\<close>

lemma sql_update_none:
  assumes "unique_ok conflict t" and "\<And>r. r \<in> set t \<Longrightarrow> \<not> P r"
  shows "sql_update check conflict P f t = Ok (t, 0)"
proof -
  have "set_where P f t = t"
    using assms(2) by (rule set_where_cong)
  then show ?thesis
    using assms by (auto simp: sql_update_def filter_empty_conv)
qed

section \<open>Webhooks\<close>

definition webhook_key :: "NewWebhookEvent \<Rightarrow> string" where
  "webhook_key event = nw_provider_name event @ '':'' @ nw_provider_event_id event"

lemma job_key_unique:
  assumes "table_ok job_check job_conflict js" and "j \<in> set js" and "k \<in> set js"
    and "j_kind j = j_kind k" and "j_deduplication_key j = j_deduplication_key k"
  shows "j = k"
  using assms by (intro jobs_tbl.row_unique) (auto simp: job_conflict_def)

text \<open>C32. A provider event is recorded and scheduled once: after a receipt was stored, every repetition of the
  event, whatever its payload, reports that nothing is new and leaves the database as it is; the receipt
  is on record and exactly one reconciliation job carries its key.\<close>

theorem webhook_recorded_once:
  assumes "table_ok job_check job_conflict (jobs db)"
    and "record_webhook_and_enqueue x ids now event db = Ok (True, db')"
    and "nw_provider_name again = nw_provider_name event" and "nw_provider_event_id again = nw_provider_event_id event"
  shows "record_webhook_and_enqueue x ids' now' again db' = Ok (False, db') \<and>
    (\<exists>w \<in> set (webhook_events db'). w_provider_name w = nw_provider_name event \<and>
       w_provider_event_id w = nw_provider_event_id event \<and> w_payload_hash w = as_bytes (nw_payload_hash event)) \<and>
    (\<exists>!j. j \<in> set (jobs db') \<and> j_kind j = ''payment.reconcile'' \<and> j_deduplication_key j = webhook_key event)"
proof -
  define w where "w = \<lparr>w_id = ids 0, w_provider_name = nw_provider_name event,
      w_provider_event_id = nw_provider_event_id event, w_payload_hash = as_bytes (nw_payload_hash event),
      w_raw_payload = nw_raw_payload event, w_signature_valid = True, w_received_at = now\<rparr>"
  have w: "w_provider_name w = nw_provider_name event" "w_provider_event_id w = nw_provider_event_id event"
    "w_payload_hash w = as_bytes (nw_payload_hash event)"
    by (simp_all add: w_def)
  define ws where "ws = webhook_events db @ [w]"
  have j: "insert_job (ids 1) now ''payment.reconcile'' (webhook_key event)
      (JObj [(''provider'', JStr (nw_provider_name event)), (''event_id'', JStr (nw_provider_event_id event)),
             (''invoice_id'', JStr (x_uuid_text x (nw_invoice_id event)))]) (db\<lparr>webhook_events := ws\<rparr>) = Ok db'"
    using assms(2) unfolding record_webhook_and_enqueue_def w_def [symmetric] webhook_key_def ws_def
    by (auto simp: bindR_eq_Ok map_err_eq_Ok sql_insert_ignore_Ok split: if_splits)
  from j obtain js where db': "db' = db\<lparr>webhook_events := ws, jobs := js\<rparr>"
    and ok: "table_ok job_check job_conflict js"
    and ex: "\<exists>j \<in> set js. j_kind j = ''payment.reconcile'' \<and> j_deduplication_key j = webhook_key event"
    by (rule insert_job_Ok) (use assms(1) in auto)
  have win: "w \<in> set (webhook_events db')"
    by (simp add: db' ws_def)
  then have "\<exists>v \<in> set (webhook_events db'). (w_provider_name v, w_provider_event_id v)
      = (nw_provider_name again, nw_provider_event_id again)"
    using w assms(3,4) by (intro bexI [of _ w]) simp_all
  then have "record_webhook_and_enqueue x ids' now' again db' = Ok (False, db')"
    by (simp add: record_webhook_and_enqueue_def sql_insert_ignore_def webhook_check_def)
  moreover have "\<exists>!j. j \<in> set (jobs db') \<and> j_kind j = ''payment.reconcile'' \<and> j_deduplication_key j = webhook_key event"
    using ex job_key_unique [OF ok] by (auto simp: db')
  ultimately show ?thesis
    using win w by blast
qed

definition sample_event :: "Hash32 \<Rightarrow> NewWebhookEvent" where
  "sample_event h = \<lparr>nw_provider_name = ''fake'', nw_provider_event_id = ''e1'', nw_invoice_id = 6,
     nw_payload_hash = h, nw_raw_payload = JNull\<rparr>"

lemma sample_webhook:
  "\<exists>db'. record_webhook_and_enqueue sample_ext (\<lambda>n. of_nat n) 5 (sample_event ZERO_HASH) (sample_store Open) = Ok (True, db')"
  by (simp add: record_webhook_and_enqueue_def sample_event_def eval_sql webhook_check_def)

theorem webhook_recorded_once_witness:
  "\<exists>db'. record_webhook_and_enqueue sample_ext (\<lambda>n. of_nat n) 5 (sample_event ZERO_HASH) (sample_store Open) = Ok (True, db') \<and>
     record_webhook_and_enqueue sample_ext (\<lambda>n. of_nat (7 + n)) 9 (sample_event (hash_repeat 3)) db' = Ok (False, db')"
proof -
  obtain db' where d: "record_webhook_and_enqueue sample_ext (\<lambda>n. of_nat n) 5 (sample_event ZERO_HASH) (sample_store Open)
      = Ok (True, db')"
    using sample_webhook by blast
  have "table_ok job_check job_conflict (jobs (sample_store Open))"
    by (simp add: table_ok_def)
  from webhook_recorded_once [OF this d, of "sample_event (hash_repeat 3)" "\<lambda>n. of_nat (7 + n)" 9] d show ?thesis
    by (auto simp: sample_event_def)
qed

section \<open>Publication of the proof\<close>

text \<open>C33. A publication is final: once it is recorded, repeating it with the same object identity succeeds and
  changes nothing, and any other identity is refused, so a recorded version is never replaced.\<close>

theorem publication_is_final:
  assumes "table_ok proof_check proof_conflict (proofs db)"
    and "record_proof_publication now rid uri v etag db = Ok ((), db')"
  shows "record_proof_publication now' rid uri' v' etag' db' =
    (if uri' = uri \<and> v' = v \<and> etag' = etag then Ok ((), db') else Err ProofAlreadyPublished)"
proof -
  let ?P = "\<lambda>p. is_proof_of rid p \<and> pr_storage_uri p = None"
  let ?f = "\<lambda>p. p\<lparr>pr_storage_uri := Some uri, pr_storage_version_id := Some v, pr_storage_etag := Some etag,
      pr_published_at := Some now\<rparr>"
  from assms(2) obtain t n where t: "sql_update proof_check proof_conflict ?P ?f (proofs db) = Ok (t, n)"
    and db': "db' = db\<lparr>proofs := t\<rparr>"
    and e: "n = 1 \<or> (\<exists>p. fetch_optional (is_proof_of rid) t = Some p \<and> pr_storage_uri p = Some uri \<and>
       pr_storage_version_id p = Some v \<and> pr_storage_etag p = Some etag)"
    unfolding record_proof_publication_def
    by (auto simp: bindR_eq_Ok map_err_eq_Ok ok_or_eq_Ok split: if_splits)
  have ok: "table_ok proof_check proof_conflict t"
    using assms(1) t by (rule proofs_tbl.update_ok)
  have u: "proof_conflict a b" if "is_proof_of rid a" "is_proof_of rid b" for a b
    using that by (simp add: is_proof_of_def proof_conflict_def)
  obtain p where p: "p \<in> set t" "is_proof_of rid p" "pr_storage_uri p = Some uri" "pr_storage_version_id p = Some v"
    "pr_storage_etag p = Some etag"
  proof -
    from e consider "n = 1" | p where "fetch_optional (is_proof_of rid) t = Some p" "pr_storage_uri p = Some uri"
       "pr_storage_version_id p = Some v" "pr_storage_etag p = Some etag"
      by blast
    then show thesis
    proof cases
      case 1
      then have "filter ?P (proofs db) \<noteq> []"
        using t by (auto simp: sql_update_Ok)
      then obtain q where "q \<in> set (proofs db)" "?P q"
        by (auto simp: filter_empty_conv)
      then show thesis
        using t by (intro that [of "?f q"]) (auto simp: sql_update_Ok set_set_where is_proof_of_def)
    next
      case (2 p)
      then show thesis
        using fetch_optional_Some [OF 2(1)] by (intro that [of p]) simp_all
    qed
  qed
  have fetch: "fetch_optional (is_proof_of rid) t = Some p"
    using ok p(1,2) by (rule proofs_tbl.fetch_unique) (rule u [OF p(2)])
  have none: "\<not> (is_proof_of rid q \<and> pr_storage_uri q = None)" if "q \<in> set t" for q
    using proofs_tbl.row_unique [OF ok that p(1)] u [of q p] p by auto
  then have upd: "sql_update proof_check proof_conflict ?P g t = Ok (t, 0)" for g
    using ok by (intro sql_update_none) (auto simp: table_ok_def)
  show ?thesis
    using p(3-5) by (auto simp: record_proof_publication_def db' upd fetch)
qed

definition sample_published :: db where
  "sample_published = (sample_store PaidOut)\<lparr>proofs :=
     [\<lparr>pr_id = 50, pr_raffle_id = 2, pr_protocol_version = ''OPENPOOL-1'', pr_proof_json = JNull,
       pr_proof_hash = as_bytes ZERO_HASH, pr_storage_uri = None, pr_created_at = 1, pr_storage_version_id = None,
       pr_storage_etag = None, pr_published_at = None\<rparr>]\<rparr>"

lemma sample_publication:
  "table_ok proof_check proof_conflict (proofs sample_published)"
  "\<exists>db'. record_proof_publication 3 2 ''s3'' ''v1'' ''t'' sample_published = Ok ((), db')"
  by (simp_all add: sample_published_def table_ok_def proof_check_def record_proof_publication_def eval_sql
      is_proof_of_def PROTOCOL_VERSION_def)

theorem publication_is_final_witness:
  "\<exists>db'. record_proof_publication 3 2 ''s3'' ''v1'' ''t'' sample_published = Ok ((), db') \<and>
     record_proof_publication 4 2 ''s3'' ''v1'' ''t'' db' = Ok ((), db') \<and>
     record_proof_publication 5 2 ''s3'' ''v2'' ''t'' db' = Err ProofAlreadyPublished"
proof -
  obtain db' where d: "record_proof_publication 3 2 ''s3'' ''v1'' ''t'' sample_published = Ok ((), db')"
    using sample_publication(2) by blast
  note f = publication_is_final [OF sample_publication(1) d]
  show ?thesis
    using d f [of 4 "''s3''" "''v1''" "''t''"] f [of 5 "''s3''" "''v2''" "''t''"] by auto
qed

section \<open>Claimed payouts\<close>

lemma claim_payout_table_ok:
  assumes "claim_payout locked now rid w db = Ok (r, db')" and "table_ok payout_check payout_conflict (payouts db)"
  shows "table_ok payout_check payout_conflict (payouts db')"
  using assms by (auto simp: claim_payout_def bindR_eq_Ok map_err_eq_Ok split: option.splits dest: payouts_tbl.update_ok)

text \<open>C24. A claimed payout is exclusive for its lease of sixty seconds: no other claim returns it, and nobody but
  the claiming worker can settle it or mark it failed, so it is not paid twice within a lease.\<close>

theorem claimed_payout_is_exclusive:
  assumes "table_ok payout_check payout_conflict (payouts db)"
    and "claim_payout locked now rid w db = Ok (Some c, db')" and "t \<le> now + seconds 60" and "w' \<noteq> w"
  shows "(\<forall>c' db''. claim_payout locked' t rid' v db' = Ok (Some c', db'') \<longrightarrow> cp_id c' \<noteq> cp_id c) \<and>
    settle_payout x ids t (cp_id c) w' ref db' = Err (Sqlx RowNotFound) \<and>
    fail_payout (cp_id c) w' reason db' = Ok ((), db') \<and>
    (\<exists>p \<in> set (payouts db'). p_id p = cp_id c \<and> p_status p = PayProcessing \<and> p_lease_owner p = Some w)"
proof -
  let ?f = "payout_take_lease now w (now + seconds 60)"
  from assms(2) obtain p where
    cand: "candidate (payout_claimable rid now) locked payout_rank (sort_key p_created_at (payouts db)) = Some p"
    and db': "db' = db\<lparr>payouts := set_where (\<lambda>r. p_id r = p_id p) ?f (payouts db)\<rparr>"
    and c: "c = \<lparr>cp_id = p_id p, cp_raffle_id = p_raffle_id p, cp_recipient_type = p_recipient_type p,
              cp_amount_sats = Sats (of_int (p_amount_sats p)), cp_idempotency_key = p_idempotency_key p\<rparr>"
    by (rule claim_payout_Some)
  have cid: "cp_id c = p_id p"
    by (simp add: c)
  have pin: "p \<in> set (payouts db)"
    using candidate_Some(1) [OF cand] by simp
  have only: "q = p" if "q \<in> set (payouts db)" "p_id q = p_id p" for q
    using assms(1) that(1) pin that(2) by (rule payout_row_unique)
  then have new: "q = ?f p" if "q \<in> set (payouts db')" "p_id q = p_id p" for q
    using that by (auto simp: db' set_set_where)
  have "cp_id c' \<noteq> cp_id c" if cl: "claim_payout locked' t rid' v db' = Ok (Some c', db'')" for c' db''
  proof -
    from cl obtain q where q: "candidate (payout_claimable rid' t) locked' payout_rank (sort_key p_created_at (payouts db')) = Some q"
      and "cp_id c' = p_id q"
      by (rule claim_payout_Some) auto
    moreover have "payout_holds t w (?f p)"
      using candidate_Some(2) [OF cand] assms(3) by (rule payout_lease.claim_holds)
    then have "\<not> payout_claimable rid' t (?f p)"
      by (rule payout_lease.held_not_claimable)
    ultimately show ?thesis
      using candidate_Some(1,2) [OF q] new cid by auto
  qed
  moreover have none: "\<not> (p_id q = cp_id c \<and> p_status q = PayProcessing \<and> p_lease_owner q = Some w')"
    if "q \<in> set (payouts db')" for q
    using new [OF that] assms(4) by (auto simp: cid payout_take_lease_def)
  moreover have upd: "sql_update payout_check payout_conflict
      (\<lambda>q. p_id q = cp_id c \<and> p_status q = PayProcessing \<and> p_lease_owner q = Some w') f (payouts db') = Ok (payouts db', 0)" for f
    using claim_payout_table_ok [OF assms(2,1)] none by (intro sql_update_none) (simp_all add: table_ok_def)
  moreover have "fetch_one (\<lambda>q. p_id q = cp_id c \<and> p_status q = PayProcessing \<and> p_lease_owner q = Some w') (payouts db')
      = Err RowNotFound"
    using none by (auto simp: fetch_one_def find_None_iff ok_or_eq_Err)
  moreover have "?f p \<in> set (payouts db')"
    using pin by (auto simp: db' set_set_where)
  ultimately show ?thesis
    by (auto simp: settle_payout_def fail_payout_def cid payout_take_lease_def intro!: bexI [of _ "?f p"])
qed

lemma sample_claim:
  "\<exists>c db'. claim_payout (\<lambda>_. False) 10 2 ''w1'' (sample_store PayoutPending) = Ok (Some c, db')"
proof -
  have "payout_claimable 2 10 (sample_payout_row PayPending 31 RWinner 240)"
    by (simp add: payout_claimable_def sample_rows)
  then have "candidate (payout_claimable 2 10) (\<lambda>_. False) payout_rank (sort_key p_created_at (payouts (sample_store PayoutPending))) \<noteq> None"
    unfolding candidate_None by (auto simp: sample_payouts_def Let_def drawn_status_def)
  then obtain p where p: "candidate (payout_claimable 2 10) (\<lambda>_. False) payout_rank (sort_key p_created_at (payouts (sample_store PayoutPending))) = Some p"
    by blast
  have ok: "table_ok payout_check payout_conflict (payouts (sample_store PayoutPending))"
    using sample_payouts_ok by (simp add: payouts_ok_def)
  have "p \<in> set (payouts (sample_store PayoutPending))"
    using candidate_Some(1) [OF p] by simp
  then have "0 \<le> p_amount_sats p"
    using ok by (fastforce simp: table_ok_def payout_check_def)
  moreover have "sql_update payout_check payout_conflict (\<lambda>r. p_id r = p_id p) (payout_take_lease 10 ''w1'' (10 + seconds 60))
      (payouts (sample_store PayoutPending)) = Ok (set_where (\<lambda>r. p_id r = p_id p) (payout_take_lease 10 ''w1'' (10 + seconds 60))
      (payouts (sample_store PayoutPending)), length (filter (\<lambda>r. p_id r = p_id p) (payouts (sample_store PayoutPending))))"
    using ok by (rule payouts_tbl.update_succeeds)
      (use ok in \<open>auto simp: payout_take_lease_def payout_check_def payout_conflict_def table_ok_def\<close>)
  ultimately show ?thesis
    by (simp add: claim_payout_def p [simplified] db_as_u64_def)
qed

theorem claimed_payout_is_exclusive_witness:
  "\<exists>c db'. claim_payout (\<lambda>_. False) 10 2 ''w1'' (sample_store PayoutPending) = Ok (Some c, db') \<and>
     settle_payout sample_ext (\<lambda>n. of_nat n) 20 (cp_id c) ''w2'' ''ref'' db' = Err (Sqlx RowNotFound)"
proof -
  obtain c db' where c: "claim_payout (\<lambda>_. False) 10 2 ''w1'' (sample_store PayoutPending) = Ok (Some c, db')"
    using sample_claim by blast
  have "table_ok payout_check payout_conflict (payouts (sample_store PayoutPending))"
    using sample_payouts_ok by (simp add: payouts_ok_def)
  from claimed_payout_is_exclusive [OF this c, of 20 "''w2''"] c show ?thesis
    by (auto simp: seconds_def)
qed

section \<open>Refunds of late settlements\<close>

text \<open>The row of an invoice after it was marked, when it was not settled before.\<close>

lemma late_invoice_row:
  assumes "table_ok invoice_check invoice_conflict t" and i: "fetch_optional (\<lambda>i. i_id i = iid) t = Some i"
    and upd: "(if i_status i = InvPending
        then sql (sql_update invoice_check invoice_conflict (\<lambda>i. i_id i = iid) (\<lambda>i. i\<lparr>i_status := InvIneligible\<rparr>) t)
        else Ok (t, 0)) = Ok (js, k)"
    and "i_status i \<noteq> InvSettled"
  obtains j where "fetch_optional (\<lambda>i. i_id i = iid) js = Some j" and "i_status j \<noteq> InvPending"
    and "i_status j \<noteq> InvSettled" and "i_raffle_id j = i_raffle_id i"
proof (cases "i_status i = InvPending")
  case True
  let ?inel = "\<lambda>i. i\<lparr>i_status := InvIneligible\<rparr>"
  have iin: "i \<in> set t" "i_id i = iid"
    using fetch_optional_Some [OF i] by simp_all
  have js: "table_ok invoice_check invoice_conflict js" "js = set_where (\<lambda>i. i_id i = iid) ?inel t"
    using True upd assms(1) by (auto simp: map_err_eq_Ok sql_update_Ok dest: invoices_tbl.update_ok)
  have "?inel i \<in> set js"
    using iin by (auto simp: js(2) set_set_where)
  then have "fetch_optional (\<lambda>i. i_id i = iid) js = Some (?inel i)"
    by (rule invoices_tbl.fetch_unique [OF js(1)]) (simp_all add: iin invoice_conflict_def)
  then show thesis
    by (rule that) simp_all
next
  case False
  then show thesis
    using upd i assms(4) by (intro that [of i]) auto
qed

text \<open>C34. A settlement that arrives too late is turned into one refund, and repeating the report is harmless:
  it returns the same refund and changes neither the invoices nor the refunds; the invoice of a late
  settlement can no longer be settled, and raffles and ledger entries are left as they are.\<close>

theorem late_settlement_refunded_once:
  assumes "mark_late_settlement_for_refund x ids now iid db = Ok (fid, db')"
    and "table_ok invoice_check invoice_conflict (invoices db)"
    and "\<forall>i \<in> set (invoices db). i_id i = iid \<longrightarrow> i_status i \<noteq> InvSettled"
    and "\<forall>a \<in> set (audit_events db'). a_id a \<noteq> ids' 1"
  shows "(\<exists>db''. mark_late_settlement_for_refund x ids' now' iid db' = Ok (fid, db'') \<and>
            refunds db'' = refunds db' \<and> invoices db'' = invoices db') \<and>
    (\<exists>f \<in> set (refunds db'). f_id f = fid \<and> f_invoice_id f = iid \<and> f_reason f = LateSettlement) \<and>
    settle_invoice_and_append_entry x ids' now' iid eid t db' = Err InvoiceNotEligible \<and>
    raffles db' = raffles db \<and> entries db' = entries db"
proof -
  let ?inel = "\<lambda>i. i\<lparr>i_status := InvIneligible\<rparr>"
  let ?due = "\<lambda>f. f_invoice_id f = iid \<and> f_reason f = LateSettlement"
  from assms(1) obtain i js k ins f u where
    i: "fetch_optional (\<lambda>i. i_id i = iid) (invoices db) = Some i"
    and upd: "(if i_status i = InvPending then sql (sql_update invoice_check invoice_conflict (\<lambda>i. i_id i = iid) ?inel (invoices db))
               else Ok (invoices db, 0)) = Ok (js, k)"
    and ins: "insert_refund (ids 0) now (i_raffle_id i) iid LateSettlement db = Ok (u, ins)"
    and f: "fetch_one ?due u = Ok f" and fid: "fid = f_id f"
    and wr: "write_audit (ids 1) now (i_raffle_id i) ''invoice.late_settlement''
         (JObj [(''invoice_id'', JStr (x_uuid_text x iid)), (''refund_id'', JStr (x_uuid_text x (f_id f)))])
         (db\<lparr>invoices := js, refunds := u\<rparr>) = Ok db'"
    unfolding mark_late_settlement_for_refund_def by (auto simp: bindR_eq_Ok map_err_eq_Ok ok_or_eq_Ok)
  from wr obtain au where db': "db' = db\<lparr>invoices := js, refunds := u, audit_events := au\<rparr>"
    by (auto elim: write_audit_Ok)
  have fin: "f \<in> set u" "?due f"
    using f fetch_optional_Some [of ?due u f] by (simp_all add: fetch_one_Ok)
  obtain j where j: "fetch_optional (\<lambda>i. i_id i = iid) js = Some j" "i_status j \<noteq> InvPending" "i_status j \<noteq> InvSettled"
    "i_raffle_id j = i_raffle_id i"
    using late_invoice_row [OF assms(2) i upd] assms(3) fetch_optional_Some [OF i] by blast
  have again: "insert_refund (ids' 0) now' (i_raffle_id i) iid LateSettlement db' = Ok (u, False)"
    using fin by (auto simp: insert_refund_def sql_insert_ignore_def new_refund_def db')
  have audit: "\<exists>au'. write_audit (ids' 1) now' (i_raffle_id i) ''invoice.late_settlement'' pl db' = Ok (db'\<lparr>audit_events := au'\<rparr>)" for pl
    using assms(4) by (auto simp: write_audit_def sql_insert_def audit_conflict_def)
  obtain au' where "write_audit (ids' 1) now' (i_raffle_id i) ''invoice.late_settlement''
      (JObj [(''invoice_id'', JStr (x_uuid_text x iid)), (''refund_id'', JStr (x_uuid_text x (f_id f)))]) db'
      = Ok (db'\<lparr>audit_events := au'\<rparr>)"
    using audit by blast
  moreover have "fetch_optional (\<lambda>i. i_id i = iid) (invoices db') = Some j" "db'\<lparr>invoices := invoices db', refunds := u\<rparr> = db'"
    using j(1) by (simp_all add: db')
  ultimately have "\<exists>db''. mark_late_settlement_for_refund x ids' now' iid db' = Ok (fid, db'') \<and>
      refunds db'' = refunds db' \<and> invoices db'' = invoices db'"
    using j(2,4) f by (auto simp: mark_late_settlement_for_refund_def again fid)
  moreover have "settle_invoice_and_append_entry x ids' now' iid eid t db' = Err InvoiceNotEligible"
    using j(1-3) by (simp add: settle_invoice_and_append_entry_def db')
  ultimately show ?thesis
    using fin by (auto simp: fid db')
qed

lemma sample_late:
  "\<exists>fid db'. mark_late_settlement_for_refund sample_ext (\<lambda>n. of_nat n) 5 6 (sample_store Closing) = Ok (fid, db') \<and>
     (\<forall>a \<in> set (audit_events db'). a_id a \<noteq> 9)"
  by (simp add: mark_late_settlement_for_refund_def insert_refund_def new_refund_def sample_rows eval_sql
      invoice_check_def same_some_def)

theorem late_settlement_refunded_once_witness:
  "\<exists>fid db' db''. mark_late_settlement_for_refund sample_ext (\<lambda>n. of_nat n) 5 6 (sample_store Closing) = Ok (fid, db') \<and>
     mark_late_settlement_for_refund sample_ext (\<lambda>n. of_nat (8 + n)) 7 6 db' = Ok (fid, db'') \<and>
     settle_invoice_and_append_entry sample_ext (\<lambda>n. of_nat (8 + n)) 7 6 77 15000000 db' = Err InvoiceNotEligible"
proof -
  obtain fid db' where d: "mark_late_settlement_for_refund sample_ext (\<lambda>n. of_nat n) 5 6 (sample_store Closing) = Ok (fid, db')"
    and a: "\<forall>a \<in> set (audit_events db'). a_id a \<noteq> 9"
    using sample_late by blast
  have ok: "table_ok invoice_check invoice_conflict (invoices (sample_store Closing))"
    using sample_store_ok by (rule store_okD(4))
  have "\<forall>i \<in> set (invoices (sample_store Closing)). i_id i = 6 \<longrightarrow> i_status i \<noteq> InvSettled"
    by (simp add: sample_rows)
  from late_settlement_refunded_once [OF d ok this, of "\<lambda>n. of_nat (8 + n)" 7 77 15000000] a d show ?thesis
    by auto
qed

end
