(* ===== verification/Store_Reads.thy ===== *)
theory Store_Reads
  imports Store_Outcome
begin

text \<open>
  The public reads of the store: paginating a raffle's entries returns the whole ledger once, in order,
  after finitely many pages, and the conversion of a raffle to its wire form cannot panic on a row the
  table accepts.
\<close>

section \<open>Pagination\<close>

text \<open>A client that follows \<open>next_cursor\<close>; \<open>None\<close> when the fuel runs out first.\<close>

fun read_pages :: "nat \<Rightarrow> externals \<Rightarrow> RaffleId \<Rightarrow> u64 \<Rightarrow> u32 \<Rightarrow> db \<Rightarrow> (PersistenceError + PublicEntry list) option" where
  "read_pages 0 x rid cursor limit db = None"
| "read_pages (Suc fuel) x rid cursor limit db =
     (case public_entries x rid cursor limit db of
        Err e \<Rightarrow> Some (Err e)
      | Ok page \<Rightarrow>
          (case ep_next_cursor page of
             None \<Rightarrow> Some (Ok (ep_entries page))
           | Some c \<Rightarrow> map_option (\<lambda>rest. bindR rest (\<lambda>es. Ok (ep_entries page @ es))) (read_pages fuel x rid c limit db)))"

text \<open>The entry a checked row is shown as.\<close>

definition shown_entry :: "externals \<Rightarrow> entry_row \<Rightarrow> PublicEntry" where
  "shown_entry x row =
     \<lparr>pe_entry_index = of_int (e_entry_index row),
      pe_participant_public_id = x_hex_encode x (e_participant_public_id row),
      pe_payment_reference_hash = x_hex_encode x (e_payment_reference_hash row),
      pe_amount_sats = of_int (e_amount_sats row), pe_ticket_start = of_int (e_ticket_start row),
      pe_ticket_end = of_int (e_ticket_end row), pe_settled_at = e_settled_at row,
      pe_entry_hash = x_hex_encode x (e_entry_hash row)\<rparr>"

lemma public_entry_from_checked_row: "entry_check row \<Longrightarrow> public_entry_from_row x row = Ok (shown_entry x row)"
  by (simp add: public_entry_from_row_def shown_entry_def entry_check_def db_as_u64_def)

lemma collect_checked_rows:
  "\<forall>r \<in> set rows. entry_check r \<Longrightarrow> collectR (public_entry_from_row x) rows = Ok (map (shown_entry x) rows)"
  by (simp add: collectR_eq_Ok public_entry_from_checked_row)

lemma filter_from_index:
  assumes "\<forall>i < length rows. k (rows ! i) = int (i + j)" and "j \<le> n"
  shows "filter (\<lambda>r. int n \<le> k r) rows = drop (n - j) rows"
  using assms
proof (induction rows arbitrary: j)
  case (Cons r rows)
  have k: "k r = int j" "\<forall>i < length rows. k (rows ! i) = int (i + Suc j)"
    using Cons.prems(1) by (auto dest: spec [of _ 0] spec [of _ "Suc _"])
  show ?case
  proof (cases "n = j")
    case True
    have "\<forall>r \<in> set rows. int n \<le> k r"
      using k(2) True by (auto simp: in_set_conv_nth)
    then show ?thesis
      using k(1) True by simp
  next
    case False
    with Cons.prems(2) have "Suc j \<le> n" "n - j = Suc (n - Suc j)"
      by simp_all
    then show ?thesis
      using Cons.IH [OF k(2)] k(1) by simp
  qed
qed simp

lemma ledger_rows_indexed:
  assumes "raffle_ledger x db r es" and "\<forall>e \<in> set (entries db). entry_check e"
  shows "\<forall>i < length (entry_rows (r_id r) db). e_entry_index (entry_rows (r_id r) db ! i) = int i"
    and "\<forall>e \<in> set (entry_rows (r_id r) db). entry_check e"
    and "length (entry_rows (r_id r) db) = length es" and "length es \<le> 2 ^ 63"
proof -
  note rows = entry_rows_ledger [OF assms]
  show idx: "\<forall>i < length (entry_rows (r_id r) db). e_entry_index (entry_rows (r_id r) db ! i) = int i"
    and len: "length (entry_rows (r_id r) db) = length es"
    using entry_row_index [OF assms] raffle_ledger_length [OF assms(1)] by (simp_all add: rows)
  show chk: "\<forall>e \<in> set (entry_rows (r_id r) db). entry_check e"
    using assms(2) by (auto simp: rows raffle_entries_def)
  show "length es \<le> 2 ^ 63"
  proof (cases es)
    case (Cons e es')
    then have i: "length es - 1 < length (entry_rows (r_id r) db)"
      using len by simp
    then have "bigint (int (length es - 1))"
      using idx chk nth_mem [OF i] by (metis entry_check_def)
    then show ?thesis
      by (simp add: bigint_def)
  qed simp
qed

lemma public_entries_page:
  assumes "raffle_ledger x db r es" and "\<forall>e \<in> set (entries db). entry_check e"
    and "unat cursor < 2 ^ 63" and "unat limit + 1 < 2 ^ 32"
  shows "public_entries x (r_id r) cursor limit db =
    Ok \<lparr>ep_entries = map (shown_entry x) (take (unat limit) (drop (unat cursor) (entry_rows (r_id r) db))),
        ep_next_cursor = (if unat cursor + unat limit < length es then Some (cursor + ucast limit) else None)\<rparr>"
proof -
  let ?rows = "entry_rows (r_id r) db"
  note rows = ledger_rows_indexed [OF assms(1,2)]
  have from_row: "db_as_i64 cursor = Ok (int (unat cursor))"
  proof -
    have "uint cursor = int (unat cursor)"
      by (rule uint_nat)
    moreover from this have "uint cursor < 2 ^ 63"
      using assms(3) by (metis of_nat_less_iff of_nat_numeral of_nat_power)
    ultimately show ?thesis
      unfolding db_as_i64_def by (simp only: if_True)
  qed
  have f: "filter (\<lambda>e. int (unat cursor) \<le> e_entry_index e) ?rows = drop (unat cursor) ?rows"
  proof -
    have "\<forall>i < length ?rows. e_entry_index (?rows ! i) = int (i + 0)"
      using rows(1) by simp
    from filter_from_index [OF this le0] show ?thesis
      by (simp only: diff_zero)
  qed
  have l: "unat (limit + 1) = unat limit + 1"
    using assms(4) by (simp add: unat_word_ariths)
  have chk: "\<forall>e \<in> set (take (unat limit) (drop (unat cursor) ?rows)). entry_check e"
    using rows(2) by (meson in_set_dropD in_set_takeD)
  have more: "unat limit < length (take (unat limit + 1) (drop (unat cursor) ?rows)) \<longleftrightarrow>
      unat cursor + unat limit < length es"
    using rows(3) by auto
  have "take (unat limit) (take (unat limit + 1) (drop (unat cursor) ?rows)) = take (unat limit) (drop (unat cursor) ?rows)"
    by simp
  then show ?thesis
    unfolding public_entries_def from_row bindR.simps Let_def f l more
    by (simp add: collect_checked_rows [OF chk])
qed

text \<open>C35. Reading the entries of a raffle page by page, with any positive page size below \<open>u32::MAX\<close>, ends after
  at most one page more than there are entries and returns every entry of the ledger exactly once, in ledger order.\<close>

theorem pagination_complete:
  assumes "raffle_ledger x db r es" and "\<forall>e \<in> set (entries db). entry_check e"
    and "0 < limit" and "unat limit + 1 < 2 ^ 32" and "unat cursor < 2 ^ 63" and "length es - unat cursor < fuel"
  shows "read_pages fuel x (r_id r) cursor limit db =
    Some (Ok (map (shown_entry x) (drop (unat cursor) (raffle_entries (r_id r) db))))"
  unfolding entry_rows_ledger [OF assms(1,2), symmetric]
  using assms(5,6)
proof (induction fuel arbitrary: cursor)
  case (Suc fuel)
  let ?rows = "entry_rows (r_id r) db"
  note rows = ledger_rows_indexed [OF assms(1,2)]
  note page = public_entries_page [OF assms(1,2) Suc.prems(1) assms(4)]
  show ?case
  proof (cases "unat cursor + unat limit < length es")
    case True
    have "unat (cursor + ucast limit) = unat cursor + unat limit"
      using True rows(4) unat_ucast_up [of limit, where 'b = 64] by (simp add: unat_word_ariths)
    moreover have "0 < unat limit"
      using assms(3) by (simp add: word_less_nat_alt)
    ultimately have "read_pages fuel x (r_id r) (cursor + ucast limit) limit db =
        Some (Ok (map (shown_entry x) (drop (unat cursor + unat limit) ?rows)))"
      using Suc.IH [of "cursor + ucast limit"] Suc.prems(2) True rows(4) by simp
    then show ?thesis
      using True
      by (simp add: page flip: map_append) (metis append_take_drop_id drop_drop add.commute)
  next
    case False
    then have "take (unat limit) (drop (unat cursor) ?rows) = drop (unat cursor) ?rows"
      using rows(3) by simp
    then show ?thesis
      using False by (simp add: page)
  qed
qed simp

theorem pagination_complete_witness:
  "read_pages 2 sample_ext 2 0 1 (sample_store Open) = Some (Ok [shown_entry sample_ext sample_entry_row])"
  using pagination_complete [OF sample_raffle_ledger [of Open] _ _ _ _, of 1 0 2] store_okD(3) [OF sample_store_ok [of Open]]
  by (simp add: table_ok_def raffle_entries_def) (simp add: sample_entry_row_def)

section \<open>The wire form of a raffle\<close>

text \<open>C36. Whatever rows the tables accept, the public view of a raffle converts to its wire form without the
  panic of \<open>try_into\<close>, its amounts are the stored ones, and its three shares add up to 10,000 basis points.\<close>

theorem wire_raffle_total:
  assumes "table_ok raffle_check raffle_conflict (raffles db)" and "table_ok split_check split_conflict (payout_splits db)"
    and "public_raffle rid db = Ok p"
  shows "\<exists>w. wire_raffle p = Ok w \<and> wr_id w = rid \<and>
    unat (wr_winner_bps w) + unat (wr_organizer_bps w) + unat (wr_platform_bps w) = 10000 \<and>
    (\<exists>r \<in> set (raffles db). r_id r = rid \<and> wr_status w = r_status r \<and>
       uint (wr_total_pool_sats w) = r_total_pool_sats r \<and> uint (wr_total_tickets w) = r_total_tickets r)"
proof -
  from assms(3) obtain r s where rs: "fetch_optional (\<lambda>(r, s). r_id r = rid) (raffles_with_splits db) = Some (r, s)"
    and p: "public_raffle_from_row (r, s) = Ok p"
    by (auto simp: public_raffle_def bindR_eq_Ok ok_or_eq_Ok)
  from fetch_optional_Some [OF rs] have r: "r \<in> set (raffles db)" "r_id r = rid" and s: "s \<in> set (payout_splits db)"
    by (auto simp: raffles_with_splits_def)
  have rc: "raffle_check r" and sc: "split_check s"
    using assms(1,2) r s by (auto simp: table_ok_def)
  note f = p [unfolded public_raffle_from_row_def, simplified, unfolded bindR_eq_Ok db_as_u64_Ok, simplified]
  have bps: "bps_try_into b = Ok (of_int b) \<and> unat (of_int b :: u16) = nat b" if "0 \<le> b" "b \<le> 10000" for b
    using that unfolding unat_eq_nat_uint by (simp add: bps_try_into_def uint_word_of_int)
  have sum: "nat (sp_winner_bps s) + nat (sp_organizer_bps s) + nat (sp_platform_bps s) = 10000"
    using sc unfolding split_check_def by linarith
  show ?thesis
    using f rc sc r bps sum by (auto simp: wire_raffle_def split_check_def raffle_check_def uint_of_int)
qed

theorem wire_raffle_total_witness:
  "\<exists>p w. public_raffle 2 (sample_store Open) = Ok p \<and> wire_raffle p = Ok w \<and> unat (wr_winner_bps w) = 8000"
proof -
  obtain p where p: "public_raffle 2 (sample_store Open) = Ok p" "pur_winner_bps p = 8000"
    by (simp add: public_raffle_def raffles_with_splits_def public_raffle_from_row_def fetch_optional_def
        sample_raffle_row_def sample_split_row_def db_as_u64_def)
  obtain w where "wire_raffle p = Ok w"
    using wire_raffle_total [OF store_okD(1,2) p(1)] sample_store_ok by blast
  with p show ?thesis
    by (auto simp: wire_raffle_def bps_try_into_def bindR_eq_Ok split: if_splits)
qed

end
