(* ===== verification/Store_Reachable.thy ===== *)
theory Store_Reachable
  imports Store_Outcome
begin

text \<open>
  What holds of every database the service can reach from the empty one, and what stays fixed along every
  run: the ledger and root of a frozen raffle, and the order of the raffle's states.
\<close>

section \<open>Runs of transactions\<close>

definition committed :: "'e + 'a \<times> db \<Rightarrow> db option" where
  "committed r = (case r of Inl _ \<Rightarrow> None | Inr p \<Rightarrow> Some (snd p))"

fun run_all :: "(db \<Rightarrow> db option) list \<Rightarrow> db \<Rightarrow> db option" where
  "run_all [] db = Some db"
| "run_all (t # ts) db = (case t db of None \<Rightarrow> None | Some db' \<Rightarrow> run_all ts db')"

lemma committed_Some: "committed r = Some db' \<longleftrightarrow> (\<exists>v. r = Ok (v, db'))"
  by (auto simp: committed_def split: sum.splits)

lemma reachable_trans: "reachable step b c \<Longrightarrow> reachable step a b \<Longrightarrow> reachable step a c"
  by (induction rule: reachable.induct) (auto intro: reachable.step)

lemma run_all_reachable:
  assumes "\<And>t d d'. t \<in> set ts \<Longrightarrow> t d = Some d' \<Longrightarrow> step d d'" and "run_all ts db = Some db'"
  shows "reachable step db db'"
  using assms
proof (induction ts arbitrary: db)
  case Nil
  then show ?case by (simp add: reachable.start)
next
  case (Cons t ts)
  then obtain d where d: "t db = Some d" "run_all ts d = Some db'"
    by (auto split: option.splits)
  have "reachable step d db'"
    using Cons.prems(1) d(2) by (intro Cons.IH) auto
  moreover have "step db d"
    by (rule Cons.prems(1) [of t]) (simp_all add: d)
  ultimately show ?case
    by (blast intro: reachable_trans reachable.start reachable.step)
qed

text \<open>An organizer creates a raffle, schedules it and opens it.\<close>

definition sample_ids :: "nat \<Rightarrow> nat \<Rightarrow> uuid" where
  "sample_ids k n = of_nat (10 * k + n)"

definition sample_draft :: NewDraftRaffle where
  "sample_draft =
     \<lparr>nr_id = 2, nr_organizer_id = 1, nr_name = ''pool'', nr_entry_price_sats = Sats 100,
      nr_start_time = 0, nr_end_time = 1000, nr_randomness_delay_blocks = 1,
      nr_payout_split = sample_split\<rparr>"

definition sample_steps :: "(db \<Rightarrow> db option) list" where
  "sample_steps =
     [\<lambda>d. committed (create_organizer \<lparr>no_id = 1, no_display_name = ''org'',
        no_lightning_address_ciphertext = [7]\<rparr> d),
      \<lambda>d. committed (create_draft_raffle sample_ext (sample_ids 1) 1 sample_draft d),
      \<lambda>d. committed (transition_raffle sample_ext (sample_ids 2) 2 1 2 Scheduled d),
      \<lambda>d. committed (transition_raffle sample_ext (sample_ids 3) 3 1 2 Open d)]"

lemma sample_steps_step: "t \<in> set sample_steps \<Longrightarrow> t d = Some d' \<Longrightarrow> db_step sample_ext d d'"
  by (auto simp: sample_steps_def committed_Some
      intro: db_step.create_organizer db_step.create_draft_raffle db_step.transition_raffle)

definition opened :: "db option \<Rightarrow> bool" where
  "opened d = (case d of None \<Rightarrow> False | Some db \<Rightarrow> map (\<lambda>r. (r_id r, r_status r)) (raffles db) = [(2, Open)])"

lemma sample_run_opens: "opened (run_all sample_steps empty_db)"
  by code_simp

lemma sample_reachable:
  obtains db where "reachable (db_step sample_ext) empty_db db" and "\<exists>r \<in> set (raffles db). r_id r = 2 \<and> r_status r = Open"
proof -
  obtain db where db: "run_all sample_steps empty_db = Some db" "map (\<lambda>r. (r_id r, r_status r)) (raffles db) = [(2, Open)]"
    using sample_run_opens by (auto simp: opened_def split: option.splits)
  have "(2, Open) \<in> set (map (\<lambda>r. (r_id r, r_status r)) (raffles db))"
    unfolding db(2) by simp
  then have "\<exists>r \<in> set (raffles db). r_id r = 2 \<and> r_status r = Open"
    by auto
  with run_all_reachable [OF sample_steps_step db(1)] show thesis
    by (rule that)
qed

section \<open>Rows along a run\<close>

text \<open>The status changes the transactions of the store can make.\<close>

definition lifecycle :: "RaffleStatus \<Rightarrow> RaffleStatus \<Rightarrow> bool" where
  "lifecycle a b \<longleftrightarrow>
     transition_allowed a b \<or> (a = Open \<and> b = Closing) \<or>
     (a = Closing \<and> b \<in> {RandomnessPending, Cancelled}) \<or>
     (a = RandomnessPending \<and> b = PayoutPending) \<or> (a = PayoutPending \<and> b = PaidOut)"

text \<open>What is fixed once a raffle is frozen: its root, totals and chain head, and the rules it was sold under.\<close>

definition frozen_facts :: "raffle_row \<Rightarrow> bytes option \<times> int \<times> int \<times> bytes option" where
  "frozen_facts r = (r_entries_root r, r_total_tickets r, r_total_pool_sats r, r_entry_chain_head r)"

definition raffle_rules :: "raffle_row \<Rightarrow> OrganizerId \<times> string \<times> int \<times> timestamp \<times> timestamp \<times> int" where
  "raffle_rules r = (r_organizer_id r, r_name r, r_entry_price_sats r, r_start_time r, r_end_time r, r_randomness_delay_blocks r)"

definition split_rows :: "RaffleId \<Rightarrow> db \<Rightarrow> split_row list" where
  "split_rows rid db = filter (\<lambda>s. sp_raffle_id s = rid) (payout_splits db)"

definition row_step :: "raffle_row \<Rightarrow> raffle_row \<Rightarrow> bool" where
  "row_step r r' \<longleftrightarrow> r_id r' = r_id r \<and> (r_status r' = r_status r \<or> lifecycle (r_status r) (r_status r')) \<and>
     (frozen_status (r_status r) \<longrightarrow> frozen_facts r' = frozen_facts r \<and> raffle_rules r' = raffle_rules r)"

definition raffle_follows :: "raffle_row \<Rightarrow> db \<Rightarrow> db \<Rightarrow> bool" where
  "raffle_follows r db db' \<longleftrightarrow>
     (\<exists>r' \<in> set (raffles db'). row_step r r') \<and>
     (raffle_entries (r_id r) db' = raffle_entries (r_id r) db \<or> r_status r = Open) \<and>
     (frozen_status (r_status r) \<longrightarrow> split_rows (r_id r) db' = split_rows (r_id r) db)"

lemma find_by_filter: "find P t = (case filter P t of [] \<Rightarrow> None | r # _ \<Rightarrow> Some r)"
  by (induction t) auto

lemma row_step_refl [simp]: "row_step r r"
  by (simp add: row_step_def)

lemma follows_core: "keeps_core db db' \<Longrightarrow> r \<in> set (raffles db) \<Longrightarrow> raffle_follows r db db'"
  unfolding raffle_follows_def keeps_core_def raffle_entries_def split_rows_def by (intro conjI bexI [of _ r]) simp_all

lemma follows_update:
  assumes "raffles db' = set_where P f (raffles db)" and "entries db' = entries db" and "r \<in> set (raffles db)"
    and "P r \<Longrightarrow> row_step r (f r)" and "frozen_status (r_status r) \<Longrightarrow> split_rows (r_id r) db' = split_rows (r_id r) db"
  shows "raffle_follows r db db'"
proof -
  have "(if P r then f r else r) \<in> set (raffles db')"
    using assms(1,3) by (auto simp: set_set_where)
  then show ?thesis
    using assms(2,4,5) unfolding raffle_follows_def raffle_entries_def
    by (intro conjI bexI [of _ "if P r then f r else r"]) auto
qed

lemmas status_defs = lifecycle_def transition_allowed_def frozen_status_def row_step_def frozen_facts_def raffle_rules_def

lemma follows_create_draft:
  assumes "create_draft_raffle x ids now raffle db = Ok (u, db')" and "r \<in> set (raffles db)"
  shows "raffle_follows r db db'"
  using assms(1) by (rule create_draft_raffle_Ok)
    (use assms(2) in \<open>auto simp: raffle_follows_def raffle_entries_def split_rows_def new_split_row_def intro!: bexI [of _ r]\<close>)

lemma follows_transition:
  assumes "transition_raffle x ids now oid rid st db = Ok (u, db')" and "r \<in> set (raffles db)"
  shows "raffle_follows r db db'"
proof -
  from assms(1) obtain t ob where db': "db' = db\<lparr>raffles := set_where
      (\<lambda>r. r_id r = rid \<and> r_organizer_id r = oid \<and> transition_allowed (r_status r) st) (set_status now st) (raffles db),
      audit_events := t, outbox_events := ob\<rparr>"
    by (rule transition_raffle_Ok)
  show ?thesis
    by (rule follows_update [where P = "\<lambda>r. r_id r = rid \<and> r_organizer_id r = oid \<and> transition_allowed (r_status r) st"
          and f = "set_status now st"])
       (use assms(2) in \<open>auto simp: db' status_defs set_status_def split_rows_def\<close>)
qed

lemma follows_update_raffle:
  assumes "update_raffle x ids now oid raffle db = Ok (u, db')" and "store_ok x db" and "r \<in> set (raffles db)"
  shows "raffle_follows r db db'"
proof -
  let ?P = "\<lambda>r. r_id r = nr_id raffle \<and> r_organizer_id r = oid \<and> r_status r \<in> {Draft, Scheduled}"
  from assms(1) obtain price rs ss n m t where
    rs: "sql_update raffle_check raffle_conflict ?P (edit_row x now raffle price) (raffles db) = Ok (rs, n)" and n: "n = 1"
    and ss: "sql_update split_check split_conflict (\<lambda>s. sp_raffle_id s = nr_id raffle) (edit_split (nr_payout_split raffle))
      (payout_splits db) = Ok (ss, m)"
    and db': "db' = db\<lparr>raffles := rs, payout_splits := ss, audit_events := t\<rparr>"
    unfolding update_raffle_def
    by (auto simp: bindR_eq_Ok map_err_eq_Ok split: if_splits elim!: write_audit_Ok)
  have "split_rows (r_id r) db' = split_rows (r_id r) db" if frozen: "frozen_status (r_status r)"
  proof -
    have "filter ?P (raffles db) \<noteq> []"
      using rs n by (auto simp: sql_update_Ok)
    then obtain s where s: "s \<in> set (raffles db)" "?P s"
      unfolding filter_empty_conv by blast
    have "r_id r \<noteq> nr_id raffle"
      using raffle_row_unique [OF assms(2,3) s(1)] s(2) frozen by (auto simp: frozen_status_def)
    then have "filter (\<lambda>s. sp_raffle_id s = r_id r) (set_where (\<lambda>s. sp_raffle_id s = nr_id raffle)
        (edit_split (nr_payout_split raffle)) ts) = filter (\<lambda>s. sp_raffle_id s = r_id r) ts" for ts
      by (induction ts) (auto simp: set_where_def edit_split_def)
    then show ?thesis
      using ss by (simp add: db' split_rows_def sql_update_Ok)
  qed
  then show ?thesis
    by (rule follows_update [where P = ?P and f = "edit_row x now raffle price", rotated 4])
       (use rs assms(3) in \<open>auto simp: db' sql_update_Ok status_defs edit_row_def\<close>)
qed

lemma follows_schedule:
  assumes "schedule_due_closes x ids now db = Ok (n, db')" and "r \<in> set (raffles db)"
  shows "raffle_follows r db db'"
proof -
  from assms(1) obtain rs m where
    rs: "sql_update raffle_check raffle_conflict (close_due now) (set_status now Closing) (raffles db) = Ok (rs, m)"
    and c: "schedule_closes x ids now 0 (map r_id (filter (close_due now) (raffles db))) (db\<lparr>raffles := rs\<rparr>) = Ok db'"
    unfolding schedule_due_closes_def by (auto simp: Let_def bindR_eq_Ok map_err_eq_Ok)
  from schedule_closes_frame [OF c] obtain js t where db': "db' = db\<lparr>raffles := rs, jobs := js, audit_events := t\<rparr>"
    by auto
  show ?thesis
    by (rule follows_update [where P = "close_due now" and f = "set_status now Closing"])
       (use rs assms(2) in \<open>auto simp: db' sql_update_Ok status_defs set_status_def close_due_def split_rows_def\<close>)
qed

lemma follows_freeze:
  assumes "freeze_raffle x ids now rid db = Ok (root, db')" and "store_ok x db" and "r \<in> set (raffles db)"
  shows "raffle_follows r db db'"
proof -
  from assms(1) obtain row n js t ob where
    row: "fetch_optional (\<lambda>r. r_id r = rid) (raffles db) = Some row" "r_status row = Closing"
    and rs: "sql_update raffle_check raffle_conflict (\<lambda>r. r_id r = rid)
      (freeze_row now (if r_total_tickets row = 0 then Cancelled else RandomnessPending) root) (raffles db)
      = Ok (raffles db', n)"
    and db': "db' = db\<lparr>raffles := raffles db', audit_events := t, outbox_events := ob, jobs := js\<rparr>"
    by (rule freeze_raffle_Ok)
  have "r_status r = Closing" if "r_id r = rid"
    using raffle_row_unique [OF assms(2,3), of row] that fetch_optional_Some [OF row(1)] row(2) by simp
  moreover have "entries db' = entries db" "split_rows (r_id r) db' = split_rows (r_id r) db"
    by (subst db', simp add: split_rows_def)+
  ultimately show ?thesis
    using rs assms(3)
    by (intro follows_update [where P = "\<lambda>r. r_id r = rid"
          and f = "freeze_row now (if r_total_tickets row = 0 then Cancelled else RandomnessPending) root"])
       (simp_all add: sql_update_Ok status_defs freeze_row_def)
qed

lemma follows_draw:
  assumes "create_draw_and_payouts x ids now rid ch bh rh rand db = Ok (result, db')" and "store_ok x db"
    and "r \<in> set (raffles db)"
  shows "raffle_follows r db db'"
proof -
  from assms(1) obtain raffle root amounts db1 js t n where
    row: "fetch_optional (\<lambda>r. r_id r = rid) (raffles db) = Some raffle" "r_status raffle = RandomnessPending"
    and ps: "insert_payouts x now rid (payout_items ids amounts)
      (db\<lparr>draws := draws db @ [draw_row_of (ids 0) now rid root rand (uint (dr_winning_ticket result))
         (dr_winner_entry_id result)]\<rparr>) = Ok db1"
    and rs: "sql_update raffle_check raffle_conflict (\<lambda>r. r_id r = rid)
         (drawn_row now (uint ch) bh (uint rh) rand) (raffles db) = Ok (raffles db', n)"
    and db': "db' = db1\<lparr>jobs := js, raffles := raffles db', audit_events := t\<rparr>"
    by (rule create_draw_and_payouts_Ok)
  have "r_status r = RandomnessPending" if "r_id r = rid"
    using raffle_row_unique [OF assms(2,3), of raffle] that fetch_optional_Some [OF row(1)] row(2) by simp
  moreover have "entries db' = entries db" "split_rows (r_id r) db' = split_rows (r_id r) db"
    using insert_payouts_frame [OF ps] by (subst db', auto simp: split_rows_def)+
  ultimately show ?thesis
    using rs assms(3)
    by (intro follows_update [where P = "\<lambda>r. r_id r = rid" and f = "drawn_row now (uint ch) bh (uint rh) rand"])
       (simp_all add: sql_update_Ok status_defs drawn_row_def)
qed

lemma follows_settle_payout:
  assumes "settle_payout x ids now pid w ref db = Ok (done, db')" and "r \<in> set (raffles db)"
  shows "raffle_follows r db db'"
proof -
  from assms(1) obtain t rid where ex: "\<exists>rs js. db' = db\<lparr>payouts := t, raffles := rs, jobs := js\<rparr>"
    and rs: "raffles db' = (if done then set_where (\<lambda>r. r_id r = rid \<and> r_status r = PayoutPending)
       (set_status now PaidOut) (raffles db) else raffles db)"
    by (rule settle_payout_Ok)
  have es: "entries db' = entries db" "split_rows (r_id r) db' = split_rows (r_id r) db"
    using ex by (auto simp: split_rows_def)
  show ?thesis
  proof (cases "done")
    case True
    then show ?thesis
      using rs es assms(2)
      by (intro follows_update [where P = "\<lambda>r. r_id r = rid \<and> r_status r = PayoutPending" and f = "set_status now PaidOut"])
         (simp_all add: status_defs set_status_def)
  next
    case False
    then show ?thesis
      using rs es assms(2) unfolding raffle_follows_def raffle_entries_def
      by (intro conjI bexI [of _ r]) simp_all
  qed
qed

lemma follows_settle:
  assumes "settle_invoice_and_append_entry x ids now iid eid t db = Ok (entry, db')" and "store_ok x db"
    and "r \<in> set (raffles db)"
  shows "raffle_follows r db db'"
  using assms(1)
proof (cases rule: settle_cases)
  case (again invoice)
  then show ?thesis
    using assms(3) by (auto simp: raffle_follows_def intro!: bexI [of _ r])
next
  case (append invoice s)
  from append(5) obtain row and np :: u64 and n m u ob where
    nx: "next_entry x invoice s (entry_count (i_raffle_id invoice) db) eid t = Ok entry"
    and row: "entry_row_of x entry (i_id invoice) t = Ok row"
    and rs: "sql_update raffle_check raffle_conflict (\<lambda>r. r_id r = i_raffle_id invoice)
      (credit_raffle now (uint np) (uint (tr_end (ed_ticket_range (le_data entry)))) (le_entry_hash entry)) (raffles db)
      = Ok (raffles db', m)"
    and db': "db' = db\<lparr>entries := entries db @ [row], invoices := invoices db', raffles := raffles db',
      audit_events := u, outbox_events := ob\<rparr>"
    by (rule append_entry_Ok)
  let ?f = "credit_raffle now (uint np) (uint (tr_end (ed_ticket_range (le_data entry)))) (le_entry_hash entry)"
  have st: "r_status r = Open" if "r_id r = i_raffle_id invoice"
    using raffle_row_unique [OF assms(2,3), of s] that fetch_optional_Some [OF append(3)] append(4) by simp
  let ?r = "if r_id r = i_raffle_id invoice then ?f r else r"
  have "?r \<in> set (raffles db')"
    using rs assms(3) by (auto simp: sql_update_Ok set_set_where)
  moreover have "row_step r ?r"
    using st by (simp add: status_defs credit_raffle_def)
  moreover have "raffle_entries (r_id r) db' = raffle_entries (r_id r) db \<or> r_status r = Open"
  proof (cases "r_id r = i_raffle_id invoice")
    case False
    from nx have "ed_raffle_id (le_data entry) = i_raffle_id invoice"
      by (rule next_entry_Ok) (simp add: LedgerEntry_create_def)
    then have "e_raffle_id row \<noteq> r_id r"
      using entry_row_ids(1) [OF row] False by simp
    moreover have "entries db' = entries db @ [row]"
      by (subst db') simp
    ultimately show ?thesis
      by (simp add: raffle_entries_def)
  qed (simp add: st)
  moreover have "split_rows (r_id r) db' = split_rows (r_id r) db"
    by (subst db') (simp add: split_rows_def)
  ultimately show ?thesis
    unfolding raffle_follows_def by blast
qed

lemma follows_payout_rows:
  "claim_payout locked now rid w db = Ok (c, db') \<Longrightarrow> r \<in> set (raffles db) \<Longrightarrow> raffle_follows r db db'"
  "fail_payout pid w reason db = Ok (u, db') \<Longrightarrow> r \<in> set (raffles db) \<Longrightarrow> raffle_follows r db db'"
  by (auto simp: claim_payout_def fail_payout_def keeps_simps raffle_follows_def raffle_entries_def split_rows_def
      split: option.splits intro!: bexI [of _ r])

lemmas follows_steps = follows_create_draft follows_transition follows_schedule
  follows_settle_payout follows_payout_rows

lemmas follows_store_steps = follows_update_raffle follows_freeze follows_draw follows_settle

lemma db_step_follows:
  assumes "db_step x db db'" and "store_ok x db" and "r \<in> set (raffles db)"
  shows "raffle_follows r db db'"
  using assms(1)
  by cases ((erule keeps_steps [THEN follows_core, OF _ assms(3)] | erule follows_steps [OF _ assms(3)]
      | erule follows_store_steps [OF _ assms(2,3)]); assumption?)+

section \<open>Runs from any database in order\<close>

lemma frozen_step: "frozen_status a \<Longrightarrow> lifecycle a b \<Longrightarrow> frozen_status b"
  by (auto simp: status_defs)

definition follows_run :: "raffle_row \<Rightarrow> db \<Rightarrow> db \<Rightarrow> bool" where
  "follows_run r db0 db \<longleftrightarrow>
     (\<exists>r' \<in> set (raffles db). r_id r' = r_id r \<and> lifecycle\<^sup>*\<^sup>* (r_status r) (r_status r') \<and>
        (frozen_status (r_status r) \<longrightarrow> frozen_status (r_status r') \<and> frozen_facts r' = frozen_facts r \<and>
           raffle_rules r' = raffle_rules r \<and> split_rows (r_id r) db = split_rows (r_id r) db0 \<and>
           raffle_entries (r_id r) db = raffle_entries (r_id r) db0))"

lemma follows_run_step:
  assumes "follows_run r db0 db" and "store_ok x db" and "db_step x db db'"
  shows "follows_run r db0 db'"
proof -
  from assms(1) obtain s where s: "s \<in> set (raffles db)" "r_id s = r_id r" "lifecycle\<^sup>*\<^sup>* (r_status r) (r_status s)"
    and fz: "frozen_status (r_status r) \<Longrightarrow> frozen_status (r_status s) \<and> frozen_facts s = frozen_facts r \<and>
           raffle_rules s = raffle_rules r \<and> split_rows (r_id r) db = split_rows (r_id r) db0 \<and>
           raffle_entries (r_id r) db = raffle_entries (r_id r) db0"
    unfolding follows_run_def by blast
  from db_step_follows [OF assms(3,2) s(1)] obtain s' where s': "s' \<in> set (raffles db')" "row_step s s'"
    and es: "raffle_entries (r_id s) db' = raffle_entries (r_id s) db \<or> r_status s = Open"
      "frozen_status (r_status s) \<longrightarrow> split_rows (r_id s) db' = split_rows (r_id s) db"
    unfolding raffle_follows_def by blast
  have st: "r_id s' = r_id s" "r_status s' = r_status s \<or> lifecycle (r_status s) (r_status s')"
    using s'(2) by (simp_all add: row_step_def)
  have "lifecycle\<^sup>*\<^sup>* (r_status r) (r_status s')"
    using s(3) st(2) by (auto intro: rtranclp.rtrancl_into_rtrancl)
  moreover have "frozen_status (r_status s') \<and> frozen_facts s' = frozen_facts r \<and>
      raffle_rules s' = raffle_rules r \<and> split_rows (r_id r) db' = split_rows (r_id r) db0 \<and>
      raffle_entries (r_id r) db' = raffle_entries (r_id r) db0" if "frozen_status (r_status r)"
  proof -
    have "r_status s \<noteq> Open"
      using fz [OF that] by (auto simp: frozen_status_def)
    then show ?thesis
      using fz [OF that] st(2) es s(2) s'(2) frozen_step by (auto simp: row_step_def)
  qed
  ultimately show ?thesis
    unfolding follows_run_def using s'(1) st(1) s(2) by auto
qed

definition run_inv :: "externals \<Rightarrow> raffle_row \<Rightarrow> db \<Rightarrow> db \<Rightarrow> bool" where
  "run_inv x r db0 db \<longleftrightarrow>
     (uuid_text_ok x \<and> db_ok x db0 \<and> r \<in> set (raffles db0) \<longrightarrow> db_ok x db \<and> follows_run r db0 db)"

interpretation raffle_run: invariant_system db0 "db_step x" "run_inv x r db0"
  for db0 x r
proof unfold_locales
  show "run_inv x r db0 db0"
    by (auto simp: run_inv_def follows_run_def intro!: bexI [of _ r])
  show "run_inv x r db0 t" if "run_inv x r db0 s" "db_step x s t" for s t
    using that follows_run_step [of r db0 s x t] db_step_store_ok db_step_payouts_ok
    by (auto simp: run_inv_def db_ok_def)
qed

lemma lifecycle_terminal: "lifecycle\<^sup>*\<^sup>* a b \<Longrightarrow> a \<in> {PaidOut, Cancelled} \<Longrightarrow> b = a"
  by (induction rule: rtranclp_induct) (auto simp: status_defs)

section \<open>Properties\<close>

text \<open>C16. In every reachable database the rows of every raffle are a valid ledger: the protocol's own walk
  accepts them and returns the ticket total, pool, entry count and chain head the raffle row carries,
  and the entries root it carries once frozen; a raffle without entries has zero totals and no head.\<close>

theorem reachable_ledgers_valid:
  assumes "reachable (db_step x) empty_db db" and "uuid_text_ok x" and "r \<in> set (raffles db)"
  shows "\<exists>es. ledger_rows (r_id r) db = Ok es \<and>
    (if es = [] then r_total_tickets r = 0 \<and> r_total_pool_sats r = 0 \<and> r_entry_chain_head r = None \<and>
       r_status r \<notin> {RandomnessPending, PayoutPending, PaidOut}
     else \<exists>s. summarize_ledger (x_sha x) es = Ok s \<and>
       r_total_tickets r = uint (ls_total_tickets s) \<and> r_total_pool_sats r = uint (as_u64 (ls_total_pool_sats s)) \<and>
       entry_count (r_id r) db = unat (ls_entry_count s) \<and>
       r_entry_chain_head r = Some (as_bytes (ls_entry_chain_head s)) \<and>
       (r_status r \<in> {RandomnessPending, PayoutPending, PaidOut} \<longrightarrow>
          r_entries_root r = Some (as_bytes (ls_entries_root s))))"
proof -
  have ok: "store_ok x db"
    using assms(1,2) by (rule reachable_db_ok)
  obtain es where led: "raffle_ledger x db r es" "ledger_rows (r_id r) db = Ok es"
    and fz: "frozen_status (r_status r) \<Longrightarrow> es \<noteq> [] \<and> r_entries_root r = Some (as_bytes (ledger_root x (r_id r) es))"
    using raffle_rows_ledger [OF ok assms(3)] by blast
  have v: "length es < 2 ^ 64" "pool_sum es < 2 ^ 64"
    using led(1) by (simp_all add: raffle_ledger_def valid_ledger_def)
  show ?thesis
  proof (cases "es = []")
    case True
    with led fz show ?thesis
      by (auto simp: raffle_ledger_def ticket_base_def frozen_status_def)
  next
    case False
    let ?s = "ledger_summary (x_sha x) (r_id r) es"
    have "uint (as_u64 (ls_total_pool_sats ?s)) = r_total_pool_sats r"
      using led(1) v(2) by (simp add: raffle_ledger_def ledger_summary_def uint_of_int unsigned_of_nat take_bit_nat_eq_self)
    moreover have "entry_count (r_id r) db = unat (ls_entry_count ?s)"
      using entry_count_ledger [OF led(1)] v(1) by (simp add: ledger_summary_def unat_of_nat)
    moreover have "ls_total_tickets ?s = ticket_base es (length es)" "ls_entry_chain_head ?s = chain_hash es (length es)"
      by (simp_all add: ledger_summary_def)
    ultimately show ?thesis
      using False led fz frozen_summary(1,3) [OF led(1) False]
      by (simp add: raffle_ledger_def frozen_status_def)
  qed
qed

theorem reachable_ledgers_valid_witness:
  "\<exists>db. reachable (db_step sample_ext) empty_db db \<and> (\<exists>r \<in> set (raffles db). r_status r = Open \<and>
     (\<exists>es. ledger_rows (r_id r) db = Ok es))"
proof -
  obtain db r where db: "reachable (db_step sample_ext) empty_db db" "r \<in> set (raffles db)" "r_status r = Open"
    using sample_reachable by blast
  from reachable_ledgers_valid [OF db(1) sample_uuid_text_ok db(2)] db show ?thesis
    by blast
qed

text \<open>C17. In every reachable database the payouts of a drawn raffle sum up to its pool, each under its
  deterministic idempotency key, a raffle that is paid out has all of them settled, and no other raffle
  has payouts.\<close>

theorem reachable_payouts_conserve:
  assumes "reachable (db_step x) empty_db db" and "uuid_text_ok x" and "r \<in> set (raffles db)"
    and "ps = filter (\<lambda>p. p_raffle_id p = r_id r) (payouts db)"
  shows "(if r_status r \<in> {PayoutPending, PaidOut}
     then sum_list (map p_amount_sats ps) = r_total_pool_sats r \<and>
       (r_status r = PaidOut \<longrightarrow> (\<forall>p \<in> set ps. p_status p = PaySettled))
     else ps = []) \<and>
    (\<forall>p \<in> set ps. p_idempotency_key p = payout_key x (r_id r) (p_recipient_type p))"
proof -
  have ok: "store_ok x db" "payouts_ok x db"
    using assms(1,2) by (rule reachable_db_ok)+
  have ps: "ps = payouts_of (r_id r) (payouts db)"
    by (simp add: assms(4) payouts_of_def)
  show ?thesis
  proof (cases "drawn_status (r_status r)")
    case True
    then have "r \<in> drawn_raffles db"
      using assms(3) by (simp add: drawn_raffles_def)
    with ok(2) True show ?thesis
      by (auto simp: payouts_ok_def ps payouts_total_def drawn_status_def) (auto simp: payouts_of_def)
  next
    case False
    have "r_id r \<notin> r_id ` drawn_raffles db"
      using raffle_row_unique [OF ok(1) assms(3)] False by (auto simp: drawn_raffles_def)
    then have "\<forall>p \<in> set (payouts db). p_raffle_id p \<noteq> r_id r"
      using ok(2) unfolding payouts_ok_def by metis
    then have "ps = []"
      by (simp add: ps payouts_of_other)
    with False show ?thesis
      by (auto simp: drawn_status_def)
  qed
qed

theorem reachable_payouts_conserve_witness:
  "\<exists>db. reachable (db_step sample_ext) empty_db db \<and> (\<exists>r \<in> set (raffles db). r_status r = Open \<and>
     filter (\<lambda>p. p_raffle_id p = r_id r) (payouts db) = [])"
proof -
  obtain db r where db: "reachable (db_step sample_ext) empty_db db" "r \<in> set (raffles db)" "r_status r = Open"
    using sample_reachable by blast
  from reachable_payouts_conserve [OF db(1) sample_uuid_text_ok db(2) refl] db show ?thesis
    by auto
qed

text \<open>C18. A frozen raffle is immutable: along every run of the store its entries, entries root, totals and
  chain head stay what they were when it was frozen, and so do the rules it was sold under: organizer, name, entry price,
  start and end, the delay of the randomness block, and the payout split.\<close>

theorem frozen_raffle_immutable:
  assumes "db_ok x db" and "uuid_text_ok x" and "r \<in> set (raffles db)"
    and "r_status r \<in> {RandomnessPending, PayoutPending, PaidOut}" and "reachable (db_step x) db db'"
  shows "\<exists>r' \<in> set (raffles db'). r_id r' = r_id r \<and> r_status r' \<in> {RandomnessPending, PayoutPending, PaidOut} \<and>
    r_entries_root r' = r_entries_root r \<and> r_total_tickets r' = r_total_tickets r \<and>
    r_total_pool_sats r' = r_total_pool_sats r \<and> r_entry_chain_head r' = r_entry_chain_head r \<and>
    r_organizer_id r' = r_organizer_id r \<and> r_name r' = r_name r \<and> r_entry_price_sats r' = r_entry_price_sats r \<and>
    r_start_time r' = r_start_time r \<and> r_end_time r' = r_end_time r \<and>
    r_randomness_delay_blocks r' = r_randomness_delay_blocks r \<and>
    load_split (r_id r) db' = load_split (r_id r) db \<and>
    filter (\<lambda>s. sp_raffle_id s = r_id r) (payout_splits db') = filter (\<lambda>s. sp_raffle_id s = r_id r) (payout_splits db) \<and>
    entry_rows (r_id r) db' = entry_rows (r_id r) db"
proof -
  have "follows_run r db db'"
    using raffle_run.inv_reachable [OF assms(5), of r] assms(1-3) by (simp add: run_inv_def)
  then obtain r' where r': "r' \<in> set (raffles db')" "r_id r' = r_id r" "frozen_status (r_status r')"
    "frozen_facts r' = frozen_facts r" "raffle_rules r' = raffle_rules r"
    and rows: "split_rows (r_id r) db' = split_rows (r_id r) db" "raffle_entries (r_id r) db' = raffle_entries (r_id r) db"
    using assms(4) unfolding follows_run_def frozen_status_def by blast
  have "load_split (r_id r) db' = load_split (r_id r) db"
    using rows(1) by (simp add: load_split_def fetch_one_def fetch_optional_def split_rows_def find_by_filter)
  with r' rows show ?thesis
    unfolding frozen_facts_def raffle_rules_def frozen_status_def entry_rows_def raffle_entries_def split_rows_def
    by (intro bexI [of _ r']) simp_all
qed

theorem frozen_raffle_immutable_witness:
  "\<exists>db'. reachable (db_step sample_ext) (sample_store RandomnessPending) db' \<and>
     draws db' \<noteq> draws (sample_store RandomnessPending) \<and>
     (\<exists>r' \<in> set (raffles db'). r_id r' = 2 \<and> r_total_pool_sats r' = 300) \<and>
     entry_rows 2 db' = entry_rows 2 (sample_store RandomnessPending)"
proof -
  obtain db' where d: "create_draw_and_payouts sample_ext (\<lambda>n. of_nat (40 + n)) 1002 2 100 ZERO_HASH 101 ZERO_HASH
       (sample_store RandomnessPending) = Ok (sample_result, db')"
    using sample_draw by blast
  have "fetch_optional (\<lambda>s. r_id s = 2) (raffles (sample_store RandomnessPending)) = Some (sample_raffle_row RandomnessPending)"
    by (simp add: fetch_optional_def)
  from create_draw_records(2) [OF d this] have "draws db' \<noteq> []"
    by auto
  moreover have run: "reachable (db_step sample_ext) (sample_store RandomnessPending) db'"
    by (rule reachable.step [OF reachable.start]) (rule db_step.create_draw [OF d], simp)
  ultimately show ?thesis
    using frozen_raffle_immutable [OF sample_db_ok sample_uuid_text_ok _ _ run, of "sample_raffle_row RandomnessPending"]
    by auto
qed

text \<open>C19. The states of a raffle follow its life cycle along every run: each change is one the store declares,
  and a raffle that is paid out or cancelled stays so.\<close>

theorem raffle_lifecycle:
  assumes "db_ok x db" and "uuid_text_ok x" and "r \<in> set (raffles db)" and "reachable (db_step x) db db'"
  shows "\<exists>r' \<in> set (raffles db'). r_id r' = r_id r \<and> lifecycle\<^sup>*\<^sup>* (r_status r) (r_status r') \<and>
    (r_status r \<in> {PaidOut, Cancelled} \<longrightarrow> r_status r' = r_status r)"
proof -
  have "follows_run r db db'"
    using raffle_run.inv_reachable [OF assms(4), of r] assms(1-3) by (simp add: run_inv_def)
  then show ?thesis
    using lifecycle_terminal unfolding follows_run_def by blast
qed

theorem raffle_lifecycle_witness:
  "\<exists>db'. reachable (db_step sample_ext) (sample_store Closing) db' \<and>
     (\<exists>r' \<in> set (raffles db'). r_id r' = 2 \<and> lifecycle\<^sup>*\<^sup>* Closing (r_status r'))"
proof -
  obtain root db' where f: "freeze_raffle sample_ext (\<lambda>n. of_nat (40 + n)) 1001 2 (sample_store Closing) = Ok (root, db')"
    using sample_freeze by blast
  have run: "reachable (db_step sample_ext) (sample_store Closing) db'"
    by (rule reachable.step [OF reachable.start]) (rule db_step.freeze_raffle [OF f])
  with raffle_lifecycle [OF sample_db_ok sample_uuid_text_ok _ run, of "sample_raffle_row Closing"] show ?thesis
    by auto
qed

end
