(* ===== verification/Http.thy ===== *)
theory Http
  imports Text
begin

text \<open>
  The HTTP client (crate \<open>reqwest\<close>) as the adapters use it. The network is a parameter: sending a request
  gives a transport error or a response, whose body may fail to arrive. \<open>error_for_status\<close> and
  \<open>is_success\<close> only look at the status code. Header access (crate \<open>http\<close>) is shared with the server side.
\<close>

record HttpRequest =
  rq_method :: string
  rq_url :: string
  rq_query :: "(string \<times> string) list"
  rq_headers :: "(string \<times> string) list"
  rq_body :: bytes

record HttpResponse =
  rs_status :: u16
  rs_headers :: "(string \<times> string) list"
  rs_text :: "string + string"

record http_client =
  hc_send :: "HttpRequest \<Rightarrow> string + HttpResponse"
  hc_status_error :: "HttpResponse \<Rightarrow> string"

definition http_get :: "string \<Rightarrow> HttpRequest" where
  "http_get url = \<lparr>rq_method = ''GET'', rq_url = url, rq_query = [], rq_headers = [], rq_body = []\<rparr>"

definition is_success :: "HttpResponse \<Rightarrow> bool" where
  "is_success r \<longleftrightarrow> 200 \<le> rs_status r \<and> rs_status r < 300"

definition error_for_status :: "http_client \<Rightarrow> HttpResponse \<Rightarrow> string + HttpResponse" where
  "error_for_status c r = (if 400 \<le> rs_status r \<and> rs_status r < 600 then Err (hc_status_error c r) else Ok r)"

text \<open>\<open>send().await.map_err(f)?.error_for_status().map_err(f)?\<close>.\<close>

definition send_checked :: "http_client \<Rightarrow> (string \<Rightarrow> 'e) \<Rightarrow> HttpRequest \<Rightarrow> 'e + HttpResponse" where
  "send_checked c f req = bindR (map_err f (hc_send c req)) (\<lambda>r. map_err f (error_for_status c r))"

text \<open>\<open>response.json()\<close>, with the decoder of the target type; \<open>response.text().await.unwrap_or_default()\<close>.\<close>

definition response_json :: "(string \<Rightarrow> string + 'a) \<Rightarrow> HttpResponse \<Rightarrow> string + 'a" where
  "response_json decode r = bindR (rs_text r) decode"

definition text_or_default :: "HttpResponse \<Rightarrow> string" where
  "text_or_default r = (case rs_text r of Err _ \<Rightarrow> [] | Ok s \<Rightarrow> s)"

text \<open>
  \<open>headers.get(name).and_then(|v| v.to_str().ok())\<close>: the first value of the name, when it is visible ASCII;
  and \<open>HeaderValue::from_str\<close>, which refuses control characters other than the tab.
\<close>

definition header_to_str :: "string \<Rightarrow> string option" where
  "header_to_str v =
     (if list_all (\<lambda>c. (32 :: nat) \<le> of_char c \<and> of_char c < (127 :: nat) \<or> of_char c = (9 :: nat)) v then Some v else None)"

definition header_str :: "string \<Rightarrow> (string \<times> string) list \<Rightarrow> string option" where
  "header_str name headers = Option.bind (map_of headers name) header_to_str"

definition header_from_str :: "string \<Rightarrow> string option" where
  "header_from_str v =
     (if list_all (\<lambda>c. (32 :: nat) \<le> of_char c \<and> of_char c \<noteq> (127 :: nat) \<or> of_char c = (9 :: nat)) v then Some v else None)"

lemma send_checked_Ok:
  "send_checked c f req = Ok r \<longleftrightarrow> hc_send c req = Ok r \<and> \<not> (400 \<le> rs_status r \<and> rs_status r < 600)"
  by (auto simp: send_checked_def error_for_status_def bindR_eq_Ok map_err_eq_Ok split: if_splits)

end
