(* ===== verification/Payments.thy ===== *)
theory Payments
  imports Http Schema
begin

text \<open>
  The payment boundary: \<open>crates/openpool-core/src/payments.rs\<close> with the fake provider, the fake and the
  LNURL resolver, and the Mavapay adapter of \<open>payments_mavapay.rs\<close>. \<open>address_resolver\<close> is the interface
  the payout worker relies on. JSON codecs, \<open>hex\<close>, HMAC and the RFC 3339 parser are parameters.
\<close>

section \<open>Types\<close>

record CollectionRequest =
  cr_invoice_id :: InvoiceId
  cr_amount_sats :: Sats
  cr_expires_at :: timestamp

record CollectionInvoice =
  ci_provider_quote_id :: string
  ci_provider_payment_hash :: string
  ci_bolt11 :: string
  ci_amount_sats :: Sats
  ci_expires_at :: timestamp

datatype PaymentState = PmtPending | PmtSettled | PmtFailed | PmtExpired

record PaymentStatus =
  pst_state :: PaymentState
  pst_provider_reference :: string

record PayoutRequest =
  prq_payout_id :: PayoutId
  prq_bolt11 :: string
  prq_amount_sats :: Sats
  prq_idempotency_key :: string

record PayoutAttempt =
  pat_provider_reference :: string

record ResolvedInvoice =
  ri_bolt11 :: string
  ri_amount_sats :: Sats

datatype PaymentError =
    Rejected string
  | Transport string
  | InvalidResponse string
  | NotConfigured

fun payment_error_text :: "PaymentError \<Rightarrow> string" where
  "payment_error_text (Rejected e) = ''provider rejected request: '' @ e"
| "payment_error_text (Transport e) = ''provider transport failed: '' @ e"
| "payment_error_text (InvalidResponse e) = ''provider response was invalid: '' @ e"
| "payment_error_text NotConfigured = ''payment provider is not configured''"

text \<open>The two traits; a call is numbered, since the outside answers over time.\<close>

record PaymentProvider =
  pv_create_collection :: "nat \<Rightarrow> CollectionRequest \<Rightarrow> PaymentError + CollectionInvoice"
  pv_get_payment :: "nat \<Rightarrow> string \<Rightarrow> PaymentError + PaymentStatus"
  pv_pay_invoice :: "nat \<Rightarrow> PayoutRequest \<Rightarrow> PaymentError + PayoutAttempt"

type_synonym LightningAddressResolver = "nat \<Rightarrow> string \<Rightarrow> Sats \<Rightarrow> PaymentError + ResolvedInvoice"

section \<open>LNURL\<close>

definition well_known_url :: "string \<Rightarrow> PaymentError + string" where
  "well_known_url address =
     bindR (ok_or (split_once (CHR ''@'') (trim address)) (Rejected ''Lightning Address must be name@domain''))
       (\<lambda>(name, domain).
          if name = [] \<or> domain = [] \<or> CHR ''/'' \<in> set name \<or> CHR ''/'' \<in> set domain
          then Err (Rejected ''invalid Lightning Address'')
          else Ok (''https://'' @ domain @ ''/.well-known/lnurlp/'' @ name))"

record LnurlPayResponse =
  lp_callback :: string
  lp_min_sendable :: u64
  lp_max_sendable :: u64
  lp_status :: "string option"
  lp_reason :: "string option"

record LnurlInvoiceResponse =
  li_pr :: "string option"
  li_status :: "string option"
  li_reason :: "string option"

definition unwrap_or :: "'a option \<Rightarrow> 'a \<Rightarrow> 'a" where
  "unwrap_or m d = (case m of None \<Rightarrow> d | Some v \<Rightarrow> v)"

definition callback_request :: "string \<Rightarrow> u64 \<Rightarrow> HttpRequest" where
  "callback_request callback amount_msat =
     (http_get callback)\<lparr>rq_query := [(''amount'', show_nat (unat amount_msat))]\<rparr>"

definition lnurl_resolve_exact_amount ::
  "(string \<Rightarrow> string + LnurlPayResponse) \<Rightarrow> (string \<Rightarrow> string + LnurlInvoiceResponse) \<Rightarrow> http_client
     \<Rightarrow> string \<Rightarrow> Sats \<Rightarrow> PaymentError + ResolvedInvoice" where
  "lnurl_resolve_exact_amount decode_pay decode_invoice client address amount_sats =
     bindR (well_known_url address) (\<lambda>endpoint.
     bindR (send_checked client Transport (http_get endpoint)) (\<lambda>r.
     bindR (map_err InvalidResponse (response_json decode_pay r)) (\<lambda>response.
     if lp_status response = Some ''ERROR'' then
       Err (Rejected (unwrap_or (lp_reason response) ''LNURL service rejected request''))
     else
     bindR (ok_or (checked_mul (as_u64 amount_sats) 1000) (Rejected ''payout amount is too large'')) (\<lambda>amount_msat.
     if amount_msat < lp_min_sendable response \<or> amount_msat > lp_max_sendable response then
       Err (Rejected ''Lightning Address does not accept the exact payout amount'')
     else
     bindR (send_checked client Transport (callback_request (lp_callback response) amount_msat)) (\<lambda>r.
     bindR (map_err InvalidResponse (response_json decode_invoice r)) (\<lambda>invoice.
     if li_status invoice = Some ''ERROR'' then
       Err (Rejected (unwrap_or (li_reason invoice) ''LNURL invoice request was rejected''))
     else
     bindR (ok_or (case li_pr invoice of None \<Rightarrow> None | Some pr \<Rightarrow> if trim pr \<noteq> [] then Some pr else None)
         (InvalidResponse ''LNURL response did not contain pr'')) (\<lambda>bolt11.
       Ok \<lparr>ri_bolt11 = bolt11, ri_amount_sats = amount_sats\<rparr>)))))))"

section \<open>The fake resolver and provider\<close>

definition fake_resolve_exact_amount :: "string \<Rightarrow> Sats \<Rightarrow> PaymentError + ResolvedInvoice" where
  "fake_resolve_exact_amount address amount_sats =
     (if trim address = [] then Err (Rejected ''lightning address is required'')
      else Ok \<lparr>ri_bolt11 = ''lntbs'' @ show_nat (unat (as_u64 amount_sats)) @ ''n1openpoolpayout'',
               ri_amount_sats = amount_sats\<rparr>)"

definition fake_create_collection :: "(uuid \<Rightarrow> string) \<Rightarrow> CollectionRequest \<Rightarrow> PaymentError + CollectionInvoice" where
  "fake_create_collection uuid_text request =
     Ok \<lparr>ci_provider_quote_id = ''fake-quote-'' @ uuid_text (cr_invoice_id request),
         ci_provider_payment_hash = ''fake-payment-'' @ uuid_text (cr_invoice_id request),
         ci_bolt11 = ''lntbs'' @ show_nat (unat (as_u64 (cr_amount_sats request))) @ ''n1openpool'',
         ci_amount_sats = cr_amount_sats request, ci_expires_at = cr_expires_at request\<rparr>"

definition fake_get_payment :: "string \<Rightarrow> PaymentError + PaymentStatus" where
  "fake_get_payment reference = Ok \<lparr>pst_state = PmtPending, pst_provider_reference = reference\<rparr>"

definition fake_pay_invoice :: "PayoutRequest \<Rightarrow> PaymentError + PayoutAttempt" where
  "fake_pay_invoice request =
     (if trim (prq_bolt11 request) = [] \<or> as_u64 (prq_amount_sats request) = 0
      then Err (Rejected ''payout invoice and positive amount are required'')
      else Ok \<lparr>pat_provider_reference = ''fake-payout-'' @ prq_idempotency_key request\<rparr>)"

definition FakePaymentProvider :: "(uuid \<Rightarrow> string) \<Rightarrow> PaymentProvider" where
  "FakePaymentProvider uuid_text =
     \<lparr>pv_create_collection = (\<lambda>_. fake_create_collection uuid_text),
      pv_get_payment = (\<lambda>_. fake_get_payment), pv_pay_invoice = (\<lambda>_. fake_pay_invoice)\<rparr>"

section \<open>Mavapay\<close>

record Mavapay =
  mv_base_url :: string
  mv_api_key :: string

definition Mavapay_staging :: "string \<Rightarrow> Mavapay" where
  "Mavapay_staging api_key =
     \<lparr>mv_base_url = ''https://staging.api.mavapay.co/api/v1'', mv_api_key = api_key\<rparr>"

definition Mavapay_with_base_url :: "string \<Rightarrow> string \<Rightarrow> Mavapay" where
  "Mavapay_with_base_url api_key base_url = \<lparr>mv_base_url = base_url, mv_api_key = api_key\<rparr>"

text \<open>
  \<open>hmac key message\<close> is \<open>Hmac<Sha256>\<close>, whose \<open>new_from_slice\<close> accepts keys of every length;
  \<open>verify_slice\<close> compares the whole tag.
\<close>

definition verify_webhook_signature ::
  "(string \<Rightarrow> string + bytes) \<Rightarrow> (bytes \<Rightarrow> bytes \<Rightarrow> bytes) \<Rightarrow> bytes \<Rightarrow> bytes \<Rightarrow> string \<Rightarrow> bool" where
  "verify_webhook_signature hex_decode hmac secret raw_body supplied =
     (case hex_decode supplied of
        Err _ \<Rightarrow> False
      | Ok expected \<Rightarrow> hmac secret raw_body = expected)"

record QuoteRequest =
  qr_amount :: u64
  qr_source_currency :: string
  qr_target_currency :: string
  qr_payment_method :: string
  qr_payment_currency :: string
  qr_autopayout :: bool
  qr_customer_reference :: string

record Quote =
  qt_id :: string
  qt_invoice :: string
  qt_hash :: string
  qt_expiry :: string
  qt_total_amount_in_source_currency :: "u64 option"

definition quote_request :: "(uuid \<Rightarrow> string) \<Rightarrow> CollectionRequest \<Rightarrow> QuoteRequest" where
  "quote_request uuid_text request =
     \<lparr>qr_amount = as_u64 (cr_amount_sats request), qr_source_currency = ''BTCSAT'', qr_target_currency = ''BTCSAT'',
      qr_payment_method = ''LIGHTNING'', qr_payment_currency = ''BTCSAT'', qr_autopayout = False,
      qr_customer_reference = uuid_text (cr_invoice_id request)\<rparr>"

text \<open>The codecs: the request body, the enveloped quote, any JSON value and RFC 3339.\<close>

record mavapay_codec =
  mc_uuid_text :: "uuid \<Rightarrow> string"
  mc_encode :: "QuoteRequest \<Rightarrow> bytes"
  mc_decode_quote :: "string \<Rightarrow> string + Quote"
  mc_decode_value :: "string \<Rightarrow> string + json"
  mc_rfc3339 :: "string \<Rightarrow> string + timestamp"

definition mavapay_create_collection ::
  "mavapay_codec \<Rightarrow> http_client \<Rightarrow> Mavapay \<Rightarrow> CollectionRequest \<Rightarrow> PaymentError + CollectionInvoice" where
  "mavapay_create_collection codec client self request =
     bindR (map_err Transport (hc_send client
         \<lparr>rq_method = ''POST'', rq_url = mv_base_url self @ ''/quote'', rq_query = [],
          rq_headers = [(''X-API-KEY'', mv_api_key self)],
          rq_body = mc_encode codec (quote_request (mc_uuid_text codec) request)\<rparr>)) (\<lambda>response.
     if \<not> is_success response then Err (Rejected (text_or_default response))
     else
     bindR (map_err InvalidResponse (response_json (mc_decode_quote codec) response)) (\<lambda>quote.
     bindR (map_err InvalidResponse (mc_rfc3339 codec (qt_expiry quote))) (\<lambda>expires_at.
       Ok \<lparr>ci_provider_quote_id = qt_id quote, ci_provider_payment_hash = qt_hash quote,
           ci_bolt11 = qt_invoice quote,
           ci_amount_sats = Sats (unwrap_or (qt_total_amount_in_source_currency quote) (as_u64 (cr_amount_sats request))),
           ci_expires_at = expires_at\<rparr>)))"

text \<open>\<open>value["data"]["status"].as_str()\<close>; indexing a missing key gives \<open>Null\<close>.\<close>

definition data_status :: "json \<Rightarrow> string option" where
  "data_status value =
     Option.bind (json_get ''data'' value) (\<lambda>d. Option.bind (json_get ''status'' d) json_as_str)"

definition mavapay_state :: "string \<Rightarrow> PaymentState" where
  "mavapay_state status =
     (if status = ''SUCCESS'' \<or> status = ''PAID'' then PmtSettled
      else if status = ''FAILED'' then PmtFailed
      else if status = ''EXPIRED'' then PmtExpired
      else PmtPending)"

definition mavapay_get_payment ::
  "mavapay_codec \<Rightarrow> http_client \<Rightarrow> Mavapay \<Rightarrow> string \<Rightarrow> PaymentError + PaymentStatus" where
  "mavapay_get_payment codec client self reference =
     bindR (map_err Transport (hc_send client
         ((http_get (mv_base_url self @ ''/transaction?hash='' @ reference))
            \<lparr>rq_headers := [(''X-API-KEY'', mv_api_key self)]\<rparr>))) (\<lambda>response.
     if \<not> is_success response then Err (Rejected (text_or_default response))
     else
     bindR (map_err InvalidResponse (response_json (mc_decode_value codec) response)) (\<lambda>value.
       Ok \<lparr>pst_state = mavapay_state (unwrap_or (data_status value) ''PENDING''), pst_provider_reference = reference\<rparr>))"

definition mavapay_pay_invoice :: "PayoutRequest \<Rightarrow> PaymentError + PayoutAttempt" where
  "mavapay_pay_invoice request = Err NotConfigured"

definition MavapayProvider :: "mavapay_codec \<Rightarrow> (nat \<Rightarrow> http_client) \<Rightarrow> Mavapay \<Rightarrow> PaymentProvider" where
  "MavapayProvider codec client self =
     \<lparr>pv_create_collection = (\<lambda>k. mavapay_create_collection codec (client k) self),
      pv_get_payment = (\<lambda>k. mavapay_get_payment codec (client k) self),
      pv_pay_invoice = (\<lambda>_. mavapay_pay_invoice)\<rparr>"

section \<open>The interface of a resolver\<close>

text \<open>What the payout worker relies on: an invoice is for the exact amount asked for and not blank.\<close>

locale address_resolver =
  fixes resolve :: LightningAddressResolver
  assumes exact_amount: "resolve k address amount = Ok invoice \<Longrightarrow> ri_amount_sats invoice = amount"
    and not_blank: "resolve k address amount = Ok invoice \<Longrightarrow> trim (ri_bolt11 invoice) \<noteq> []"

lemma trim_nonempty:
  assumes "c \<in> set s" and "\<not> is_space c"
  shows "trim s \<noteq> []"
proof
  assume "trim s = []"
  then have "dropWhile is_space (rev (dropWhile is_space s)) = []"
    by (simp add: trim_def trim_matches_def trim_end_matches_def)
  then have "\<forall>d \<in> set (dropWhile is_space s). is_space d"
    by (simp add: dropWhile_eq_Nil_conv)
  moreover have "c \<in> set (dropWhile is_space s)"
    using assms by (induction s) auto
  ultimately show False
    using assms(2) by blast
qed

lemma not_space_l: "\<not> is_space (CHR ''l'')"
  by (simp add: is_space_def)

interpretation fake: address_resolver "\<lambda>_. fake_resolve_exact_amount"
proof unfold_locales
  fix address amount invoice
  assume f: "fake_resolve_exact_amount address amount = Ok invoice"
  then show "ri_amount_sats invoice = amount"
    by (auto simp: fake_resolve_exact_amount_def split: if_splits)
  from f show "trim (ri_bolt11 invoice) \<noteq> []"
    by (intro trim_nonempty [of "CHR ''l''"]) (auto simp: fake_resolve_exact_amount_def not_space_l split: if_splits)
qed

lemma lnurl_Ok:
  assumes "lnurl_resolve_exact_amount decode_pay decode_invoice client address amount = Ok invoice"
  obtains endpoint r response r' reply pr where
    "well_known_url address = Ok endpoint" and "hc_send client (http_get endpoint) = Ok r"
    and "response_json decode_pay r = Ok response"
    and "unat (as_u64 amount) * 1000 < 2 ^ 64"
    and "unat (lp_min_sendable response) \<le> unat (as_u64 amount) * 1000"
    and "unat (as_u64 amount) * 1000 \<le> unat (lp_max_sendable response)"
    and "hc_send client ((http_get (lp_callback response))\<lparr>rq_query := [(''amount'', show_nat (unat (as_u64 amount) * 1000))]\<rparr>) = Ok r'"
    and "response_json decode_invoice r' = Ok reply" and "li_pr reply = Some pr" and "trim pr \<noteq> []"
    and "invoice = \<lparr>ri_bolt11 = pr, ri_amount_sats = amount\<rparr>"
proof -
  from assms obtain endpoint r response msat r' reply pr where
    *: "well_known_url address = Ok endpoint" "hc_send client (http_get endpoint) = Ok r"
      "response_json decode_pay r = Ok response"
    and m: "checked_mul (as_u64 amount) 1000 = Some msat"
    and "\<not> msat < lp_min_sendable response" "\<not> lp_max_sendable response < msat"
    and **: "hc_send client (callback_request (lp_callback response) msat) = Ok r'"
      "response_json decode_invoice r' = Ok reply" "li_pr reply = Some pr" "trim pr \<noteq> []"
      "invoice = \<lparr>ri_bolt11 = pr, ri_amount_sats = amount\<rparr>"
    unfolding lnurl_resolve_exact_amount_def
    by (auto simp: bindR_eq_Ok map_err_eq_Ok ok_or_eq_Ok send_checked_Ok split: if_splits option.splits)
  moreover have "unat msat = unat (as_u64 amount) * 1000"
    using m by (simp add: checked_mul_eq_Some)
  moreover have "unat msat < 2 ^ 64"
    by (rule unat_u64_less)
  ultimately show thesis
    by (intro that [OF * _ _ _ _ **(2-5)]) (simp_all add: callback_request_def word_le_nat_alt linorder_not_less)
qed

interpretation lnurl: address_resolver "\<lambda>k. lnurl_resolve_exact_amount decode_pay decode_invoice (client k)"
  for decode_pay decode_invoice client
  by unfold_locales (auto elim: lnurl_Ok)

section \<open>Properties\<close>

text \<open>C38. The LNURL resolver never asks for another amount than the payout: it returns an invoice only for an
  address \<open>name@domain\<close>, only after the service's advertised range was found to admit the exact amount in
  millisatoshis, which does not overflow, and the one invoice request it sends carries exactly that amount.\<close>

theorem lnurl_requests_exact_amount:
  assumes "lnurl_resolve_exact_amount decode_pay decode_invoice client address amount = Ok invoice"
  shows "ri_amount_sats invoice = amount \<and> trim (ri_bolt11 invoice) \<noteq> [] \<and>
    (\<exists>name domain r response r' reply.
       trim address = name @ CHR ''@'' # domain \<and> name \<noteq> [] \<and> domain \<noteq> [] \<and>
       CHR ''@'' \<notin> set name \<and> CHR ''/'' \<notin> set name \<and> CHR ''/'' \<notin> set domain \<and>
       hc_send client (http_get (''https://'' @ domain @ ''/.well-known/lnurlp/'' @ name)) = Ok r \<and>
       response_json decode_pay r = Ok response \<and>
       unat (lp_min_sendable response) \<le> unat (as_u64 amount) * 1000 \<and>
       unat (as_u64 amount) * 1000 \<le> unat (lp_max_sendable response) \<and>
       hc_send client ((http_get (lp_callback response))\<lparr>rq_query := [(''amount'', show_nat (unat (as_u64 amount) * 1000))]\<rparr>) = Ok r' \<and>
       response_json decode_invoice r' = Ok reply \<and> li_pr reply = Some (ri_bolt11 invoice))"
  using assms
  by (rule lnurl_Ok)
     (fastforce simp: well_known_url_def bindR_eq_Ok ok_or_eq_Ok split_once_Some split: if_splits)

definition sample_client :: http_client where
  "sample_client = \<lparr>hc_send = (\<lambda>r. Ok \<lparr>rs_status = 200, rs_headers = [], rs_text = Ok []\<rparr>), hc_status_error = (\<lambda>_. [])\<rparr>"

definition sample_pay_response :: LnurlPayResponse where
  "sample_pay_response = \<lparr>lp_callback = ''cb'', lp_min_sendable = 1000, lp_max_sendable = 500000, lp_status = None, lp_reason = None\<rparr>"

definition sample_pay_invoice :: LnurlInvoiceResponse where
  "sample_pay_invoice = \<lparr>li_pr = Some ''lnbc'', li_status = None, li_reason = None\<rparr>"

lemma sample_lnurl:
  "lnurl_resolve_exact_amount (\<lambda>_. Ok sample_pay_response) (\<lambda>_. Ok sample_pay_invoice) sample_client ''a@b'' (Sats 240) =
     Ok \<lparr>ri_bolt11 = ''lnbc'', ri_amount_sats = Sats 240\<rparr>"
  by (simp add: lnurl_resolve_exact_amount_def well_known_url_def trim_def trim_matches_def trim_end_matches_def is_space_def
      send_checked_def sample_client_def error_for_status_def response_json_def sample_pay_response_def sample_pay_invoice_def
      checked_mul_def)

theorem lnurl_requests_exact_amount_witness:
  "\<exists>invoice. lnurl_resolve_exact_amount (\<lambda>_. Ok sample_pay_response) (\<lambda>_. Ok sample_pay_invoice) sample_client ''a@b'' (Sats 240)
      = Ok invoice \<and> ri_amount_sats invoice = Sats 240 \<and> trim (ri_bolt11 invoice) \<noteq> []"
  using lnurl_requests_exact_amount [OF sample_lnurl] sample_lnurl by blast

text \<open>Mavapay's answer counts as settled only for the statuses \<open>SUCCESS\<close> and \<open>PAID\<close> in a successful
  response; an unknown, missing or malformed status is pending, and a failed response or transport is an error, so
  no answer can turn an unpaid invoice into a settled one.\<close>

theorem mavapay_settled_only_on_success:
  "(\<exists>status. mavapay_get_payment codec client self reference = Ok status \<and> pst_state status = PmtSettled) \<longleftrightarrow>
     (\<exists>r value d. hc_send client ((http_get (mv_base_url self @ ''/transaction?hash='' @ reference))
          \<lparr>rq_headers := [(''X-API-KEY'', mv_api_key self)]\<rparr>) = Ok r \<and>
        200 \<le> rs_status r \<and> rs_status r < 300 \<and> response_json (mc_decode_value codec) r = Ok value \<and>
        json_get ''data'' value = Some d \<and> json_get ''status'' d \<in> {Some (JStr ''SUCCESS''), Some (JStr ''PAID'')})"
proof -
  have str: "json_as_str j = Some s \<longleftrightarrow> j = JStr s" for j s
    by (cases j) auto
  have "mavapay_state (unwrap_or (data_status value) ''PENDING'') = PmtSettled \<longleftrightarrow>
      (\<exists>d. json_get ''data'' value = Some d \<and> json_get ''status'' d \<in> {Some (JStr ''SUCCESS''), Some (JStr ''PAID'')})" for "value"
    by (auto simp: mavapay_state_def unwrap_or_def data_status_def str bind_eq_Some_conv split: option.splits if_splits)
  then have state: "pst_state \<lparr>pst_state = mavapay_state (unwrap_or (data_status value) ''PENDING''), pst_provider_reference = ref\<rparr>
      = PmtSettled \<longleftrightarrow>
      (\<exists>d. json_get ''data'' value = Some d \<and> json_get ''status'' d \<in> {Some (JStr ''SUCCESS''), Some (JStr ''PAID'')})" for "value" ref
    by simp
  have get: "mavapay_get_payment codec client self reference = Ok status \<longleftrightarrow>
      (\<exists>r value. hc_send client ((http_get (mv_base_url self @ ''/transaction?hash='' @ reference))
          \<lparr>rq_headers := [(''X-API-KEY'', mv_api_key self)]\<rparr>) = Ok r \<and>
        200 \<le> rs_status r \<and> rs_status r < 300 \<and> response_json (mc_decode_value codec) r = Ok value \<and>
        status = \<lparr>pst_state = mavapay_state (unwrap_or (data_status value) ''PENDING''), pst_provider_reference = reference\<rparr>)" for status
    unfolding mavapay_get_payment_def bindR_eq_Ok map_err_eq_Ok
    by (rule ex_cong1) (auto simp: bindR_eq_Ok map_err_eq_Ok is_success_def)
  show ?thesis
    unfolding get using state by blast
qed

end
