(* ===== verification/Process.thy ===== *)
theory Process
  imports Store_Reachable Payments
begin

text \<open>
  A process of the system, API or worker, as it runs on the store: it makes numbered calls, transactions
  and questions to the outside; \<open>we_others env k\<close> is what other processes commit before call \<open>k\<close>, so a run
  is an interleaving with arbitrary other traffic. An error does not undo what was committed before.
  \<open>runs\<close> is the triple of such a piece of code: started on a database in order, it moves the database
  along transactions of the store only, and its result satisfies a postcondition.
\<close>

section \<open>Effects\<close>

text \<open>
  The world of a process: the database, the number of calls made, and the payment requests that were
  handed to the provider.
\<close>

record world =
  wd_db :: db
  wd_calls :: nat
  wd_paid :: "PayoutRequest list"

type_synonym ('e, 'a) process = "world \<Rightarrow> ('e + 'a) \<times> world"

record world_env =
  we_x :: externals
  we_ids :: "nat \<Rightarrow> nat \<Rightarrow> uuid"
  we_now :: "nat \<Rightarrow> timestamp"
  we_clock :: "nat \<Rightarrow> timestamp"
  we_job_locked :: "nat \<Rightarrow> job_row \<Rightarrow> bool"
  we_payout_locked :: "nat \<Rightarrow> payout_row \<Rightarrow> bool"
  we_others :: "nat \<Rightarrow> db \<Rightarrow> db"
  we_sql_text :: "SqlError \<Rightarrow> string"
  we_to_vec :: "ProofDocument \<Rightarrow> string + bytes"

definition returnW :: "'a \<Rightarrow> ('e, 'a) process" where
  "returnW a w = (Ok a, w)"

definition bindW :: "('e, 'a) process \<Rightarrow> ('a \<Rightarrow> ('e, 'b) process) \<Rightarrow> ('e, 'b) process" where
  "bindW m k w = (case m w of (Err e, w') \<Rightarrow> (Err e, w') | (Ok a, w') \<Rightarrow> k a w')"

definition liftE :: "'e + 'a \<Rightarrow> ('e, 'a) process" where
  "liftE r w = (r, w)"

text \<open>One transaction; one question to the outside.\<close>

definition transact :: "world_env \<Rightarrow> (nat \<Rightarrow> db \<Rightarrow> 'e + 'a \<times> db) \<Rightarrow> world \<Rightarrow> ('e + 'a) \<times> world" where
  "transact env op w =
     (let k = wd_calls w; db = we_others env k (wd_db w)
      in case op k db of
           Err e \<Rightarrow> (Err e, w\<lparr>wd_db := db, wd_calls := Suc k\<rparr>)
         | Ok (a, db') \<Rightarrow> (Ok a, w\<lparr>wd_db := db', wd_calls := Suc k\<rparr>))"

definition askE :: "(nat \<Rightarrow> 'e + 'a) \<Rightarrow> ('e, 'a) process" where
  "askE f w = (f (wd_calls w), w\<lparr>wd_calls := Suc (wd_calls w)\<rparr>)"

text \<open>A read, as an operation that leaves the database alone.\<close>

definition reading :: "'e + 'a \<Rightarrow> db \<Rightarrow> 'e + 'a \<times> db" where
  "reading r db = bindR r (\<lambda>a. Ok (a, db))"

text \<open>The text of the errors a transaction reports; that of \<open>sqlx\<close> is a parameter.\<close>

fun domain_error_text :: "DomainError \<Rightarrow> string" where
  "domain_error_text (BasisPointsOutOfRange v) = ''basis points value '' @ show_nat (unat v) @ '' exceeds 10,000''"
| "domain_error_text (InvalidPayoutSplit t) =
     ''payout split must total 10,000 basis points, got '' @ show_nat (unat t)"
| "domain_error_text (InvalidTicketRange start end') =
     ''ticket range ['' @ show_nat (unat start) @ '', '' @ show_nat (unat end') @ '') must have start < end''"

fun persistence_error_text :: "(SqlError \<Rightarrow> string) \<Rightarrow> PersistenceError \<Rightarrow> string" where
  "persistence_error_text sql_text (Sqlx e) = sql_text e"
| "persistence_error_text sql_text (Domain e) = domain_error_text e"
| "persistence_error_text sql_text (Protocol e) = protocol_error_text e"
| "persistence_error_text sql_text ProofInvalid = ''generated proof did not pass the native verifier''"
| "persistence_error_text sql_text ProofAlreadyPublished =
     ''proof was already published with different immutable object metadata''"
| "persistence_error_text sql_text (ProofEncoding e) = ''proof encoding failed: '' @ e"
| "persistence_error_text sql_text (NotFound what) = what @ '' was not found''"
| "persistence_error_text sql_text InvoiceNotEligible = ''invoice is not eligible for settlement''"
| "persistence_error_text sql_text RaffleNotOpen = ''raffle is not open''"
| "persistence_error_text sql_text RaffleClosed = ''raffle is closed for new invoices''"
| "persistence_error_text sql_text InvalidTicketCount = ''ticket count must be positive''"
| "persistence_error_text sql_text InvalidStatus = ''raffle is not in the required state''"
| "persistence_error_text sql_text IntegerOverflow = ''integer conversion or addition overflowed''"
| "persistence_error_text sql_text InvalidHashLength = ''database hash is not 32 bytes''"
| "persistence_error_text sql_text (Panicked m) = m"

text \<open>\<open>persistence.op(..).await\<close> with the conversion of its error.\<close>

definition storeE :: "(PersistenceError \<Rightarrow> 'e) \<Rightarrow> world_env \<Rightarrow> (nat \<Rightarrow> db \<Rightarrow> PersistenceError + 'a \<times> db) \<Rightarrow> ('e, 'a) process" where
  "storeE conv env op w = (case transact env op w of (r, w') \<Rightarrow> (map_err conv r, w'))"

section \<open>Triples\<close>

text \<open>
  The environment: the text form of identifiers separates them, timestamps survive the column to the
  millisecond, and other processes commit transactions of the store.
\<close>

definition env_ok :: "world_env \<Rightarrow> bool" where
  "env_ok env \<longleftrightarrow> uuid_text_ok (we_x env) \<and> (\<forall>t. settlement_time_ok (we_x env) t) \<and>
     (\<forall>k db. reachable (db_step (we_x env)) db (we_others env k db))"

definition db_run :: "world_env \<Rightarrow> db \<Rightarrow> db \<Rightarrow> bool" where
  "db_run env = reachable (db_step (we_x env))"

definition runs :: "world_env \<Rightarrow> ('a \<Rightarrow> bool) \<Rightarrow> ('e, 'a) process \<Rightarrow> bool" where
  "runs env Q m \<longleftrightarrow> (\<forall>w r w'. db_ok (we_x env) (wd_db w) \<longrightarrow> m w = (r, w') \<longrightarrow>
     db_run env (wd_db w) (wd_db w') \<and> (\<forall>a. r = Ok a \<longrightarrow> Q a))"

lemma db_run_refl [simp]: "db_run env db db"
  by (simp add: db_run_def reachable.start)

lemma db_run_trans: "db_run env a b \<Longrightarrow> db_run env b c \<Longrightarrow> db_run env a c"
  unfolding db_run_def by (rule reachable_trans)

lemma db_run_step: "db_step (we_x env) a b \<Longrightarrow> db_run env a b"
  unfolding db_run_def by (rule reachable.step [OF reachable.start])

lemma db_run_ok:
  assumes "env_ok env" and "db_run env a b" and "db_ok (we_x env) a"
  shows "db_ok (we_x env) b"
  using store.inv_steps [of "we_x env" a b] assms by (auto simp: db_inv_def db_run_def env_ok_def)

named_theorems run_rules \<open>triples of calls\<close>

lemma runs_return [run_rules]: "Q a \<Longrightarrow> runs env Q (returnW a)"
  by (simp add: runs_def returnW_def)

lemma runs_lift [run_rules]: "(\<And>a. r = Ok a \<Longrightarrow> Q a) \<Longrightarrow> runs env Q (liftE r)"
  by (auto simp: runs_def liftE_def)

lemma runs_ask [run_rules]: "(\<And>k a. f k = Ok a \<Longrightarrow> Q a) \<Longrightarrow> runs env Q (askE f)"
  by (auto simp: runs_def askE_def)

lemma runs_bind:
  assumes "env_ok env" and "runs env P m" and "\<And>a. P a \<Longrightarrow> runs env Q (k a)"
  shows "runs env Q (bindW m k)"
  unfolding runs_def
proof (intro allI impI)
  fix w r w'
  assume ok: "db_ok (we_x env) (wd_db w)" and b: "bindW m k w = (r, w')"
  obtain q v where q: "m w = (q, v)"
    by (cases "m w")
  then have m: "db_run env (wd_db w) (wd_db v)" "\<forall>a. q = Ok a \<longrightarrow> P a"
    using assms(2) ok by (auto simp: runs_def)
  show "db_run env (wd_db w) (wd_db w') \<and> (\<forall>a. r = Ok a \<longrightarrow> Q a)"
  proof (cases q)
    case (Inl e)
    then show ?thesis
      using b m q by (auto simp: bindW_def)
  next
    case (Inr a)
    then have "k a v = (r, w')"
      using b q by (simp add: bindW_def)
    then show ?thesis
      using assms(3) [of a] m Inr db_run_ok [OF assms(1) m(1) ok] db_run_trans [OF m(1)] by (auto simp: runs_def)
  qed
qed

text \<open>One transaction: other processes first, then the operation.\<close>

lemma transact_cases:
  assumes "env_ok env" and "db_ok (we_x env) (wd_db w)" and "transact env op w = (r, w')"
  obtains db where "db_run env (wd_db w) db" and "db_ok (we_x env) db"
    and "(\<exists>e. r = Err e \<and> wd_db w' = db) \<or> (\<exists>a db'. r = Ok a \<and> op (wd_calls w) db = Ok (a, db') \<and> wd_db w' = db')"
proof -
  let ?db = "we_others env (wd_calls w) (wd_db w)"
  have run: "db_run env (wd_db w) ?db"
    using assms(1) by (simp add: env_ok_def db_run_def)
  show thesis
    by (rule that [OF run db_run_ok [OF assms(1) run assms(2)]])
       (use assms(3) in \<open>auto simp: transact_def Let_def split: sum.splits prod.splits\<close>)
qed

lemma transact_run:
  assumes "env_ok env" and "\<And>k db a db'. op k db = Ok (a, db') \<Longrightarrow> db_step (we_x env) db db'"
    and "db_ok (we_x env) (wd_db w)" and "transact env op w = (r, w')"
  shows "db_run env (wd_db w) (wd_db w')"
  using assms(1,3,4) by (rule transact_cases) (auto intro: db_run_trans db_run_step dest: assms(2))

lemma runs_store:
  assumes "env_ok env" and "\<And>k db a db'. op k db = Ok (a, db') \<Longrightarrow> db_step (we_x env) db db'"
    and "\<And>a. Q a"
  shows "runs env Q (storeE conv env op)"
  unfolding runs_def
proof (intro allI impI)
  fix w r w'
  assume ok: "db_ok (we_x env) (wd_db w)" and s: "storeE conv env op w = (r, w')"
  from s obtain q where "transact env op w = (q, w')"
    by (cases "transact env op w") (simp add: storeE_def)
  with transact_run [OF assms(1) _ ok, of op q w'] assms(2) show "db_run env (wd_db w) (wd_db w') \<and> (\<forall>a. r = Ok a \<longrightarrow> Q a)"
    using assms(3) by blast
qed

lemma runs_read:
  assumes "env_ok env" and "\<And>db a. db_ok (we_x env) db \<Longrightarrow> f db = Ok a \<Longrightarrow> Q a"
  shows "runs env Q (storeE conv env (\<lambda>k db. reading (f db) db))"
  unfolding runs_def
proof (intro allI impI)
  fix w r w'
  assume ok: "db_ok (we_x env) (wd_db w)" and s: "storeE conv env (\<lambda>k db. reading (f db) db) w = (r, w')"
  from s obtain q where q: "transact env (\<lambda>k db. reading (f db) db) w = (q, w')" and r: "r = map_err (conv) q"
    by (cases "transact env (\<lambda>k db. reading (f db) db) w") (simp add: storeE_def)
  from transact_cases [OF assms(1) ok q] obtain db where run: "db_run env (wd_db w) db" and "db_ok (we_x env) db"
    and "(\<exists>e. q = Err e \<and> wd_db w' = db) \<or> (\<exists>a db'. q = Ok a \<and> reading (f db) db = Ok (a, db') \<and> wd_db w' = db')"
    by blast
  then show "db_run env (wd_db w) (wd_db w') \<and> (\<forall>a. r = Ok a \<longrightarrow> Q a)"
    using assms(2) by (auto simp: r map_err_eq_Ok reading_def bindR_eq_Ok)
qed

lemma runs_if: "(c \<Longrightarrow> runs env Q m) \<Longrightarrow> (\<not> c \<Longrightarrow> runs env Q n) \<Longrightarrow> runs env Q (if c then m else n)"
  by simp

lemma runs_fail [run_rules]: "runs env Q (liftE (Err e))"
  by (simp add: runs_def liftE_def)

lemma runs_failW: "runs env Q (liftE (map_err f (Err e)))"
  by (simp add: runs_def liftE_def)

lemma runs_true: "runs env Q m \<Longrightarrow> runs env (\<lambda>_. True) m"
  by (auto simp: runs_def)

lemma runsD: "runs env Q m \<Longrightarrow> db_ok (we_x env) (wd_db w) \<Longrightarrow> m w = (r, w') \<Longrightarrow> db_run env (wd_db w) (wd_db w')"
  by (auto simp: runs_def)

section \<open>Runs that succeed\<close>

lemma bindW_Ok: "bindW m k w = (Ok b, w') \<longleftrightarrow> (\<exists>a v. m w = (Ok a, v) \<and> k a v = (Ok b, w'))"
  by (auto simp: bindW_def split: prod.splits sum.splits)

lemma liftE_Ok: "liftE r w = (Ok a, v) \<longleftrightarrow> r = Ok a \<and> v = w"
  by (auto simp: liftE_def map_err_eq_Ok)

lemma storeE_Ok:
  "storeE conv env op w = (Ok a, v) \<longleftrightarrow>
     (\<exists>db'. op (wd_calls w) (we_others env (wd_calls w) (wd_db w)) = Ok (a, db') \<and> v = w\<lparr>wd_db := db', wd_calls := Suc (wd_calls w)\<rparr>)"
  by (auto simp: storeE_def transact_def Let_def map_err_eq_Ok split: sum.splits prod.splits)

lemma askE_Ok: "askE f w = (Ok a, v) \<longleftrightarrow> f (wd_calls w) = Ok a \<and> v = w\<lparr>wd_calls := Suc (wd_calls w)\<rparr>"
  by (auto simp: askE_def)

lemmas process_Ok = bindW_Ok liftE_Ok storeE_Ok askE_Ok

end
