(* ===== verification/Bitcoin.thy ===== *)
theory Bitcoin
  imports Http Ledger
begin

text \<open>
  The Bitcoin observation boundary of \<open>crates/openpool-core/src/bitcoin.rs\<close>: blocks, the fixture chain
  and the Esplora client. \<open>bitcoin_source\<close> is the interface the draw worker relies on. A source answers
  over time, so its operations take the number of the call; nothing is assumed about two calls agreeing.
  Hexadecimal decoding, JSON decoding and the conversion of Unix timestamps (crates \<open>hex\<close>, \<open>serde_json\<close>,
  \<open>time\<close>) are parameters.
\<close>

section \<open>Blocks and errors\<close>

record Block =
  bk_height :: u64
  bk_hash :: Hash32
  bk_previous_hash :: Hash32
  bk_time :: timestamp

datatype BitcoinError = BitcoinTransport string | BitcoinInvalid string

fun bitcoin_error_text :: "BitcoinError \<Rightarrow> string" where
  "bitcoin_error_text (BitcoinTransport e) = ''bitcoin source unavailable: '' @ e"
| "bitcoin_error_text (BitcoinInvalid e) = ''bitcoin source returned invalid data: '' @ e"

record BitcoinSource =
  bs_tip_height :: "nat \<Rightarrow> BitcoinError + u64"
  bs_block_at :: "nat \<Rightarrow> u64 \<Rightarrow> BitcoinError + Block"

section \<open>The fixture source\<close>

text \<open>A \<open>BTreeMap\<close> is its list of bindings in key order; inserting replaces an equal key.\<close>

fun btree_insert :: "'k::linorder \<Rightarrow> 'v \<Rightarrow> ('k \<times> 'v) list \<Rightarrow> ('k \<times> 'v) list" where
  "btree_insert k v [] = [(k, v)]"
| "btree_insert k v ((j, w) # m) =
     (if k < j then (k, v) # (j, w) # m else if k = j then (k, v) # m else (j, w) # btree_insert k v m)"

definition FixtureSource_new :: "Block list \<Rightarrow> (u64 \<times> Block) list" where
  "FixtureSource_new blocks = fold (\<lambda>b m. btree_insert (bk_height b) b m) blocks []"

definition fixture_tip_height :: "(u64 \<times> Block) list \<Rightarrow> BitcoinError + u64" where
  "fixture_tip_height m =
     (case m of [] \<Rightarrow> Err (BitcoinInvalid ''fixture chain is empty'') | _ \<Rightarrow> Ok (fst (last m)))"

definition fixture_block_at :: "(u64 \<times> Block) list \<Rightarrow> u64 \<Rightarrow> BitcoinError + Block" where
  "fixture_block_at m height =
     ok_or (map_of m height)
       (BitcoinInvalid (''fixture block '' @ show_nat (unat height) @ '' is absent''))"

definition FixtureSource :: "Block list \<Rightarrow> BitcoinSource" where
  "FixtureSource blocks =
     \<lparr>bs_tip_height = (\<lambda>_. fixture_tip_height (FixtureSource_new blocks)),
      bs_block_at = (\<lambda>_. fixture_block_at (FixtureSource_new blocks))\<rparr>"

section \<open>Esplora\<close>

record EsploraBlock =
  eb_id :: string
  eb_height :: u64
  eb_previousblockhash :: string
  eb_timestamp :: i64

definition parse_hash :: "(string \<Rightarrow> string + bytes) \<Rightarrow> string \<Rightarrow> BitcoinError + Hash32" where
  "parse_hash hex_decode value =
     bindR (map_err (\<lambda>_. BitcoinInvalid ''block hash'') (hex_decode value)) (\<lambda>bytes.
       ok_or (try_hash bytes) (BitcoinInvalid ''block hash length''))"

definition Esplora_new :: "string \<Rightarrow> string" where
  "Esplora_new base_url = trim_end_matches (\<lambda>c. c = CHR ''/'') base_url"

text \<open>\<open>...text().await.map_err(Transport)\<close>.\<close>

definition get_text :: "http_client \<Rightarrow> string \<Rightarrow> BitcoinError + string" where
  "get_text client url =
     bindR (send_checked client BitcoinTransport (http_get url)) (\<lambda>r. map_err BitcoinTransport (rs_text r))"

definition esplora_tip_height :: "http_client \<Rightarrow> string \<Rightarrow> BitcoinError + u64" where
  "esplora_tip_height client base_url =
     bindR (get_text client (base_url @ ''/blocks/tip/height'')) (\<lambda>text.
       ok_or (parse_u64 text) (BitcoinInvalid ''tip height''))"

definition esplora_block_at ::
  "(string \<Rightarrow> string + bytes) \<Rightarrow> (string \<Rightarrow> string + EsploraBlock) \<Rightarrow> (i64 \<Rightarrow> timestamp option) \<Rightarrow> http_client
     \<Rightarrow> string \<Rightarrow> u64 \<Rightarrow> BitcoinError + Block" where
  "esplora_block_at hex_decode decode from_unix client base_url height =
     bindR (get_text client (base_url @ ''/block-height/'' @ show_nat (unat height))) (\<lambda>hash.
     bindR (send_checked client BitcoinTransport (http_get (base_url @ ''/block/'' @ trim hash))) (\<lambda>r.
     bindR (map_err BitcoinInvalid (response_json decode r)) (\<lambda>b.
     bindR (parse_hash hex_decode (eb_id b)) (\<lambda>h.
     bindR (parse_hash hex_decode (eb_previousblockhash b)) (\<lambda>previous.
     bindR (ok_or (from_unix (eb_timestamp b)) (BitcoinInvalid ''timestamp'')) (\<lambda>time.
       Ok \<lparr>bk_height = eb_height b, bk_hash = h, bk_previous_hash = previous, bk_time = time\<rparr>))))))"

definition Esplora ::
  "(string \<Rightarrow> string + bytes) \<Rightarrow> (string \<Rightarrow> string + EsploraBlock) \<Rightarrow> (i64 \<Rightarrow> timestamp option) \<Rightarrow> (nat \<Rightarrow> http_client)
     \<Rightarrow> string \<Rightarrow> BitcoinSource" where
  "Esplora hex_decode decode from_unix client base_url =
     \<lparr>bs_tip_height = (\<lambda>k. esplora_tip_height (client k) (Esplora_new base_url)),
      bs_block_at = (\<lambda>k. esplora_block_at hex_decode decode from_unix (client k) (Esplora_new base_url))\<rparr>"

section \<open>The interface of a source\<close>

text \<open>What the draw relies on: the block returned for a height has that height.\<close>

locale bitcoin_source =
  fixes source :: BitcoinSource
  assumes block_height: "bs_block_at source k height = Ok b \<Longrightarrow> bk_height b = height"

text \<open>
  A source whose answers do not change: one chain up to its tip, with no two blocks of the same hash, at
  heights that the database can hold.
\<close>

locale bitcoin_chain = bitcoin_source +
  fixes chain :: "u64 \<Rightarrow> Block" and tip :: u64
  assumes tip_height: "bs_tip_height source k = Ok tip"
    and block_at: "h \<le> tip \<Longrightarrow> bs_block_at source k h = Ok (chain h)"
    and hash_unique: "g \<le> tip \<Longrightarrow> h \<le> tip \<Longrightarrow> bk_hash (chain g) = bk_hash (chain h) \<Longrightarrow> g = h"
    and tip_fits: "uint tip < 2 ^ 63"
begin

lemma chain_height: "h \<le> tip \<Longrightarrow> bk_height (chain h) = h"
  using block_height block_at by blast

end

section \<open>The fixture is such a source\<close>

lemma btree_insert_map_of:
  "map_of (btree_insert k v m) j = (if j = k then Some v else map_of m j)"
  if "sorted (map fst m)" "distinct (map fst m)"
  using that by (induction m) (auto dest: map_of_SomeD)

lemma btree_insert_keys:
  "set (map fst (btree_insert k v m)) = insert k (set (map fst m))"
  by (induction k v m rule: btree_insert.induct) (simp_all add: insert_commute)

lemma btree_insert_sorted:
  assumes "sorted (map fst m)" and "distinct (map fst m)"
  shows "sorted (map fst (btree_insert k v m)) \<and> distinct (map fst (btree_insert k v m))"
  using assms
proof (induction m)
  case (Cons p m)
  obtain j w where p: "p = (j, w)"
    by (cases p)
  have "set (map fst (btree_insert k v m)) = insert k (set (map fst m))"
    by (rule btree_insert_keys)
  then show ?case
    using Cons by (auto simp: p less_imp_le order_le_less)
qed simp

lemma FixtureSource_new_map:
  "sorted (map fst (FixtureSource_new blocks)) \<and> distinct (map fst (FixtureSource_new blocks)) \<and>
   (\<forall>h. map_of (FixtureSource_new blocks) h = find (\<lambda>b. bk_height b = h) (rev blocks))"
  by (induction blocks rule: rev_induct)
     (auto simp: FixtureSource_new_def btree_insert_sorted btree_insert_map_of)

interpretation fixture: bitcoin_source "FixtureSource blocks" for blocks
proof unfold_locales
  fix k height b
  assume "bs_block_at (FixtureSource blocks) k height = Ok b"
  then have "find (\<lambda>b. bk_height b = height) (rev blocks) = Some b"
    by (simp add: FixtureSource_def fixture_block_at_def ok_or_eq_Ok FixtureSource_new_map)
  then show "bk_height b = height"
    by (auto simp: find_Some_iff)
qed

text \<open>The tip of the fixture is its greatest height.\<close>

lemma fixture_tip:
  "fixture_tip_height (FixtureSource_new blocks) = Ok h \<longleftrightarrow>
     h \<in> bk_height ` set blocks \<and> (\<forall>b \<in> set blocks. bk_height b \<le> h)"
proof -
  let ?m = "FixtureSource_new blocks"
  have keys: "set (map fst ?m) = bk_height ` set blocks"
    by (induction blocks rule: rev_induct)
       (simp_all add: FixtureSource_new_def btree_insert_keys del: set_map list.set_map)
  show ?thesis
  proof (cases "?m = []")
    case True
    then show ?thesis
      using keys by (auto simp: fixture_tip_height_def)
  next
    case False
    have s: "sorted (map fst ?m)"
      by (simp add: FixtureSource_new_map)
    have "fst (last ?m) \<in> bk_height ` set blocks"
      using keys False by (metis last_in_set image_eqI set_map)
    moreover have "k \<le> fst (last ?m)" if "k \<in> set (map fst ?m)" for k
    proof -
      have "map fst ?m = map fst (butlast ?m) @ [fst (last ?m)]"
        using False by (metis append_butlast_last_id list.simps(8,9) map_append)
      then show ?thesis
        using s that by (metis (no_types, lifting) Un_iff list.set_intros(1) order_refl set_append
            set_ConsD sorted_append empty_iff list.set(1))
    qed
    moreover have "fixture_tip_height ?m = Ok (fst (last ?m))"
      using False by (auto simp: fixture_tip_height_def split: list.splits)
    ultimately show ?thesis
      unfolding keys by (auto intro: antisym)
  qed
qed

text \<open>On blocks in a row, from height zero on, the fixture is a chain.\<close>

locale consecutive_blocks =
  fixes blocks :: "Block list"
  assumes nonempty: "blocks \<noteq> []"
    and heights: "i < length blocks \<Longrightarrow> unat (bk_height (blocks ! i)) = i"
    and hashes: "distinct (map bk_hash blocks)"
    and few: "length blocks \<le> 2 ^ 63"
begin

lemma fixture_block:
  assumes "unat h < length blocks"
  shows "find (\<lambda>b. bk_height b = h) (rev blocks) = Some (blocks ! unat h)"
proof -
  have at: "bk_height b = h \<longleftrightarrow> b = blocks ! unat h" if "b \<in> set blocks" for b
    using that heights assms by (auto simp: in_set_conv_nth word_unat_eq_iff)
  obtain b where b: "find (\<lambda>b. bk_height b = h) (rev blocks) = Some b"
    using assms at [of "blocks ! unat h"] by (cases "find (\<lambda>b. bk_height b = h) (rev blocks)") (auto simp: find_None_iff)
  then have "b \<in> set blocks" "bk_height b = h"
    by (auto simp: find_Some_iff) (metis length_rev nth_mem set_rev)
  then show ?thesis
    using b at by simp
qed

lemma unat_tip: "unat (of_nat (length blocks - 1) :: u64) = length blocks - 1"
  using few by (simp add: unat_of_nat)

end

sublocale consecutive_blocks \<subseteq> bitcoin_chain "FixtureSource blocks" "\<lambda>h. blocks ! unat h" "of_nat (length blocks - 1)"
proof unfold_locales
  have last: "length blocks - 1 < length blocks"
    using nonempty by simp
  have below: "unat h < length blocks" if "h \<le> of_nat (length blocks - 1)" for h :: u64
    using that last unat_tip by (simp add: word_le_nat_alt)
  show "bs_tip_height (FixtureSource blocks) k = Ok (of_nat (length blocks - 1))" for k
  proof -
    have "of_nat (length blocks - 1) = bk_height (blocks ! (length blocks - 1))"
      using heights [OF last] unat_tip by (simp add: word_unat_eq_iff)
    moreover have "bk_height b \<le> of_nat (length blocks - 1)" if "b \<in> set blocks" for b
      using that heights unat_tip by (fastforce simp: in_set_conv_nth word_le_nat_alt)
    ultimately show ?thesis
      using last by (simp add: FixtureSource_def fixture_tip)
  qed
  show "bs_block_at (FixtureSource blocks) k h = Ok (blocks ! unat h)" if "h \<le> of_nat (length blocks - 1)" for k h
    using fixture_block [OF below [OF that]]
    by (simp add: FixtureSource_def fixture_block_at_def FixtureSource_new_map ok_or_eq_Ok)
  show "g = h" if "g \<le> of_nat (length blocks - 1)" "h \<le> of_nat (length blocks - 1)"
    "bk_hash (blocks ! unat g) = bk_hash (blocks ! unat h)" for g h :: u64
    using hashes that below [OF that(1)] below [OF that(2)] by (simp add: distinct_conv_nth word_unat_eq_iff) metis
  have "length blocks - 1 < 2 ^ 63"
    using few nonempty by (cases blocks) simp_all
  then show "uint (of_nat (length blocks - 1) :: u64) < 2 ^ 63"
    using unat_tip by (simp add: uint_nat)
qed

end
