(* ===== verification/Proof_Storage.thy ===== *)
theory Proof_Storage
  imports Http Ledger
begin

text \<open>
  The immutable publication of proof documents: \<open>crates/openpool-core/src/proof_storage.rs\<close>, with the
  request signature of version 4. Time formatting, URL parsing, SHA-256, HMAC and \<open>hex\<close> are parameters.
\<close>

section \<open>Types\<close>

record PublishedProof =
  pb_uri :: string
  pb_version_id :: string
  pb_etag :: string

datatype ProofStorageError =
    StoreTransport string
  | StoreRejected u16 string
  | MissingMetadata string
  | Configuration string

fun proof_storage_error_text :: "ProofStorageError \<Rightarrow> string" where
  "proof_storage_error_text (StoreTransport e) = ''object store transport failed: '' @ e"
| "proof_storage_error_text (StoreRejected status body) =
     ''object store rejected immutable publication ('' @ show_nat (unat status) @ ''): '' @ body"
| "proof_storage_error_text (MissingMetadata m) = ''object store response omitted '' @ m"
| "proof_storage_error_text (Configuration e) = ''proof storage configuration is invalid: '' @ e"

record S3ProofStoreSettings =
  s3_endpoint :: string
  s3_region :: string
  s3_bucket :: string
  s3_access_key_id :: string
  s3_secret_access_key :: string
  s3_retention_days :: int

text \<open>
  The crates behind the adapter: the two date formats and RFC 3339 of \<open>time\<close>, its addition of days,
  \<open>Url::parse(..).host_str()\<close>, \<open>Sha256::digest\<close>, HMAC and \<open>hex::encode\<close>.
\<close>

record s3_env =
  se_format_amz :: "timestamp \<Rightarrow> string + string"
  se_format_day :: "timestamp \<Rightarrow> string + string"
  se_format_rfc3339 :: "timestamp \<Rightarrow> string + string"
  se_plus_days :: "timestamp \<Rightarrow> int \<Rightarrow> timestamp"
  se_url_host :: "string \<Rightarrow> string + string option"
  se_sha :: sha256
  se_hmac :: "bytes \<Rightarrow> bytes \<Rightarrow> bytes"
  se_hex_encode :: "bytes \<Rightarrow> string"

section \<open>Operations\<close>

definition S3ProofStore_new :: "S3ProofStoreSettings \<Rightarrow> ProofStorageError + S3ProofStoreSettings" where
  "S3ProofStore_new settings =
     (if trim (s3_endpoint settings) = [] \<or> trim (s3_region settings) = [] \<or> trim (s3_bucket settings) = [] \<or>
         trim (s3_access_key_id settings) = [] \<or> trim (s3_secret_access_key settings) = [] \<or>
         s3_retention_days settings < 1
      then Err (Configuration ''endpoint, region, bucket, credentials, and positive retention_days are required'')
      else Ok settings)"

definition object_key :: "string \<Rightarrow> ProofStorageError + string" where
  "object_key hash =
     (if length hash \<noteq> 64 \<or> \<not> list_all is_ascii_hexdigit hash
      then Err (Configuration ''proof hash must be lowercase/uppercase 64-char hex'')
      else Ok (''proofs/OPENPOOL-1/'' @ hash @ ''/proof.json''))"

definition hmac_text :: "s3_env \<Rightarrow> bytes \<Rightarrow> string \<Rightarrow> bytes" where
  "hmac_text env key value = se_hmac env key (str_bytes value)"

definition sign_v4 :: "s3_env \<Rightarrow> string \<Rightarrow> string \<Rightarrow> string \<Rightarrow> string \<Rightarrow> string \<Rightarrow> bytes" where
  "sign_v4 env secret day region service value =
     (let date = hmac_text env (str_bytes (''AWS4'' @ secret)) day;
          region = hmac_text env date region;
          service = hmac_text env region service;
          signing = hmac_text env service ''aws4_request''
      in hmac_text env signing value)"

abbreviation nl :: string where
  "nl \<equiv> [CHR 0x0A]"

definition signed_headers :: string where
  "signed_headers = ''content-type;host;x-amz-content-sha256;x-amz-date;x-amz-object-lock-mode;x-amz-object-lock-retain-until-date;x-amz-server-side-encryption''"

definition canonical_headers :: "string \<Rightarrow> string \<Rightarrow> string \<Rightarrow> string \<Rightarrow> string" where
  "canonical_headers host payload_hash amz_date retention =
     ''content-type:application/json'' @ nl @ ''host:'' @ host @ nl @
     ''x-amz-content-sha256:'' @ payload_hash @ nl @ ''x-amz-date:'' @ amz_date @ nl @
     ''x-amz-object-lock-mode:COMPLIANCE'' @ nl @
     ''x-amz-object-lock-retain-until-date:'' @ retention @ nl @ ''x-amz-server-side-encryption:AES256'' @ nl"

definition canonical_request :: "string \<Rightarrow> string \<Rightarrow> string \<Rightarrow> string" where
  "canonical_request canonical_uri headers payload_hash =
     ''PUT'' @ nl @ canonical_uri @ nl @ nl @ headers @ nl @ signed_headers @ nl @ payload_hash"

definition authorization ::
  "s3_env \<Rightarrow> S3ProofStoreSettings \<Rightarrow> string \<Rightarrow> string \<Rightarrow> string \<Rightarrow> string" where
  "authorization env settings day amz_date request =
     (let scope = day @ ''/'' @ s3_region settings @ ''/s3/aws4_request'';
          string_to_sign = ''AWS4-HMAC-SHA256'' @ nl @ amz_date @ nl @ scope @ nl @
            se_hex_encode env (as_bytes (se_sha env (str_bytes request)));
          signature = se_hex_encode env
            (sign_v4 env (s3_secret_access_key settings) day (s3_region settings) ''s3'' string_to_sign)
      in ''AWS4-HMAC-SHA256 Credential='' @ s3_access_key_id settings @ ''/'' @ scope @
         '', SignedHeaders='' @ signed_headers @ '', Signature='' @ signature)"

text \<open>\<open>headers.get(name).and_then(|v| v.to_str().ok()).filter(|v| !v.is_empty())\<close>.\<close>

definition header_value :: "string \<Rightarrow> (string \<times> string) list \<Rightarrow> string option" where
  "header_value name headers =
     Option.bind (header_str name headers) (\<lambda>v. if v \<noteq> [] then Some v else None)"

definition publish_immutable ::
  "s3_env \<Rightarrow> http_client \<Rightarrow> S3ProofStoreSettings \<Rightarrow> timestamp \<Rightarrow> string \<Rightarrow> bytes \<Rightarrow> ProofStorageError + PublishedProof" where
  "publish_immutable env client settings now proof_hash_hex canonical_json =
     bindR (object_key proof_hash_hex) (\<lambda>key.
     let endpoint = trim_end_matches (\<lambda>c. c = CHR ''/'') (s3_endpoint settings);
         url = endpoint @ ''/'' @ s3_bucket settings @ ''/'' @ key in
     bindR (map_err Configuration (se_format_amz env now)) (\<lambda>amz_date.
     bindR (map_err Configuration (se_format_day env now)) (\<lambda>day.
     bindR (map_err Configuration (se_format_rfc3339 env (se_plus_days env now (s3_retention_days settings)))) (\<lambda>retention.
     let payload_hash = se_hex_encode env (as_bytes (se_sha env canonical_json)) in
     bindR (map_err Configuration (se_url_host env url)) (\<lambda>host'.
     bindR (ok_or host' (Configuration ''S3 endpoint has no host'')) (\<lambda>host.
     let canonical_uri = ''/'' @ s3_bucket settings @ ''/'' @ key;
         request = canonical_request canonical_uri (canonical_headers host payload_hash amz_date retention) payload_hash in
     bindR (map_err StoreTransport (hc_send client
         \<lparr>rq_method = ''PUT'', rq_url = url, rq_query = [],
          rq_headers =
            [(''content-type'', ''application/json''),
             (''if-none-match'', ''*''),
             (''x-amz-content-sha256'', payload_hash),
             (''x-amz-date'', amz_date),
             (''x-amz-object-lock-mode'', ''COMPLIANCE''),
             (''x-amz-object-lock-retain-until-date'', retention),
             (''x-amz-server-side-encryption'', ''AES256''),
             (''authorization'', authorization env settings day amz_date request)],
          rq_body = canonical_json\<rparr>)) (\<lambda>response.
     if \<not> is_success response then Err (StoreRejected (rs_status response) (text_or_default response))
     else
     bindR (ok_or (header_value ''x-amz-version-id'' (rs_headers response)) (MissingMetadata ''x-amz-version-id'')) (\<lambda>version_id.
     bindR (ok_or (header_value ''etag'' (rs_headers response)) (MissingMetadata ''etag'')) (\<lambda>etag.
       Ok \<lparr>pb_uri = ''s3://'' @ s3_bucket settings @ ''/'' @ key, pb_version_id = version_id,
           pb_etag = trim_matches (\<lambda>c. c = CHR 0x22) etag\<rparr>)))))))))"

section \<open>Properties\<close>

lemma object_key_Ok:
  "object_key hash = Ok key \<longleftrightarrow>
     length hash = 64 \<and> list_all is_ascii_hexdigit hash \<and> key = ''proofs/OPENPOOL-1/'' @ hash @ ''/proof.json''"
  by (auto simp: object_key_def)

text \<open>C39. A publication that is reported as done was accepted by the store in answer to one conditional \<open>PUT\<close>
  (\<open>if-none-match: *\<close>) of the given bytes under compliance retention. The URL of that request is the one of the object
  that the reported URI names, in the configured bucket under a key made of the proof hash, so objects of different hashes
  differ; the request is signed for this path and these bytes, and the store named the reported object version and ETag.\<close>

theorem publication_immutable_object:
  assumes "publish_immutable env client settings now hash json = Ok p"
  shows "(\<exists>req r. hc_send client req = Ok r \<and> 200 \<le> rs_status r \<and> rs_status r < 300 \<and>
      rq_method req = ''PUT'' \<and> rq_body req = json \<and> rq_query req = [] \<and>
      rq_url req = trim_end_matches (\<lambda>c. c = CHR ''/'') (s3_endpoint settings) @ ''/'' @ s3_bucket settings @
        ''/proofs/OPENPOOL-1/'' @ hash @ ''/proof.json'' \<and>
      (\<exists>day amz_date host retention. map_of (rq_headers req) ''authorization'' = Some (authorization env settings day amz_date
        (canonical_request (''/'' @ s3_bucket settings @ ''/proofs/OPENPOOL-1/'' @ hash @ ''/proof.json'')
          (canonical_headers host (se_hex_encode env (as_bytes (se_sha env json))) amz_date retention)
          (se_hex_encode env (as_bytes (se_sha env json))))) \<and>
        se_url_host env (rq_url req) = Ok (Some host) \<and> map_of (rq_headers req) ''x-amz-date'' = Some amz_date \<and>
        map_of (rq_headers req) ''x-amz-object-lock-retain-until-date'' = Some retention) \<and>
      map_of (rq_headers req) ''if-none-match'' = Some ''*'' \<and>
      map_of (rq_headers req) ''x-amz-object-lock-mode'' = Some ''COMPLIANCE'' \<and>
      map_of (rq_headers req) ''x-amz-content-sha256'' = Some (se_hex_encode env (as_bytes (se_sha env json))) \<and>
      map_of (rs_headers r) ''x-amz-version-id'' = Some (pb_version_id p) \<and>
      (\<exists>etag. map_of (rs_headers r) ''etag'' = Some etag \<and> pb_etag p = trim_matches (\<lambda>c. c = CHR 0x22) etag)) \<and>
    pb_version_id p \<noteq> [] \<and> length hash = 64 \<and> list_all is_ascii_hexdigit hash \<and>
    pb_uri p = ''s3://'' @ s3_bucket settings @ ''/proofs/OPENPOOL-1/'' @ hash @ ''/proof.json'' \<and>
    (publish_immutable env' client' settings now' hash' json' = Ok p' \<longrightarrow> pb_uri p' = pb_uri p \<longrightarrow> hash' = hash)"
proof -
  have uri: "pb_uri q = ''s3://'' @ s3_bucket settings @ ''/proofs/OPENPOOL-1/'' @ h @ ''/proof.json'' \<and>
      length h = 64 \<and> list_all is_ascii_hexdigit h"
    if "publish_immutable e c settings t h j = Ok q" for e c t h j q
    using that unfolding publish_immutable_def
    by (auto simp: bindR_eq_Ok map_err_eq_Ok ok_or_eq_Ok object_key_Ok Let_def split: if_splits)
  define payload_hash where "payload_hash = se_hex_encode env (as_bytes (se_sha env json))"
  define path where "path = ''/'' @ s3_bucket settings @ ''/proofs/OPENPOOL-1/'' @ hash @ ''/proof.json''"
  obtain req r amz_date day retention host where sent: "hc_send client req = Ok r" "200 \<le> rs_status r" "rs_status r < 300"
    "rq_method req = ''PUT''" "rq_body req = json" "rq_query req = []"
    "rq_url req = trim_end_matches (\<lambda>c. c = CHR ''/'') (s3_endpoint settings) @ path"
    "map_of (rq_headers req) ''if-none-match'' = Some ''*''"
    "map_of (rq_headers req) ''x-amz-object-lock-mode'' = Some ''COMPLIANCE''"
    "map_of (rq_headers req) ''x-amz-content-sha256'' = Some payload_hash"
    "map_of (rq_headers req) ''authorization'' = Some (authorization env settings day amz_date
       (canonical_request path (canonical_headers host payload_hash amz_date retention) payload_hash))"
    "se_url_host env (rq_url req) = Ok (Some host)" "map_of (rq_headers req) ''x-amz-date'' = Some amz_date"
    "map_of (rq_headers req) ''x-amz-object-lock-retain-until-date'' = Some retention"
    and version: "header_value ''x-amz-version-id'' (rs_headers r) = Some (pb_version_id p)"
    and etag: "\<exists>etag. header_value ''etag'' (rs_headers r) = Some etag \<and> pb_etag p = trim_matches (\<lambda>c. c = CHR 0x22) etag"
    using assms unfolding publish_immutable_def payload_hash_def path_def
    by (auto simp: bindR_eq_Ok map_err_eq_Ok ok_or_eq_Ok object_key_Ok Let_def is_success_def split: if_splits)
  moreover from version have "map_of (rs_headers r) ''x-amz-version-id'' = Some (pb_version_id p)" "pb_version_id p \<noteq> []"
    by (auto simp: header_value_def header_str_def header_to_str_def bind_eq_Some_conv split: if_splits)
  moreover from etag have "\<exists>etag. map_of (rs_headers r) ''etag'' = Some etag \<and> pb_etag p = trim_matches (\<lambda>c. c = CHR 0x22) etag"
    by (auto simp: header_value_def header_str_def header_to_str_def bind_eq_Some_conv split: if_splits)
  moreover have "hash' = hash" if "publish_immutable env' client' settings now' hash' json' = Ok p'" "pb_uri p' = pb_uri p"
    using uri [OF assms] uri [OF that(1)] that(2) by simp
  ultimately show ?thesis
    using uri [OF assms] unfolding payload_hash_def path_def by blast
qed

definition sample_env :: s3_env where
  "sample_env = \<lparr>se_format_amz = (\<lambda>_. Ok ''20250101T000000Z''), se_format_day = (\<lambda>_. Ok ''20250101''),
     se_format_rfc3339 = (\<lambda>_. Ok ''2032-01-01T00:00:00Z''), se_plus_days = (\<lambda>t d. t + d * 86400000000000),
     se_url_host = (\<lambda>_. Ok (Some ''s3.test'')), se_sha = (\<lambda>_. ZERO_HASH), se_hmac = (\<lambda>_ _. [1]), se_hex_encode = (\<lambda>_. ''aa'')\<rparr>"

definition sample_settings :: S3ProofStoreSettings where
  "sample_settings = \<lparr>s3_endpoint = ''https://s3.test/'', s3_region = ''eu'', s3_bucket = ''b'', s3_access_key_id = ''k'',
     s3_secret_access_key = ''s'', s3_retention_days = 2555\<rparr>"

definition sample_store_client :: http_client where
  "sample_store_client = \<lparr>hc_send = (\<lambda>_. Ok \<lparr>rs_status = 200,
      rs_headers = [(''x-amz-version-id'', ''v1''), (''etag'', CHR 0x22 # ''e'' @ [CHR 0x22])], rs_text = Ok []\<rparr>),
     hc_status_error = (\<lambda>_. [])\<rparr>"

lemma sample_publish:
  "publish_immutable sample_env sample_store_client sample_settings 0 (replicate 64 CHR ''a'') [1] =
     Ok \<lparr>pb_uri = ''s3://b/proofs/OPENPOOL-1/'' @ replicate 64 CHR ''a'' @ ''/proof.json'', pb_version_id = ''v1'', pb_etag = ''e''\<rparr>"
proof -
  have "object_key (replicate 64 CHR ''a'') = Ok (''proofs/OPENPOOL-1/'' @ replicate 64 CHR ''a'' @ ''/proof.json'')"
    by (simp add: object_key_Ok list_all_iff is_ascii_hexdigit_def)
  then show ?thesis
    by (simp add: publish_immutable_def sample_env_def sample_store_client_def sample_settings_def is_success_def
        header_value_def header_str_def header_to_str_def trim_matches_def trim_end_matches_def Let_def)
qed

theorem publication_immutable_object_witness:
  "\<exists>p. publish_immutable sample_env sample_store_client sample_settings 0 (replicate 64 CHR ''a'') [1] = Ok p \<and> pb_version_id p \<noteq> []"
  using publication_immutable_object [OF sample_publish] sample_publish by blast

end
