(* ===== verification/Address_Cipher.thy ===== *)
theory Address_Cipher
  imports Text
begin

text \<open>
  The encryption of payment addresses at rest: \<open>AddressCipher\<close> of \<open>crates/openpool-api/src/lib.rs\<close>. The
  AEAD (crate \<open>aes_gcm\<close>) and base64 are parameters; the nonce drawn from the operating system is an
  argument. A string is valid UTF-8 by the invariant of \<open>str\<close>, and \<open>String::from_utf8\<close> tests it.
\<close>

section \<open>UTF-8\<close>

definition is_cont :: "u8 \<Rightarrow> bool" where
  "is_cont b \<longleftrightarrow> 0x80 \<le> b \<and> b \<le> 0xBF"

text \<open>The well-formed byte sequences of the Unicode standard, as \<open>core::str::from_utf8\<close> accepts them.\<close>

fun utf8_valid :: "bytes \<Rightarrow> bool" where
  "utf8_valid [] = True"
| "utf8_valid (a # s) =
     (if a < 0x80 then utf8_valid s
      else if 0xC2 \<le> a \<and> a \<le> 0xDF then
        (case s of b # s' \<Rightarrow> is_cont b \<and> utf8_valid s' | _ \<Rightarrow> False)
      else if 0xE0 \<le> a \<and> a \<le> 0xEF then
        (case s of b # c # s' \<Rightarrow>
           is_cont b \<and> is_cont c \<and> (a = 0xE0 \<longrightarrow> 0xA0 \<le> b) \<and> (a = 0xED \<longrightarrow> b \<le> 0x9F) \<and> utf8_valid s'
         | _ \<Rightarrow> False)
      else if 0xF0 \<le> a \<and> a \<le> 0xF4 then
        (case s of b # c # d # s' \<Rightarrow>
           is_cont b \<and> is_cont c \<and> is_cont d \<and> (a = 0xF0 \<longrightarrow> 0x90 \<le> b) \<and> (a = 0xF4 \<longrightarrow> b \<le> 0x8F) \<and> utf8_valid s'
         | _ \<Rightarrow> False)
      else False)"

definition bytes_str :: "bytes \<Rightarrow> string" where
  "bytes_str bs = map (\<lambda>b. char_of (unat b)) bs"

definition from_utf8 :: "bytes \<Rightarrow> string option" where
  "from_utf8 bs = (if utf8_valid bs then Some (bytes_str bs) else None)"

lemma unat_of_char: "unat (of_char c :: u8) = of_char c"
proof -
  have "of_char c mod 256 = (of_char c :: nat)"
    by (rule of_char_mod_256)
  then have "unat (of_nat (of_char c) :: u8) = of_char c"
    unfolding unat_of_nat by simp
  then show ?thesis
    by (simp only: of_nat_of_char)
qed

lemma bytes_str_str_bytes [simp]: "bytes_str (str_bytes s) = s"
  by (simp add: bytes_str_def str_bytes_def unat_of_char comp_def)

lemma ascii_utf8_valid: "\<forall>b \<in> set bs. b < 0x80 \<Longrightarrow> utf8_valid bs"
  by (induction bs) auto

section \<open>The cipher\<close>

datatype ApiStartupError = InvalidEncryptionKey | UnsupportedCiphertext

fun startup_error_text :: "ApiStartupError \<Rightarrow> string" where
  "startup_error_text InvalidEncryptionKey = ''ADDRESS_ENCRYPTION_KEY must be base64-encoded 32-byte key material''"
| "startup_error_text UnsupportedCiphertext = ''encrypted payment address uses an unsupported key or format''"

text \<open>\<open>Aes256Gcm\<close>: \<open>encrypt key nonce plaintext\<close> and \<open>decrypt key nonce ciphertext\<close>.\<close>

record aead =
  ae_encrypt :: "bytes \<Rightarrow> bytes \<Rightarrow> bytes \<Rightarrow> bytes option"
  ae_decrypt :: "bytes \<Rightarrow> bytes \<Rightarrow> bytes \<Rightarrow> bytes option"

text \<open>What its documentation promises: decryption inverts encryption, and a ciphertext carries a tag.\<close>

definition aead_ok :: "aead \<Rightarrow> bool" where
  "aead_ok a \<longleftrightarrow> (\<forall>key nonce m c. ae_encrypt a key nonce m = Some c \<longrightarrow> ae_decrypt a key nonce c = Some m \<and> c \<noteq> [])"

definition from_key_bytes :: "bytes \<Rightarrow> bytes option" where
  "from_key_bytes value = (if length value = 32 then Some value else None)"

definition from_base64 :: "(string \<Rightarrow> string + bytes) \<Rightarrow> string \<Rightarrow> ApiStartupError + bytes" where
  "from_base64 decode value =
     bindR (map_err (\<lambda>_. InvalidEncryptionKey) (decode value)) (\<lambda>bytes.
       ok_or (from_key_bytes bytes) InvalidEncryptionKey)"

definition PREFIX :: bytes where
  "PREFIX = str_bytes ''OPENPOOL-AEAD-V1'' @ [0]"

text \<open>\<open>None\<close> is the internal error \<open>could not encrypt payment address\<close>.\<close>

definition encrypt :: "aead \<Rightarrow> bytes \<Rightarrow> bytes \<Rightarrow> string \<Rightarrow> bytes option" where
  "encrypt a key nonce value =
     map_option (\<lambda>ciphertext. PREFIX @ nonce @ ciphertext) (ae_encrypt a key nonce (str_bytes value))"

definition decrypt :: "aead \<Rightarrow> bytes \<Rightarrow> bytes \<Rightarrow> ApiStartupError + string" where
  "decrypt a key value =
     (if take (length PREFIX) value \<noteq> PREFIX \<or> length value \<le> length PREFIX + 12 then Err UnsupportedCiphertext
      else
        let rest = drop (length PREFIX) value; nonce = take 12 rest; ciphertext = drop 12 rest in
        bindR (ok_or (ae_decrypt a key nonce ciphertext) UnsupportedCiphertext) (\<lambda>plaintext.
          ok_or (from_utf8 plaintext) UnsupportedCiphertext))"

section \<open>Properties\<close>

text \<open>C40. An address encrypted under a key with a 12-byte nonce decrypts under that key to the same address, and
  bytes without the version marker, or too short to hold a nonce and a ciphertext, are refused.\<close>

theorem address_roundtrip:
  assumes "aead_ok a" and "length nonce = 12" and "utf8_valid (str_bytes address)"
    and "encrypt a key nonce address = Some ct"
  shows "decrypt a key ct = Ok address \<and>
    (\<forall>v. take 17 v \<noteq> PREFIX \<or> length v \<le> 29 \<longrightarrow> decrypt a key v = Err UnsupportedCiphertext)"
proof -
  have p: "length PREFIX = 17"
    by (simp add: PREFIX_def)
  from assms(4) obtain c where c: "ae_encrypt a key nonce (str_bytes address) = Some c" and ct: "ct = PREFIX @ nonce @ c"
    by (auto simp: encrypt_def)
  have d: "ae_decrypt a key nonce c = Some (str_bytes address)" "c \<noteq> []"
    using assms(1) c by (auto simp: aead_ok_def)
  have "decrypt a key ct = Ok address"
    using d assms(2,3) by (simp add: decrypt_def ct p from_utf8_def)
  then show ?thesis
    by (auto simp: decrypt_def p)
qed

definition sample_aead :: aead where
  "sample_aead = \<lparr>ae_encrypt = (\<lambda>key nonce m. Some (m @ replicate 16 0)),
     ae_decrypt = (\<lambda>key nonce c. Some (take (length c - 16) c))\<rparr>"

theorem address_roundtrip_witness:
  "\<exists>ct. encrypt sample_aead (replicate 32 1) (replicate 12 2) ''a@b'' = Some ct \<and>
     decrypt sample_aead (replicate 32 1) ct = Ok ''a@b''"
proof -
  have ok: "aead_ok sample_aead"
    by (simp add: aead_ok_def sample_aead_def)
  have u: "utf8_valid (str_bytes ''a@b'')"
    by (simp add: str_bytes_def)
  obtain ct where "encrypt sample_aead (replicate 32 1) (replicate 12 2) ''a@b'' = Some ct"
    by (simp add: encrypt_def sample_aead_def)
  with address_roundtrip [OF ok _ u this] show ?thesis
    by simp
qed

end
