(* ===== verification/Worker.thy ===== *)
theory Worker
  imports Process Bitcoin Payments Proof_Storage Address_Cipher
begin

text \<open>
  The background worker, \<open>crates/openpool-worker/src/main.rs\<close>: the executor loop and one handler per job
  kind, as processes on the store. Plain word addition wraps, as in a release build. The start-up code in \<open>main\<close>, which reads the environment and
  builds the services, and logging are left out.
\<close>

section \<open>Errors of a handler\<close>

text \<open>A handler's \<open>Err(String)\<close>, or a panic, which takes the executor task down.\<close>

datatype Abort = Failed string | Panic string

type_synonym 'a work = "(Abort, 'a) process"

definition abort_of :: "world_env \<Rightarrow> PersistenceError \<Rightarrow> Abort" where
  "abort_of env e =
     (case e of Panicked m \<Rightarrow> Panic m | _ \<Rightarrow> Failed (persistence_error_text (we_sql_text env) e))"

abbreviation liftW :: "string + 'a \<Rightarrow> 'a work" where
  "liftW r \<equiv> liftE (map_err Failed r)"

abbreviation askW :: "(nat \<Rightarrow> string + 'a) \<Rightarrow> 'a work" where
  "askW f \<equiv> askE (\<lambda>k. map_err Failed (f k))"

text \<open>\<open>persistence.op(..).await.map_err(|e| e.to_string())?\<close>.\<close>

abbreviation storeW :: "world_env \<Rightarrow> (nat \<Rightarrow> db \<Rightarrow> PersistenceError + 'a \<times> db) \<Rightarrow> 'a work" where
  "storeW env \<equiv> storeE (abort_of env) env"

record WorkerServices =
  ws_provider :: PaymentProvider
  ws_bitcoin :: "BitcoinSource option"
  ws_resolver :: "LightningAddressResolver option"
  ws_decrypt :: "bytes \<Rightarrow> ApiStartupError + string"
  ws_platform_address :: "string option"
  ws_proof_store :: "(nat \<Rightarrow> string \<Rightarrow> bytes \<Rightarrow> ProofStorageError + PublishedProof) option"

text \<open>\<open>job.payload.get(key).and_then(as_str).ok_or(missing)?.parse::<Uuid>().map_err(invalid)?\<close>.\<close>

definition job_uuid :: "world_env \<Rightarrow> string \<Rightarrow> ClaimedJob \<Rightarrow> uuid work" where
  "job_uuid env key job =
     liftW (bindR (ok_or (Option.bind (json_get key (cj_payload job)) json_as_str)
         (cj_kind job @ '' missing '' @ key)) (\<lambda>text.
       ok_or (x_uuid_parse (we_x env) text) (''invalid '' @ key)))"

section \<open>The draw job\<close>

text \<open>
  The search for the close block: downwards from the tip to the first block before the cutoff, then one
  block up.
\<close>

function close_search ::
  "(nat \<Rightarrow> u64 \<Rightarrow> BitcoinError + Block) \<Rightarrow> timestamp \<Rightarrow> u64 \<Rightarrow> nat \<Rightarrow> u64 \<Rightarrow> (string + Block) \<times> nat" where
  "close_search block_at end_time tip k height =
     (case block_at k height of
        Err e \<Rightarrow> (Err (bitcoin_error_text e), Suc k)
      | Ok block \<Rightarrow>
          if bk_time block \<ge> end_time then
            (if height = 0 then (Err ''no block exists before raffle cutoff'', Suc k)
             else close_search block_at end_time tip (Suc k) (height - 1))
          else if height = tip then
            (Err ''no canonical close block has been mined after the raffle cutoff'', Suc k)
          else (map_err bitcoin_error_text (block_at (Suc k) (height + 1)), Suc (Suc k)))"
  by pat_completeness auto

termination close_search
proof (relation "measure (\<lambda>(_, _, _, _, height). unat height)")
  fix k and height :: u64 and b :: Block and end_time tip
    and block_at :: "nat \<Rightarrow> u64 \<Rightarrow> BitcoinError + Block"
  assume "height \<noteq> 0"
  then show "((block_at, end_time, tip, Suc k, height - 1), block_at, end_time, tip, k, height)
      \<in> measure (\<lambda>(_, _, _, _, height). unat height)"
    by (simp add: unat_minus_one)  (simp add: unat_gt_0)
qed simp

declare close_search.simps [simp del]

definition close_block :: "BitcoinSource \<Rightarrow> timestamp \<Rightarrow> u64 \<Rightarrow> Block work" where
  "close_block source end_time tip w =
     (case close_search (bs_block_at source) end_time tip (wd_calls w) tip of
        (r, k) \<Rightarrow> (map_err Failed r, w\<lparr>wd_calls := k\<rparr>))"

definition record_block :: "world_env \<Rightarrow> Block \<Rightarrow> unit work" where
  "record_block env b =
     storeW env (\<lambda>k. record_canonical_block (we_x env) (we_now env k) (bk_height b) (bk_hash b)
       (bk_previous_hash b) (bk_time b))"

definition block_matches :: "world_env \<Rightarrow> Block \<Rightarrow> bool work" where
  "block_matches env b = storeW env (\<lambda>k db. reading (canonical_block_matches (bk_height b) (bk_hash b) db) db)"

definition raffle_draw :: "world_env \<Rightarrow> WorkerServices \<Rightarrow> ClaimedJob \<Rightarrow> unit work" where
  "raffle_draw env services job =
     bindW (liftW (ok_or (ws_bitcoin services) ''Bitcoin source is not configured'')) (\<lambda>source.
     bindW (job_uuid env ''raffle_id'' job) (\<lambda>raffle_id.
     bindW (storeW env (\<lambda>k db. reading (frozen_draw_context raffle_id db) db)) (\<lambda>context.
     bindW (askW (\<lambda>k. map_err bitcoin_error_text (bs_tip_height source k))) (\<lambda>tip.
     bindW (close_block source (fd_end_time context) tip) (\<lambda>close.
     bindW (liftW (if fd_randomness_delay_blocks context < 0 then Err ''invalid randomness delay''
                   else Ok (of_int (fd_randomness_delay_blocks context) :: u64))) (\<lambda>delay.
     let randomness_height = bk_height close + delay in
     if tip < randomness_height + 1 then liftW (Err ''randomness block lacks one confirmation'')
     else
     bindW (askW (\<lambda>k. map_err bitcoin_error_text (bs_block_at source k randomness_height))) (\<lambda>randomness.
     bindW (record_block env close) (\<lambda>_.
     bindW (record_block env randomness) (\<lambda>_.
     bindW (block_matches env close) (\<lambda>close_ok.
     bindW (if \<not> close_ok then returnW False else block_matches env randomness) (\<lambda>both_ok.
     if \<not> both_ok then liftW (Err ''selected Bitcoin blocks were displaced by a reorg'')
     else
     bindW (storeW env (\<lambda>k. create_draw_and_payouts (we_x env) (we_ids env k) (we_now env k) raffle_id
         (bk_height close) (bk_hash close) (bk_height randomness) (bk_hash randomness))) (\<lambda>_.
       returnW ()))))))))))))"

section \<open>The proof job\<close>

definition proof_generate :: "world_env \<Rightarrow> WorkerServices \<Rightarrow> ClaimedJob \<Rightarrow> unit work" where
  "proof_generate env services job =
     bindW (job_uuid env ''raffle_id'' job) (\<lambda>raffle_id.
     bindW (storeW env (\<lambda>k. generate_terminal_proof (we_x env) (we_ids env k) (we_now env k) raffle_id)) (\<lambda>document.
     bindW (liftW (ok_or (ws_proof_store services) ''immutable proof storage is not configured'')) (\<lambda>publish.
     bindW (liftW (we_to_vec env document)) (\<lambda>canonical_json.
     bindW (askW (\<lambda>k. map_err proof_storage_error_text
         (publish k (to_hex (x_hex_encode (we_x env)) (pd_proof_hash document)) canonical_json))) (\<lambda>publication.
       storeW env (\<lambda>k. record_proof_publication (we_now env k) raffle_id (pb_uri publication)
         (pb_version_id publication) (pb_etag publication)))))))"

section \<open>The payout job\<close>

definition recipient_address :: "world_env \<Rightarrow> WorkerServices \<Rightarrow> ClaimedPayout \<Rightarrow> string work" where
  "recipient_address env services payout =
     (if cp_recipient_type payout = RPlatform then
        liftW (ok_or (ws_platform_address services) ''platform Lightning address is not configured'')
      else
        bindW (storeW env (\<lambda>k db. reading (payout_recipient_ciphertext payout db) db)) (\<lambda>found.
        bindW (liftW (ok_or found ''payout recipient has no address'')) (\<lambda>ciphertext.
          liftW (map_err startup_error_text (ws_decrypt services ciphertext)))))"

definition fail_payoutW :: "world_env \<Rightarrow> string \<Rightarrow> uuid \<Rightarrow> string \<Rightarrow> unit work" where
  "fail_payoutW env worker_id payout_id reason w =
     (case transact env (\<lambda>k. fail_payout payout_id worker_id reason) w of (_, w') \<Rightarrow> (Err (Failed reason), w'))"

definition payout_request :: "ClaimedPayout \<Rightarrow> ResolvedInvoice \<Rightarrow> PayoutRequest" where
  "payout_request payout invoice =
     \<lparr>prq_payout_id = cp_id payout, prq_bolt11 = ri_bolt11 invoice, prq_amount_sats = cp_amount_sats payout,
      prq_idempotency_key = cp_idempotency_key payout\<rparr>"

text \<open>Handing a request to the provider.\<close>

definition pay_invoice :: "WorkerServices \<Rightarrow> PayoutRequest \<Rightarrow> (PaymentError + PayoutAttempt) work" where
  "pay_invoice services request w =
     (Ok (pv_pay_invoice (ws_provider services) (wd_calls w) request),
      w\<lparr>wd_calls := Suc (wd_calls w), wd_paid := wd_paid w @ [request]\<rparr>)"

definition pay_claimed :: "world_env \<Rightarrow> WorkerServices \<Rightarrow> LightningAddressResolver \<Rightarrow> string \<Rightarrow> ClaimedPayout \<Rightarrow> unit work" where
  "pay_claimed env services resolve worker_id payout =
     bindW (recipient_address env services payout) (\<lambda>address.
     bindW (askW (\<lambda>k. map_err payment_error_text (resolve k address (cp_amount_sats payout)))) (\<lambda>invoice.
     if ri_amount_sats invoice \<noteq> cp_amount_sats payout then
       fail_payoutW env worker_id (cp_id payout) ''resolver returned incorrect amount''
     else
     bindW (pay_invoice services (payout_request payout invoice)) (\<lambda>paid.
       case paid of
         Ok attempt \<Rightarrow>
           bindW (storeW env (\<lambda>k. settle_payout (we_x env) (we_ids env k) (we_now env k) (cp_id payout) worker_id
             (pat_provider_reference attempt))) (\<lambda>_. returnW ())
       | Err error \<Rightarrow> fail_payoutW env worker_id (cp_id payout) (payment_error_text error))))"

definition claim_next :: "world_env \<Rightarrow> string \<Rightarrow> RaffleId \<Rightarrow> ClaimedPayout option work" where
  "claim_next env worker_id raffle_id =
     storeW env (\<lambda>k. claim_payout (we_payout_locked env k) (we_now env k) raffle_id worker_id)"

text \<open>The \<open>while let\<close> loop; \<open>None\<close> when the fuel runs out before it ends.\<close>

fun payout_loop ::
  "nat \<Rightarrow> world_env \<Rightarrow> WorkerServices \<Rightarrow> LightningAddressResolver \<Rightarrow> string \<Rightarrow> RaffleId \<Rightarrow> world
     \<Rightarrow> ((Abort + unit) \<times> world) option" where
  "payout_loop 0 env services resolve worker_id raffle_id w = None"
| "payout_loop (Suc fuel) env services resolve worker_id raffle_id w =
     (case claim_next env worker_id raffle_id w of
        (Err e, w) \<Rightarrow> Some (Err e, w)
      | (Ok None, w) \<Rightarrow> Some (Ok (), w)
      | (Ok (Some payout), w) \<Rightarrow>
          (case pay_claimed env services resolve worker_id payout w of
             (Err e, w) \<Rightarrow> Some (Err e, w)
           | (Ok _, w) \<Rightarrow> payout_loop fuel env services resolve worker_id raffle_id w))"

definition payout_execute ::
  "nat \<Rightarrow> world_env \<Rightarrow> WorkerServices \<Rightarrow> string \<Rightarrow> ClaimedJob \<Rightarrow> world \<Rightarrow> ((Abort + unit) \<times> world) option" where
  "payout_execute fuel env services worker_id job w =
     (case bindW (job_uuid env ''raffle_id'' job) (\<lambda>raffle_id.
           bindW (liftW (ok_or (ws_resolver services) ''Lightning Address resolver is not configured'')) (\<lambda>resolve.
             returnW (raffle_id, resolve))) w of
        (Err e, w) \<Rightarrow> Some (Err e, w)
      | (Ok (raffle_id, resolve), w) \<Rightarrow> payout_loop fuel env services resolve worker_id raffle_id w)"

section \<open>The close job\<close>

definition raffle_close :: "world_env \<Rightarrow> ClaimedJob \<Rightarrow> unit work" where
  "raffle_close env job =
     bindW (job_uuid env ''raffle_id'' job) (\<lambda>raffle_id.
     bindW (storeW env (\<lambda>k db. reading (Ok (pending_invoices raffle_id db)) db)) (\<lambda>pending.
     if pending > 0 then liftW (Err ''eligible invoices are still awaiting reconciliation'')
     else
     bindW (storeW env (\<lambda>k. freeze_raffle (we_x env) (we_ids env k) (we_now env k) raffle_id)) (\<lambda>_. returnW ())))"

section \<open>The payment job\<close>

text \<open>
  Settling, and the refund of a settlement that comes after the raffle closed. \<open>Uuid::new_v4()\<close> for the
  entry is one of the identifiers of the call; \<open>OffsetDateTime::now_utc()\<close> is the worker's clock, which
  need not agree with the time of the transaction.
\<close>

definition entry_uuid :: "world_env \<Rightarrow> nat \<Rightarrow> uuid" where
  "entry_uuid env k = we_ids env k 9"

definition settle_or_refund :: "world_env \<Rightarrow> InvoiceId \<Rightarrow> unit work" where
  "settle_or_refund env invoice_id w =
     (case transact env (\<lambda>k. settle_invoice_and_append_entry (we_x env) (we_ids env k) (we_now env k) invoice_id
         (entry_uuid env k) (we_clock env k)) w of
        (Ok _, w) \<Rightarrow> (Ok (), w)
      | (Err RaffleNotOpen, w) \<Rightarrow>
          bindW (storeW env (\<lambda>k. mark_late_settlement_for_refund (we_x env) (we_ids env k) (we_now env k) invoice_id))
            (\<lambda>_. returnW ()) w
      | (Err e, w) \<Rightarrow> (Err (abort_of env e), w))"

definition payment_reconcile :: "world_env \<Rightarrow> WorkerServices \<Rightarrow> ClaimedJob \<Rightarrow> unit work" where
  "payment_reconcile env services job =
     bindW (job_uuid env ''invoice_id'' job) (\<lambda>invoice_id.
     bindW (storeW env (\<lambda>k db. reading (collection_payment_reference invoice_id db) db)) (\<lambda>found.
       case found of
         None \<Rightarrow> returnW ()
       | Some reference \<Rightarrow>
           bindW (askW (\<lambda>k. map_err payment_error_text (pv_get_payment (ws_provider services) k reference))) (\<lambda>status.
             case pst_state status of
               PmtSettled \<Rightarrow> settle_or_refund env invoice_id
             | PmtPending \<Rightarrow> liftW (Err ''payment is not settled yet'')
             | _ \<Rightarrow> storeW env (\<lambda>k. mark_collection_uncollectible invoice_id))))"

section \<open>The executor\<close>

definition reconcile_payment ::
  "nat \<Rightarrow> world_env \<Rightarrow> WorkerServices \<Rightarrow> string \<Rightarrow> ClaimedJob \<Rightarrow> world \<Rightarrow> ((Abort + unit) \<times> world) option" where
  "reconcile_payment fuel env services worker_id job w =
     (if cj_kind job = ''raffle.draw'' then Some (raffle_draw env services job w)
      else if cj_kind job = ''proof.generate'' then Some (proof_generate env services job w)
      else if cj_kind job = ''payout.execute'' then payout_execute fuel env services worker_id job w
      else if cj_kind job = ''raffle.close'' then Some (raffle_close env job w)
      else if cj_kind job \<noteq> ''payment.reconcile'' then Some (Ok (), w)
      else Some (payment_reconcile env services job w))"

text \<open>What became of one turn of the executor loop.\<close>

datatype Turn = Idle | ClaimFailed | Finished | Rescheduled string | Crashed string

definition run_turn ::
  "nat \<Rightarrow> world_env \<Rightarrow> WorkerServices \<Rightarrow> string \<Rightarrow> world \<Rightarrow> (Turn \<times> world) option" where
  "run_turn fuel env services worker_id w =
     (let w1 = snd (transact env (\<lambda>k. schedule_due_closes (we_x env) (we_ids env k) (we_now env k)) w) in
      case transact env (\<lambda>k. claim_job (we_job_locked env k) (we_now env k) worker_id 60) w1 of
        (Err _, w) \<Rightarrow> Some (ClaimFailed, w)
      | (Ok None, w) \<Rightarrow> Some (Idle, w)
      | (Ok (Some job), w) \<Rightarrow>
          (case reconcile_payment fuel env services worker_id job w of
             None \<Rightarrow> None
           | Some (Ok _, w) \<Rightarrow>
               Some (Finished, snd (transact env (\<lambda>k. succeed (we_now env k) (cj_id job) worker_id) w))
           | Some (Err (Failed error), w) \<Rightarrow>
               Some (Rescheduled error, snd (transact env (\<lambda>k. fail_or_retry (we_now env k) job worker_id 15 error) w))
           | Some (Err (Panic m), w) \<Rightarrow> Some (Crashed m, w)))"

text \<open>The first \<open>n\<close> turns of \<open>run_jobs\<close>; a panic ends the task.\<close>

fun run_jobs :: "nat \<Rightarrow> nat \<Rightarrow> world_env \<Rightarrow> WorkerServices \<Rightarrow> string \<Rightarrow> world \<Rightarrow> world option" where
  "run_jobs 0 fuel env services worker_id w = Some w"
| "run_jobs (Suc n) fuel env services worker_id w =
     (case run_turn fuel env services worker_id w of
        None \<Rightarrow> None
      | Some (Crashed m, w) \<Rightarrow> Some w
      | Some (_, w) \<Rightarrow> run_jobs n fuel env services worker_id w)"

end
