(* ===== verification/Worker_Runs.thy ===== *)
theory Worker_Runs
  imports Worker
begin

text \<open>
  Triples of the worker's handlers: each moves the database along transactions of the store only, whatever
  the outside answers and whatever other processes do in between.
\<close>

section \<open>The handlers\<close>

lemma runs_job_uuid [run_rules]: "runs env (\<lambda>_. True) (job_uuid env key job)"
  by (simp add: job_uuid_def run_rules)

text \<open>A source the draw can rely on, with heights that fit the columns.\<close>

definition source_ok :: "BitcoinSource \<Rightarrow> bool" where
  "source_ok source \<longleftrightarrow> bitcoin_source source \<and> (\<forall>k tip. bs_tip_height source k = Ok tip \<longrightarrow> unat tip < 2 ^ 63)"

lemma close_search_height:
  assumes "\<And>k h b. block_at k h = Ok b \<Longrightarrow> bk_height b = h" and "height \<le> tip"
    and "close_search block_at end_time tip k height = (Ok b, k')"
  shows "bk_height b \<le> tip"
  using assms(2,3)
proof (induction "unat height" arbitrary: k height rule: less_induct)
  case less
  from less.prems(2) obtain block where block: "block_at k height = Ok block"
    by (auto simp: close_search.simps [of _ _ _ _ height] split: sum.splits)
  note unfold = less.prems(2) [unfolded close_search.simps [of _ _ _ _ height] block]
  show ?case
  proof (cases "end_time \<le> bk_time block")
    case True
    with unfold have nz: "height \<noteq> 0" and rec: "close_search block_at end_time tip (Suc k) (height - 1) = (Ok b, k')"
      by (auto split: if_splits)
    have "unat (height - 1) < unat height" "height - 1 \<le> tip"
      using nz less.prems(1) by (simp_all add: unat_minus_one unat_gt_0 word_le_nat_alt)
    then show ?thesis
      using less.hyps rec by blast
  next
    case False
    with unfold have "height \<noteq> tip" "block_at (Suc k) (height + 1) = Ok b"
      by (auto simp: map_err_eq_Ok split: if_splits)
    then have "bk_height b = height + 1" and "height < tip"
      using assms(1) less.prems(1) by auto
    then show ?thesis
      by (simp add: inc_le)
  qed
qed

lemma runs_close_block:
  assumes "bitcoin_source source"
  shows "runs env (\<lambda>b. bk_height b \<le> tip) (close_block source end_time tip)"
  unfolding runs_def close_block_def
  using close_search_height [OF bitcoin_source.block_height [OF assms] order_refl]
  by (auto simp: map_err_eq_Ok split: prod.splits)

lemma runs_record_block: "env_ok env \<Longrightarrow> runs env (\<lambda>_. True) (record_block env b)"
  unfolding record_block_def by (rule runs_store) (auto intro: db_step.record_canonical_block)

lemma runs_block_matches: "env_ok env \<Longrightarrow> runs env (\<lambda>_. True) (block_matches env b)"
  unfolding block_matches_def by (rule runs_read) simp_all

lemma frozen_delay:
  assumes "db_ok x db" and "frozen_draw_context rid db = Ok c"
  shows "0 < fd_randomness_delay_blocks c" and "fd_randomness_delay_blocks c < 2 ^ 31"
proof -
  from assms(2) obtain r where r: "r \<in> set (raffles db)" "fd_randomness_delay_blocks c = r_randomness_delay_blocks r"
    by (auto simp: frozen_draw_context_def bindR_eq_Ok ok_or_eq_Ok dest!: fetch_optional_Some)
  have "raffle_check r"
    using store_okD(1) [of x db] assms(1) r(1) by (auto simp: db_ok_def table_ok_def)
  then show "0 < fd_randomness_delay_blocks c" and "fd_randomness_delay_blocks c < 2 ^ 31"
    by (simp_all add: r(2) raffle_check_def integer_col_def)
qed

text \<open>The height of the randomness block neither wraps nor falls back to the close block.\<close>

lemma randomness_above:
  fixes h tip :: u64
  assumes "h \<le> tip" and "unat tip < 2 ^ 63" and "0 < d" and "d < 2 ^ 31"
  shows "h < h + of_int d"
proof -
  have d: "unat (of_int d :: u64) = nat d"
    using assms(3,4) unfolding unat_eq_nat_uint by (simp add: uint_word_of_int)
  have "unat h < 9223372036854775808"
    using assms(1,2) by (simp add: word_le_nat_alt)
  moreover have "nat d < 2147483648"
    using assms(3,4) by simp
  ultimately have "unat h + nat d < 18446744073709551616"
    by linarith
  then have "unat (h + of_int d) = unat h + nat d"
    by (simp add: unat_word_ariths d)
  then show ?thesis
    using assms(3) by (simp add: word_less_nat_alt)
qed

lemma runs_raffle_draw:
  assumes "env_ok env" and "\<forall>source. ws_bitcoin services = Some source \<longrightarrow> source_ok source"
  shows "runs env (\<lambda>_. True) (raffle_draw env services job)"
  unfolding raffle_draw_def Let_def
  apply (rule runs_bind [OF assms(1), where P = source_ok])
   apply (rule runs_lift, use assms(2) in \<open>simp add: ok_or_eq_Ok map_err_eq_Ok\<close>)[1]
  apply (rule runs_bind [OF assms(1) runs_job_uuid])
  apply (rule runs_bind [OF assms(1), where P = "\<lambda>c. 0 < fd_randomness_delay_blocks c \<and> fd_randomness_delay_blocks c < 2 ^ 31"])
   apply (rule runs_read [OF assms(1)], use frozen_delay in blast)[1]
  apply (rule runs_bind [OF assms(1), where P = "\<lambda>tip. unat tip < 2 ^ 63"])
   apply (rule runs_ask, simp add: source_ok_def map_err_eq_Ok)[1]
  apply (rule runs_bind [OF assms(1) runs_close_block], simp add: source_ok_def)
  subgoal for source rid c tip b
    apply (rule runs_bind [OF assms(1), where P = "\<lambda>d. bk_height b < bk_height b + d"])
     apply (rule runs_lift, use randomness_above [of "bk_height b" tip "fd_randomness_delay_blocks c"] in \<open>auto split: if_splits\<close>)[1]
    apply (rule runs_if [OF runs_failW])
    apply (rule runs_bind [OF assms(1), where P = "\<lambda>r. bk_height b < bk_height r"])
     apply (rule runs_ask, use bitcoin_source.block_height [of source] in \<open>fastforce simp: source_ok_def map_err_eq_Ok\<close>)[1]
    apply (rule runs_bind [OF assms(1) runs_record_block [OF assms(1)]])+
    apply (rule runs_bind [OF assms(1) runs_block_matches [OF assms(1)]])
    apply (rule runs_bind [OF assms(1), where P = "\<lambda>_. True"])
     apply (rule runs_if [OF runs_return runs_block_matches [OF assms(1)]], simp)
    apply (rule runs_if [OF runs_failW])
    apply (rule runs_bind [OF assms(1), where P = "\<lambda>_. True"])
     apply (rule runs_store [OF assms(1)], auto intro: db_step.create_draw)[1]
    by (rule runs_return) simp
  done

lemma runs_proof_generate:
  assumes "env_ok env"
  shows "runs env (\<lambda>_. True) (proof_generate env services job)"
  unfolding proof_generate_def
  apply (rule runs_bind [OF assms runs_job_uuid])
  apply (rule runs_bind [OF assms, where P = "\<lambda>_. True"])
   apply (rule runs_store [OF assms], auto intro: db_step.generate_terminal_proof)[1]
  apply (rule runs_bind [OF assms, where P = "\<lambda>_. True"], (rule runs_lift; simp))+
  apply (rule runs_bind [OF assms, where P = "\<lambda>_. True"], (rule runs_ask; simp))
  by (rule runs_store [OF assms]) (auto intro: db_step.record_proof_publication)

lemma runs_raffle_close:
  assumes "env_ok env"
  shows "runs env (\<lambda>_. True) (raffle_close env job)"
  unfolding raffle_close_def
  apply (rule runs_bind [OF assms runs_job_uuid])
  apply (rule runs_bind [OF assms, where P = "\<lambda>_. True"], rule runs_read [OF assms], simp)
  apply (rule runs_if [OF runs_failW])
  apply (rule runs_bind [OF assms, where P = "\<lambda>_. True"])
   apply (rule runs_store [OF assms], auto intro: db_step.freeze_raffle)[1]
  by (rule runs_return) simp

lemma runs_settle_or_refund:
  assumes "env_ok env"
  shows "runs env (\<lambda>_. True) (settle_or_refund env invoice_id)"
  unfolding runs_def
proof (intro allI impI)
  fix w r w'
  assume ok: "db_ok (we_x env) (wd_db w)" and s: "settle_or_refund env invoice_id w = (r, w')"
  let ?settle = "\<lambda>k. settle_invoice_and_append_entry (we_x env) (we_ids env k) (we_now env k) invoice_id
      (entry_uuid env k) (we_clock env k)"
  let ?refund = "bindW (storeW env (\<lambda>k. mark_late_settlement_for_refund (we_x env) (we_ids env k) (we_now env k) invoice_id))
      (\<lambda>_. returnW ())"
  obtain q v where q: "transact env ?settle w = (q, v)"
    by (cases "transact env ?settle w")
  have step: "db_run env (wd_db w) (wd_db v)"
    by (rule transact_run [OF assms _ ok q]) (use assms in \<open>auto simp: env_ok_def intro: db_step.settle_invoice\<close>)
  have "runs env (\<lambda>_. True) ?refund"
    by (rule runs_bind [OF assms, where P = "\<lambda>_. True"])
       (auto intro!: runs_store [OF assms] runs_return intro: db_step.mark_late_settlement)
  then have "db_run env (wd_db v) (wd_db u)" if "?refund v = (r', u)" for r' u
    using that db_run_ok [OF assms step ok] by (auto simp: runs_def)
  then have "db_run env (wd_db v) (wd_db w')"
    using s unfolding settle_or_refund_def q by (auto split: sum.splits PersistenceError.splits)
  with step show "db_run env (wd_db w) (wd_db w') \<and> (\<forall>a. r = Ok a \<longrightarrow> True)"
    by (auto intro: db_run_trans)
qed

lemma runs_payment_reconcile:
  assumes "env_ok env"
  shows "runs env (\<lambda>_. True) (payment_reconcile env services job)"
  unfolding payment_reconcile_def
  apply (rule runs_bind [OF assms runs_job_uuid])
  apply (rule runs_bind [OF assms, where P = "\<lambda>_. True"], rule runs_read [OF assms], simp)
  apply (simp split: option.splits, intro conjI allI impI)
   apply (simp add: runs_return)
  apply (rule runs_bind [OF assms, where P = "\<lambda>_. True"], (rule runs_ask; simp))
  apply (simp split: PaymentState.splits, intro conjI impI)
     apply (rule runs_fail)
    apply (rule runs_settle_or_refund [OF assms])
  by (rule runs_store [OF assms]; auto intro: db_step.mark_collection_uncollectible)+

lemma runs_recipient_address:
  assumes "env_ok env"
  shows "runs env (\<lambda>_. True) (recipient_address env services payout)"
  unfolding recipient_address_def
  apply (rule runs_if, rule runs_lift, simp)
  apply (rule runs_bind [OF assms, where P = "\<lambda>_. True"], rule runs_read [OF assms], simp)
  by (rule runs_bind [OF assms, where P = "\<lambda>_. True"]; rule runs_lift; simp)

lemma runs_fail_payout:
  assumes "env_ok env"
  shows "runs env Q (fail_payoutW env worker_id payout_id reason)"
  unfolding runs_def fail_payoutW_def
  using transact_run [OF assms, where op = "\<lambda>k. fail_payout payout_id worker_id reason"]
  by (auto split: prod.splits intro: db_step.fail_payout)

lemma runs_pay_invoice: "runs env (\<lambda>_. True) (pay_invoice services request)"
  by (auto simp: runs_def pay_invoice_def)

lemma runs_pay_claimed:
  assumes "env_ok env"
  shows "runs env (\<lambda>_. True) (pay_claimed env services resolve worker_id payout)"
  unfolding pay_claimed_def
  apply (rule runs_bind [OF assms runs_recipient_address [OF assms]])
  apply (rule runs_bind [OF assms, where P = "\<lambda>_. True"], (rule runs_ask; simp))
  apply (rule runs_if [OF runs_fail_payout [OF assms]])
  apply (rule runs_bind [OF assms runs_pay_invoice])
  apply (simp split: sum.splits, intro conjI allI impI)
   apply (rule runs_fail_payout [OF assms])
  apply (rule runs_bind [OF assms, where P = "\<lambda>_. True"])
   apply (rule runs_store [OF assms], auto intro: db_step.settle_payout)[1]
  by (rule runs_return) simp

lemma runs_claim_next: "env_ok env \<Longrightarrow> runs env (\<lambda>_. True) (claim_next env worker_id raffle_id)"
  unfolding claim_next_def by (rule runs_store) (auto intro: db_step.claim_payout)

lemma payout_loop_run:
  assumes "env_ok env" and "db_ok (we_x env) (wd_db w)"
    and "payout_loop fuel env services resolve worker_id raffle_id w = Some (r, w')"
  shows "db_run env (wd_db w) (wd_db w')"
  using assms(2,3)
proof (induction fuel arbitrary: w)
  case (Suc fuel)
  obtain c v where c: "claim_next env worker_id raffle_id w = (c, v)"
    by (cases "claim_next env worker_id raffle_id w")
  note cv = runsD [OF runs_claim_next [OF assms(1)] Suc.prems(1) c]
  note vok = db_run_ok [OF assms(1) cv Suc.prems(1)]
  show ?case
  proof (cases "\<exists>payout. c = Ok (Some payout)")
    case True
    then obtain payout where p: "c = Ok (Some payout)"
      by blast
    obtain q u where q: "pay_claimed env services resolve worker_id payout v = (q, u)"
      by (cases "pay_claimed env services resolve worker_id payout v")
    note vu = runsD [OF runs_pay_claimed [OF assms(1)] vok q]
    have "db_run env (wd_db u) (wd_db w')"
      using Suc.prems(2) Suc.IH [OF db_run_ok [OF assms(1) vu vok]] by (auto simp: c p q split: sum.splits)
    then show ?thesis
      using cv vu by (blast intro: db_run_trans)
  next
    case False
    then show ?thesis
      using Suc.prems(2) cv by (auto simp: c split: sum.splits option.splits)
  qed
qed simp

lemma reconcile_run:
  assumes "env_ok env" and "\<forall>source. ws_bitcoin services = Some source \<longrightarrow> source_ok source"
    and "db_ok (we_x env) (wd_db w)" and "reconcile_payment fuel env services worker_id job w = Some (r, w')"
  shows "db_run env (wd_db w) (wd_db w')"
proof -
  have "db_run env (wd_db w) (wd_db w')" if p: "payout_execute fuel env services worker_id job w = Some (r, w')"
  proof -
    have "db_run env (wd_db v) (wd_db w')" if "payout_loop fuel env services res worker_id rid v = Some (r, w')" "wd_db v = wd_db w" for res rid v
      using payout_loop_run [OF assms(1) _ that(1)] assms(3) that(2) by simp
    then show ?thesis
      using p by (auto simp: payout_execute_def bindW_def job_uuid_def liftE_def returnW_def split: sum.splits prod.splits)
  qed
  then show ?thesis
    using assms(4) runsD [OF runs_raffle_draw [OF assms(1,2)] assms(3)] runsD [OF runs_proof_generate [OF assms(1)] assms(3)]
      runsD [OF runs_raffle_close [OF assms(1)] assms(3)] runsD [OF runs_payment_reconcile [OF assms(1)] assms(3)]
    by (auto simp: reconcile_payment_def split: if_splits)
qed

end
