(* ===== verification/Worker_Guarantees.thy ===== *)
theory Worker_Guarantees
  imports Worker_Runs
begin

text \<open>
  What the worker guarantees: its turns are runs of the store, its payment requests match the payouts it
  has claimed, and the close block it draws on is the first block after the last one before the cutoff.
\<close>

section \<open>Turns of the executor\<close>

lemma transact_db:
  assumes "env_ok env" and "db_ok (we_x env) (wd_db w)"
    and "\<And>k db a db'. op k db = Ok (a, db') \<Longrightarrow> db_step (we_x env) db db'"
  shows "db_run env (wd_db w) (wd_db (snd (transact env op w)))"
  by (rule transact_run [OF assms(1) _ assms(2), where op = op and r = "fst (transact env op w)"])
     (simp_all add: assms(3))

lemma run_turn_run:
  assumes "env_ok env" and "\<forall>source. ws_bitcoin services = Some source \<longrightarrow> source_ok source"
    and "db_ok (we_x env) (wd_db w)" and "run_turn fuel env services worker_id w = Some (t, w')"
  shows "db_run env (wd_db w) (wd_db w')"
proof -
  let ?v = "snd (transact env (\<lambda>k. schedule_due_closes (we_x env) (we_ids env k) (we_now env k)) w)"
  have v: "db_run env (wd_db w) (wd_db ?v)"
    using assms(1,3) by (rule transact_db) (rule db_step.schedule_due_closes)
  note vok = db_run_ok [OF assms(1) v assms(3)]
  obtain c u where c: "transact env (\<lambda>k. claim_job (we_job_locked env k) (we_now env k) worker_id 60) ?v = (c, u)"
    by (cases "transact env (\<lambda>k. claim_job (we_job_locked env k) (we_now env k) worker_id 60) ?v")
  have u: "db_run env (wd_db ?v) (wd_db u)"
    using transact_run [OF assms(1) _ vok c] by (blast intro: db_step.claim_job)
  note uok = db_run_ok [OF assms(1) u vok]
  have "db_run env (wd_db u) (wd_db w')"
  proof (cases "\<exists>job. c = Ok (Some job)")
    case True
    then obtain job where job: "c = Ok (Some job)"
      by blast
    with assms(4) obtain r z where rec: "reconcile_payment fuel env services worker_id job u = Some (r, z)"
      by (auto simp: run_turn_def Let_def c split: option.splits prod.splits)
    note z = reconcile_run [OF assms(1,2) uok rec]
    note zok = db_run_ok [OF assms(1) z uok]
    have finished: "db_run env (wd_db z) (wd_db (snd (transact env (\<lambda>k. succeed (we_now env k) (cj_id job) worker_id) z)))"
      using assms(1) zok by (rule transact_db) (rule db_step.succeed)
    have again: "db_run env (wd_db z) (wd_db (snd (transact env (\<lambda>k. fail_or_retry (we_now env k) job worker_id 15 e) z)))" for e
      using assms(1) zok by (rule transact_db) (rule db_step.fail_or_retry)
    have "db_run env (wd_db z) (wd_db w')"
      using assms(4) finished again by (auto simp: run_turn_def Let_def c job rec split: sum.splits Abort.splits)
    with z show ?thesis
      by (rule db_run_trans)
  next
    case False
    then show ?thesis
      using assms(4) by (auto simp: run_turn_def Let_def c split: sum.splits option.splits)
  qed
  then show ?thesis
    using v u by (blast intro: db_run_trans)
qed

lemma run_jobs_run:
  assumes "env_ok env" and "\<forall>source. ws_bitcoin services = Some source \<longrightarrow> source_ok source"
    and "db_ok (we_x env) (wd_db w)" and "run_jobs n fuel env services worker_id w = Some w'"
  shows "db_run env (wd_db w) (wd_db w')"
  using assms(3,4)
proof (induction n arbitrary: w)
  case (Suc n)
  from Suc.prems(2) obtain t v where t: "run_turn fuel env services worker_id w = Some (t, v)"
    by (auto split: option.splits prod.splits)
  note v = run_turn_run [OF assms(1,2) Suc.prems(1) t]
  have "db_run env (wd_db v) (wd_db w')"
    using Suc.prems(2) Suc.IH [OF db_run_ok [OF assms(1) v Suc.prems(1)]] by (auto simp: t split: Turn.splits)
  with v show ?case
    by (rule db_run_trans)
qed simp

text \<open>Every number of turns of the worker, whatever the payment provider, the Bitcoin source, the resolver and
  the object store answer and whatever other processes commit in between, moves the database along
  transactions of the store only, and so keeps every ledger valid and every payout accounted for.\<close>

lemma worker_refines_store:
  assumes "env_ok env" and "\<forall>source. ws_bitcoin services = Some source \<longrightarrow> source_ok source"
    and "db_ok (we_x env) (wd_db w)" and "run_jobs n fuel env services worker_id w = Some w'"
  shows "reachable (db_step (we_x env)) (wd_db w) (wd_db w') \<and> db_ok (we_x env) (wd_db w')"
  using run_jobs_run [OF assms] db_run_ok [OF assms(1) run_jobs_run [OF assms] assms(3)]
  by (simp add: db_run_def)

definition sample_worker_env :: world_env where
  "sample_worker_env = \<lparr>we_x = sample_ext, we_ids = (\<lambda>k n. of_nat (1000 + 16 * k + n)), we_now = (\<lambda>k. 2000 + int k), we_clock = (\<lambda>k. 2000 + int k),
     we_job_locked = (\<lambda>_ _. False), we_payout_locked = (\<lambda>_ _. False), we_others = (\<lambda>_ db. db),
     we_sql_text = (\<lambda>_. ''sql''), we_to_vec = (\<lambda>_. Ok [])\<rparr>"

definition sample_services :: WorkerServices where
  "sample_services = \<lparr>ws_provider = FakePaymentProvider (x_uuid_text sample_ext), ws_bitcoin = None,
     ws_resolver = Some (\<lambda>_. fake_resolve_exact_amount), ws_decrypt = (\<lambda>_. Ok ''a@b''),
     ws_platform_address = Some ''p@q'', ws_proof_store = None\<rparr>"

definition sample_world :: "db \<Rightarrow> world" where
  "sample_world db = \<lparr>wd_db = db, wd_calls = 0, wd_paid = []\<rparr>"

lemma sample_env_ok: "env_ok sample_worker_env"
  by (simp add: env_ok_def sample_worker_env_def reachable.start)

section \<open>The close block\<close>

text \<open>A source that gives the same block for a height at every call.\<close>

definition answers :: "(nat \<Rightarrow> u64 \<Rightarrow> BitcoinError + Block) \<Rightarrow> (u64 \<Rightarrow> Block) \<Rightarrow> u64 \<Rightarrow> bool" where
  "answers block_at chain tip \<longleftrightarrow> (\<forall>k h. h \<le> tip \<longrightarrow> block_at k h = Ok (chain h))"

definition close_outcome :: "(u64 \<Rightarrow> Block) \<Rightarrow> timestamp \<Rightarrow> u64 \<Rightarrow> string + Block \<Rightarrow> bool" where
  "close_outcome chain end_time tip r \<longleftrightarrow>
     (case r of
        Ok b \<Rightarrow> (\<exists>h < tip. b = chain (h + 1) \<and> bk_time (chain h) < end_time \<and>
          (\<forall>i. h < i \<and> i \<le> tip \<longrightarrow> end_time \<le> bk_time (chain i)))
      | Err e \<Rightarrow>
          (bk_time (chain tip) < end_time \<and> e = ''no canonical close block has been mined after the raffle cutoff'') \<or>
          ((\<forall>i \<le> tip. end_time \<le> bk_time (chain i)) \<and> e = ''no block exists before raffle cutoff''))"

lemma close_search_outcome:
  assumes "answers block_at chain tip" and "height \<le> tip"
    and "\<And>i. height < i \<Longrightarrow> i \<le> tip \<Longrightarrow> end_time \<le> bk_time (chain i)"
  shows "close_outcome chain end_time tip (fst (close_search block_at end_time tip k height))"
  using assms(2,3)
proof (induction "unat height" arbitrary: k height rule: less_induct)
  case less
  have block: "block_at j height = Ok (chain height)" for j
    using assms(1) less.prems(1) by (simp add: answers_def)
  show ?case
  proof (cases "end_time \<le> bk_time (chain height)")
    case late: True
    then have after: "end_time \<le> bk_time (chain i)" if "height \<le> i" "i \<le> tip" for i
      using less.prems(2) that by (cases "i = height") auto
    show ?thesis
    proof (cases "height = 0")
      case True
      then show ?thesis
        using late after block [of k] by (auto simp: close_search.simps [of _ _ _ _ 0] close_outcome_def)
    next
      case False
      have "unat (height - 1) < unat height" "height - 1 \<le> tip"
        using False less.prems(1) by (simp_all add: unat_minus_one unat_gt_0 word_le_nat_alt)
      moreover have "end_time \<le> bk_time (chain i)" if "height - 1 < i" "i \<le> tip" for i
        using False that after by (simp add: word_less_nat_alt word_le_nat_alt unat_minus_one)
      ultimately have "close_outcome chain end_time tip (fst (close_search block_at end_time tip (Suc k) (height - 1)))"
        using less.hyps by blast
      then show ?thesis
        using late False by (simp add: close_search.simps [of _ _ _ _ height] block)
    qed
  next
    case early: False
    show ?thesis
    proof (cases "height = tip")
      case True
      then show ?thesis
        using early block [of k] by (simp add: close_search.simps [of _ _ _ _ tip] close_outcome_def)
    next
      case False
      then have "height < tip" "height + 1 \<le> tip"
        using less.prems(1) by (simp_all add: inc_le)
      then have "block_at (Suc k) (height + 1) = Ok (chain (height + 1))"
        using assms(1) by (simp add: answers_def)
      then show ?thesis
        using early False \<open>height < tip\<close> less.prems(2)
        by (auto simp: close_search.simps [of _ _ _ _ height] block close_outcome_def)
    qed
  qed
qed

lemma close_outcome_extends:
  assumes "close_outcome chain end_time tip (Ok b)" and "close_outcome chain end_time tip' r" and "tip \<le> tip'"
    and mono: "\<And>i j. i \<le> j \<Longrightarrow> j \<le> tip' \<Longrightarrow> bk_time (chain i) \<le> bk_time (chain j)"
  shows "r = Ok b"
proof -
  from assms(1) obtain h where h: "h < tip" "b = chain (h + 1)" "bk_time (chain h) < end_time"
    "\<And>i. h < i \<Longrightarrow> i \<le> tip \<Longrightarrow> end_time \<le> bk_time (chain i)"
    by (auto simp: close_outcome_def)
  have "end_time \<le> bk_time (chain tip')"
    using h(4) [of tip] h(1) mono [OF assms(3)] by fastforce
  moreover have "h \<le> tip'"
    using h(1) assms(3) by simp
  ultimately obtain h' where h': "h' < tip'" "r = Ok (chain (h' + 1))" "bk_time (chain h') < end_time"
    "\<And>i. h' < i \<Longrightarrow> i \<le> tip' \<Longrightarrow> end_time \<le> bk_time (chain i)"
    using assms(2) h(3) by (cases r) (force simp: close_outcome_def)+
  have "\<not> h < h'"
  proof
    assume lt: "h < h'"
    have "h < h + 1"
      using h(1) by uint_arith
    then show False
      using h(4) [of "h + 1"] h'(1,3) h(1) lt mono [of "h + 1" h'] less_imp_le [OF h'(1)] by (auto simp: inc_le)
  qed
  moreover have "\<not> h' < h"
    using h'(4) [of h] h(3) \<open>h \<le> tip'\<close> by auto
  ultimately show ?thesis
    using h(2) h'(2) by (simp add: linorder_neq_iff)
qed

text \<open>When block times do not decrease, the block after the last one before the cutoff is the first one from it on.\<close>

lemma close_outcome_first:
  assumes "close_outcome chain end_time tip (Ok b)"
    and mono: "\<And>i j. i \<le> j \<Longrightarrow> j \<le> tip \<Longrightarrow> bk_time (chain i) \<le> bk_time (chain j)"
  shows "\<exists>h \<le> tip. b = chain h \<and> end_time \<le> bk_time (chain h) \<and> (\<forall>i < h. bk_time (chain i) < end_time)"
proof -
  from assms(1) obtain h where h: "h < tip" "b = chain (h + 1)" "bk_time (chain h) < end_time"
    "\<And>i. h < i \<Longrightarrow> i \<le> tip \<Longrightarrow> end_time \<le> bk_time (chain i)"
    by (auto simp: close_outcome_def)
  have next_h: "h < h + 1" "h + 1 \<le> tip"
    using h(1) by (uint_arith, simp add: inc_le)
  have "bk_time (chain i) < end_time" if "i < h + 1" for i
  proof -
    have "i \<le> h"
      using that by (metis inc_le leD leI)
    then show ?thesis
      using mono [of i h] less_imp_le [OF h(1)] h(3) by simp
  qed
  then show ?thesis
    using h(2,4) next_h by blast
qed

text \<open>C37. On a source that answers consistently, the search for the close block ends with the block after the last
  block before the cutoff; or with the error that says why there is none: the tip itself is before the cutoff, or all
  blocks are at or after it. When block times do not decrease, the block found is the
  first one at or after the cutoff, and the same block is found from every later tip, so retries of the draw agree.\<close>

theorem close_block_correct:
  assumes "answers block_at chain tip"
  shows "close_outcome chain end_time tip (fst (close_search block_at end_time tip k tip)) \<and>
    (fst (close_search block_at end_time tip k tip) = Ok b \<longrightarrow> tip \<le> tip' \<longrightarrow> answers block_at chain tip' \<longrightarrow>
       (\<forall>i j. i \<le> j \<longrightarrow> j \<le> tip' \<longrightarrow> bk_time (chain i) \<le> bk_time (chain j)) \<longrightarrow>
       (\<exists>h \<le> tip. b = chain h \<and> end_time \<le> bk_time (chain h) \<and> (\<forall>i < h. bk_time (chain i) < end_time)) \<and>
       fst (close_search block_at end_time tip' k' tip') = Ok b)"
proof -
  have out: "close_outcome chain end_time t (fst (close_search block_at end_time t j t))" if "answers block_at chain t" for t j
    using that by (rule close_search_outcome) auto
  have first: "\<exists>h \<le> tip. b = chain h \<and> end_time \<le> bk_time (chain h) \<and> (\<forall>i < h. bk_time (chain i) < end_time)"
    if "fst (close_search block_at end_time tip k tip) = Ok b" "tip \<le> tip'"
      and mono: "\<forall>i j. i \<le> j \<longrightarrow> j \<le> tip' \<longrightarrow> bk_time (chain i) \<le> bk_time (chain j)"
    by (rule close_outcome_first) (use out [OF assms, of k] that in \<open>auto intro: order_trans\<close>)
  then show ?thesis
    using close_outcome_extends [of chain end_time tip b tip'] out [OF assms, of k] out [of tip' k'] by metis
qed

definition sample_chain :: "u64 \<Rightarrow> Block" where
  "sample_chain h = \<lparr>bk_height = h, bk_hash = ZERO_HASH, bk_previous_hash = ZERO_HASH, bk_time = uint h\<rparr>"

theorem close_block_correct_witness:
  "fst (close_search (\<lambda>_ h. Ok (sample_chain h)) 3 5 0 5) = Ok (sample_chain 3) \<and>
   fst (close_search (\<lambda>_ h. Ok (sample_chain h)) 3 9 0 9) = Ok (sample_chain 3)"
proof -
  have a: "answers (\<lambda>_ h. Ok (sample_chain h)) sample_chain t" for t
    by (simp add: answers_def)
  have five: "fst (close_search (\<lambda>_ h. Ok (sample_chain h)) 3 5 0 5) = Ok (sample_chain 3)"
    by (simp add: close_search.simps sample_chain_def)
  moreover have "\<forall>i j. i \<le> j \<longrightarrow> j \<le> 9 \<longrightarrow> bk_time (sample_chain i) \<le> bk_time (sample_chain j)"
    by (simp add: sample_chain_def word_le_def)
  ultimately show ?thesis
    using close_block_correct [OF a, of 3 5 0 "sample_chain 3" 9 0] a by simp
qed

end
