(* ===== verification/Store_Promises.thy ===== *)
theory Store_Promises
  imports Store_Reachable
begin

text \<open>
  What a payout promises never changes: once the row exists, every later database has a row with the same
  identifier, raffle, recipient, idempotency key and amount.
\<close>

definition payout_identity :: "payout_row \<Rightarrow> uuid \<times> RaffleId \<times> RecipientType \<times> string \<times> int" where
  "payout_identity p = (p_id p, p_raffle_id p, p_recipient_type p, p_idempotency_key p, p_amount_sats p)"

definition keeps_promises :: "db \<Rightarrow> db \<Rightarrow> bool" where
  "keeps_promises db db' \<longleftrightarrow> payout_identity ` set (payouts db) \<subseteq> payout_identity ` set (payouts db')"

lemma keeps_promises_same: "payouts db' = payouts db \<Longrightarrow> keeps_promises db db'"
  by (simp add: keeps_promises_def)

lemma keeps_promises_core: "keeps_core db db' \<Longrightarrow> keeps_promises db db'"
  by (simp add: keeps_promises_same keeps_core_def)

lemma keeps_promises_frame: "db' = d \<Longrightarrow> payouts d = payouts db \<Longrightarrow> keeps_promises db db'"
  by (simp add: keeps_promises_same)

lemma keeps_promises_update:
  assumes "payouts db' = set_where P f (payouts db)" and "\<And>p. payout_identity (f p) = payout_identity p"
  shows "keeps_promises db db'"
proof -
  have "map payout_identity (payouts db') = map payout_identity (payouts db)"
    by (simp add: assms set_where_def)
  then show ?thesis
    unfolding keeps_promises_def by (metis list.set_map order_refl)
qed

lemma promises_raffles:
  "create_draft_raffle x ids now raffle db = Ok (u, db') \<Longrightarrow> keeps_promises db db'"
  "transition_raffle x ids now oid rid st db = Ok (u, db') \<Longrightarrow> keeps_promises db db'"
  "update_raffle x ids now oid raffle db = Ok (u, db') \<Longrightarrow> keeps_promises db db'"
  by (auto elim!: create_draft_raffle_Ok transition_raffle_Ok update_raffle_Ok intro: keeps_promises_same)

lemma promises_settlement:
  "settle_invoice_and_append_entry x ids now iid eid t db = Ok (entry, db') \<Longrightarrow> keeps_promises db db'"
  by (auto simp: settle_invoice_and_append_entry_def bindR_eq_Ok ok_or_eq_Ok map_err_eq_Ok keeps_promises_same split: if_splits)
     (erule append_entry_Ok, erule keeps_promises_frame, simp)

lemma promises_closing:
  "schedule_due_closes x ids now db = Ok (n, db') \<Longrightarrow> keeps_promises db db'"
  "freeze_raffle x ids now rid db = Ok (root, db') \<Longrightarrow> keeps_promises db db'"
  by (auto simp: schedule_due_closes_def bindR_eq_Ok map_err_eq_Ok keeps_promises_same dest!: schedule_closes_frame)
     (erule freeze_raffle_Ok, erule keeps_promises_frame, simp)

lemma insert_payouts_grow:
  "insert_payouts x now rid items db = Ok db' \<Longrightarrow> set (payouts db) \<subseteq> set (payouts db')"
proof (induction items arbitrary: db)
  case (Cons item items)
  then obtain d where d: "insert_payout x now rid item db = Ok d" "insert_payouts x now rid items d = Ok db'"
    by (auto simp: bindR_eq_Ok)
  have "set (payouts db) \<subseteq> set (payouts d)"
    using d(1) by (cases item) (auto simp: insert_payout_def bindR_eq_Ok map_err_eq_Ok sql_insert_ignore_Ok split: if_splits)
  then show ?case
    using Cons.IH [OF d(2)] by blast
qed simp

lemma promises_draw:
  assumes "create_draw_and_payouts x ids now rid ch bh rh rand db = Ok (result, db')"
  shows "keeps_promises db db'"
  using assms
proof (rule create_draw_and_payouts_Ok)
  fix db1 js t ds items
  assume "insert_payouts x now rid items (db\<lparr>draws := ds\<rparr>) = Ok db1"
  then have "set (payouts db) \<subseteq> set (payouts db1)"
    using insert_payouts_grow by fastforce
  moreover assume "db' = db1\<lparr>jobs := js, raffles := raffles db', audit_events := t\<rparr>"
  from arg_cong [OF this, of payouts] have "payouts db' = payouts db1"
    by simp
  ultimately show ?thesis
    by (auto simp: keeps_promises_def)
qed

lemma promises_queue:
  "claim_payout plocked now rid w db = Ok (cp, db') \<Longrightarrow> keeps_promises db db'"
  "fail_payout pid w failure db = Ok (u, db') \<Longrightarrow> keeps_promises db db'"
  "settle_payout x ids now pid w ref db = Ok (f, db') \<Longrightarrow> keeps_promises db db'"
proof -
  show "keeps_promises db db'" if "claim_payout plocked now rid w db = Ok (cp, db')"
  proof (cases cp)
    case None
    with that show ?thesis
      using claim_payout_None keeps_promises_same by blast
  next
    case (Some c)
    show ?thesis
    proof (rule claim_payout_Some [OF that [unfolded Some]])
      fix p
      assume "db' = db\<lparr>payouts := set_where (\<lambda>r. p_id r = p_id p) (payout_take_lease now w (now + seconds 60)) (payouts db)\<rparr>"
      then have "payouts db' = set_where (\<lambda>r. p_id r = p_id p) (payout_take_lease now w (now + seconds 60)) (payouts db)"
        by simp
      then show ?thesis
        by (rule keeps_promises_update) (simp add: payout_identity_def payout_take_lease_def)
    qed
  qed
  show "keeps_promises db db'" if "fail_payout pid w failure db = Ok (u, db')"
  proof -
    have "payouts db' = set_where (\<lambda>p. p_id p = pid \<and> p_status p = PayProcessing \<and> p_lease_owner p = Some w) (fail_row failure) (payouts db)"
      using that unfolding fail_payout_def by (auto simp: bindR_eq_Ok map_err_eq_Ok sql_update_Ok)
    then show ?thesis
      by (rule keeps_promises_update) (simp add: payout_identity_def fail_row_def)
  qed
  show "keeps_promises db db'" if "settle_payout x ids now pid w ref db = Ok (f, db')"
    using that
  proof (rule settle_payout_Ok)
    fix t n
    assume "sql_update payout_check payout_conflict (\<lambda>p. p_id p = pid \<and> p_status p = PayProcessing \<and> p_lease_owner p = Some w)
      (settle_row now ref) (payouts db) = Ok (t, n)" and "payouts db' = t"
    then have "payouts db' = set_where (\<lambda>p. p_id p = pid \<and> p_status p = PayProcessing \<and> p_lease_owner p = Some w) (settle_row now ref) (payouts db)"
      by (simp add: sql_update_Ok)
    then show ?thesis
      by (rule keeps_promises_update) (simp add: payout_identity_def settle_row_def)
  qed
qed

lemmas promises_steps = promises_raffles promises_settlement promises_closing promises_draw promises_queue

inductive_cases db_stepE: "db_step x db db'"

lemma db_step_promises: "db_step x db db' \<Longrightarrow> keeps_promises db db'"
  by (erule db_stepE) ((erule keeps_steps [THEN keeps_promises_core] | erule promises_steps); simp?)+

lemma reachable_promises: "reachable (db_step x) db db' \<Longrightarrow> keeps_promises db db'"
proof (induction rule: reachable.induct)
  case (step s t)
  from step.IH db_step_promises [OF step.hyps(2)] show ?case
    unfolding keeps_promises_def by (rule order_trans)
qed (simp add: keeps_promises_def)

end
