(* ===== verification/Worker_Payouts.thy ===== *)
theory Worker_Payouts
  imports Worker_Guarantees Store_Promises
begin

text \<open>
  The payout job. Whatever happens, the provider only sees requests for payouts the worker holds, with
  their amount and their deterministic key; and when the outside cooperates, the job pays every open
  payout once, completes the raffle and schedules its proof.
\<close>

section \<open>Requests\<close>

text \<open>All requests a handler hands to the provider satisfy \<open>Q\<close>.\<close>

definition sends :: "(PayoutRequest \<Rightarrow> bool) \<Rightarrow> ('e, 'a) process \<Rightarrow> bool" where
  "sends Q m \<longleftrightarrow> (\<forall>w r w'. m w = (r, w') \<longrightarrow> (\<exists>reqs. wd_paid w' = wd_paid w @ reqs \<and> (\<forall>req \<in> set reqs. Q req)))"

lemma sends_bind:
  assumes "sends Q m" and "\<And>a. sends Q (k a)"
  shows "sends Q (bindW m k)"
  unfolding sends_def
proof (intro allI impI)
  fix w r w'
  assume b: "bindW m k w = (r, w')"
  obtain q v where q: "m w = (q, v)"
    by (cases "m w")
  then obtain reqs where reqs: "wd_paid v = wd_paid w @ reqs" "\<forall>req \<in> set reqs. Q req"
    using assms(1) unfolding sends_def by blast
  have "\<exists>more. wd_paid w' = wd_paid v @ more \<and> (\<forall>req \<in> set more. Q req)"
    using b q assms(2) by (cases q) (auto simp: bindW_def sends_def)
  then obtain more where "wd_paid w' = wd_paid v @ more" "\<forall>req \<in> set more. Q req"
    by blast
  with reqs show "\<exists>reqs. wd_paid w' = wd_paid w @ reqs \<and> (\<forall>req \<in> set reqs. Q req)"
    by (intro exI [of _ "reqs @ more"]) auto
qed

lemma transact_paid: "transact env op w = (r, w') \<Longrightarrow> wd_paid w' = wd_paid w"
  by (auto simp: transact_def Let_def split: sum.splits prod.splits)

lemma sends_nothing:
  "sends Q (liftE r)" "sends Q (askE f)" "sends Q (returnW a)" "sends Q (storeE conv env op)"
  "sends Q (fail_payoutW env worker_id pid reason)"
  by (auto simp: sends_def liftE_def askE_def returnW_def storeE_def fail_payoutW_def split: prod.splits dest: transact_paid)

text \<open>A claimed payout is on record, processing under the worker's lease, with a known key.\<close>

definition held_request :: "world_env \<Rightarrow> string \<Rightarrow> RaffleId \<Rightarrow> db \<Rightarrow> PayoutRequest \<Rightarrow> bool" where
  "held_request env worker_id rid db req \<longleftrightarrow>
     (\<exists>p \<in> set (payouts db). p_id p = prq_payout_id req \<and> p_raffle_id p = rid \<and> p_status p = PayProcessing \<and>
        p_lease_owner p = Some worker_id \<and> uint (as_u64 (prq_amount_sats req)) = p_amount_sats p \<and>
        prq_idempotency_key req = payout_key (we_x env) rid (p_recipient_type p))"

lemma claim_next_held:
  assumes "env_ok env" and "db_ok (we_x env) (wd_db w)" and "claim_next env worker_id rid w = (Ok (Some c), v)"
  shows "held_request env worker_id rid (wd_db v) (payout_request c invoice)"
proof -
  have ok: "db_ok (we_x env) (wd_db v)"
    using db_run_ok [OF assms(1) runsD [OF runs_claim_next [OF assms(1)] assms(2,3)] assms(2)] .
  from assms(3) obtain db where cl: "claim_payout (we_payout_locked env (wd_calls w)) (we_now env (wd_calls w)) rid worker_id db
      = Ok (Some c, wd_db v)"
    by (auto simp: claim_next_def storeE_def transact_def Let_def map_err_eq_Ok split: prod.splits sum.splits)
  from cl obtain p where cand: "candidate (payout_claimable rid (we_now env (wd_calls w))) (we_payout_locked env (wd_calls w))
       payout_rank (sort_key p_created_at (payouts db)) = Some p"
    and db': "wd_db v = db\<lparr>payouts := set_where (\<lambda>r. p_id r = p_id p) (payout_take_lease (we_now env (wd_calls w)) worker_id
       (we_now env (wd_calls w) + seconds 60)) (payouts db)\<rparr>"
    and c: "c = \<lparr>cp_id = p_id p, cp_raffle_id = p_raffle_id p, cp_recipient_type = p_recipient_type p,
              cp_amount_sats = Sats (of_int (p_amount_sats p)), cp_idempotency_key = p_idempotency_key p\<rparr>"
    by (rule claim_payout_Some)
  let ?q = "payout_take_lease (we_now env (wd_calls w)) worker_id (we_now env (wd_calls w) + seconds 60) p"
  have q: "?q \<in> set (payouts (wd_db v))"
    using candidate_Some(1) [OF cand] by (auto simp: db' set_set_where)
  have rid: "p_raffle_id p = rid"
    using candidate_Some(2) [OF cand] by (simp add: payout_claimable_def)
  have "payout_check ?q" "p_idempotency_key ?q = payout_key (we_x env) (p_raffle_id ?q) (p_recipient_type ?q)"
    using ok q by (auto simp: db_ok_def payouts_ok_def table_ok_def)
  then have "uint (of_int (p_amount_sats p) :: u64) = p_amount_sats p" "p_idempotency_key p = payout_key (we_x env) rid (p_recipient_type p)"
    by (simp_all add: payout_check_def payout_take_lease_def uint_of_int rid)
  then show ?thesis
    unfolding held_request_def
    by (intro bexI [OF _ q]) (simp add: payout_take_lease_def payout_request_def c rid)
qed

section \<open>Rounds of the loop\<close>

lemma transact_forward: "transact env op w = (r, w') \<Longrightarrow> wd_paid w' = wd_paid w \<and> wd_calls w' = Suc (wd_calls w)"
  by (auto simp: transact_def Let_def split: sum.splits prod.splits)

lemma storeE_forward: "storeE conv env op w = (r, w') \<Longrightarrow> wd_paid w' = wd_paid w \<and> wd_calls w' = Suc (wd_calls w)"
  by (auto simp: storeE_def split: prod.splits dest: transact_forward)

lemma fail_payoutW_forward:
  "fail_payoutW env worker_id pid reason w = (r, w') \<Longrightarrow> wd_paid w' = wd_paid w \<and> wd_calls w' = Suc (wd_calls w)"
  by (auto simp: fail_payoutW_def split: prod.splits dest: transact_forward)

lemma recipient_address_forward:
  "recipient_address env services payout w = (r, w') \<Longrightarrow> wd_paid w' = wd_paid w \<and> wd_calls w \<le> wd_calls w'"
  by (auto simp: recipient_address_def bindW_def liftE_def split: if_splits sum.splits prod.splits dest: storeE_forward)

text \<open>Paying a claimed payout sends at most one request, for an invoice of the claimed amount.\<close>

lemma pay_claimed_once:
  assumes "pay_claimed env services resolve worker_id payout v = (q, u)"
  shows "wd_calls v \<le> wd_calls u \<and> (wd_paid u = wd_paid v \<or>
    (\<exists>invoice. ri_amount_sats invoice = cp_amount_sats payout \<and> wd_paid u = wd_paid v @ [payout_request payout invoice]))"
proof -
  obtain a v1 where a: "recipient_address env services payout v = (a, v1)"
    by (cases "recipient_address env services payout v")
  have settled: "wd_paid u' = wd_paid t \<and> wd_calls t \<le> wd_calls u'"
    if "bindW (storeW env op) (\<lambda>_. returnW ()) t = (q', u')" for op :: "nat \<Rightarrow> db \<Rightarrow> PersistenceError + bool \<times> db" and q' t u'
    using that by (auto simp: bindW_def returnW_def split: sum.splits prod.splits dest: storeE_forward)
  show ?thesis
    using assms recipient_address_forward [OF a]
    by (auto simp: pay_claimed_def bindW_def [of "recipient_address env services payout"] a
        bindW_def [of "askE _"] askE_def bindW_def [of "pay_invoice _ _"] pay_invoice_def
        split: if_splits sum.splits dest!: fail_payoutW_forward settled)
qed

text \<open>
  The rounds of a payout job, as they happen one after the other. Each round begins with a claim that commits, on what
  the database is at that call; the payout it claims is then on record as held by the worker; at most one request
  follows, for that payout, before the next claim; and what the database is next, it is after the claim.
\<close>

inductive payout_rounds :: "world_env \<Rightarrow> string \<Rightarrow> RaffleId \<Rightarrow> world \<Rightarrow> PayoutRequest list \<Rightarrow> world \<Rightarrow> bool"
  for env worker_id rid where
  finished: "wd_paid w' = wd_paid w \<Longrightarrow> wd_calls w \<le> wd_calls w' \<Longrightarrow> db_run env (wd_db w) (wd_db w') \<Longrightarrow>
    payout_rounds env worker_id rid w [] w'"
| round: "claim_payout (we_payout_locked env (wd_calls w)) (we_now env (wd_calls w)) rid worker_id
      (we_others env (wd_calls w) (wd_db w)) = Ok (Some c, db) \<Longrightarrow>
    sent = [] \<or> (\<exists>invoice. sent = [payout_request c invoice] \<and> ri_amount_sats invoice = cp_amount_sats c) \<Longrightarrow>
    \<forall>req \<in> set sent. held_request env worker_id rid db req \<Longrightarrow>
    db_run env db (wd_db u) \<Longrightarrow> wd_calls w < wd_calls u \<Longrightarrow> wd_paid u = wd_paid w @ sent \<Longrightarrow>
    payout_rounds env worker_id rid u later w' \<Longrightarrow> payout_rounds env worker_id rid w (sent @ later) w'"

lemma claim_next_commits:
  assumes "claim_next env worker_id rid w = (Ok (Some c), v)"
  shows "claim_payout (we_payout_locked env (wd_calls w)) (we_now env (wd_calls w)) rid worker_id
      (we_others env (wd_calls w) (wd_db w)) = Ok (Some c, wd_db v)"
  using assms by (auto simp: claim_next_def storeE_def transact_def Let_def map_err_eq_Ok split: prod.splits sum.splits)

lemma claim_next_forward:
  "claim_next env worker_id rid w = (c, v) \<Longrightarrow> wd_paid v = wd_paid w \<and> wd_calls v = Suc (wd_calls w)"
  unfolding claim_next_def by (rule storeE_forward)

lemma payout_loop_rounds:
  assumes "env_ok env" and "db_ok (we_x env) (wd_db w)"
    and "payout_loop fuel env services resolve worker_id rid w = Some (r, w')"
  shows "\<exists>reqs. wd_paid w' = wd_paid w @ reqs \<and> payout_rounds env worker_id rid w reqs w'"
  using assms(2,3)
proof (induction fuel arbitrary: w)
  case (Suc fuel)
  obtain c v where c: "claim_next env worker_id rid w = (c, v)"
    by (cases "claim_next env worker_id rid w")
  note cv = runsD [OF runs_claim_next [OF assms(1)] Suc.prems(1) c]
  note vok = db_run_ok [OF assms(1) cv Suc.prems(1)]
  note forward = claim_next_forward [OF c]
  show ?case
  proof (cases "\<exists>payout. c = Ok (Some payout)")
    case True
    then obtain payout where p: "c = Ok (Some payout)"
      by blast
    obtain q u where q: "pay_claimed env services resolve worker_id payout v = (q, u)"
      by (cases "pay_claimed env services resolve worker_id payout v")
    note vu = runsD [OF runs_pay_claimed [OF assms(1)] vok q]
    note uok = db_run_ok [OF assms(1) vu vok]
    obtain sent where sent: "wd_paid u = wd_paid w @ sent"
      "sent = [] \<or> (\<exists>invoice. sent = [payout_request payout invoice] \<and> ri_amount_sats invoice = cp_amount_sats payout)"
      using pay_claimed_once [OF q] forward by (metis append.right_neutral)
    have held: "\<forall>req \<in> set sent. held_request env worker_id rid (wd_db v) req"
      using sent(2) claim_next_held [OF assms(1) Suc.prems(1) c [unfolded p]] by auto
    have "\<exists>reqs. wd_paid w' = wd_paid u @ reqs \<and> payout_rounds env worker_id rid u reqs w'"
    proof (cases q)
      case (Inl e)
      then have "w' = u"
        using Suc.prems(2) by (simp add: c p q)
      then show ?thesis
        by (auto intro: payout_rounds.finished)
    next
      case (Inr a)
      then show ?thesis
        using Suc.prems(2) Suc.IH [OF uok] by (simp add: c p q)
    qed
    then obtain later where later: "wd_paid w' = wd_paid u @ later" "payout_rounds env worker_id rid u later w'"
      by blast
    have "payout_rounds env worker_id rid w (sent @ later) w'"
      using claim_next_commits [OF c [unfolded p]] sent(2) held vu _ sent(1) later(2)
      by (rule payout_rounds.round) (use pay_claimed_once [OF q] forward in linarith)
    then show ?thesis
      using sent(1) later(1) by (intro exI [of _ "sent @ later"]) simp
  next
    case False
    then have "w' = v"
      using Suc.prems(2) by (auto simp: c split: sum.splits option.splits)
    then show ?thesis
      using forward cv by (auto intro: payout_rounds.finished)
  qed
qed simp

text \<open>The payout job as a whole works on the raffle that its payload names.\<close>

lemma payout_execute_rounds:
  assumes "env_ok env" and "db_ok (we_x env) (wd_db w)" and "payout_execute fuel env services worker_id job w = Some (r, w')"
  shows "w' = w \<or> (\<exists>rid reqs. fst (job_uuid env ''raffle_id'' job w) = Ok rid \<and> wd_paid w' = wd_paid w @ reqs \<and>
    payout_rounds env worker_id rid w reqs w')"
proof (cases "w' = w")
  case False
  then obtain rid resolve where "fst (job_uuid env ''raffle_id'' job w) = Ok rid"
    "payout_loop fuel env services resolve worker_id rid w = Some (r, w')"
    using assms(3) by (auto simp: payout_execute_def bindW_def job_uuid_def liftE_def returnW_def split: sum.splits prod.splits)
  with payout_loop_rounds [OF assms(1,2)] show ?thesis
    by blast
qed simp

text \<open>Every request of the rounds was held at a database that the run went through.\<close>

definition held_on_the_way :: "world_env \<Rightarrow> string \<Rightarrow> RaffleId \<Rightarrow> db \<Rightarrow> PayoutRequest list \<Rightarrow> db \<Rightarrow> bool" where
  "held_on_the_way env worker_id rid db0 reqs db' \<longleftrightarrow>
     (\<forall>req \<in> set reqs. \<exists>db. db_run env db0 db \<and> db_run env db db' \<and> held_request env worker_id rid db req)"

lemma payout_rounds_held:
  assumes "env_ok env" and "payout_rounds env worker_id rid w reqs w'"
  shows "db_run env (wd_db w) (wd_db w') \<and> held_on_the_way env worker_id rid (wd_db w) reqs (wd_db w')"
  using assms(2)
proof (induction rule: payout_rounds.induct)
  case (round w c db sent u later w')
  have "db_run env (wd_db w) (we_others env (wd_calls w) (wd_db w))"
    using assms(1) by (simp add: env_ok_def db_run_def)
  moreover have "db_run env (we_others env (wd_calls w) (wd_db w)) db"
    using round.hyps(1) by (intro db_run_step db_step.claim_payout)
  ultimately have w: "db_run env (wd_db w) db"
    by (rule db_run_trans)
  then show ?case
    using round.IH round.hyps(3,4) db_run_trans unfolding held_on_the_way_def by (metis Un_iff set_append)
qed (simp add: held_on_the_way_def)

lemma payout_execute_requests:
  assumes "env_ok env" and "db_ok (we_x env) (wd_db w)" and "payout_execute fuel env services worker_id job w = Some (r, w')"
  shows "\<exists>reqs rid. wd_paid w' = wd_paid w @ reqs \<and> held_on_the_way env worker_id rid (wd_db w) reqs (wd_db w')"
  using payout_execute_rounds [OF assms] payout_rounds_held [OF assms(1)]
  by (metis append.right_neutral empty_iff held_on_the_way_def list.set(1))

text \<open>C10. A payout job pays only what it has claimed. What it does is a sequence of rounds on the raffle that its payload
  names: each begins with a claim that is committed, and at most one request to the provider follows before the next claim,
  for the payout just claimed, which at that moment is on record as processing under the worker's lease, for the exact
  amount on record and under the idempotency key that the raffle and the recipient determine, and only for an invoice
  over that amount. A job that names no raffle, or a worker without resolver, sends nothing. Keys of different raffles or
  recipients differ, so a provider that honours them pays no payout twice.\<close>

theorem payments_match_claims:
  assumes "env_ok env" and "db_ok (we_x env) (wd_db w)"
    and "payout_execute fuel env services worker_id job w = Some (r, w')"
  shows "(w' = w \<or> (\<exists>rid reqs. fst (job_uuid env ''raffle_id'' job w) = Ok rid \<and> wd_paid w' = wd_paid w @ reqs \<and>
      payout_rounds env worker_id rid w reqs w')) \<and>
    (\<forall>a b s t. payout_key (we_x env) a s = payout_key (we_x env) b t \<longrightarrow> a = b \<and> s = t)"
proof (intro conjI)
  show "\<forall>a b s t. payout_key (we_x env) a s = payout_key (we_x env) b t \<longrightarrow> a = b \<and> s = t"
    using assms(1) payout_key_eq by (auto simp: env_ok_def)
qed (use payout_execute_rounds [OF assms] in blast)

section \<open>Completion\<close>

text \<open>An environment without other traffic: no interleaved commits, no rows locked by others.\<close>

definition quiet :: "world_env \<Rightarrow> bool" where
  "quiet env \<longleftrightarrow> (\<forall>k db. we_others env k db = db) \<and> (\<forall>k p. \<not> we_payout_locked env k p)"

definition unsettled :: "RaffleId \<Rightarrow> db \<Rightarrow> payout_row list" where
  "unsettled rid db = filter (\<lambda>p. p_raffle_id p = rid \<and> p_status p \<noteq> PaySettled) (payouts db)"

definition claimed_of :: "payout_row \<Rightarrow> ClaimedPayout" where
  "claimed_of p = \<lparr>cp_id = p_id p, cp_raffle_id = p_raffle_id p, cp_recipient_type = p_recipient_type p,
     cp_amount_sats = Sats (of_int (p_amount_sats p)), cp_idempotency_key = p_idempotency_key p\<rparr>"

definition known_address :: "WorkerServices \<Rightarrow> db \<Rightarrow> ClaimedPayout \<Rightarrow> string \<Rightarrow> bool" where
  "known_address services db c a \<longleftrightarrow>
     (if cp_recipient_type c = RPlatform then ws_platform_address services = Some a
      else \<exists>ct. payout_recipient_ciphertext c db = Ok (Some ct) \<and> ws_decrypt services ct = Ok a)"

text \<open>The recipient's address is known, it resolves to an invoice of the amount, and the provider accepts it.\<close>

definition payable :: "WorkerServices \<Rightarrow> LightningAddressResolver \<Rightarrow> db \<Rightarrow> payout_row \<Rightarrow> bool" where
  "payable services resolve db p \<longleftrightarrow>
     (\<exists>a. known_address services db (claimed_of p) a \<and>
        (\<forall>k. \<exists>invoice. resolve k a (Sats (of_int (p_amount_sats p))) = Ok invoice \<and>
           ri_amount_sats invoice = Sats (of_int (p_amount_sats p)) \<and>
           (\<forall>j. \<exists>attempt. pv_pay_invoice (ws_provider services) j (payout_request (claimed_of p) invoice) = Ok attempt)))"

lemma recipient_frame [simp]:
  "payout_recipient_ciphertext c (db\<lparr>payouts := ps\<rparr>) = payout_recipient_ciphertext c db"
  by (cases "cp_recipient_type c")
     (simp_all add: payout_recipient_ciphertext_def winner_ciphertexts_def organizer_ciphertexts_def cong: if_cong)

lemma known_address_frame [simp]:
  "known_address services (db\<lparr>payouts := ps\<rparr>) c a = known_address services db c a"
  by (simp add: known_address_def)

lemma payable_frame [simp]:
  "payable services resolve (db\<lparr>payouts := ps\<rparr>) p = payable services resolve db p"
  by (simp add: payable_def)

lemma quiet_transact:
  assumes "quiet env"
  shows "transact env op w =
    (case op (wd_calls w) (wd_db w) of
       Err e \<Rightarrow> (Err e, w\<lparr>wd_calls := Suc (wd_calls w)\<rparr>)
     | Ok (a, db') \<Rightarrow> (Ok a, w\<lparr>wd_db := db', wd_calls := Suc (wd_calls w)\<rparr>))"
  using assms by (auto simp: transact_def Let_def quiet_def split: sum.splits)

lemma claim_next_succeeds:
  assumes "quiet env" and "db_ok x (wd_db w)" and "unsettled rid (wd_db w) \<noteq> []"
    and "\<forall>p \<in> set (unsettled rid (wd_db w)). p_status p \<in> {PayPending, PayFailed}"
  obtains p where "p \<in> set (unsettled rid (wd_db w))"
    and "claim_next env worker_id rid w = (Ok (Some (claimed_of p)),
      w\<lparr>wd_db := (wd_db w)\<lparr>payouts := set_where (\<lambda>r. p_id r = p_id p)
          (payout_take_lease (we_now env (wd_calls w)) worker_id (we_now env (wd_calls w) + seconds 60)) (payouts (wd_db w))\<rparr>,
        wd_calls := Suc (wd_calls w)\<rparr>)"
proof -
  let ?db = "wd_db w" and ?now = "we_now env (wd_calls w)" and ?locked = "we_payout_locked env (wd_calls w)"
  let ?f = "payout_take_lease ?now worker_id (?now + seconds 60)"
  have tab: "table_ok payout_check payout_conflict (payouts ?db)"
    using assms(2) by (simp add: db_ok_def payouts_ok_def)
  define q where "q = hd (unsettled rid ?db)"
  have "q \<in> set (unsettled rid ?db)"
    using assms(3) by (simp add: q_def)
  then have "q \<in> set (payouts ?db)" "payout_claimable rid ?now q" "\<not> ?locked q"
    using assms(1,4) by (auto simp: unsettled_def payout_claimable_def quiet_def)
  then have "candidate (payout_claimable rid ?now) ?locked payout_rank (sort_key p_created_at (payouts ?db)) \<noteq> None"
    unfolding candidate_None by auto
  then obtain p where p: "candidate (payout_claimable rid ?now) ?locked payout_rank (sort_key p_created_at (payouts ?db)) = Some p"
    by blast
  have pin: "p \<in> set (payouts ?db)" "payout_claimable rid ?now p"
    using candidate_Some(1,2) [OF p] by simp_all
  then have amount: "\<not> p_amount_sats p < 0"
    using tab by (fastforce simp: table_ok_def payout_check_def)
  have upd: "sql_update payout_check payout_conflict (\<lambda>r. p_id r = p_id p) ?f (payouts ?db) =
      Ok (set_where (\<lambda>r. p_id r = p_id p) ?f (payouts ?db), length (filter (\<lambda>r. p_id r = p_id p) (payouts ?db)))"
    using tab by (rule payouts_tbl.update_succeeds)
      (use tab in \<open>auto simp: payout_take_lease_def payout_check_def payout_conflict_def table_ok_def\<close>)
  have "p \<in> set (unsettled rid ?db)"
    using pin by (auto simp: unsettled_def payout_claimable_def)
  then show thesis
    by (rule that)
       (simp add: claim_next_def storeE_def quiet_transact [OF assms(1)] claim_payout_def p upd db_as_u64_def amount claimed_of_def)
qed

lemma recipient_address_succeeds:
  assumes "quiet env" and "known_address services (wd_db w) c a"
  obtains v where "recipient_address env services c w = (Ok a, v)" and "wd_db v = wd_db w" and "wd_paid v = wd_paid w"
    and "wd_calls w \<le> wd_calls v" and "wd_calls v \<le> Suc (wd_calls w)"
  using assms(2)
  by (auto simp: recipient_address_def known_address_def liftE_def bindW_def storeE_def quiet_transact [OF assms(1)] reading_def
      intro: that split: if_splits)

text \<open>Settling the claimed row.\<close>

lemma settle_payout_succeeds:
  assumes "db_ok x db" and "p \<in> set (payouts db)" and "p_status p = PayProcessing" and "p_lease_owner p = Some worker_id"
    and "\<forall>j \<in> set (jobs db). j_id j \<noteq> ids 0"
  obtains d db' where "settle_payout x ids now (p_id p) worker_id ref db = Ok (d, db')"
proof -
  let ?mine = "\<lambda>q. p_id q = p_id p \<and> p_status q = PayProcessing \<and> p_lease_owner q = Some worker_id"
  have tab: "table_ok payout_check payout_conflict (payouts db)" and raf: "table_ok raffle_check raffle_conflict (raffles db)"
    using assms(1) store_okD(1) by (auto simp: db_ok_def payouts_ok_def)
  have upd: "sql_update payout_check payout_conflict ?mine (settle_row now ref) (payouts db) =
      Ok (set_where ?mine (settle_row now ref) (payouts db), length (filter ?mine (payouts db)))"
    using tab by (rule payouts_tbl.update_succeeds)
      (use tab in \<open>auto simp: settle_row_def payout_check_def payout_conflict_def table_ok_def\<close>)
  have f: "fetch_optional ?mine (payouts db) = Some p"
    using tab assms(2) by (rule payouts_tbl.fetch_unique) (simp_all add: assms(3,4) payout_conflict_def)
  have rupd: "sql_update raffle_check raffle_conflict P (set_status now PaidOut) (raffles db) =
      Ok (set_where P (set_status now PaidOut) (raffles db), length (filter P (raffles db)))" for P
    using raf by (rule raffles_tbl.update_succeeds)
      (use raf in \<open>auto simp: set_status_def raffle_check_def raffle_conflict_def table_ok_def\<close>)
  have job: "\<exists>d. insert_job (ids 0) now kind key pl (db\<lparr>payouts := t, raffles := rs\<rparr>) = Ok d" for kind key pl t rs
    using assms(5) by (auto simp: insert_job_def sql_insert_ignore_def sql_insert_def job_conflict_def default_job_def
        job_check_def integer_col_def)
  obtain d where "insert_job (ids 0) now ''proof.generate'' (x_uuid_text x (p_raffle_id p))
      (JObj [(''raffle_id'', JStr (x_uuid_text x (p_raffle_id p)))])
      (db\<lparr>payouts := set_where ?mine (settle_row now ref) (payouts db),
         raffles := set_where (\<lambda>r. r_id r = p_raffle_id p \<and> r_status r = PayoutPending) (set_status now PaidOut) (raffles db)\<rparr>) = Ok d"
    using job by blast
  moreover have "fetch_one ?mine (payouts db) = Ok p"
    using f by (simp add: fetch_one_Ok)
  ultimately have "\<exists>d db'. settle_payout x ids now (p_id p) worker_id ref db = Ok (d, db')"
    by (auto simp: settle_payout_def Let_def upd rupd)
  then show thesis
    using that by blast
qed

text \<open>One round of the loop takes one payout off the list.\<close>

lemma set_where_twice:
  assumes "\<And>q. p_id (f q) = p_id q" and "\<And>q. p_status (f q) = PayProcessing \<and> p_lease_owner (f q) = Some worker_id"
  shows "set_where (\<lambda>q. p_id q = pid \<and> p_status q = PayProcessing \<and> p_lease_owner q = Some worker_id) g
      (set_where (\<lambda>q. p_id q = pid) f ps) = map (\<lambda>q. if p_id q = pid then g (f q) else q) ps"
  using assms by (auto simp: set_where_def)

lemma unsettled_after:
  assumes "payouts db' = map (\<lambda>q. if p_id q = pid then g q else q) (payouts db)" and "\<And>q. p_status (g q) = PaySettled"
  shows "unsettled rid db' = filter (\<lambda>q. p_id q \<noteq> pid) (unsettled rid db)"
proof -
  have "filter (\<lambda>p. p_raffle_id p = rid \<and> p_status p \<noteq> PaySettled) (map (\<lambda>q. if p_id q = pid then g q else q) ps) =
      filter (\<lambda>q. p_id q \<noteq> pid) (filter (\<lambda>p. p_raffle_id p = rid \<and> p_status p \<noteq> PaySettled) ps)" for ps
    by (induction ps) (auto simp: assms(2))
  then show ?thesis
    by (simp add: unsettled_def assms(1))
qed

text \<open>The identifiers of the calls from \<open>n\<close> on are not in use by a job.\<close>

definition fresh_ids :: "world_env \<Rightarrow> nat \<Rightarrow> db \<Rightarrow> bool" where
  "fresh_ids env n db \<longleftrightarrow> (\<forall>k \<ge> n. \<forall>j \<in> set (jobs db). j_id j \<noteq> we_ids env k 0)"

definition ready :: "world_env \<Rightarrow> WorkerServices \<Rightarrow> LightningAddressResolver \<Rightarrow> RaffleId \<Rightarrow> nat \<Rightarrow> db \<Rightarrow> bool" where
  "ready env services resolve rid n db \<longleftrightarrow>
     db_ok (we_x env) db \<and> unsettled rid db \<noteq> [] \<and> fresh_ids env n db \<and>
     (\<exists>r \<in> set (raffles db). r_id r = rid \<and> r_status r = PayoutPending) \<and>
     (\<forall>p \<in> set (unsettled rid db). p_status p \<in> {PayPending, PayFailed} \<and> payable services resolve db p)"

text \<open>
  A completed raffle: all its payouts are settled, the raffle is marked, and the proof job is enqueued, in
  one of the calls from \<open>n\<close> on; nothing else changed.
\<close>

definition completed :: "world_env \<Rightarrow> RaffleId \<Rightarrow> nat \<Rightarrow> db \<Rightarrow> nat \<Rightarrow> db \<Rightarrow> bool" where
  "completed env rid n db m db' \<longleftrightarrow> unsettled rid db' = [] \<and>
     (\<exists>k ps. n \<le> k \<and> k < m \<and> map payout_identity ps = map payout_identity (payouts db) \<and>
        insert_job (we_ids env k 0) (we_now env k) ''proof.generate'' (x_uuid_text (we_x env) rid)
          (JObj [(''raffle_id'', JStr (x_uuid_text (we_x env) rid))])
          (db\<lparr>payouts := ps, raffles := set_where (\<lambda>r. r_id r = rid \<and> r_status r = PayoutPending)
             (set_status (we_now env k) PaidOut) (raffles db)\<rparr>) = Ok db')"

lemma completed_facts:
  assumes "completed env rid n db m db'" and "r \<in> set (raffles db)" and "r_id r = rid" and "r_status r = PayoutPending"
  shows "\<exists>r \<in> set (raffles db'). r_id r = rid \<and> r_status r = PaidOut"
    and "\<exists>j \<in> set (jobs db'). j_kind j = ''proof.generate'' \<and> j_deduplication_key j = x_uuid_text (we_x env) rid"
    and "\<forall>p \<in> set (payouts db'). p_raffle_id p = rid \<longrightarrow> p_status p = PaySettled"
proof -
  from assms(1) obtain k ps where j: "insert_job (we_ids env k 0) (we_now env k) ''proof.generate'' (x_uuid_text (we_x env) rid)
          (JObj [(''raffle_id'', JStr (x_uuid_text (we_x env) rid))])
          (db\<lparr>payouts := ps, raffles := set_where (\<lambda>r. r_id r = rid \<and> r_status r = PayoutPending)
             (set_status (we_now env k) PaidOut) (raffles db)\<rparr>) = Ok db'"
    unfolding completed_def by blast
  then have rs: "raffles db' = set_where (\<lambda>r. r_id r = rid \<and> r_status r = PayoutPending) (set_status (we_now env k) PaidOut) (raffles db)"
    by (rule insert_job_Ok) simp
  have "set_status (we_now env k) PaidOut r \<in> set (raffles db')"
    using assms(2-4) by (auto simp: rs set_set_where)
  then show "\<exists>r \<in> set (raffles db'). r_id r = rid \<and> r_status r = PaidOut"
    using assms(3) by (intro bexI [of _ "set_status (we_now env k) PaidOut r"]) (simp_all add: set_status_def)
  show "\<exists>j \<in> set (jobs db'). j_kind j = ''proof.generate'' \<and> j_deduplication_key j = x_uuid_text (we_x env) rid"
    using j by (rule insert_job_Ok) simp
  show "\<forall>p \<in> set (payouts db'). p_raffle_id p = rid \<longrightarrow> p_status p = PaySettled"
    using assms(1) by (auto simp: completed_def unsettled_def filter_empty_conv)
qed

lemma settle_payout_outcome:
  assumes "settle_payout x ids now pid worker_id ref db = Ok (d, db')"
    and "t = set_where (\<lambda>q. p_id q = pid \<and> p_status q = PayProcessing \<and> p_lease_owner q = Some worker_id)
      (settle_row now ref) (payouts db)"
  obtains q where "q \<in> set (payouts db)" and "p_id q = pid"
    and "if unsettled (p_raffle_id q) (db\<lparr>payouts := t\<rparr>) = [] then
        insert_job (ids 0) now ''proof.generate'' (x_uuid_text x (p_raffle_id q))
          (JObj [(''raffle_id'', JStr (x_uuid_text x (p_raffle_id q)))])
          (db\<lparr>payouts := t, raffles := set_where (\<lambda>r. r_id r = p_raffle_id q \<and> r_status r = PayoutPending)
             (set_status now PaidOut) (raffles db)\<rparr>) = Ok db'
      else db' = db\<lparr>payouts := t\<rparr>"
  using assms unfolding settle_payout_def Let_def unsettled_def
  by (auto simp: bindR_eq_Ok map_err_eq_Ok fetch_one_Ok sql_update_Ok dest!: fetch_optional_Some split: if_splits)

lemma settle_claimed:
  assumes "db_ok (we_x env) db" and "p \<in> set (unsettled rid db)"
    and "db1 = db\<lparr>payouts := set_where (\<lambda>r. p_id r = p_id p) (payout_take_lease now worker_id deadline) (payouts db)\<rparr>"
    and "settle_payout (we_x env) (we_ids env k) (we_now env k) (p_id p) worker_id ref db1 = Ok (d, db2)"
    and "n \<le> k" and "k < m"
  shows "unsettled rid db2 = filter (\<lambda>q. p_id q \<noteq> p_id p) (unsettled rid db) \<and>
    (if unsettled rid db2 = [] then completed env rid n db m db2
     else \<exists>ps. db2 = db\<lparr>payouts := ps\<rparr> \<and> map payout_identity ps = map payout_identity (payouts db))"
proof -
  let ?mine = "\<lambda>q. p_id q = p_id p \<and> p_status q = PayProcessing \<and> p_lease_owner q = Some worker_id"
  let ?g = "\<lambda>q. settle_row (we_now env k) ref (payout_take_lease now worker_id deadline q)"
  let ?t = "map (\<lambda>q. if p_id q = p_id p then ?g q else q) (payouts db)"
  have tab: "table_ok payout_check payout_conflict (payouts db)"
    using assms(1) by (simp add: db_ok_def payouts_ok_def)
  have pin: "p \<in> set (payouts db)" "p_raffle_id p = rid"
    using assms(2) by (simp_all add: unsettled_def)
  have t: "set_where ?mine (settle_row (we_now env k) ref) (payouts db1) = ?t"
    unfolding assms(3) by simp (rule set_where_twice, simp_all add: payout_take_lease_def)
  obtain q where q: "q \<in> set (payouts db1)" "p_id q = p_id p"
    and rest: "if unsettled (p_raffle_id q) (db1\<lparr>payouts := ?t\<rparr>) = [] then
        insert_job (we_ids env k 0) (we_now env k) ''proof.generate'' (x_uuid_text (we_x env) (p_raffle_id q))
          (JObj [(''raffle_id'', JStr (x_uuid_text (we_x env) (p_raffle_id q)))])
          (db1\<lparr>payouts := ?t, raffles := set_where (\<lambda>r. r_id r = p_raffle_id q \<and> r_status r = PayoutPending)
             (set_status (we_now env k) PaidOut) (raffles db1)\<rparr>) = Ok db2
      else db2 = db1\<lparr>payouts := ?t\<rparr>"
    using assms(4) t [symmetric] by (rule settle_payout_outcome)
  from q obtain s where "s \<in> set (payouts db)" "p_id s = p_id p" "p_raffle_id q = p_raffle_id s"
    by (auto simp: assms(3) set_set_where payout_take_lease_def)
  then have own: "p_raffle_id q = rid"
    using payout_row_unique [OF tab _ pin(1)] pin(2) by blast
  have same: "map payout_identity ?t = map payout_identity (payouts db)"
    by (simp add: payout_identity_def settle_row_def payout_take_lease_def)
  have db1: "db1\<lparr>payouts := ?t\<rparr> = db\<lparr>payouts := ?t\<rparr>" "raffles db1 = raffles db"
    "db1\<lparr>payouts := ?t, raffles := rs\<rparr> = db\<lparr>payouts := ?t, raffles := rs\<rparr>" for rs
    by (simp_all add: assms(3))
  note rest = rest [unfolded own db1]
  have p2: "payouts db2 = ?t"
    using rest by (auto split: if_splits elim: insert_job_Ok)
  then have uns: "unsettled rid db2 = filter (\<lambda>q. p_id q \<noteq> p_id p) (unsettled rid db)"
    by (rule unsettled_after) (simp add: settle_row_def)
  have u2: "unsettled rid (db\<lparr>payouts := ?t\<rparr>) = unsettled rid db2"
    by (simp add: unsettled_def p2)
  have "completed env rid n db m db2" if "unsettled rid db2 = []"
    using that rest [unfolded u2] same assms(5,6) unfolding completed_def
    by (intro conjI exI [of _ k] exI [of _ ?t]) simp_all
  moreover have "db2 = db\<lparr>payouts := ?t\<rparr>" if "unsettled rid db2 \<noteq> []"
    using that rest [unfolded u2] by simp
  ultimately show ?thesis
    using uns same by auto
qed

text \<open>The provider takes a claimed payout: it is asked once, and the payout is settled.\<close>

lemma pay_claimed_succeeds:
  assumes "quiet env" and "db_ok (we_x env) (wd_db v)" and "known_address services (wd_db v) (claimed_of p) a"
    and "\<forall>k. \<exists>invoice. resolve k a (Sats (of_int (p_amount_sats p))) = Ok invoice \<and>
      ri_amount_sats invoice = Sats (of_int (p_amount_sats p)) \<and>
      (\<forall>j. \<exists>attempt. pv_pay_invoice (ws_provider services) j (payout_request (claimed_of p) invoice) = Ok attempt)"
    and "q \<in> set (payouts (wd_db v))" and "p_status q = PayProcessing" and "p_lease_owner q = Some worker_id" and "p_id q = p_id p"
    and "fresh_ids env (wd_calls v) (wd_db v)"
  obtains k ref d u invoice where
    "settle_payout (we_x env) (we_ids env k) (we_now env k) (p_id p) worker_id ref (wd_db v)
      = Ok (d, wd_db u)"
    and "pay_claimed env services resolve worker_id (claimed_of p) v = (Ok (), u)"
    and "wd_paid u = wd_paid v @ [payout_request (claimed_of p) invoice]"
    and "wd_calls v \<le> k" and "wd_calls u = Suc k" and "wd_calls u \<le> wd_calls v + 4"
proof -
  obtain v1 where v1: "recipient_address env services (claimed_of p) v = (Ok a, v1)" "wd_db v1 = wd_db v" "wd_paid v1 = wd_paid v"
    "wd_calls v \<le> wd_calls v1" "wd_calls v1 \<le> Suc (wd_calls v)"
    using assms(3) by (rule recipient_address_succeeds [OF assms(1)])
  obtain invoice where inv: "resolve (wd_calls v1) a (Sats (of_int (p_amount_sats p))) = Ok invoice"
      "ri_amount_sats invoice = Sats (of_int (p_amount_sats p))"
    and pay: "\<forall>j. \<exists>attempt. pv_pay_invoice (ws_provider services) j (payout_request (claimed_of p) invoice) = Ok attempt"
    using assms(4) by blast
  obtain attempt where att: "pv_pay_invoice (ws_provider services) (Suc (wd_calls v1)) (payout_request (claimed_of p) invoice) = Ok attempt"
    using pay by blast
  let ?k = "Suc (Suc (wd_calls v1))"
  have fresh: "\<forall>j \<in> set (jobs (wd_db v)). j_id j \<noteq> we_ids env ?k 0"
    using assms(9) v1(4) by (simp add: fresh_ids_def)
  obtain d db2 where st: "settle_payout (we_x env) (we_ids env ?k) (we_now env ?k) (p_id p) worker_id (pat_provider_reference attempt) (wd_db v)
      = Ok (d, db2)"
    using settle_payout_succeeds [where ids = "we_ids env ?k", OF assms(2,5,6,7) fresh] unfolding assms(8) by blast
  let ?u = "v1\<lparr>wd_db := db2, wd_calls := Suc ?k, wd_paid := wd_paid v @ [payout_request (claimed_of p) invoice]\<rparr>"
  show thesis
  proof (rule that [of ?k "pat_provider_reference attempt" d ?u invoice])
    show "pay_claimed env services resolve worker_id (claimed_of p) v = (Ok (), ?u)"
      using st att inv v1(1-3)
      by (simp add: pay_claimed_def bindW_def askE_def pay_invoice_def claimed_of_def storeE_def quiet_transact [OF assms(1)] returnW_def)
  qed (use st v1(4,5) in simp_all)
qed

lemma fresh_ids_later: "fresh_ids env n db \<Longrightarrow> n \<le> m \<Longrightarrow> jobs db' = jobs db \<Longrightarrow> fresh_ids env m db'"
  by (simp add: fresh_ids_def)

lemma payout_round:
  assumes "quiet env" and "env_ok env" and "ready env services resolve rid (wd_calls w) (wd_db w)"
  obtains p v u invoice where "p \<in> set (unsettled rid (wd_db w))"
    and "claim_next env worker_id rid w = (Ok (Some (claimed_of p)), v)"
    and "pay_claimed env services resolve worker_id (claimed_of p) v = (Ok (), u)"
    and "wd_paid u = wd_paid w @ [payout_request (claimed_of p) invoice]"
    and "unsettled rid (wd_db u) = filter (\<lambda>q. p_id q \<noteq> p_id p) (unsettled rid (wd_db w))"
    and "wd_calls w \<le> wd_calls u" and "wd_calls u \<le> wd_calls w + 5"
    and "if unsettled rid (wd_db u) = [] then completed env rid (wd_calls w) (wd_db w) (wd_calls u) (wd_db u)
      else ready env services resolve rid (wd_calls u) (wd_db u) \<and>
        (\<exists>ps. wd_db u = (wd_db w)\<lparr>payouts := ps\<rparr> \<and> map payout_identity ps = map payout_identity (payouts (wd_db w)))"
proof -
  let ?x = "we_x env" and ?now = "we_now env (wd_calls w)"
  note r = assms(3) [unfolded ready_def]
  obtain p where p: "p \<in> set (unsettled rid (wd_db w))" and claim: "claim_next env worker_id rid w = (Ok (Some (claimed_of p)),
      w\<lparr>wd_db := (wd_db w)\<lparr>payouts := set_where (\<lambda>r. p_id r = p_id p)
          (payout_take_lease ?now worker_id (?now + seconds 60)) (payouts (wd_db w))\<rparr>, wd_calls := Suc (wd_calls w)\<rparr>)"
    using claim_next_succeeds [OF assms(1), of ?x w rid worker_id] r by blast
  define v where "v = w\<lparr>wd_db := (wd_db w)\<lparr>payouts := set_where (\<lambda>r. p_id r = p_id p)
      (payout_take_lease ?now worker_id (?now + seconds 60)) (payouts (wd_db w))\<rparr>, wd_calls := Suc (wd_calls w)\<rparr>"
  have vok: "db_ok ?x (wd_db v)"
    using db_run_ok [OF assms(2) runsD [OF runs_claim_next [OF assms(2)] _ claim]] r by (simp add: v_def)
  obtain a where a: "known_address services (wd_db w) (claimed_of p) a" and res: "\<forall>k. \<exists>invoice.
      resolve k a (Sats (of_int (p_amount_sats p))) = Ok invoice \<and> ri_amount_sats invoice = Sats (of_int (p_amount_sats p)) \<and>
      (\<forall>j. \<exists>attempt. pv_pay_invoice (ws_provider services) j (payout_request (claimed_of p) invoice) = Ok attempt)"
    using r p by (auto simp: payable_def)
  have av: "known_address services (wd_db v) (claimed_of p) a"
    using a by (simp add: v_def)
  let ?q = "payout_take_lease ?now worker_id (?now + seconds 60) p"
  have q: "?q \<in> set (payouts (wd_db v))" "p_status ?q = PayProcessing" "p_lease_owner ?q = Some worker_id" "p_id ?q = p_id p"
    using p by (auto simp: v_def unsettled_def set_set_where payout_take_lease_def)
  have fresh: "fresh_ids env (wd_calls v) (wd_db v)"
    using r by (auto simp: v_def intro: fresh_ids_later)
  obtain k ref d u invoice where st: "settle_payout ?x (we_ids env k) (we_now env k) (p_id p) worker_id ref (wd_db v) = Ok (d, wd_db u)"
    and paid: "pay_claimed env services resolve worker_id (claimed_of p) v = (Ok (), u)"
    and sent: "wd_paid u = wd_paid v @ [payout_request (claimed_of p) invoice]"
    and calls: "wd_calls v \<le> k" "wd_calls u = Suc k" "wd_calls u \<le> wd_calls v + 4"
    by (rule pay_claimed_succeeds [where env = env and v = v and services = services and resolve = resolve and a = a and p = p and q = ?q, OF assms(1) vok av res q fresh])
  have uok: "db_ok ?x (wd_db u)"
    using db_run_ok [OF assms(2) runsD [OF runs_pay_claimed [OF assms(2)] vok paid] vok] .
  have n: "wd_calls w \<le> k" "k < wd_calls u" "wd_calls w \<le> wd_calls u" "wd_calls u \<le> wd_calls w + 5"
    using calls by (simp_all add: v_def)
  have after: "unsettled rid (wd_db u) = filter (\<lambda>q. p_id q \<noteq> p_id p) (unsettled rid (wd_db w)) \<and>
      (if unsettled rid (wd_db u) = [] then completed env rid (wd_calls w) (wd_db w) (wd_calls u) (wd_db u)
       else \<exists>ps. wd_db u = (wd_db w)\<lparr>payouts := ps\<rparr> \<and> map payout_identity ps = map payout_identity (payouts (wd_db w)))"
    using settle_claimed [OF _ p _ st n(1,2)] r by (simp add: v_def)
  then have nxt: "if unsettled rid (wd_db u) = [] then completed env rid (wd_calls w) (wd_db w) (wd_calls u) (wd_db u)
      else ready env services resolve rid (wd_calls u) (wd_db u) \<and>
        (\<exists>ps. wd_db u = (wd_db w)\<lparr>payouts := ps\<rparr> \<and> map payout_identity ps = map payout_identity (payouts (wd_db w)))"
    using r uok n(3) by (auto simp: ready_def intro: fresh_ids_later split: if_splits)
  have "wd_paid u = wd_paid w @ [payout_request (claimed_of p) invoice]"
    using sent by (simp add: v_def)
  then show thesis
    by (rule that [OF p claim [folded v_def] paid _ conjunct1 [OF after] n(3,4) nxt])
qed

text \<open>Rounds that only claim and settle payouts compose with the one that completes the raffle.\<close>

lemma completed_after:
  assumes "completed env rid n' db' m' db''" and "db' = db\<lparr>payouts := ps\<rparr>" and "map payout_identity ps = map payout_identity (payouts db)"
    and "n \<le> n'" and "m' \<le> m"
  shows "completed env rid n db m db''"
proof -
  from assms(1) obtain k qs where "n' \<le> k" "k < m'" "unsettled rid db'' = []"
    "map payout_identity qs = map payout_identity (payouts db')"
    "insert_job (we_ids env k 0) (we_now env k) ''proof.generate'' (x_uuid_text (we_x env) rid)
          (JObj [(''raffle_id'', JStr (x_uuid_text (we_x env) rid))])
          (db'\<lparr>payouts := qs, raffles := set_where (\<lambda>r. r_id r = rid \<and> r_status r = PayoutPending)
             (set_status (we_now env k) PaidOut) (raffles db')\<rparr>) = Ok db''"
    unfolding completed_def by blast
  then show ?thesis
    using assms(2-5) unfolding completed_def by (intro conjI exI [of _ k] exI [of _ qs]) simp_all
qed

lemma payout_loop_ends:
  assumes "quiet env" and "unsettled rid (wd_db u) = []"
  shows "payout_loop (Suc fuel) env services resolve worker_id rid u = Some (Ok (), u\<lparr>wd_calls := Suc (wd_calls u)\<rparr>)"
proof -
  have "\<forall>q \<in> set (payouts (wd_db u)). \<not> payout_claimable rid t q" for t
    using assms(2) by (auto simp: unsettled_def filter_empty_conv payout_claimable_def)
  then have "claim_next env worker_id rid u = (Ok None, u\<lparr>wd_calls := Suc (wd_calls u)\<rparr>)"
    by (simp add: claim_next_def storeE_def quiet_transact [OF assms(1)] claim_payout_def candidate_None [THEN iffD2])
  then show ?thesis
    by simp
qed

text \<open>The outcome of a loop on a raffle with open payouts.\<close>

definition payouts_made :: "world_env \<Rightarrow> RaffleId \<Rightarrow> world \<Rightarrow> PayoutRequest list \<Rightarrow> world \<Rightarrow> bool" where
  "payouts_made env rid w reqs w' \<longleftrightarrow>
     completed env rid (wd_calls w) (wd_db w) (wd_calls w') (wd_db w') \<and> wd_paid w' = wd_paid w @ reqs \<and>
     distinct (map prq_payout_id reqs) \<and> set (map prq_payout_id reqs) = p_id ` set (unsettled rid (wd_db w)) \<and>
     wd_calls w' \<le> wd_calls w + 5 * length (unsettled rid (wd_db w)) + 1"

lemma payout_loop_completes:
  assumes "quiet env" and "env_ok env" and "ready env services resolve rid (wd_calls w) (wd_db w)"
    and "length (unsettled rid (wd_db w)) < fuel"
  shows "\<exists>w' reqs. payout_loop fuel env services resolve worker_id rid w = Some (Ok (), w') \<and> payouts_made env rid w reqs w'"
  using assms(3,4)
proof (induction fuel arbitrary: w)
  case (Suc fuel)
  obtain p v u invoice where p: "p \<in> set (unsettled rid (wd_db w))"
    and c: "claim_next env worker_id rid w = (Ok (Some (claimed_of p)), v)"
    and pay: "pay_claimed env services resolve worker_id (claimed_of p) v = (Ok (), u)"
    and paid: "wd_paid u = wd_paid w @ [payout_request (claimed_of p) invoice]"
    and uns: "unsettled rid (wd_db u) = filter (\<lambda>q. p_id q \<noteq> p_id p) (unsettled rid (wd_db w))"
    and n: "wd_calls w \<le> wd_calls u" "wd_calls u \<le> wd_calls w + 5"
    and nxt: "if unsettled rid (wd_db u) = [] then completed env rid (wd_calls w) (wd_db w) (wd_calls u) (wd_db u)
      else ready env services resolve rid (wd_calls u) (wd_db u) \<and>
        (\<exists>ps. wd_db u = (wd_db w)\<lparr>payouts := ps\<rparr> \<and> map payout_identity ps = map payout_identity (payouts (wd_db w)))"
    using assms(1,2) Suc.prems(1) by (rule payout_round)
  have loop: "payout_loop (Suc fuel) env services resolve worker_id rid w = payout_loop fuel env services resolve worker_id rid u"
    by (simp add: c pay)
  have shorter: "length (unsettled rid (wd_db u)) < length (unsettled rid (wd_db w))"
    using length_filter_less [OF p, of "\<lambda>q. p_id q \<noteq> p_id p"] by (simp add: uns)
  then have fuel: "length (unsettled rid (wd_db u)) < fuel"
    and room: "5 * length (unsettled rid (wd_db u)) + 5 \<le> 5 * length (unsettled rid (wd_db w))"
    using Suc.prems(2) by linarith+
  have ids: "insert (p_id p) (p_id ` set (unsettled rid (wd_db u))) = p_id ` set (unsettled rid (wd_db w))"
    "p_id p \<notin> p_id ` set (unsettled rid (wd_db u))"
    using p by (auto simp: uns)
  show ?case
  proof (cases "unsettled rid (wd_db u) = []")
    case True
    then have "completed env rid (wd_calls w) (wd_db w) (wd_calls u) (wd_db u)"
      using nxt by simp
    then have "completed env rid (wd_calls w) (wd_db w) (Suc (wd_calls u)) (wd_db u)"
      by (rule completed_after [where ps = "payouts (wd_db w)"]) simp_all
    moreover obtain f where "fuel = Suc f"
      using fuel by (cases fuel) auto
    ultimately have "payout_loop fuel env services resolve worker_id rid u = Some (Ok (), u\<lparr>wd_calls := Suc (wd_calls u)\<rparr>)"
      "payouts_made env rid w [payout_request (claimed_of p) invoice] (u\<lparr>wd_calls := Suc (wd_calls u)\<rparr>)"
      using True n(2) paid ids room payout_loop_ends [OF assms(1) True]
      by (simp_all add: payouts_made_def payout_request_def claimed_of_def)
    then show ?thesis
      unfolding loop by blast
  next
    case False
    with nxt obtain ps where r: "ready env services resolve rid (wd_calls u) (wd_db u)"
      and ps: "wd_db u = (wd_db w)\<lparr>payouts := ps\<rparr>" "map payout_identity ps = map payout_identity (payouts (wd_db w))"
      by auto
    from Suc.IH [OF r fuel] obtain w' reqs where run: "payout_loop fuel env services resolve worker_id rid u = Some (Ok (), w')"
      and made: "payouts_made env rid u reqs w'"
      by blast
    have "completed env rid (wd_calls w) (wd_db w) (wd_calls w') (wd_db w')"
      using made unfolding payouts_made_def by (elim conjE) (rule completed_after [OF _ ps n(1) order_refl])
    then have "payouts_made env rid w (payout_request (claimed_of p) invoice # reqs) w'"
      using made paid ids room n(2) unfolding payouts_made_def
      by (intro conjI) (simp_all add: payout_request_def claimed_of_def)
    then show ?thesis
      unfolding loop using run by blast
  qed
qed simp

text \<open>C11. When no other process interferes and the recipients, the resolver and the provider cooperate, a payout job
  on a raffle with open payouts ends, however many there are: it returns without an error, hands exactly
  one request for every open payout to the provider, leaves no payout of the raffle unsettled, marks the
  raffle as paid out and schedules its proof.\<close>

theorem payout_job_completes:
  assumes "quiet env" and "env_ok env" and "ready env services resolve rid (wd_calls w) (wd_db w)"
    and "ws_resolver services = Some resolve"
    and "json_get ''raffle_id'' (cj_payload job) = Some (JStr text)" and "x_uuid_parse (we_x env) text = Some rid"
    and "length (unsettled rid (wd_db w)) < fuel"
  shows "\<exists>w' reqs. payout_execute fuel env services worker_id job w = Some (Ok (), w') \<and>
    (\<forall>p \<in> set (payouts (wd_db w')). p_raffle_id p = rid \<longrightarrow> p_status p = PaySettled) \<and>
    (\<exists>r \<in> set (raffles (wd_db w')). r_id r = rid \<and> r_status r = PaidOut) \<and>
    (\<exists>j \<in> set (jobs (wd_db w')). j_kind j = ''proof.generate'' \<and> j_deduplication_key j = x_uuid_text (we_x env) rid) \<and>
    wd_paid w' = wd_paid w @ reqs \<and> distinct (map prq_payout_id reqs) \<and>
    set (map prq_payout_id reqs) = p_id ` set (unsettled rid (wd_db w))"
proof -
  have "payout_execute fuel env services worker_id job w = payout_loop fuel env services resolve worker_id rid w"
    using assms(4-6) by (simp add: payout_execute_def bindW_def job_uuid_def liftE_def returnW_def)
  moreover obtain w' reqs where "payout_loop fuel env services resolve worker_id rid w = Some (Ok (), w')"
    and made: "payouts_made env rid w reqs w'"
    using payout_loop_completes [OF assms(1-3,7)] by blast
  moreover obtain r where "r \<in> set (raffles (wd_db w))" "r_id r = rid" "r_status r = PayoutPending"
    using assms(3) by (auto simp: ready_def)
  ultimately show ?thesis
    using completed_facts [of env rid "wd_calls w" "wd_db w" "wd_calls w'" "wd_db w'" r] unfolding payouts_made_def by auto
qed

text \<open>The job on the sample: three payouts, addresses under the ciphertexts of the sample.\<close>

definition sample_drawn :: db where
  "sample_drawn = (sample_store PayoutPending)\<lparr>draws :=
     [\<lparr>d_id = 60, d_raffle_id = 2, d_entries_root = as_bytes ZERO_HASH, d_randomness_block_hash = as_bytes ZERO_HASH,
       d_winning_ticket = 0, d_winner_entry_id = 7, d_created_at = 3\<rparr>]\<rparr>"

definition sample_payout_job :: ClaimedJob where
  "sample_payout_job = \<lparr>cj_id = 70, cj_kind = ''payout.execute'', cj_deduplication_key = ''uu'',
     cj_payload = JObj [(''raffle_id'', JStr ''uu'')], cj_attempts = 1, cj_max_attempts = 8, cj_lease_expires_at = 9\<rparr>"

lemma sample_drawn_sel [simp]:
  "raffles sample_drawn = [sample_raffle_row PayoutPending]" "jobs sample_drawn = []"
  "payouts sample_drawn = sample_payouts PayoutPending"
  by (simp_all add: sample_drawn_def)

lemma sample_drawn_ok: "db_ok sample_ext sample_drawn"
proof -
  have "keeps_core (sample_store PayoutPending) sample_drawn"
    by (simp add: keeps_core_def sample_drawn_def)
  from keeps_core_store [OF this] show ?thesis
    using sample_db_ok [of PayoutPending] by (simp add: db_ok_def)
qed

lemma sample_unsettled:
  "unsettled 2 sample_drawn = [sample_payout_row PayPending 31 RWinner 240, sample_payout_row PayPending 32 ROrganizer 45,
     sample_payout_row PayPending 33 RPlatform 15]"
  by (simp add: unsettled_def sample_payouts_def drawn_status_def Let_def sample_rows)

lemma fake_pays:
  assumes "trim a \<noteq> []" and "0 < amount" and "amount < 2 ^ 63"
  shows "\<exists>invoice. fake_resolve_exact_amount a (Sats (of_int amount)) = Ok invoice \<and>
    ri_amount_sats invoice = Sats (of_int amount) \<and>
    (prq_amount_sats req = Sats (of_int amount) \<longrightarrow>
       (\<exists>attempt. fake_pay_invoice (req\<lparr>prq_bolt11 := ri_bolt11 invoice\<rparr>) = Ok attempt))"
proof -
  obtain invoice where i: "fake_resolve_exact_amount a (Sats (of_int amount)) = Ok invoice"
    using assms(1) by (simp add: fake_resolve_exact_amount_def)
  moreover have "uint (of_int amount :: u64) = amount"
    using assms(2,3) by (intro uint_of_int) (auto simp: bigint_def)
  then have "(of_int amount :: u64) \<noteq> 0"
    using assms(2) by (metis less_irrefl unsigned_0)
  ultimately show ?thesis
    using fake.exact_amount [OF i] fake.not_blank [OF i] by (simp add: fake_pay_invoice_def)
qed

lemma sample_payable:
  assumes "known_address sample_services sample_drawn (claimed_of p) a" and "trim a \<noteq> []"
    and "0 < p_amount_sats p" and "p_amount_sats p < 2 ^ 63"
  shows "payable sample_services (\<lambda>_. fake_resolve_exact_amount) sample_drawn p"
  unfolding payable_def
proof (intro exI [of _ a] conjI allI assms(1))
  show "\<exists>invoice. fake_resolve_exact_amount a (Sats (of_int (p_amount_sats p))) = Ok invoice \<and>
      ri_amount_sats invoice = Sats (of_int (p_amount_sats p)) \<and>
      (\<forall>j. \<exists>attempt. pv_pay_invoice (ws_provider sample_services) j (payout_request (claimed_of p) invoice) = Ok attempt)"
    using fake_pays [OF assms(2-4), of "payout_request (claimed_of p) undefined"]
    by (auto simp: sample_services_def FakePaymentProvider_def payout_request_def claimed_of_def)
qed

lemma sample_ready: "ready sample_worker_env sample_services (\<lambda>_. fake_resolve_exact_amount) 2 n sample_drawn"
proof -
  have x: "we_x sample_worker_env = sample_ext"
    by (simp add: sample_worker_env_def)
  have t: "trim ''a@b'' \<noteq> []" "trim ''p@q'' \<noteq> []"
    by (simp_all add: trim_def trim_matches_def trim_end_matches_def is_space_def)
  have "payable sample_services (\<lambda>_. fake_resolve_exact_amount) sample_drawn (sample_payout_row PayPending 31 RWinner 240)"
    "payable sample_services (\<lambda>_. fake_resolve_exact_amount) sample_drawn (sample_payout_row PayPending 32 ROrganizer 45)"
    by (rule sample_payable [OF _ t(1)];
        simp add: known_address_def claimed_of_def sample_rows payout_recipient_ciphertext_def first_ciphertext_def
          winner_ciphertexts_def organizer_ciphertexts_def sample_services_def sample_drawn_def sample_store_def)+
  moreover have "payable sample_services (\<lambda>_. fake_resolve_exact_amount) sample_drawn (sample_payout_row PayPending 33 RPlatform 15)"
    by (rule sample_payable [OF _ t(2)]) (simp_all add: known_address_def claimed_of_def sample_rows sample_services_def)
  moreover have "p_status (sample_payout_row PayPending u rec a) = PayPending" for u rec a
    by (simp add: sample_payout_row_def)
  ultimately show ?thesis
    unfolding ready_def by (auto simp: x sample_drawn_ok sample_unsettled fresh_ids_def)
qed

lemma sample_quiet: "quiet sample_worker_env"
  by (simp add: quiet_def sample_worker_env_def)

lemma sample_job_facts:
  "ws_resolver sample_services = Some (\<lambda>_. fake_resolve_exact_amount)"
  "json_get ''raffle_id'' (cj_payload sample_payout_job) = Some (JStr ''uu'')"
  "x_uuid_parse (we_x sample_worker_env) ''uu'' = Some 2"
  "wd_db (sample_world db) = db" "wd_paid (sample_world db) = []"
  by (simp_all add: sample_services_def sample_payout_job_def sample_worker_env_def sample_ext_def sample_world_def)

theorem payout_job_completes_witness:
  "\<exists>w' reqs. payout_execute 4 sample_worker_env sample_services ''w1'' sample_payout_job (sample_world sample_drawn) = Some (Ok (), w') \<and>
     (\<exists>r \<in> set (raffles (wd_db w')). r_id r = 2 \<and> r_status r = PaidOut) \<and>
     wd_paid w' = reqs \<and> set (map prq_payout_id reqs) = {31, 32, 33}"
proof -
  have ids: "p_id ` set (unsettled 2 sample_drawn) = {31, 32, 33}" "length (unsettled 2 sample_drawn) < 4"
    by (simp_all add: sample_unsettled sample_rows)
  have r: "ready sample_worker_env sample_services (\<lambda>_. fake_resolve_exact_amount) 2
      (wd_calls (sample_world sample_drawn)) (wd_db (sample_world sample_drawn))"
    by (simp add: sample_job_facts sample_ready)
  from payout_job_completes [OF sample_quiet sample_env_ok r sample_job_facts(1-3), of 4 "''w1''"] show ?thesis
    unfolding sample_job_facts(4,5) ids(1) using ids(2) by auto
qed

lemma sample_payout_run:
  "\<exists>r w'. payout_execute 4 sample_worker_env sample_services ''w1'' sample_payout_job (sample_world sample_drawn) = Some (r, w') \<and>
     wd_paid w' \<noteq> []"
proof -
  have "\<exists>w' reqs. payout_loop 4 sample_worker_env sample_services (\<lambda>_. fake_resolve_exact_amount) ''w1'' 2 (sample_world sample_drawn)
      = Some (Ok (), w') \<and> payouts_made sample_worker_env 2 (sample_world sample_drawn) reqs w'"
    using sample_quiet sample_env_ok by (rule payout_loop_completes)
      (simp_all add: sample_job_facts sample_ready, simp add: sample_unsettled)
  moreover have "payout_execute 4 sample_worker_env sample_services ''w1'' sample_payout_job (sample_world sample_drawn) =
      payout_loop 4 sample_worker_env sample_services (\<lambda>_. fake_resolve_exact_amount) ''w1'' 2 (sample_world sample_drawn)"
    by (simp add: payout_execute_def bindW_def job_uuid_def liftE_def returnW_def sample_job_facts del: payout_loop.simps)
  moreover have "p_id ` set (unsettled 2 sample_drawn) = {31, 32, 33}"
    by (simp add: sample_unsettled sample_rows)
  ultimately show ?thesis
    by (fastforce simp: payouts_made_def sample_job_facts)
qed

theorem payments_match_claims_witness:
  "\<exists>r w'. payout_execute 4 sample_worker_env sample_services ''w1'' sample_payout_job (sample_world sample_drawn) = Some (r, w') \<and>
     wd_paid w' \<noteq> [] \<and> payout_rounds sample_worker_env ''w1'' 2 (sample_world sample_drawn) (wd_paid w') w'"
proof -
  obtain r w' where run: "payout_execute 4 sample_worker_env sample_services ''w1'' sample_payout_job (sample_world sample_drawn) = Some (r, w')"
    and paid: "wd_paid w' \<noteq> []"
    using sample_payout_run by blast
  have ok: "db_ok (we_x sample_worker_env) (wd_db (sample_world sample_drawn))"
    by (simp add: sample_job_facts sample_drawn_ok sample_worker_env_def)
  have raffle: "fst (job_uuid sample_worker_env ''raffle_id'' sample_payout_job w) = Ok 2" for w
    by (simp add: job_uuid_def liftE_def sample_job_facts)
  have changed: "w' \<noteq> sample_world sample_drawn"
    using paid by (auto simp: sample_job_facts)
  from payments_match_claims [OF sample_env_ok ok run] run paid changed show ?thesis
    by (auto simp: raffle sample_job_facts)
qed

end
