(* ===== verification/Store_Progress.thy ===== *)
theory Store_Progress
  imports Store_Outcome
begin

text \<open>
  Progress of the transactions that take a raffle from its end time to its published proof: on a store
  in order, with identifiers that are not in use and no trace of an earlier run, each of them commits.
  Every lemma gives the database that results, so that the lemmas compose to a run of the whole chain.
\<close>

section \<open>Fresh identifiers\<close>

definition used_ids :: "db \<Rightarrow> uuid set" where
  "used_ids db = j_id ` set (jobs db) \<union> a_id ` set (audit_events db) \<union> x_id ` set (outbox_events db) \<union>
     d_id ` set (draws db) \<union> p_id ` set (payouts db) \<union> pr_id ` set (proofs db)"

text \<open>What \<open>Uuid::new_v4\<close> is relied on for: the identifiers of a call are new, and differ.\<close>

definition fresh_call :: "(nat \<Rightarrow> uuid) \<Rightarrow> db \<Rightarrow> bool" where
  "fresh_call ids db \<longleftrightarrow> inj_on ids {..<10} \<and> (\<forall>i < 10. ids i \<notin> used_ids db)"

lemma fresh_callD:
  assumes "fresh_call ids db" and "i < 10"
  shows "\<forall>j \<in> set (jobs db). j_id j \<noteq> ids i" and "\<forall>a \<in> set (audit_events db). a_id a \<noteq> ids i"
    and "\<forall>e \<in> set (outbox_events db). x_id e \<noteq> ids i" and "\<forall>d \<in> set (draws db). d_id d \<noteq> ids i"
    and "\<forall>p \<in> set (payouts db). p_id p \<noteq> ids i" and "\<forall>p \<in> set (proofs db). pr_id p \<noteq> ids i"
  using assms unfolding fresh_call_def used_ids_def by (metis UnCI imageI)+

lemma fresh_call_eq: "fresh_call ids db \<Longrightarrow> i < 10 \<Longrightarrow> j < 10 \<Longrightarrow> ids i = ids j \<longleftrightarrow> i = j"
  by (auto simp: fresh_call_def inj_on_def)

section \<open>The writers\<close>

text \<open>The row of a job of the pipeline: it carries the raffle as payload and as deduplication key.\<close>

definition pipeline_job :: "externals \<Rightarrow> uuid \<Rightarrow> timestamp \<Rightarrow> string \<Rightarrow> RaffleId \<Rightarrow> job_row" where
  "pipeline_job x uid now kind rid =
     default_job uid now kind (x_uuid_text x rid) (JObj [(''raffle_id'', JStr (x_uuid_text x rid))])"

text \<open>No job of that kind was ever enqueued for the raffle.\<close>

definition no_job :: "externals \<Rightarrow> string \<Rightarrow> RaffleId \<Rightarrow> job_row list \<Rightarrow> bool" where
  "no_job x kind rid js \<longleftrightarrow> (\<forall>j \<in> set js. \<not> (j_kind j = kind \<and> j_deduplication_key j = x_uuid_text x rid))"

lemma insert_job_new:
  assumes "no_job x kind rid (jobs db)" and "\<forall>j \<in> set (jobs db). j_id j \<noteq> uid"
  shows "insert_job uid now kind (x_uuid_text x rid) (JObj [(''raffle_id'', JStr (x_uuid_text x rid))]) db =
    Ok (db\<lparr>jobs := jobs db @ [pipeline_job x uid now kind rid]\<rparr>)"
proof -
  have "job_check (pipeline_job x uid now kind rid)"
    by (simp add: pipeline_job_def default_job_def job_check_def integer_col_def)
  moreover have "\<not> job_conflict j (pipeline_job x uid now kind rid)" if "j \<in> set (jobs db)" for j
    using assms that by (auto simp: pipeline_job_def default_job_def job_conflict_def no_job_def)
  moreover have "\<not> (\<exists>j \<in> set (jobs db). (j_kind j, j_deduplication_key j) = (kind, x_uuid_text x rid))"
    using assms(1) by (auto simp: no_job_def)
  ultimately show ?thesis
    by (auto simp: insert_job_def sql_insert_ignore_def sql_insert_def pipeline_job_def default_job_def)
qed

definition audit_row_of :: "uuid \<Rightarrow> timestamp \<Rightarrow> uuid \<Rightarrow> string \<Rightarrow> json \<Rightarrow> audit_row" where
  "audit_row_of uid now agg ev pl =
     \<lparr>a_id = uid, a_aggregate_type = ''raffle'', a_aggregate_id = agg, a_event_type = ev, a_actor_type = ''system'',
      a_payload = pl, a_created_at = now\<rparr>"

definition outbox_row_of :: "uuid \<Rightarrow> timestamp \<Rightarrow> uuid \<Rightarrow> string \<Rightarrow> json \<Rightarrow> outbox_row" where
  "outbox_row_of uid now agg ev pl =
     \<lparr>x_id = uid, x_aggregate_type = ''raffle'', x_aggregate_id = agg, x_event_type = ev, x_payload = pl,
      x_occurred_at = now, x_delivered_at = None, x_attempts = 0, x_lease_owner = None, x_lease_expires_at = None\<rparr>"

lemma new_row_ids [simp]:
  "a_id (audit_row_of uid now agg ev pl) = uid" "x_id (outbox_row_of uid now agg ev pl) = uid"
  "j_id (pipeline_job x uid now kind rid) = uid"
  by (simp_all add: audit_row_of_def outbox_row_of_def pipeline_job_def default_job_def)

lemma write_audit_new:
  assumes "\<forall>a \<in> set (audit_events db). a_id a \<noteq> uid"
  shows "write_audit uid now agg ev pl db = Ok (db\<lparr>audit_events := audit_events db @ [audit_row_of uid now agg ev pl]\<rparr>)"
  using assms by (auto simp: write_audit_def sql_insert_def audit_conflict_def audit_row_of_def)

lemma write_outbox_new:
  assumes "\<forall>e \<in> set (outbox_events db). x_id e \<noteq> uid"
  shows "write_outbox uid now agg ev pl db = Ok (db\<lparr>outbox_events := outbox_events db @ [outbox_row_of uid now agg ev pl]\<rparr>)"
  using assms by (auto simp: write_outbox_def sql_insert_def outbox_conflict_def outbox_row_of_def outbox_check_def integer_col_def)

text \<open>An update of the row of one raffle that keeps its checks.\<close>

lemma raffle_update_succeeds:
  assumes "store_ok x db" and "\<And>r. r \<in> set (raffles db) \<Longrightarrow> P r \<Longrightarrow> raffle_check (f r)" and "\<And>r. r_id (f r) = r_id r"
  shows "sql_update raffle_check raffle_conflict P f (raffles db) =
    Ok (set_where P f (raffles db), length (filter P (raffles db)))"
  using store_okD(1) [OF assms(1)] assms(2)
  by (rule raffles_tbl.update_succeeds) (simp_all add: raffle_conflict_def assms(3))

lemma set_status_check: "raffle_check r \<Longrightarrow> raffle_check (set_status now st r)"
  by (simp add: raffle_check_def set_status_def)

section \<open>Scheduling a close\<close>

lemma filter_single:
  assumes "unique_ok c t" and "r \<in> set t" and "P r" and "c r r" and "\<And>s. s \<in> set t \<Longrightarrow> P s \<Longrightarrow> s = r"
  shows "filter P t = [r]"
proof -
  from assms(2) obtain ys zs where t: "t = ys @ r # zs"
    by (auto dest: split_list)
  have "r \<notin> set ys" "r \<notin> set zs"
    using assms(1,4) unfolding t unique_ok_append by auto
  then have "\<not> P s" if "s \<in> set ys \<or> s \<in> set zs" for s
    using that assms(5) [of s] unfolding t by auto
  then show ?thesis
    using assms(3) by (simp add: t filter_empty_conv)
qed

lemma schedule_none:
  assumes "\<forall>r \<in> set (raffles db). \<not> close_due now r" and "store_ok x db"
  shows "schedule_due_closes x ids now db = Ok (0, db)"
proof -
  have "set_where (close_due now) (set_status now Closing) (raffles db) = raffles db"
    using assms(1) by (intro set_where_cong) simp
  moreover have "filter (close_due now) (raffles db) = []"
    using assms(1) by (simp add: filter_empty_conv)
  ultimately show ?thesis
    using raffle_update_succeeds [OF assms(2), of "close_due now" "set_status now Closing"] assms(1)
    by (simp add: schedule_due_closes_def set_status_def)
qed

lemma schedule_one:
  assumes "store_ok x db" and "r \<in> set (raffles db)" and "close_due now r"
    and "\<forall>s \<in> set (raffles db). s \<noteq> r \<longrightarrow> \<not> close_due now s"
    and "no_job x ''raffle.close'' (r_id r) (jobs db)" and "fresh_call ids db"
  shows "schedule_due_closes x ids now db = Ok (1, db\<lparr>
      raffles := set_where (close_due now) (set_status now Closing) (raffles db),
      jobs := jobs db @ [pipeline_job x (ids 0) now ''raffle.close'' (r_id r)],
      audit_events := audit_events db @ [audit_row_of (ids 1) now (r_id r) ''raffle.closing'' (JObj [])]\<rparr>)"
proof -
  let ?rs = "set_where (close_due now) (set_status now Closing) (raffles db)"
  note tab = store_okD(1) [OF assms(1)]
  have one: "filter (close_due now) (raffles db) = [r]"
    using tab assms(2-4) by (intro filter_single [of raffle_conflict]) (auto simp: table_ok_def raffle_conflict_def)
  have upd: "sql_update raffle_check raffle_conflict (close_due now) (set_status now Closing) (raffles db) = Ok (?rs, 1)"
    using raffle_update_succeeds [OF assms(1), of "close_due now" "set_status now Closing"] store_okD(9) [OF assms(1)]
    by (simp add: one set_status_check, simp add: set_status_def)
  have job: "insert_job (ids 0) now ''raffle.close'' (x_uuid_text x (r_id r)) (JObj [(''raffle_id'', JStr (x_uuid_text x (r_id r)))])
      (db\<lparr>raffles := ?rs\<rparr>) = Ok (db\<lparr>raffles := ?rs, jobs := jobs db @ [pipeline_job x (ids 0) now ''raffle.close'' (r_id r)]\<rparr>)"
    using insert_job_new [of x "''raffle.close''" "r_id r" "db\<lparr>raffles := ?rs\<rparr>"] assms(5) fresh_callD(1) [OF assms(6), of 0]
    by simp
  show ?thesis
    using fresh_callD(2) [OF assms(6), of 1] by (simp add: schedule_due_closes_def upd one schedule_one_close_def job write_audit_new)
qed

section \<open>Freezing\<close>

lemma freeze_row_check: "raffle_check r \<Longrightarrow> raffle_check (freeze_row now st root r)"
  by (simp add: raffle_check_def freeze_row_def)

text \<open>What a freeze leaves behind.\<close>

definition frozen_db :: "externals \<Rightarrow> (nat \<Rightarrow> uuid) \<Rightarrow> timestamp \<Rightarrow> RaffleId \<Rightarrow> Hash32 \<Rightarrow> json \<Rightarrow> db \<Rightarrow> db" where
  "frozen_db x ids now rid root pl db = db\<lparr>
     raffles := set_where (\<lambda>s. r_id s = rid) (freeze_row now RandomnessPending root) (raffles db),
     audit_events := audit_events db @ [audit_row_of (ids 0) now rid ''raffle.frozen'' pl],
     outbox_events := outbox_events db @ [outbox_row_of (ids 1) now rid ''raffle.frozen'' pl],
     jobs := jobs db @ [pipeline_job x (ids 2) now ''raffle.draw'' rid]\<rparr>"

lemma announce_freeze_new:
  assumes "no_job x ''raffle.draw'' rid (jobs db)" and "fresh_call ids db"
  obtains pl where "announce_freeze x ids now rid False root count db = Ok (db\<lparr>
     audit_events := audit_events db @ [audit_row_of (ids 0) now rid ''raffle.frozen'' pl],
     outbox_events := outbox_events db @ [outbox_row_of (ids 1) now rid ''raffle.frozen'' pl],
     jobs := jobs db @ [pipeline_job x (ids 2) now ''raffle.draw'' rid]\<rparr>)"
proof -
  have "insert_job (ids 2) now ''raffle.draw'' (x_uuid_text x rid) (JObj [(''raffle_id'', JStr (x_uuid_text x rid))])
      (db\<lparr>audit_events := a, outbox_events := e\<rparr>) = Ok (db\<lparr>audit_events := a, outbox_events := e,
        jobs := jobs db @ [pipeline_job x (ids 2) now ''raffle.draw'' rid]\<rparr>)" for a e
    using insert_job_new [of x "''raffle.draw''" rid "db\<lparr>audit_events := a, outbox_events := e\<rparr>"] assms(1)
      fresh_callD(1) [OF assms(2), of 2] by simp
  then show thesis
    using fresh_callD(2) [OF assms(2), of 0] fresh_callD(3) [OF assms(2), of 1]
    by (intro that) (simp add: announce_freeze_def Let_def write_audit_new write_outbox_new)
qed

lemma freeze_succeeds:
  assumes "store_ok x db" and "r \<in> set (raffles db)" and "r_status r = Closing" and "r_total_tickets r \<noteq> 0"
    and "no_job x ''raffle.draw'' (r_id r) (jobs db)" and "fresh_call ids db"
  obtains root pl where "freeze_raffle x ids now (r_id r) db = Ok (root, frozen_db x ids now (r_id r) root pl db)"
proof -
  have fetch: "fetch_one (\<lambda>s. r_id s = r_id r) (raffles db) = Ok r"
    using fetch_raffle [OF assms(1,2)] by (simp add: fetch_one_Ok)
  obtain es where "raffle_ledger x db r es"
    using raffle_rows_ledger [OF assms(1,2)] by blast
  then have head: "head_or_zero (r_entry_chain_head r) = Ok (chain_hash es (length es))"
    by (rule raffle_ledger_head)
  let ?root = "entries_root (x_sha x) (r_id r) (of_nat (entry_count (r_id r) db)) (chain_hash es (length es))"
  let ?rs = "set_where (\<lambda>s. r_id s = r_id r) (freeze_row now RandomnessPending ?root) (raffles db)"
  have upd: "sql_update raffle_check raffle_conflict (\<lambda>s. r_id s = r_id r) (freeze_row now RandomnessPending ?root) (raffles db) =
      Ok (?rs, length (filter (\<lambda>s. r_id s = r_id r) (raffles db)))"
    using assms(1) by (rule raffle_update_succeeds) (use store_okD(9) [OF assms(1)] in
      \<open>simp add: freeze_row_check\<close>, simp add: freeze_row_def)
  obtain pl where "announce_freeze x ids now (r_id r) False ?root (of_nat (entry_count (r_id r) db)) (db\<lparr>raffles := ?rs\<rparr>)
      = Ok (frozen_db x ids now (r_id r) ?root pl db)"
    using announce_freeze_new [of x "r_id r" "db\<lparr>raffles := ?rs\<rparr>" ids now ?root "of_nat (entry_count (r_id r) db)" thesis] assms(5,6)
    by (simp add: frozen_db_def fresh_call_def used_ids_def)
  then show thesis
    using assms(3,4) by (intro that [of ?root pl])
      (simp add: freeze_raffle_def fetch db_as_u64_def head Let_def upd)
qed

section \<open>Drawing\<close>

text \<open>The payout rows of a draw: one per recipient with a positive amount.\<close>

definition payouts_for :: "externals \<Rightarrow> timestamp \<Rightarrow> RaffleId \<Rightarrow> uuid \<times> RecipientType \<times> Sats \<Rightarrow> payout_row list" where
  "payouts_for x now rid item =
     (case item of (uid, recipient, amount) \<Rightarrow>
       if as_u64 amount > 0 then [new_payout x uid now rid recipient (uint (as_u64 amount))] else [])"

definition drawn_payouts :: "externals \<Rightarrow> (nat \<Rightarrow> uuid) \<Rightarrow> timestamp \<Rightarrow> RaffleId \<Rightarrow> PayoutAmounts \<Rightarrow> payout_row list" where
  "drawn_payouts x ids now rid amounts = concat (map (payouts_for x now rid) (payout_items ids amounts))"

lemma payouts_for_rows:
  "p \<in> set (payouts_for x now rid item) \<Longrightarrow> p_id p = fst item \<and> p_raffle_id p = rid \<and> p_status p = PayPending \<and>
     p_recipient_type p = fst (snd item) \<and> p_idempotency_key p = payout_key x rid (fst (snd item))"
  by (cases item) (auto simp: payouts_for_def new_payout_def split: if_splits)

lemma drawn_payouts_rows:
  assumes "p \<in> set (drawn_payouts x ids now rid amounts)"
  shows "p_raffle_id p = rid" and "p_status p = PayPending" and "p_recipient_type p \<in> {RWinner, ROrganizer, RPlatform}"
    and "p_id p \<in> {ids 1, ids 2, ids 3}"
  using assms by (auto simp: drawn_payouts_def payout_items_def dest: payouts_for_rows)

lemma drawn_payouts_length: "length (drawn_payouts x ids now rid amounts) \<le> 3"
  by (simp add: drawn_payouts_def payout_items_def payouts_for_def)

lemma insert_payout_new:
  assumes "uint (as_u64 amount) < 2 ^ 63" and "\<exists>r \<in> set (raffles db). r_id r = rid"
    and "\<forall>p \<in> set (payouts db). p_id p \<noteq> uid \<and> p_idempotency_key p \<noteq> payout_key x rid rec"
  shows "insert_payout x now rid (uid, rec, amount) db =
    Ok (db\<lparr>payouts := payouts db @ payouts_for x now rid (uid, rec, amount)\<rparr>)"
proof (cases "0 < as_u64 amount")
  case True
  let ?row = "new_payout x uid now rid rec (uint (as_u64 amount))"
  have "payout_check ?row"
    using True assms(1) by (simp add: payout_check_def new_payout_def bigint_uint word_less_def)
  moreover have "\<forall>p \<in> set (payouts db). p_idempotency_key p \<noteq> p_idempotency_key ?row \<and> \<not> payout_conflict p ?row"
    using assms(3) by (simp add: new_payout_def payout_conflict_def)
  ultimately show ?thesis
    using True assms(1,2) by (auto simp: insert_payout_def payouts_for_def db_as_i64_def sql_insert_ignore_def sql_insert_def)
qed (simp add: insert_payout_def payouts_for_def)

lemma insert_payouts_new:
  assumes "\<forall>item \<in> set items. uint (as_u64 (snd (snd item))) < 2 ^ 63" and "\<exists>r \<in> set (raffles db). r_id r = rid"
    and "\<forall>p \<in> set (payouts db). \<forall>item \<in> set items. p_id p \<noteq> fst item \<and> p_idempotency_key p \<noteq> payout_key x rid (fst (snd item))"
    and "distinct (map fst items)" and "distinct (map (\<lambda>item. fst (snd item)) items)"
  shows "insert_payouts x now rid items db = Ok (db\<lparr>payouts := payouts db @ concat (map (payouts_for x now rid) items)\<rparr>)"
  using assms
proof (induction items arbitrary: db)
  case (Cons item items)
  obtain uid rec amount where item: "item = (uid, rec, amount)"
    by (cases item)
  have "insert_payout x now rid item db = Ok (db\<lparr>payouts := payouts db @ payouts_for x now rid item\<rparr>)"
    unfolding item using Cons.prems by (intro insert_payout_new) (auto simp: item)
  moreover have "fst i \<noteq> fst item" "fst (snd i) \<noteq> fst (snd item)" if "i \<in> set items" for i
    using Cons.prems(4,5) imageI [OF that, of fst] imageI [OF that, of "\<lambda>i. fst (snd i)"]
    unfolding list.map distinct.simps set_map by metis+
  then have "insert_payouts x now rid items (db\<lparr>payouts := payouts db @ payouts_for x now rid item\<rparr>) =
      Ok (db\<lparr>payouts := (payouts db @ payouts_for x now rid item) @ concat (map (payouts_for x now rid) items)\<rparr>)"
    using Cons.prems by (subst Cons.IH) (auto dest!: payouts_for_rows simp: payout_key_recipient simp del: split_paired_All)
  ultimately show ?case
    by simp
qed simp

text \<open>What a draw leaves behind.\<close>

definition drawn_db ::
  "externals \<Rightarrow> (nat \<Rightarrow> uuid) \<Rightarrow> timestamp \<Rightarrow> RaffleId \<Rightarrow> (raffle_row \<Rightarrow> raffle_row) \<Rightarrow> draw_row \<Rightarrow> PayoutAmounts \<Rightarrow> json \<Rightarrow> db \<Rightarrow> db" where
  "drawn_db x ids now rid f d amounts pl db = db\<lparr>
     raffles := set_where (\<lambda>s. r_id s = rid) f (raffles db),
     draws := draws db @ [d], payouts := payouts db @ drawn_payouts x ids now rid amounts,
     jobs := jobs db @ [pipeline_job x (ids 4) now ''payout.execute'' rid],
     audit_events := audit_events db @ [audit_row_of (ids 5) now rid ''draw.created'' pl]\<rparr>"

lemma drawn_row_check:
  "raffle_check r \<Longrightarrow> uint (ch :: u64) < 2 ^ 63 \<Longrightarrow> uint (rh :: u64) < 2 ^ 63 \<Longrightarrow>
     raffle_check (drawn_row now (uint ch) bh (uint rh) rand r)"
  by (simp add: raffle_check_def drawn_row_def hash_col_def bigint_uint)

lemma compute_draw_bounds:
  assumes "compute_draw x rid ch rh rand r db = Ok (root, result, amounts)" and "raffle_check r"
  shows "uint (as_u64 (pa_winner amounts)) < 2 ^ 63" and "uint (as_u64 (pa_organizer amounts)) < 2 ^ 63"
    and "uint (as_u64 (pa_platform amounts)) < 2 ^ 63"
proof -
  have "r_total_pool_sats r < 2 ^ 63"
    using assms(2) by (simp add: raffle_check_def bigint_def)
  moreover have "0 \<le> uint (as_u64 (pa_winner amounts))" "0 \<le> uint (as_u64 (pa_organizer amounts))"
    "0 \<le> uint (as_u64 (pa_platform amounts))"
    by (rule uint_ge_0)+
  ultimately show "uint (as_u64 (pa_winner amounts)) < 2 ^ 63" "uint (as_u64 (pa_organizer amounts)) < 2 ^ 63"
      "uint (as_u64 (pa_platform amounts)) < 2 ^ 63"
    using compute_draw_amounts [OF assms] by linarith+
qed

lemma undrawn_payouts:
  assumes "db_ok x db" and "r \<in> set (raffles db)" and "\<not> drawn_status (r_status r)" and "uuid_text_ok x"
  shows "\<forall>p \<in> set (payouts db). p_raffle_id p \<noteq> r_id r \<and> p_idempotency_key p \<noteq> payout_key x (r_id r) rec"
proof
  fix p
  assume p: "p \<in> set (payouts db)"
  have ok: "store_ok x db" "payouts_ok x db"
    using assms(1) by (simp_all add: db_ok_def)
  obtain s where "s \<in> set (raffles db)" "drawn_status (r_status s)" "p_raffle_id p = r_id s"
    using ok(2) p unfolding payouts_ok_def drawn_raffles_def by blast
  then have "p_raffle_id p \<noteq> r_id r"
    using assms(3) raffle_row_unique [OF ok(1) _ assms(2)] by auto
  then show "p_raffle_id p \<noteq> r_id r \<and> p_idempotency_key p \<noteq> payout_key x (r_id r) rec"
    using ok(2) p payout_key_eq [OF assms(4)] by (auto simp: payouts_ok_def)
qed

lemma insert_drawn_payouts:
  assumes "compute_draw x (r_id r) ch rh rand r db = Ok (root, result, amounts)" and "db_ok x db" and "uuid_text_ok x"
    and "r \<in> set (raffles db)" and "r_status r = RandomnessPending" and "fresh_call ids db"
  shows "insert_payouts x now (r_id r) (payout_items ids amounts) (db\<lparr>draws := ds\<rparr>) =
    Ok (db\<lparr>draws := ds, payouts := payouts db @ drawn_payouts x ids now (r_id r) amounts\<rparr>)"
proof -
  have c: "raffle_check r"
    using assms(2,4) store_okD(9) by (auto simp: db_ok_def)
  have none: "\<forall>p \<in> set (payouts db). p_idempotency_key p \<noteq> payout_key x (r_id r) rec" for rec
    using undrawn_payouts [OF assms(2,4) _ assms(3)] assms(5) by (simp add: drawn_status_def)
  have "\<forall>p \<in> set (payouts db). p_id p \<noteq> ids i" if "i < 10" for i
    using fresh_callD(5) [OF assms(6) that] .
  from this [of 1] this [of 2] this [of 3] show ?thesis
    unfolding drawn_payouts_def
    using compute_draw_bounds [OF assms(1) c] none assms(4) fresh_call_eq [OF assms(6)]
    by (subst insert_payouts_new) (auto simp: payout_items_def)
qed

lemma draw_succeeds:
  assumes "db_ok x db" and "uuid_text_ok x" and "r \<in> set (raffles db)" and "r_status r = RandomnessPending"
    and "\<forall>d \<in> set (draws db). d_raffle_id d \<noteq> r_id r" and "no_job x ''payout.execute'' (r_id r) (jobs db)"
    and "fresh_call ids db" and "uint ch < 2 ^ 63" and "uint rh < 2 ^ 63"
  obtains root result amounts pl where
    "compute_draw x (r_id r) ch rh rand r db = Ok (root, result, amounts)"
    and "\<exists>w \<in> set (entries db). e_raffle_id w = r_id r \<and> e_id w = dr_winner_entry_id result \<and>
       e_ticket_start w \<le> uint (dr_winning_ticket result) \<and> uint (dr_winning_ticket result) < e_ticket_end w"
    and "create_draw_and_payouts x ids now (r_id r) ch bh rh rand db = Ok (result,
      drawn_db x ids now (r_id r) (drawn_row now (uint ch) bh (uint rh) rand)
        (draw_row_of (ids 0) now (r_id r) root rand (uint (dr_winning_ticket result)) (dr_winner_entry_id result)) amounts pl db)"
proof -
  have ok: "store_ok x db"
    using assms(1) by (simp add: db_ok_def)
  have c: "raffle_check r"
    using ok assms(3) by (rule store_okD(9))
  have fetch: "fetch_one (\<lambda>s. r_id s = r_id r) (raffles db) = Ok r"
    using fetch_raffle [OF ok assms(3)] by (simp add: fetch_one_Ok)
  have "frozen_status (r_status r)"
    using assms(4) by (simp add: frozen_status_def)
  with ok assms(3) obtain es result amounts where es: "raffle_ledger x db r es" "es \<noteq> []"
    "draw (x_sha x) es (draw_facts x r es ch rh rand) = Ok result"
    and comp: "compute_draw x (r_id r) ch rh rand r db = Ok (ledger_root x (r_id r) es, result, amounts)"
    by (rule compute_draw_frozen)
  note winner = drawn_winner_row(2) [OF es(1,2) c store_okD(8) [OF ok] es(3)]
  then obtain w where w: "w \<in> set (entries db)" "e_id w = dr_winner_entry_id result" "uint (dr_winning_ticket result) < e_ticket_end w"
    by blast
  have "e_ticket_end w < 2 ^ 63"
    using store_okD(8) [OF ok] w(1) by (auto simp: entry_check_def bigint_def)
  then have ticket: "uint (dr_winning_ticket result) < 2 ^ 63"
    using w(3) by linarith
  let ?d = "draw_row_of (ids 0) now (r_id r) (ledger_root x (r_id r) es) rand (uint (dr_winning_ticket result)) (dr_winner_entry_id result)"
  have "draw_check ?d" "\<forall>d \<in> set (draws db). \<not> draw_conflict d ?d"
    using ticket assms(5) fresh_callD(4) [OF assms(7), of 0] by (auto simp: draw_check_def draw_row_of_def draw_conflict_def bigint_uint)
  then have ins: "sql_insert draw_check draw_conflict ((\<exists>r' \<in> set (raffles db). r_id r' = r_id r) \<and>
      (\<exists>e \<in> set (entries db). e_id e = dr_winner_entry_id result)) ?d (draws db) = Ok (draws db @ [?d])"
    using w(1,2) assms(3) by (auto simp: sql_insert_def)
  note pay = insert_drawn_payouts [OF comp assms(1,2,3,4,7), of now "draws db @ [?d]"]
  have job: "enqueue_payouts x (ids 4) now (r_id r) (db\<lparr>draws := ds, payouts := ps\<rparr>) =
      Ok (db\<lparr>draws := ds, payouts := ps, jobs := jobs db @ [pipeline_job x (ids 4) now ''payout.execute'' (r_id r)]\<rparr>)" for ds ps
    using insert_job_new [of x "''payout.execute''" "r_id r" "db\<lparr>draws := ds, payouts := ps\<rparr>"] assms(6)
      fresh_callD(1) [OF assms(7), of 4] by (simp add: enqueue_payouts_def)
  have upd: "sql_update raffle_check raffle_conflict (\<lambda>s. r_id s = r_id r) (drawn_row now (uint ch) bh (uint rh) rand) (raffles db) =
      Ok (set_where (\<lambda>s. r_id s = r_id r) (drawn_row now (uint ch) bh (uint rh) rand) (raffles db),
          length (filter (\<lambda>s. r_id s = r_id r) (raffles db)))"
    using ok by (rule raffle_update_succeeds)
      (use store_okD(9) [OF ok] assms(8,9) in \<open>simp add: drawn_row_check\<close>, simp add: drawn_row_def)
  show thesis
    by (rule that [OF comp winner, of "JObj [(''winning_ticket'', JNum (uint (dr_winning_ticket result))),
              (''winner_entry_id'', JStr (x_uuid_text x (dr_winner_entry_id result)))]"])
      (use assms(4,8,9) ticket fresh_callD(2) [OF assms(7), of 5] in
        \<open>simp add: create_draw_and_payouts_def fetch comp db_as_i64_def ins pay job upd announce_draw_def write_audit_new drawn_db_def\<close>)
qed

section \<open>Proving and publishing\<close>

text \<open>The encoders of a proof document: they accept every document.\<close>

definition encoders_ok :: "externals \<Rightarrow> bool" where
  "encoders_ok x \<longleftrightarrow> (\<forall>p. \<exists>bs. x_jcs x p = Ok bs) \<and> (\<forall>doc. \<exists>v. x_to_value x doc = Ok v)"

definition proof_row_of :: "uuid \<Rightarrow> timestamp \<Rightarrow> RaffleId \<Rightarrow> json \<Rightarrow> ProofDocument \<Rightarrow> proof_row" where
  "proof_row_of uid now rid v doc =
     \<lparr>pr_id = uid, pr_raffle_id = rid, pr_protocol_version = PROTOCOL_VERSION, pr_proof_json = v,
      pr_proof_hash = as_bytes (pd_proof_hash doc), pr_storage_uri = None, pr_created_at = now,
      pr_storage_version_id = None, pr_storage_etag = None, pr_published_at = None\<rparr>"

definition proven_db ::
  "(nat \<Rightarrow> uuid) \<Rightarrow> timestamp \<Rightarrow> RaffleId \<Rightarrow> json \<Rightarrow> ProofDocument \<Rightarrow> json \<Rightarrow> db \<Rightarrow> db" where
  "proven_db ids now rid v doc pl db = db\<lparr>proofs := proofs db @ [proof_row_of (ids 0) now rid v doc],
     audit_events := audit_events db @ [audit_row_of (ids 1) now rid ''proof.generated'' pl]\<rparr>"

lemma proof_succeeds:
  assumes "store_ok x db" and "encoders_ok x" and "r \<in> set (raffles db)" and "r_status r = PaidOut"
    and "\<forall>p \<in> set (proofs db). pr_raffle_id p \<noteq> r_id r" and "fresh_call ids db"
  obtains doc v pl where "is_verified (verify (x_sha x) (x_jcs x) doc)" and "pp_raffle_id (pd_payload doc) = r_id r"
    and "ledger_rows (r_id r) db = Ok (pp_entries (pd_payload doc))" and "x_to_value x doc = Ok v"
    and "generate_terminal_proof x ids now (r_id r) db = Ok (doc, proven_db ids now (r_id r) v doc pl db)"
proof -
  have fetch: "fetch_one (\<lambda>s. r_id s = r_id r) (raffles db) = Ok r"
    using fetch_raffle [OF assms(1,3)] by (simp add: fetch_one_Ok)
  have "drawn_status (r_status r)"
    using assms(4) by (simp add: drawn_status_def)
  with assms(1,3) obtain p where p: "terminal_payload x (r_id r) r db = Ok p" "payload_valid (x_sha x) p"
    "pp_raffle_id p = r_id r" "ledger_rows (r_id r) db = Ok (pp_entries p)"
    by (rule terminal_payload_valid)
  obtain bs where "x_jcs x p = Ok bs"
    using assms(2) unfolding encoders_ok_def by blast
  then have create: "ProofDocument_create (x_sha x) (x_jcs x) p = Ok \<lparr>pd_payload = p, pd_proof_hash = x_sha x bs\<rparr>"
    by (simp add: ProofDocument_create_def proof_hash_def canonical_proof_json_def)
  let ?doc = "\<lparr>pd_payload = p, pd_proof_hash = x_sha x bs\<rparr>"
  note doc = create_document [OF create p(2)]
  obtain v where v: "x_to_value x ?doc = Ok v"
    using assms(2) unfolding encoders_ok_def by blast
  have "proof_check (proof_row_of (ids 0) now (r_id r) v ?doc)"
    by (simp add: proof_check_def proof_row_of_def)
  moreover have "\<forall>q \<in> set (proofs db). \<not> proof_conflict q (proof_row_of (ids 0) now (r_id r) v ?doc)"
    using assms(5) fresh_callD(6) [OF assms(6), of 0] by (auto simp: proof_conflict_def proof_row_of_def)
  ultimately have ins: "sql_insert proof_check proof_conflict (\<exists>s \<in> set (raffles db). r_id s = r_id r)
      (proof_row_of (ids 0) now (r_id r) v ?doc) (proofs db) = Ok (proofs db @ [proof_row_of (ids 0) now (r_id r) v ?doc])"
    using assms(3) by (auto simp: sql_insert_def)
  show thesis
    by (rule that [of ?doc v "JObj [(''proof_hash'', JStr (to_hex (x_hex_encode x) (pd_proof_hash ?doc)))]"])
      (use doc p v fresh_callD(2) [OF assms(6), of 1] assms(4) ins in
        \<open>simp_all add: generate_terminal_proof_def fetch create write_audit_new proven_db_def proof_row_of_def\<close>)
qed

text \<open>The row of a published proof.\<close>

definition publish_row :: "timestamp \<Rightarrow> string \<Rightarrow> string \<Rightarrow> string \<Rightarrow> proof_row \<Rightarrow> proof_row" where
  "publish_row now uri version etag p =
     p\<lparr>pr_storage_uri := Some uri, pr_storage_version_id := Some version, pr_storage_etag := Some etag,
       pr_published_at := Some now\<rparr>"

lemma publication_succeeds:
  assumes "table_ok proof_check proof_conflict (proofs db)" and "\<forall>p \<in> set ps. pr_raffle_id p \<noteq> rid"
    and "proofs db = ps @ [p]" and "is_proof_of rid p" and "pr_storage_uri p = None"
  shows "record_proof_publication now rid uri version etag db =
    Ok ((), db\<lparr>proofs := ps @ [publish_row now uri version etag p]\<rparr>)"
proof -
  let ?P = "\<lambda>p. is_proof_of rid p \<and> pr_storage_uri p = None"
  have none: "\<forall>q \<in> set ps. \<not> ?P q"
    using assms(2) by (simp add: is_proof_of_def)
  have "sql_update proof_check proof_conflict ?P (publish_row now uri version etag) (proofs db) =
      Ok (set_where ?P (publish_row now uri version etag) (proofs db), length (filter ?P (proofs db)))"
    using assms(1) by (rule proofs_tbl.update_succeeds)
      (use assms(1) in \<open>auto simp: publish_row_def proof_check_def proof_conflict_def table_ok_def\<close>)
  moreover have "set_where ?P (publish_row now uri version etag) (proofs db) = ps @ [publish_row now uri version etag p]"
    using assms(3-5) none set_where_cong [of ps ?P "publish_row now uri version etag"] by (simp add: set_where_def)
  moreover have "length (filter ?P (proofs db)) = 1"
    using assms(3-5) none by (simp add: filter_empty_conv)
  ultimately have "sql_update proof_check proof_conflict ?P (publish_row now uri version etag) (proofs db) =
      Ok (ps @ [publish_row now uri version etag p], 1)"
    by simp
  then show ?thesis
    by (simp add: record_proof_publication_def publish_row_def [abs_def])
qed

section \<open>Recording blocks\<close>

lemma upsert_block_rows:
  assumes "upsert_block row t = Ok t'"
  shows "t' = (if \<exists>b \<in> set t. b_block_hash b = b_block_hash row
    then set_where (\<lambda>b. b_block_hash b = b_block_hash row) (refresh_block row) t else t @ [row])"
  using assms by (auto simp: upsert_block_def bindR_eq_Ok sql_update_Ok sql_insert_Ok split: if_splits)

lemma upsert_block_kept:
  assumes "upsert_block row t = Ok t'" and "b_is_canonical row"
  shows "b \<in> set t' \<Longrightarrow> (\<exists>b' \<in> set t. b_height b' = b_height b \<and> b_block_hash b' = b_block_hash b) \<or>
      (b_height b = b_height row \<and> b_block_hash b = b_block_hash row)"
    and "b \<in> set t \<Longrightarrow> b_is_canonical b \<Longrightarrow> \<exists>b' \<in> set t'. b_height b' = b_height b \<and> b_block_hash b' = b_block_hash b \<and> b_is_canonical b'"
proof -
  have "set t' = (if \<exists>b \<in> set t. b_block_hash b = b_block_hash row
      then refresh_block row ` {b \<in> set t. b_block_hash b = b_block_hash row} \<union> {b \<in> set t. b_block_hash b \<noteq> b_block_hash row}
      else insert row (set t))"
    unfolding upsert_block_rows [OF assms(1)] by (simp add: set_set_where)
  note rows = this
  show "(\<exists>b' \<in> set t. b_height b' = b_height b \<and> b_block_hash b' = b_block_hash b) \<or>
      (b_height b = b_height row \<and> b_block_hash b = b_block_hash row)" if "b \<in> set t'"
    using that unfolding rows by (auto split: if_splits)
  show "\<exists>b' \<in> set t'. b_height b' = b_height b \<and> b_block_hash b' = b_block_hash b \<and> b_is_canonical b'"
    if "b \<in> set t" "b_is_canonical b"
  proof (cases "b_block_hash b = b_block_hash row")
    case True
    then have "\<exists>b \<in> set t. b_block_hash b = b_block_hash row"
      using that(1) by blast
    then have "refresh_block row b \<in> set t'"
      using that(1) True unfolding rows by (simp only: if_True) blast
    then show ?thesis
      by (intro bexI [of _ "refresh_block row b"]) simp_all
  next
    case False
    then have "b \<in> set t'"
      using that(1) unfolding rows by simp
    then show ?thesis
      using that by blast
  qed
qed

text \<open>A canonical block below the recorded height stays canonical.\<close>

lemma displaced_keeps_below:
  assumes "b \<in> set t" and "b_height b < h"
  shows "b \<in> set (displaced h bh t)"
  using assms by (auto simp: displaced_def set_set_where)

lemma record_block_succeeds:
  fixes height :: u64
  assumes "blocks_ok (bitcoin_blocks db)" and "uint height < 2 ^ 63"
    and "\<And>b. b \<in> set (bitcoin_blocks db) \<Longrightarrow> b_block_hash b = as_bytes bh \<Longrightarrow> b_height b = uint height"
  obtains t where "record_canonical_block x now height bh ph bt db = Ok ((), db\<lparr>bitcoin_blocks := t\<rparr>)" and "blocks_ok t"
    and "\<exists>b \<in> set t. b_height b = uint height \<and> b_block_hash b = as_bytes bh \<and> b_is_canonical b"
    and "\<forall>b \<in> set t. (\<exists>b' \<in> set (bitcoin_blocks db). b_height b' = b_height b \<and> b_block_hash b' = b_block_hash b) \<or>
      (b_height b = uint height \<and> b_block_hash b = as_bytes bh)"
    and "\<forall>b \<in> set (bitcoin_blocks db). b_is_canonical b \<longrightarrow> b_height b < uint height \<longrightarrow>
      (\<exists>b' \<in> set t. b_height b' = b_height b \<and> b_block_hash b' = b_block_hash b \<and> b_is_canonical b')"
proof -
  let ?row = "block_row_of x now (uint height) bh ph bt" and ?t = "displaced (uint height) bh (bitcoin_blocks db)"
  have row: "b_height ?row = uint height" "b_block_hash ?row = as_bytes bh" "b_is_canonical ?row"
    by (simp_all add: block_row_of_def)
  obtain t where up: "upsert_block ?row ?t = Ok t"
    and has: "\<exists>b \<in> set t. b_height b = uint height \<and> b_block_hash b = as_bytes bh \<and> b_is_canonical b"
    by (rule upsert_displaced [OF assms, where x = x and now = now and ph = ph and bt = bt])
  have rec: "record_canonical_block x now height bh ph bt db = Ok ((), db\<lparr>bitcoin_blocks := t\<rparr>)"
    using record_canonical_block_step [OF assms(1), of height "uint height"] assms(2) up by (simp add: db_as_i64_Ok)
  have old: "\<exists>b' \<in> set (bitcoin_blocks db). b_height b' = b_height b \<and> b_block_hash b' = b_block_hash b" if "b \<in> set ?t" for b
    using imageI [OF that, of "\<lambda>b. (b_height b, b_block_hash b)"] unfolding displaced_keys by force
  show thesis
  proof (rule that [OF rec upsert_block_ok [OF displaced_ok [OF assms(1)] up] has])
    show "\<forall>b \<in> set t. (\<exists>b' \<in> set (bitcoin_blocks db). b_height b' = b_height b \<and> b_block_hash b' = b_block_hash b) \<or>
        (b_height b = uint height \<and> b_block_hash b = as_bytes bh)"
      using upsert_block_kept(1) [OF up row(3)] old unfolding row by metis
    show "\<forall>b \<in> set (bitcoin_blocks db). b_is_canonical b \<longrightarrow> b_height b < uint height \<longrightarrow>
        (\<exists>b' \<in> set t. b_height b' = b_height b \<and> b_block_hash b' = b_block_hash b \<and> b_is_canonical b')"
      using upsert_block_kept(2) [OF up row(3)] displaced_keeps_below by blast
  qed
qed

end
