(* ===== verification/Worker_Progress.thy ===== *)
theory Worker_Progress
  imports Worker_Payouts Store_Progress
begin

text \<open>
  Progress of the job handlers: when no other process interferes and the outside cooperates, the close,
  draw and proof jobs of a raffle end without an error, and each leaves the database in a state from
  which the next handler can proceed. (The payout job is in theory Worker_Payouts.)
\<close>

section \<open>The environment\<close>

text \<open>The identifiers that the calls from \<open>n\<close> on generate are not in use.\<close>

definition fresh_from :: "world_env \<Rightarrow> nat \<Rightarrow> db \<Rightarrow> bool" where
  "fresh_from env n db \<longleftrightarrow> (\<forall>k \<ge> n. \<forall>i < 10. we_ids env k i \<notin> used_ids db)"

text \<open>Those of the calls between \<open>n\<close> and \<open>m\<close> also differ from each other and from later ones.\<close>

definition distinct_calls :: "world_env \<Rightarrow> nat \<Rightarrow> nat \<Rightarrow> bool" where
  "distinct_calls env n m \<longleftrightarrow> (\<forall>k. n \<le> k \<longrightarrow> k < m \<longrightarrow> inj_on (we_ids env k) {..<10} \<and>
     (\<forall>k' > k. \<forall>i < 10. \<forall>j < 10. we_ids env k i \<noteq> we_ids env k' j))"

lemma fresh_call_at:
  assumes "fresh_from env n db" and "distinct_calls env n' m" and "n \<le> k" and "n' \<le> k" and "k < m"
  shows "fresh_call (we_ids env k) db"
  using assms by (auto simp: fresh_call_def fresh_from_def distinct_calls_def)

lemma fresh_from_step:
  assumes "fresh_from env n db" and "distinct_calls env n' m" and "n \<le> k" and "n' \<le> k" and "k < m"
    and "used_ids db' \<subseteq> used_ids db \<union> we_ids env k ` {..<10}"
  shows "fresh_from env (Suc k) db'"
  unfolding fresh_from_def
proof (intro allI impI)
  fix k' :: nat and i :: nat
  assume k': "Suc k \<le> k'" and i: "i < 10"
  have "we_ids env k' i \<notin> used_ids db"
    using assms(1,3) k' i by (simp add: fresh_from_def)
  moreover have "we_ids env k' i \<notin> we_ids env k ` {..<10}"
  proof
    assume "we_ids env k' i \<in> we_ids env k ` {..<10}"
    then obtain j where "j < 10" "we_ids env k j = we_ids env k' i"
      by auto
    then show False
      using assms(2,4,5) k' i unfolding distinct_calls_def by (metis Suc_le_lessD)
  qed
  ultimately show "we_ids env k' i \<notin> used_ids db'"
    using assms(6) by blast
qed

lemma fresh_from_later: "fresh_from env n db \<Longrightarrow> n \<le> m \<Longrightarrow> used_ids db' \<subseteq> used_ids db \<Longrightarrow> fresh_from env m db'"
  unfolding fresh_from_def by (meson le_trans subsetD)

text \<open>The payload of a job of the pipeline, as a claim returns it.\<close>

definition claims_raffle :: "world_env \<Rightarrow> string \<Rightarrow> RaffleId \<Rightarrow> ClaimedJob \<Rightarrow> bool" where
  "claims_raffle env kind rid job \<longleftrightarrow> cj_kind job = kind \<and>
     cj_payload job = JObj [(''raffle_id'', JStr (x_uuid_text (we_x env) rid))] \<and>
     x_uuid_parse (we_x env) (x_uuid_text (we_x env) rid) = Some rid"

lemma claims_raffle_uuid: "claims_raffle env kind rid job \<Longrightarrow> job_uuid env ''raffle_id'' job w = (Ok rid, w)"
  by (simp add: claims_raffle_def job_uuid_def liftE_def)

text \<open>A transaction that commits, with nobody else around.\<close>

lemma quiet_store:
  assumes "quiet env" and "op (wd_calls w) (wd_db w) = Ok (a, db')"
  shows "storeW env op w = (Ok a, w\<lparr>wd_db := db', wd_calls := Suc (wd_calls w)\<rparr>)"
  using assms by (simp add: storeE_def quiet_transact)

lemma quiet_read:
  assumes "quiet env" and "f (wd_db w) = Ok a"
  shows "storeW env (\<lambda>k db. reading (f db) db) w = (Ok a, w\<lparr>wd_calls := Suc (wd_calls w)\<rparr>)"
  using assms by (simp add: storeE_def quiet_transact reading_def)

section \<open>The close job\<close>

lemma raffle_close_succeeds:
  assumes "quiet env" and "claims_raffle env kind (r_id r) job" and "db_ok (we_x env) (wd_db w)" and "r \<in> set (raffles (wd_db w))"
    and "r_status r = Closing" and "r_total_tickets r \<noteq> 0" and "pending_invoices (r_id r) (wd_db w) = 0"
    and "no_job (we_x env) ''raffle.draw'' (r_id r) (jobs (wd_db w))"
    and "fresh_call (we_ids env (Suc (wd_calls w))) (wd_db w)"
  obtains root pl where "raffle_close env job w = (Ok (), w\<lparr>wd_db := frozen_db (we_x env) (we_ids env (Suc (wd_calls w)))
      (we_now env (Suc (wd_calls w))) (r_id r) root pl (wd_db w), wd_calls := Suc (Suc (wd_calls w))\<rparr>)"
proof -
  have ok: "store_ok (we_x env) (wd_db w)"
    using assms(3) by (simp add: db_ok_def)
  obtain root pl where f: "freeze_raffle (we_x env) (we_ids env (Suc (wd_calls w))) (we_now env (Suc (wd_calls w))) (r_id r) (wd_db w) =
      Ok (root, frozen_db (we_x env) (we_ids env (Suc (wd_calls w))) (we_now env (Suc (wd_calls w))) (r_id r) root pl (wd_db w))"
    using ok assms(4-6,8,9) by (rule freeze_succeeds)
  show thesis
    by (rule that [of root pl])
      (simp add: raffle_close_def bindW_def claims_raffle_uuid [OF assms(2)] storeE_def quiet_transact [OF assms(1)] reading_def
        assms(7) f returnW_def)
qed

section \<open>The draw job\<close>

text \<open>The first block at or after the cutoff.\<close>

definition closes_at :: "(u64 \<Rightarrow> Block) \<Rightarrow> timestamp \<Rightarrow> u64 \<Rightarrow> u64 \<Rightarrow> bool" where
  "closes_at chain end_time tip c \<longleftrightarrow> 0 < c \<and> c \<le> tip \<and> bk_time (chain (c - 1)) < end_time \<and>
     (\<forall>i. c \<le> i \<longrightarrow> i \<le> tip \<longrightarrow> end_time \<le> bk_time (chain i))"

text \<open>The blocks on record do not contradict the chain: a known hash is recorded at its height.\<close>

definition blocks_agree :: "(u64 \<Rightarrow> Block) \<Rightarrow> u64 \<Rightarrow> db \<Rightarrow> bool" where
  "blocks_agree chain tip db \<longleftrightarrow> blocks_ok (bitcoin_blocks db) \<and>
     (\<forall>b \<in> set (bitcoin_blocks db). \<forall>h \<le> tip. b_block_hash b = as_bytes (bk_hash (chain h)) \<longrightarrow> b_height b = uint h)"

lemma db_ok_blocks: "db_ok x db \<Longrightarrow> db_ok x (db\<lparr>bitcoin_blocks := t\<rparr>)"
  using store_ok_frame [of x db "db\<lparr>bitcoin_blocks := t\<rparr>"] payouts_ok_frame [of x db "db\<lparr>bitcoin_blocks := t\<rparr>"] store_okD(4) [of x db]
  by (simp add: db_ok_def drawn_raffles_def)

lemma used_ids_blocks [simp]: "used_ids (db\<lparr>bitcoin_blocks := t\<rparr>) = used_ids db"
  by (simp add: used_ids_def)

lemma block_matches_runs:
  assumes "quiet env" and "canonical_block_matches (bk_height b) (bk_hash b) (wd_db w) = Ok True"
  shows "block_matches env b w = (Ok True, w\<lparr>wd_calls := Suc (wd_calls w)\<rparr>)"
  using assms by (simp add: block_matches_def storeE_def quiet_transact reading_def)

text \<open>The heights that the draw uses.\<close>

lemma randomness_height:
  fixes c tip :: u64
  assumes "0 < delay" and "uint c + delay < uint tip" and "uint tip < 2 ^ 63"
  shows "uint (c + of_int delay) = uint c + delay" and "\<not> tip < c + of_int delay + 1" and "c < c + of_int delay"
    and "c + of_int delay \<le> tip"
proof -
  have "delay < 2 ^ 63"
    using assms uint_ge_0 [of c] by linarith
  then have d: "uint (of_int delay :: u64) = delay"
    using assms(1) by (intro uint_of_int) (simp_all add: bigint_def)
  show u: "uint (c + of_int delay) = uint c + delay"
    using assms uint_ge_0 [of c] by (subst uint_add_lem [THEN iffD1]) (simp_all add: d)
  have "uint (c + of_int delay + 1) = uint c + delay + 1"
    using assms uint_ge_0 [of c] by (subst uint_add_lem [THEN iffD1]) (simp_all add: u)
  then show "\<not> tip < c + of_int delay + 1"
    using assms(2) by (simp add: word_less_def)
  show "c < c + of_int delay" "c + of_int delay \<le> tip"
    using u assms(1,2) by (simp_all add: word_less_def word_le_def)
qed

lemma bindW_runs: "m w = (Ok a, w') \<Longrightarrow> bindW m k w = k a w'"
  by (simp add: bindW_def)

lemma draw_context:
  assumes "store_ok x db" and "r \<in> set (raffles db)" and "r_status r = RandomnessPending"
  shows "frozen_draw_context (r_id r) db =
    Ok \<lparr>fd_end_time = r_end_time r, fd_randomness_delay_blocks = r_randomness_delay_blocks r\<rparr>"
proof -
  have "fetch_optional (\<lambda>s. r_id s = r_id r \<and> r_status s = RandomnessPending) (raffles db) = Some r"
    using store_okD(1) [OF assms(1)] assms(2) by (rule raffles_tbl.fetch_unique) (simp_all add: assms(3) raffle_conflict_def)
  then show ?thesis
    by (simp add: frozen_draw_context_def)
qed

text \<open>The part of the draw job that reads the chain and records the two blocks.\<close>

definition draw_blocks ::
  "world_env \<Rightarrow> BitcoinSource \<Rightarrow> timestamp \<Rightarrow> int \<Rightarrow> (Block \<times> Block) work" where
  "draw_blocks env source end_time delay_blocks =
     bindW (askW (\<lambda>k. map_err bitcoin_error_text (bs_tip_height source k))) (\<lambda>tip.
     bindW (close_block source end_time tip) (\<lambda>close.
     bindW (liftW (if delay_blocks < 0 then Err ''invalid randomness delay'' else Ok (of_int delay_blocks :: u64))) (\<lambda>delay.
     let randomness_height = bk_height close + delay in
     if tip < randomness_height + 1 then liftW (Err ''randomness block lacks one confirmation'')
     else
     bindW (askW (\<lambda>k. map_err bitcoin_error_text (bs_block_at source k randomness_height))) (\<lambda>randomness.
     bindW (record_block env close) (\<lambda>_.
     bindW (record_block env randomness) (\<lambda>_.
     bindW (block_matches env close) (\<lambda>close_ok.
     bindW (if \<not> close_ok then returnW False else block_matches env randomness) (\<lambda>both_ok.
     if \<not> both_ok then liftW (Err ''selected Bitcoin blocks were displaced by a reorg'')
     else returnW (close, randomness)))))))))"

lemma raffle_draw_blocks:
  assumes "ws_bitcoin services = Some source"
  shows "raffle_draw env services job =
    bindW (job_uuid env ''raffle_id'' job) (\<lambda>raffle_id.
    bindW (storeW env (\<lambda>k db. reading (frozen_draw_context raffle_id db) db)) (\<lambda>context.
    bindW (draw_blocks env source (fd_end_time context) (fd_randomness_delay_blocks context)) (\<lambda>(close, randomness).
    bindW (storeW env (\<lambda>k. create_draw_and_payouts (we_x env) (we_ids env k) (we_now env k) raffle_id
       (bk_height close) (bk_hash close) (bk_height randomness) (bk_hash randomness))) (\<lambda>_. returnW ()))))"
  unfolding raffle_draw_def draw_blocks_def
  by (intro ext) (auto simp: assms bindW_def liftE_def returnW_def Let_def split: sum.splits prod.splits if_splits)

text \<open>What the draw job gets from a source that reports one chain.\<close>

context bitcoin_chain
begin

lemma close_search_finds:
  assumes "closes_at chain end_time tip c" and "c - 1 \<le> h" and "h \<le> tip"
  shows "\<exists>n. close_search (bs_block_at source) end_time tip k h = (Ok (chain c), n) \<and> k \<le> n \<and> n \<le> k + unat h + 2"
  using assms(2,3)
proof (induction "unat h" arbitrary: k h rule: less_induct)
  case less
  have block: "bs_block_at source j h = Ok (chain h)" for j
    using less.prems(2) by (rule block_at)
  show ?case
  proof (cases "h = c - 1")
    case True
    then have "h \<noteq> tip" "h + 1 = c" "bs_block_at source (Suc k) c = Ok (chain c)" "bk_time (chain h) < end_time"
      using assms(1) block_at [of c] by (auto simp: closes_at_def)
    then show ?thesis
      by (intro exI [of _ "Suc (Suc k)"]) (simp add: close_search.simps [of _ _ _ _ h] block)
  next
    case False
    then have h: "c \<le> h" "h \<noteq> 0" "c - 1 \<le> h - 1" "h - 1 \<le> tip" "unat (h - 1) < unat h"
      using less.prems assms(1) unfolding closes_at_def by unat_arith+
    then have late: "end_time \<le> bk_time (chain h)"
      using assms(1) less.prems(2) by (simp add: closes_at_def)
    from less.hyps [OF h(5,3,4)] obtain n where
      "close_search (bs_block_at source) end_time tip (Suc k) (h - 1) = (Ok (chain c), n)" "Suc k \<le> n" "n \<le> Suc k + unat (h - 1) + 2"
      by blast
    then show ?thesis
      using late h(2,5) by (intro exI [of _ n]) (simp add: close_search.simps [of _ _ _ _ h] block)
  qed
qed

text \<open>Recording the close block and then the later randomness block leaves both canonical.\<close>

lemma record_block_agrees:
  assumes "blocks_agree chain tip db" and "h \<le> tip"
  obtains t where "record_canonical_block x now h (bk_hash (chain h)) ph bt db = Ok ((), db\<lparr>bitcoin_blocks := t\<rparr>)"
    and "blocks_agree chain tip (db\<lparr>bitcoin_blocks := t\<rparr>)"
    and "canonical_block_matches h (bk_hash (chain h)) (db\<lparr>bitcoin_blocks := t\<rparr>) = Ok True"
    and "\<forall>g bh. g < h \<longrightarrow> canonical_block_matches g bh db = Ok True \<longrightarrow>
      canonical_block_matches g bh (db\<lparr>bitcoin_blocks := t\<rparr>) = Ok True"
proof -
  have h: "uint h < 2 ^ 63"
    using assms(2) tip_fits by (simp add: word_le_def)
  have known: "b_height b = uint h" if "b \<in> set (bitcoin_blocks db)" "b_block_hash b = as_bytes (bk_hash (chain h))" for b
    using assms(1,2) that by (simp add: blocks_agree_def)
  have ok: "blocks_ok (bitcoin_blocks db)"
    using assms(1) by (simp add: blocks_agree_def)
  obtain t where rec: "record_canonical_block x now h (bk_hash (chain h)) ph bt db = Ok ((), db\<lparr>bitcoin_blocks := t\<rparr>)" "blocks_ok t"
    and has: "\<exists>b \<in> set t. b_height b = uint h \<and> b_block_hash b = as_bytes (bk_hash (chain h)) \<and> b_is_canonical b"
    and old: "\<forall>b \<in> set t. (\<exists>b' \<in> set (bitcoin_blocks db). b_height b' = b_height b \<and> b_block_hash b' = b_block_hash b) \<or>
      (b_height b = uint h \<and> b_block_hash b = as_bytes (bk_hash (chain h)))"
    and below: "\<forall>b \<in> set (bitcoin_blocks db). b_is_canonical b \<longrightarrow> b_height b < uint h \<longrightarrow>
      (\<exists>b' \<in> set t. b_height b' = b_height b \<and> b_block_hash b' = b_block_hash b \<and> b_is_canonical b')"
    using ok h known by (rule record_block_succeeds)
  show thesis
  proof (rule that [OF rec(1)])
    have "b_height b = uint g" if "b \<in> set t" "g \<le> tip" "b_block_hash b = as_bytes (bk_hash (chain g))" for b g
    proof (cases "b_block_hash b = as_bytes (bk_hash (chain h))")
      case True
      then have "g = h"
        using that(2,3) assms(2) hash_unique by (simp add: as_bytes_inject)
      then show ?thesis
        using old that(1,3) known by metis
    next
      case False
      then show ?thesis
        using old that assms(1) unfolding blocks_agree_def by metis
    qed
    then show "blocks_agree chain tip (db\<lparr>bitcoin_blocks := t\<rparr>)"
      using rec(2) by (simp add: blocks_agree_def)
    show "canonical_block_matches h (bk_hash (chain h)) (db\<lparr>bitcoin_blocks := t\<rparr>) = Ok True"
      using h has by (simp add: canonical_block_matches_def db_as_i64_def)
    have "canonical_block_matches g bh (db\<lparr>bitcoin_blocks := t\<rparr>) = Ok True"
      if "g < h" "canonical_block_matches g bh db = Ok True" for g bh
    proof -
      have "uint g < uint h" "db_as_i64 g = Ok (uint g)"
        using that(1) h by (simp_all add: word_less_def db_as_i64_def)
      then show ?thesis
        using that(2) below by (auto simp: canonical_block_matches_def) metis
    qed
    then show "\<forall>g bh. g < h \<longrightarrow> canonical_block_matches g bh db = Ok True \<longrightarrow>
        canonical_block_matches g bh (db\<lparr>bitcoin_blocks := t\<rparr>) = Ok True"
      by blast
  qed
qed

lemma record_block_runs:
  assumes "quiet env" and "blocks_agree chain tip (wd_db w)" and "h \<le> tip"
  obtains t where "record_block env (chain h) w = (Ok (), w\<lparr>wd_db := (wd_db w)\<lparr>bitcoin_blocks := t\<rparr>, wd_calls := Suc (wd_calls w)\<rparr>)"
    and "blocks_agree chain tip ((wd_db w)\<lparr>bitcoin_blocks := t\<rparr>)"
    and "canonical_block_matches h (bk_hash (chain h)) ((wd_db w)\<lparr>bitcoin_blocks := t\<rparr>) = Ok True"
    and "\<forall>g bh. g < h \<longrightarrow> canonical_block_matches g bh (wd_db w) = Ok True \<longrightarrow>
      canonical_block_matches g bh ((wd_db w)\<lparr>bitcoin_blocks := t\<rparr>) = Ok True"
proof -
  obtain t where t: "record_canonical_block (we_x env) (we_now env (wd_calls w)) h (bk_hash (chain h)) (bk_previous_hash (chain h))
      (bk_time (chain h)) (wd_db w) = Ok ((), (wd_db w)\<lparr>bitcoin_blocks := t\<rparr>)"
    "blocks_agree chain tip ((wd_db w)\<lparr>bitcoin_blocks := t\<rparr>)"
    "canonical_block_matches h (bk_hash (chain h)) ((wd_db w)\<lparr>bitcoin_blocks := t\<rparr>) = Ok True"
    "\<forall>g bh. g < h \<longrightarrow> canonical_block_matches g bh (wd_db w) = Ok True \<longrightarrow>
      canonical_block_matches g bh ((wd_db w)\<lparr>bitcoin_blocks := t\<rparr>) = Ok True"
    using assms(2,3) by (rule record_block_agrees)
  show thesis
    by (rule that [of t]) (use t chain_height [OF assms(3)] in \<open>simp_all add: record_block_def storeE_def quiet_transact [OF assms(1)]\<close>)
qed

lemma draw_blocks_succeeds:
  assumes "quiet env" and "closes_at chain end_time tip c"
    and "0 < delay" and "uint c + delay < uint tip" and "blocks_agree chain tip (wd_db w)"
  obtains t n where "draw_blocks env source end_time delay w = (Ok (chain c, chain (c + of_int delay)),
      w\<lparr>wd_db := (wd_db w)\<lparr>bitcoin_blocks := t\<rparr>, wd_calls := n\<rparr>)"
    and "wd_calls w \<le> n" and "n \<le> wd_calls w + unat tip + 8"
proof -
  note rh = randomness_height [OF assms(3,4) tip_fits]
  let ?h = "c + of_int delay"
  have cl: "c \<le> tip" "c - 1 \<le> tip"
    using assms(2) unfolding closes_at_def by (simp, unat_arith)
  note heights = chain_height [OF cl(1)] chain_height [OF rh(4)] block_at [OF rh(4)]
  obtain n where n: "close_search (bs_block_at source) end_time tip (Suc (wd_calls w)) tip = (Ok (chain c), n)"
    "Suc (wd_calls w) \<le> n" "n \<le> Suc (wd_calls w) + unat tip + 2"
    using close_search_finds [OF assms(2) cl(2) order_refl] by blast
  define w1 where "w1 = w\<lparr>wd_calls := Suc n\<rparr>"
  have b1: "blocks_agree chain tip (wd_db w1)"
    using assms(5) by (simp add: w1_def)
  obtain t1 where r1: "record_block env (chain c) w1 = (Ok (), w1\<lparr>wd_db := (wd_db w1)\<lparr>bitcoin_blocks := t1\<rparr>, wd_calls := Suc (wd_calls w1)\<rparr>)"
    and a1: "blocks_agree chain tip ((wd_db w1)\<lparr>bitcoin_blocks := t1\<rparr>)"
    and m1: "canonical_block_matches c (bk_hash (chain c)) ((wd_db w1)\<lparr>bitcoin_blocks := t1\<rparr>) = Ok True"
    using assms(1) b1 cl(1) by (rule record_block_runs)
  define w2 where "w2 = w1\<lparr>wd_db := (wd_db w1)\<lparr>bitcoin_blocks := t1\<rparr>, wd_calls := Suc (wd_calls w1)\<rparr>"
  have b2: "blocks_agree chain tip (wd_db w2)"
    using a1 by (simp add: w2_def)
  obtain t2 where r2: "record_block env (chain ?h) w2 = (Ok (), w2\<lparr>wd_db := (wd_db w2)\<lparr>bitcoin_blocks := t2\<rparr>, wd_calls := Suc (wd_calls w2)\<rparr>)"
    and m2: "canonical_block_matches ?h (bk_hash (chain ?h)) ((wd_db w2)\<lparr>bitcoin_blocks := t2\<rparr>) = Ok True"
    and k2: "\<forall>g bh. g < ?h \<longrightarrow> canonical_block_matches g bh (wd_db w2) = Ok True \<longrightarrow>
      canonical_block_matches g bh ((wd_db w2)\<lparr>bitcoin_blocks := t2\<rparr>) = Ok True"
    using assms(1) b2 rh(4) by (rule record_block_runs)
  define w3 where "w3 = w2\<lparr>wd_db := (wd_db w2)\<lparr>bitcoin_blocks := t2\<rparr>, wd_calls := Suc (wd_calls w2)\<rparr>"
  have "canonical_block_matches c (bk_hash (chain c)) (wd_db w3) = Ok True"
    using k2 m1 rh(3) by (simp add: w3_def) (simp add: w2_def)
  then have m3: "block_matches env (chain c) w3 = (Ok True, w3\<lparr>wd_calls := Suc (wd_calls w3)\<rparr>)"
    using heights(1) by (intro block_matches_runs [OF assms(1)]) simp
  have m4: "block_matches env (chain ?h) (w3\<lparr>wd_calls := Suc (wd_calls w3)\<rparr>) =
      (Ok True, w3\<lparr>wd_calls := Suc (Suc (wd_calls w3))\<rparr>)"
    using m2 heights(2) by (subst block_matches_runs [OF assms(1)]) (simp_all add: w3_def)
  have "draw_blocks env source end_time delay w = (Ok (chain c, chain ?h), w3\<lparr>wd_calls := Suc (Suc (wd_calls w3))\<rparr>)"
    using assms(3) rh(2) tip_height n(1) r1 r2 m3 m4
    by (simp add: draw_blocks_def bindW_runs close_block_def askE_def liftE_def returnW_def heights
        w1_def [symmetric] w2_def [symmetric] w3_def [symmetric])
  then show thesis
    using n by (intro that [where t = t2 and n = "Suc (Suc (wd_calls w3))"]) (simp_all add: w1_def w2_def w3_def)
qed

end

lemma chain_source_ok:
  assumes "bitcoin_chain source chain tip"
  shows "source_ok source"
proof -
  have "unat tip < 2 ^ 63"
    using bitcoin_chain.tip_fits [OF assms] by (metis nat_uint_eq nat_less_numeral_power_cancel_iff)
  then show ?thesis
    unfolding source_ok_def using bitcoin_chain.axioms(1) [OF assms] bitcoin_chain.tip_height [OF assms] by simp
qed

lemma fresh_call_frame: "used_ids db' = used_ids db \<Longrightarrow> fresh_call ids db' = fresh_call ids db"
  by (simp add: fresh_call_def)

lemma raffle_draw_succeeds:
  assumes "quiet env" and "env_ok env" and "claims_raffle env kind (r_id r) job" and "ws_bitcoin services = Some source"
    and "bitcoin_chain source chain tip" and "closes_at chain (r_end_time r) tip c"
    and "uint c + r_randomness_delay_blocks r < uint tip" and "blocks_agree chain tip (wd_db w)"
    and "db_ok (we_x env) (wd_db w)" and "r \<in> set (raffles (wd_db w))" and "r_status r = RandomnessPending"
    and "\<forall>d \<in> set (draws (wd_db w)). d_raffle_id d \<noteq> r_id r" and "no_job (we_x env) ''payout.execute'' (r_id r) (jobs (wd_db w))"
    and "fresh_from env (wd_calls w) (wd_db w)" and "distinct_calls env (wd_calls w) m" and "wd_calls w + unat tip + 10 \<le> m"
  obtains k t root and rh :: u64 and rand and result :: DrawResult and amounts pl where
    "raffle_draw env services job w = (Ok (), w\<lparr>wd_db := drawn_db (we_x env) (we_ids env k) (we_now env k) (r_id r)
        (drawn_row (we_now env k) (uint c) (bk_hash (chain c)) (uint rh) rand)
        (draw_row_of (we_ids env k 0) (we_now env k) (r_id r) root rand (uint (dr_winning_ticket result)) (dr_winner_entry_id result))
        amounts pl ((wd_db w)\<lparr>bitcoin_blocks := t\<rparr>), wd_calls := Suc k\<rparr>)"
    and "rand = bk_hash (chain (c + of_int (r_randomness_delay_blocks r)))" and "wd_calls w \<le> k" and "k < wd_calls w + unat tip + 10"
    and "\<exists>e \<in> set (entries (wd_db w)). e_raffle_id e = r_id r \<and> e_id e = dr_winner_entry_id result \<and>
       e_ticket_start e \<le> uint (dr_winning_ticket result) \<and> uint (dr_winning_ticket result) < e_ticket_end e"
proof -
  let ?x = "we_x env" and ?delay = "r_randomness_delay_blocks r"
  have ok: "store_ok ?x (wd_db w)" and inj: "uuid_text_ok ?x"
    using assms(2,9) by (simp_all add: db_ok_def env_ok_def)
  have delay: "0 < ?delay"
    using store_okD(9) [OF ok assms(10)] by (simp add: raffle_check_def)
  define w1 where "w1 = w\<lparr>wd_calls := Suc (wd_calls w)\<rparr>"
  note ctx = quiet_read [where f = "frozen_draw_context (r_id r)" and w = w, OF assms(1) draw_context [OF ok assms(10,11)], folded w1_def]
  have b1: "blocks_agree chain tip (wd_db w1)"
    using assms(8) by (simp add: w1_def)
  obtain t n where blk: "draw_blocks env source (r_end_time r) ?delay w1 = (Ok (chain c, chain (c + of_int ?delay)),
      w1\<lparr>wd_db := (wd_db w1)\<lparr>bitcoin_blocks := t\<rparr>, wd_calls := n\<rparr>)" and n: "wd_calls w1 \<le> n" "n \<le> wd_calls w1 + unat tip + 8"
    using assms(1,6) delay assms(7) b1 by (rule bitcoin_chain.draw_blocks_succeeds [OF assms(5)])
  let ?db = "(wd_db w)\<lparr>bitcoin_blocks := t\<rparr>" and ?rh = "c + of_int ?delay :: u64"
  have tip: "uint tip < 2 ^ 63"
    using assms(5) by (rule bitcoin_chain.tip_fits)
  note rh = randomness_height [OF delay assms(7) tip]
  have src: "bk_height (chain c) = c" "bk_height (chain ?rh) = ?rh" "uint c < 2 ^ 63" "uint ?rh < 2 ^ 63"
  proof -
    have "c \<le> tip"
      using assms(6) by (simp add: closes_at_def)
    then show "bk_height (chain c) = c" "bk_height (chain ?rh) = ?rh"
      using bitcoin_chain.chain_height [OF assms(5)] rh(4) by blast+
    show "uint c < 2 ^ 63" "uint ?rh < 2 ^ 63"
      using assms(7) delay tip rh(1) by linarith+
  qed
  have "fresh_call (we_ids env n) (wd_db w)"
    using assms(14,15) by (rule fresh_call_at) (use n assms(16) in \<open>simp_all add: w1_def\<close>)
  then have fresh: "fresh_call (we_ids env n) ?db"
    using fresh_call_frame [of ?db "wd_db w"] by simp
  have d: "db_ok ?x ?db" "r \<in> set (raffles ?db)" "\<forall>d \<in> set (draws ?db). d_raffle_id d \<noteq> r_id r"
      "no_job ?x ''payout.execute'' (r_id r) (jobs ?db)"
    using db_ok_blocks [OF assms(9)] assms(10,12,13) by simp_all
  obtain root result amounts pl where
    "compute_draw ?x (r_id r) c ?rh (bk_hash (chain ?rh)) r ?db = Ok (root, result, amounts)"
    and win: "\<exists>e \<in> set (entries ?db). e_raffle_id e = r_id r \<and> e_id e = dr_winner_entry_id result \<and>
       e_ticket_start e \<le> uint (dr_winning_ticket result) \<and> uint (dr_winning_ticket result) < e_ticket_end e"
    and dr: "create_draw_and_payouts ?x (we_ids env n) (we_now env n) (r_id r) c (bk_hash (chain c)) ?rh (bk_hash (chain ?rh)) ?db = Ok (result,
      drawn_db ?x (we_ids env n) (we_now env n) (r_id r) (drawn_row (we_now env n) (uint c) (bk_hash (chain c)) (uint ?rh) (bk_hash (chain ?rh)))
        (draw_row_of (we_ids env n 0) (we_now env n) (r_id r) root (bk_hash (chain ?rh)) (uint (dr_winning_ticket result)) (dr_winner_entry_id result))
        amounts pl ?db)"
    by (rule draw_succeeds [OF d(1) inj d(2) assms(11) d(3,4) fresh src(3,4)])
  have stored: "storeW env (\<lambda>k. create_draw_and_payouts ?x (we_ids env k) (we_now env k) (r_id r) c (bk_hash (chain c)) ?rh
      (bk_hash (chain ?rh))) (w1\<lparr>wd_db := (wd_db w1)\<lparr>bitcoin_blocks := t\<rparr>, wd_calls := n\<rparr>) = (Ok result, w\<lparr>wd_db :=
      drawn_db ?x (we_ids env n) (we_now env n) (r_id r) (drawn_row (we_now env n) (uint c) (bk_hash (chain c)) (uint ?rh) (bk_hash (chain ?rh)))
        (draw_row_of (we_ids env n 0) (we_now env n) (r_id r) root (bk_hash (chain ?rh)) (uint (dr_winning_ticket result)) (dr_winner_entry_id result))
        amounts pl ?db, wd_calls := Suc n\<rparr>)"
    by (subst quiet_store [OF assms(1)]) (use dr in \<open>simp_all add: w1_def\<close>)
  have "raffle_draw env services job w = (Ok (), w\<lparr>wd_db := drawn_db ?x (we_ids env n) (we_now env n) (r_id r)
      (drawn_row (we_now env n) (uint c) (bk_hash (chain c)) (uint ?rh) (bk_hash (chain ?rh)))
        (draw_row_of (we_ids env n 0) (we_now env n) (r_id r) root (bk_hash (chain ?rh)) (uint (dr_winning_ticket result)) (dr_winner_entry_id result))
        amounts pl ?db, wd_calls := Suc n\<rparr>)"
    unfolding raffle_draw_blocks [OF assms(4)]
    using blk ctx stored by (simp add: bindW_runs [OF claims_raffle_uuid [OF assms(3)]] bindW_runs src returnW_def w1_def)
  then show thesis
    using n win by (intro that [where k = n and rh = ?rh and rand = "bk_hash (chain ?rh)" and root = root and result = result and amounts = amounts and pl = pl and t = t]) (simp_all add: w1_def)
qed

section \<open>The proof job\<close>

text \<open>Immutable storage that accepts every proof.\<close>

definition publishes :: "world_env \<Rightarrow> WorkerServices \<Rightarrow> bool" where
  "publishes env services \<longleftrightarrow> (\<exists>publish. ws_proof_store services = Some publish \<and> (\<forall>k h b. \<exists>pub. publish k h b = Ok pub)) \<and>
     (\<forall>doc. \<exists>b. we_to_vec env doc = Ok b)"

text \<open>The database once the proof of a raffle is stored and its publication recorded.\<close>

definition published_db :: "world_env \<Rightarrow> nat \<Rightarrow> RaffleId \<Rightarrow> json \<Rightarrow> ProofDocument \<Rightarrow> PublishedProof \<Rightarrow> json \<Rightarrow> db \<Rightarrow> db" where
  "published_db env k rid v doc pub pl db = db\<lparr>
     proofs := proofs db @ [publish_row (we_now env (k + 2)) (pb_uri pub) (pb_version_id pub) (pb_etag pub)
       (proof_row_of (we_ids env k 0) (we_now env k) rid v doc)],
     audit_events := audit_events db @ [audit_row_of (we_ids env k 1) (we_now env k) rid ''proof.generated'' pl]\<rparr>"

lemma proof_generate_succeeds:
  assumes "quiet env" and "claims_raffle env kind (r_id r) job" and "store_ok (we_x env) (wd_db w)" and "encoders_ok (we_x env)"
    and "publishes env services" and "r \<in> set (raffles (wd_db w))" and "r_status r = PaidOut"
    and "table_ok proof_check proof_conflict (proofs (wd_db w))" and "\<forall>p \<in> set (proofs (wd_db w)). pr_raffle_id p \<noteq> r_id r"
    and "fresh_call (we_ids env (wd_calls w)) (wd_db w)"
  obtains doc v pub pl where
    "proof_generate env services job w = (Ok (), w\<lparr>wd_db := published_db env (wd_calls w) (r_id r) v doc pub pl (wd_db w),
       wd_calls := wd_calls w + 3\<rparr>)"
    and "is_verified (verify (x_sha (we_x env)) (x_jcs (we_x env)) doc)" and "pp_raffle_id (pd_payload doc) = r_id r"
    and "ledger_rows (r_id r) (wd_db w) = Ok (pp_entries (pd_payload doc))" and "x_to_value (we_x env) doc = Ok v"
proof -
  let ?x = "we_x env" and ?k = "wd_calls w"
  obtain publish where ps: "ws_proof_store services = Some publish" "\<forall>k h b. \<exists>pub. publish k h b = Ok pub"
    and vec: "\<forall>doc. \<exists>b. we_to_vec env doc = Ok b"
    using assms(5) unfolding publishes_def by blast
  obtain doc v pl where doc: "is_verified (verify (x_sha ?x) (x_jcs ?x) doc)" "pp_raffle_id (pd_payload doc) = r_id r"
      "ledger_rows (r_id r) (wd_db w) = Ok (pp_entries (pd_payload doc))" "x_to_value ?x doc = Ok v"
    and gen: "generate_terminal_proof ?x (we_ids env ?k) (we_now env ?k) (r_id r) (wd_db w) =
      Ok (doc, proven_db (we_ids env ?k) (we_now env ?k) (r_id r) v doc pl (wd_db w))"
    using assms(3,4,6,7,9,10) by (rule proof_succeeds)
  obtain b where b: "we_to_vec env doc = Ok b"
    using vec by blast
  obtain pub where pub: "publish (Suc ?k) (to_hex (x_hex_encode ?x) (pd_proof_hash doc)) b = Ok pub"
    using ps(2) by blast
  let ?db1 = "proven_db (we_ids env ?k) (we_now env ?k) (r_id r) v doc pl (wd_db w)"
  let ?row = "proof_row_of (we_ids env ?k 0) (we_now env ?k) (r_id r) v doc"
  have "table_ok proof_check proof_conflict (proofs ?db1)"
    using assms(8,9) fresh_callD(6) [OF assms(10), of 0]
    by (auto simp: proven_db_def table_ok_def unique_ok_append proof_conflict_def proof_check_def proof_row_of_def)
  then have rec: "record_proof_publication (we_now env (?k + 2)) (r_id r) (pb_uri pub) (pb_version_id pub) (pb_etag pub) ?db1 =
      Ok ((), published_db env ?k (r_id r) v doc pub pl (wd_db w))"
    using publication_succeeds [of ?db1 "proofs (wd_db w)" "r_id r" ?row] assms(9)
    by (simp add: proven_db_def published_db_def proof_row_of_def is_proof_of_def)
  show thesis
    by (rule that [OF _ doc, of pub pl])
      (use gen rec ps(1) b pub in \<open>simp add: proof_generate_def bindW_runs [OF claims_raffle_uuid [OF assms(2)]] bindW_def liftE_def
        askE_def storeE_def quiet_transact [OF assms(1)] numeral_3_eq_3\<close>)
qed

end
