(* ===== verification/Worker_Completion.thy ===== *)
theory Worker_Completion
  imports Worker_Progress
begin

text \<open>
  The executor carries a raffle through: four turns of \<open>run_jobs\<close> on a due raffle close it, draw its
  winner, pay everybody out and publish the proof, when no other process interferes and the outside
  cooperates. Each turn enqueues the job of the following one.
\<close>

section \<open>The queue during a turn\<close>

definition undisturbed :: "world_env \<Rightarrow> bool" where
  "undisturbed env \<longleftrightarrow> quiet env \<and> (\<forall>k j. \<not> we_job_locked env k j)"

text \<open>A job that no worker will touch again.\<close>

definition settled_job :: "job_row \<Rightarrow> bool" where
  "settled_job j \<longleftrightarrow> j_status j \<in> {Succeeded, Dead}"

definition running_job :: "string \<Rightarrow> timestamp \<Rightarrow> job_row \<Rightarrow> job_row" where
  "running_job worker_id now j = job_take_lease now worker_id (now + seconds 60) j"

definition succeeded_job :: "timestamp \<Rightarrow> job_row \<Rightarrow> job_row" where
  "succeeded_job now j =
     j\<lparr>j_status := Succeeded, j_lease_owner := None, j_lease_expires_at := None, j_updated_at := now\<rparr>"

definition jobs_ok :: "job_row list \<Rightarrow> bool" where
  "jobs_ok = table_ok job_check job_conflict"

lemma job_row_simps [simp]:
  "j_id (running_job worker_id now j) = j_id j" "j_kind (running_job worker_id now j) = j_kind j"
  "j_deduplication_key (running_job worker_id now j) = j_deduplication_key j"
  "j_status (running_job worker_id now j) = Running" "j_lease_owner (running_job worker_id now j) = Some worker_id"
  "j_id (succeeded_job now j) = j_id j" "j_kind (succeeded_job now j) = j_kind j"
  "j_deduplication_key (succeeded_job now j) = j_deduplication_key j" "j_status (succeeded_job now j) = Succeeded"
  "settled_job (succeeded_job now j)"
  by (simp_all add: running_job_def job_take_lease_def succeeded_job_def settled_job_def)

lemma pipeline_job_simps [simp]:
  "j_kind (pipeline_job x uid t kind rid) = kind" "j_deduplication_key (pipeline_job x uid t kind rid) = x_uuid_text x rid"
  "j_status (pipeline_job x uid t kind rid) = Queued" "j_available_at (pipeline_job x uid t kind rid) = t"
  by (simp_all add: pipeline_job_def default_job_def)

lemma no_job_simps [simp]:
  "no_job x kind rid []"
  "no_job x kind rid (j # js) \<longleftrightarrow> \<not> (j_kind j = kind \<and> j_deduplication_key j = x_uuid_text x rid) \<and> no_job x kind rid js"
  "no_job x kind rid (js @ js') \<longleftrightarrow> no_job x kind rid js \<and> no_job x kind rid js'"
  by (auto simp: no_job_def)

lemma jobs_ok_append:
  assumes "jobs_ok js" and "no_job x kind rid js" and "\<forall>j \<in> set js. j_id j \<noteq> uid"
  shows "jobs_ok (js @ [pipeline_job x uid t kind rid])"
  using assms by (auto simp: jobs_ok_def table_ok_def unique_ok_append job_conflict_def no_job_def job_check_def integer_col_def
      pipeline_job_def default_job_def)

text \<open>The claim takes the one job that waits.\<close>

lemma claim_waiting:
  assumes "jobs_ok (jobs db)" and "jobs db = js @ [pipeline_job x uid t kind rid]" and "\<forall>j \<in> set js. settled_job j" and "t \<le> now"
    and "\<not> locked (pipeline_job x uid t kind rid)"
  shows "claim_job locked now worker_id 60 db =
      Ok (Some (claimed_job (now + seconds 60) (running_job worker_id now (pipeline_job x uid t kind rid))),
        db\<lparr>jobs := js @ [running_job worker_id now (pipeline_job x uid t kind rid)]\<rparr>)"
    and "jobs_ok (js @ [running_job worker_id now (pipeline_job x uid t kind rid)])"
proof -
  let ?j = "pipeline_job x uid t kind rid" and ?P = "\<lambda>r. j_id r = uid"
  have old: "\<not> job_claimable now j" if "j \<in> set js" for j
    using assms(3) that by (auto simp: job_claimable_def settled_job_def)
  have can: "job_claimable now ?j"
    using assms(4) by (simp add: job_claimable_def)
  have "candidate (job_claimable now) locked j_available_at (sort_key j_created_at (jobs db)) \<noteq> None"
    unfolding candidate_None using can assms(2,5) by auto
  then obtain c where c: "candidate (job_claimable now) locked j_available_at (sort_key j_created_at (jobs db)) = Some c"
    by blast
  have "c = ?j"
    using candidate_Some(1,2) [OF c] old assms(2) by auto
  have ids: "\<forall>j \<in> set js. j_id j \<noteq> uid"
    using assms(1,2) by (auto simp: jobs_ok_def table_ok_def unique_ok_append job_conflict_def)
  have lease: "job_check (job_take_lease now worker_id (now + seconds 60) ?j)"
    by (simp add: job_take_lease_def job_check_def integer_col_def pipeline_job_def default_job_def)
  have own: "r = ?j" if "r \<in> set (jobs db)" "j_id r = uid" for r
    using that ids assms(2) by auto
  have upd: "sql_update job_check job_conflict ?P (job_take_lease now worker_id (now + seconds 60)) (jobs db) =
      Ok (set_where ?P (job_take_lease now worker_id (now + seconds 60)) (jobs db), length (filter ?P (jobs db)))"
  proof (rule jobs_tbl.update_succeeds [OF assms(1) [unfolded jobs_ok_def]])
    show "job_check (job_take_lease now worker_id (now + seconds 60) r)" if "r \<in> set (jobs db)" "j_id r = uid" for r
      unfolding own [OF that] by (rule lease)
    show "job_conflict (job_take_lease now worker_id (now + seconds 60) r) s \<longleftrightarrow> job_conflict r s" for r s
      by (simp add: job_conflict_def job_take_lease_def)
  qed
  have set: "set_where ?P (job_take_lease now worker_id (now + seconds 60)) (jobs db) = js @ [running_job worker_id now ?j]"
    using ids set_where_cong [of js ?P] by (simp add: assms(2) set_where_def running_job_def)
  show "claim_job locked now worker_id 60 db =
      Ok (Some (claimed_job (now + seconds 60) (running_job worker_id now ?j)), db\<lparr>jobs := js @ [running_job worker_id now ?j]\<rparr>)"
    using upd by (simp add: claim_job_def c \<open>c = ?j\<close> set) (simp add: running_job_def Let_def)
  show "jobs_ok (js @ [running_job worker_id now ?j])"
    using jobs_tbl.update_ok [OF _ upd] assms(1) by (simp add: jobs_ok_def set)
qed

text \<open>The worker's own running job is the one that \<open>succeed\<close> finishes.\<close>

lemma succeed_running:
  assumes "jobs_ok (jobs db)" and "jobs db = js @ [running_job worker_id t j] @ new"
    and "\<forall>i \<in> set js. settled_job i" and "\<forall>i \<in> set new. j_status i \<noteq> Running"
  shows "succeed now (j_id j) worker_id db = Ok ((), db\<lparr>jobs := js @ [succeeded_job now (running_job worker_id t j)] @ new\<rparr>)"
    and "jobs_ok (js @ [succeeded_job now (running_job worker_id t j)] @ new)"
proof -
  let ?P = "\<lambda>i. j_id i = j_id j \<and> j_status i = Running \<and> j_lease_owner i = Some worker_id"
  have others: "\<not> ?P i" if "i \<in> set js \<or> i \<in> set new" for i
    using that assms(3,4) by (auto simp: settled_job_def)
  have upd: "sql_update job_check job_conflict ?P (succeeded_job now) (jobs db) =
      Ok (set_where ?P (succeeded_job now) (jobs db), length (filter ?P (jobs db)))"
    using assms(1) unfolding jobs_ok_def
    by (rule jobs_tbl.update_succeeds)
      (use assms(1) in \<open>auto simp: jobs_ok_def table_ok_def succeeded_job_def job_check_def job_conflict_def\<close>)
  have set: "set_where ?P (succeeded_job now) (jobs db) = js @ [succeeded_job now (running_job worker_id t j)] @ new"
    using others set_where_cong [of js ?P "succeeded_job now"] set_where_cong [of new ?P "succeeded_job now"]
    by (simp add: assms(2) set_where_def)
  have one: "length (filter ?P (jobs db)) = 1"
    using others by (simp add: assms(2) filter_empty_conv)
  have "sql_update job_check job_conflict ?P (succeeded_job now) (jobs db) =
      Ok (js @ [succeeded_job now (running_job worker_id t j)] @ new, 1)"
    using upd unfolding set one .
  then show "succeed now (j_id j) worker_id db = Ok ((), db\<lparr>jobs := js @ [succeeded_job now (running_job worker_id t j)] @ new\<rparr>)"
    by (simp add: succeed_def succeeded_job_def [abs_def])
  show "jobs_ok (js @ [succeeded_job now (running_job worker_id t j)] @ new)"
    using jobs_tbl.update_ok [OF _ upd] assms(1) by (simp add: jobs_ok_def set)
qed

section \<open>One turn\<close>

lemma parse_payload:
  assumes "x_uuid_parse (we_x env) (x_uuid_text (we_x env) rid) = Some rid"
  shows "claims_raffle env kind rid (claimed_job deadline (running_job worker_id now (pipeline_job (we_x env) uid t kind rid)))"
  using assms by (simp add: claims_raffle_def claimed_job_def running_job_def job_take_lease_def pipeline_job_def default_job_def)

text \<open>
  A turn that finds one job waiting hands it to its handler, and marks it as succeeded when the handler
  does.
\<close>

lemma turn_runs:
  assumes "undisturbed env" and "x_uuid_parse (we_x env) (x_uuid_text (we_x env) rid) = Some rid"
    and "schedule_due_closes (we_x env) (we_ids env (wd_calls w)) (we_now env (wd_calls w)) (wd_db w) = Ok (n, db)"
    and "jobs_ok (jobs db)" and "jobs db = js @ [pipeline_job (we_x env) uid t kind rid]" and "\<forall>j \<in> set js. settled_job j"
    and "t \<le> we_now env (Suc (wd_calls w))"
  obtains job run where "claims_raffle env kind rid job" and "jobs_ok (js @ [run])"
    and "j_id run = uid" and "j_kind run = kind" and "j_deduplication_key run = x_uuid_text (we_x env) rid"
    and "\<And>w3 new. reconcile_payment fuel env services worker_id job (w\<lparr>wd_db := db\<lparr>jobs := js @ [run]\<rparr>, wd_calls := Suc (Suc (wd_calls w))\<rparr>)
        = Some (Ok (), w3) \<Longrightarrow> jobs (wd_db w3) = js @ [run] @ new \<Longrightarrow> jobs_ok (js @ [run] @ new) \<Longrightarrow>
        \<forall>i \<in> set new. j_status i \<noteq> Running \<Longrightarrow>
        run_turn fuel env services worker_id w = Some (Finished, w3\<lparr>wd_db := (wd_db w3)\<lparr>jobs :=
          js @ [succeeded_job (we_now env (wd_calls w3)) run] @ new\<rparr>, wd_calls := Suc (wd_calls w3)\<rparr>) \<and>
        jobs_ok (js @ [succeeded_job (we_now env (wd_calls w3)) run] @ new)"
proof -
  let ?now = "we_now env (Suc (wd_calls w))" and ?j = "pipeline_job (we_x env) uid t kind rid"
  let ?run = "running_job worker_id ?now ?j"
  let ?job = "claimed_job (?now + seconds 60) ?run"
  have quiet: "quiet env" and free: "\<not> we_job_locked env (Suc (wd_calls w)) ?j"
    using assms(1) by (simp_all add: undisturbed_def)
  note claim = claim_waiting [where locked = "we_job_locked env (Suc (wd_calls w))" and worker_id = worker_id, OF assms(4-7) free]
  show thesis
  proof (rule that [OF parse_payload [OF assms(2)] claim(2)])
    fix w3 new
    assume h: "reconcile_payment fuel env services worker_id ?job (w\<lparr>wd_db := db\<lparr>jobs := js @ [?run]\<rparr>, wd_calls := Suc (Suc (wd_calls w))\<rparr>)
        = Some (Ok (), w3)"
      and new: "jobs (wd_db w3) = js @ [?run] @ new" "jobs_ok (js @ [?run] @ new)" "\<forall>i \<in> set new. j_status i \<noteq> Running"
    have "jobs_ok (jobs (wd_db w3))"
      using new(1,2) by simp
    note fin = succeed_running [OF this new(1) assms(6) new(3), of "we_now env (wd_calls w3)"]
    have id: "cj_id ?job = j_id ?j"
      by (simp add: claimed_job_def)
    show "run_turn fuel env services worker_id w = Some (Finished, w3\<lparr>wd_db := (wd_db w3)\<lparr>jobs :=
          js @ [succeeded_job (we_now env (wd_calls w3)) ?run] @ new\<rparr>, wd_calls := Suc (wd_calls w3)\<rparr>) \<and>
        jobs_ok (js @ [succeeded_job (we_now env (wd_calls w3)) ?run] @ new)"
      using fin h claim(1)
      by (simp add: run_turn_def quiet_transact [OF quiet] assms(3) id del: append.simps append_Cons)
  qed simp_all
qed

section \<open>Stages\<close>

lemma db_ok_jobs: "db_ok x (db\<lparr>jobs := js\<rparr>) \<longleftrightarrow> db_ok x db"
proof -
  have keeps: "db_ok x d \<Longrightarrow> keeps_core d d' \<Longrightarrow> db_ok x d'" for d d'
    using keeps_core_store [of d d' x] by (simp add: db_ok_def)
  show ?thesis
    using keeps [of db "db\<lparr>jobs := js\<rparr>"] keeps [of "db\<lparr>jobs := js\<rparr>" db] by (auto simp: keeps_core_def)
qed

lemma used_ids_jobs: "j_id ` set js = j_id ` set (jobs db) \<Longrightarrow> used_ids (db\<lparr>jobs := js\<rparr>) = used_ids db"
  by (simp add: used_ids_def)

text \<open>
  Between two turns: the store is in order, no raffle will come due, and one job waits in the queue, the
  next one of the pipeline of a raffle, for which the jobs of the kinds \<open>later\<close> were never enqueued. Call
  \<open>n\<close> is the one that looked for due raffles.
\<close>

definition never_due :: "world_env \<Rightarrow> db \<Rightarrow> bool" where
  "never_due env db \<longleftrightarrow> (\<forall>s \<in> set (raffles db). \<forall>k. \<not> close_due (we_now env k) s)"

definition stage :: "world_env \<Rightarrow> RaffleId \<Rightarrow> string \<Rightarrow> string list \<Rightarrow> nat \<Rightarrow> db \<Rightarrow> bool" where
  "stage env rid kind later n db \<longleftrightarrow>
     db_ok (we_x env) db \<and> fresh_from env (Suc n) db \<and> never_due env db \<and> jobs_ok (jobs db) \<and>
     (\<exists>js uid t. jobs db = js @ [pipeline_job (we_x env) uid t kind rid] \<and> (\<forall>j \<in> set js. settled_job j) \<and> t \<le> we_now env n) \<and>
     (\<forall>k \<in> set later. no_job (we_x env) k rid (jobs db))"

text \<open>What the handler finds: the same with the job running.\<close>

definition working :: "world_env \<Rightarrow> RaffleId \<Rightarrow> string list \<Rightarrow> db \<Rightarrow> world \<Rightarrow> world \<Rightarrow> bool" where
  "working env rid later db w v \<longleftrightarrow>
     wd_calls v = Suc (Suc (wd_calls w)) \<and> wd_paid v = wd_paid w \<and> (\<exists>js. wd_db v = db\<lparr>jobs := js\<rparr>) \<and>
     db_ok (we_x env) (wd_db v) \<and> fresh_from env (wd_calls v) (wd_db v) \<and> never_due env (wd_db v) \<and>
     (\<forall>k \<in> set later. no_job (we_x env) k rid (jobs (wd_db v)))"

text \<open>What a turn makes of the handler's result: the job it ran is marked, one call later.\<close>

definition marked :: "world \<Rightarrow> world \<Rightarrow> bool" where
  "marked w3 w4 \<longleftrightarrow> wd_calls w4 = Suc (wd_calls w3) \<and> wd_paid w4 = wd_paid w3 \<and> (\<exists>js. wd_db w4 = (wd_db w3)\<lparr>jobs := js\<rparr>)"

lemma stage_turn:
  assumes "undisturbed env" and "mono (we_now env)" and "x_uuid_parse (we_x env) (x_uuid_text (we_x env) rid) = Some rid"
    and "schedule_due_closes (we_x env) (we_ids env (wd_calls w)) (we_now env (wd_calls w)) (wd_db w) = Ok (n, db)"
    and "stage env rid kind later (wd_calls w) db" and "kind \<notin> set later"
  obtains job v where "claims_raffle env kind rid job" and "working env rid later db w v"
    and "\<And>w3. reconcile_payment fuel env services worker_id job v = Some (Ok (), w3) \<Longrightarrow> jobs (wd_db w3) = jobs (wd_db v) \<Longrightarrow>
      \<exists>w4. run_turn fuel env services worker_id w = Some (Finished, w4) \<and> marked w3 w4"
    and "\<And>w3 uid t kind' later'. reconcile_payment fuel env services worker_id job v = Some (Ok (), w3) \<Longrightarrow> later = kind' # later' \<Longrightarrow>
      jobs (wd_db w3) = jobs (wd_db v) @ [pipeline_job (we_x env) uid t kind' rid] \<Longrightarrow> uid \<notin> used_ids (wd_db v) \<Longrightarrow>
      kind' \<notin> set later' \<Longrightarrow> t \<le> we_now env (wd_calls w3) \<Longrightarrow> db_ok (we_x env) (wd_db w3) \<Longrightarrow>
      fresh_from env (wd_calls w3) (wd_db w3) \<Longrightarrow> never_due env (wd_db w3) \<Longrightarrow>
      \<exists>w4. run_turn fuel env services worker_id w = Some (Finished, w4) \<and> marked w3 w4 \<and>
        stage env rid kind' later' (wd_calls w4) (wd_db w4)"
proof -
  note st = assms(5) [unfolded stage_def]
  obtain js uid t where js: "jobs db = js @ [pipeline_job (we_x env) uid t kind rid]" "\<forall>j \<in> set js. settled_job j" "t \<le> we_now env (wd_calls w)"
    using st by blast
  have later: "t \<le> we_now env (Suc (wd_calls w))"
    using js(3) monoD [OF assms(2), of "wd_calls w" "Suc (wd_calls w)"] by simp
  have jok: "jobs_ok (jobs db)"
    using st by blast
  obtain job run where cl: "claims_raffle env kind rid job" and run: "jobs_ok (js @ [run])" "j_id run = uid" "j_kind run = kind"
      "j_deduplication_key run = x_uuid_text (we_x env) rid"
    and fin: "\<And>w3 new. reconcile_payment fuel env services worker_id job (w\<lparr>wd_db := db\<lparr>jobs := js @ [run]\<rparr>, wd_calls := Suc (Suc (wd_calls w))\<rparr>)
        = Some (Ok (), w3) \<Longrightarrow> jobs (wd_db w3) = js @ [run] @ new \<Longrightarrow> jobs_ok (js @ [run] @ new) \<Longrightarrow>
        \<forall>i \<in> set new. j_status i \<noteq> Running \<Longrightarrow>
        run_turn fuel env services worker_id w = Some (Finished, w3\<lparr>wd_db := (wd_db w3)\<lparr>jobs :=
          js @ [succeeded_job (we_now env (wd_calls w3)) run] @ new\<rparr>, wd_calls := Suc (wd_calls w3)\<rparr>) \<and>
        jobs_ok (js @ [succeeded_job (we_now env (wd_calls w3)) run] @ new)"
    using assms(1,3,4) jok js(1,2) later by (rule turn_runs [where fuel = fuel and services = services and worker_id = worker_id]) (rule that; assumption)
  let ?v = "w\<lparr>wd_db := db\<lparr>jobs := js @ [run]\<rparr>, wd_calls := Suc (Suc (wd_calls w))\<rparr>"
  have ids: "used_ids (db\<lparr>jobs := js @ [run]\<rparr>) = used_ids db"
    by (rule used_ids_jobs) (simp add: js(1) run(2))
  have none: "no_job (we_x env) k rid (js @ [run])" if "k \<in> set later" for k
    using st that assms(6) run(3) by (auto simp: js(1))
  have working: "working env rid later db w ?v"
    using st run(1) none fresh_from_later [of env "Suc (wd_calls w)" db "Suc (Suc (wd_calls w))" "db\<lparr>jobs := js @ [run]\<rparr>"] ids
    by (simp add: working_def db_ok_jobs never_due_def) blast
  show thesis
  proof (rule that [OF cl working])
    fix w3
    assume "reconcile_payment fuel env services worker_id job ?v = Some (Ok (), w3)" "jobs (wd_db w3) = jobs (wd_db ?v)"
    then show "\<exists>w4. run_turn fuel env services worker_id w = Some (Finished, w4) \<and> marked w3 w4"
      using fin [of w3 "[]"] run(1) by (auto simp: marked_def)
  next
    fix w3 uid' t' kind' later'
    assume h: "reconcile_payment fuel env services worker_id job ?v = Some (Ok (), w3)" and l: "later = kind' # later'" "kind' \<notin> set later'"
      and new: "jobs (wd_db w3) = jobs (wd_db ?v) @ [pipeline_job (we_x env) uid' t' kind' rid]" "uid' \<notin> used_ids (wd_db ?v)"
      and t': "t' \<le> we_now env (wd_calls w3)" and ok: "db_ok (we_x env) (wd_db w3)" "fresh_from env (wd_calls w3) (wd_db w3)" "never_due env (wd_db w3)"
    let ?new = "[pipeline_job (we_x env) uid' t' kind' rid]" and ?fin = "succeeded_job (we_now env (wd_calls w3)) run"
    let ?w4 = "w3\<lparr>wd_db := (wd_db w3)\<lparr>jobs := js @ [?fin] @ ?new\<rparr>, wd_calls := Suc (wd_calls w3)\<rparr>"
    have "\<forall>j \<in> set (js @ [run]). j_id j \<noteq> uid'"
      using new(2) by (auto simp: used_ids_def)
    then have "jobs_ok ((js @ [run]) @ ?new)"
      using none [of kind'] l(1) by (intro jobs_ok_append [OF run(1)]) simp_all
    then have turn: "run_turn fuel env services worker_id w = Some (Finished, ?w4)" "jobs_ok (js @ [?fin] @ ?new)"
      using fin [OF h, of ?new] new(1) by simp_all
    have "used_ids (wd_db ?w4) = used_ids (wd_db w3)"
      using used_ids_jobs [of "js @ [?fin] @ ?new" "wd_db w3"] new(1) by simp
    then have "fresh_from env (Suc (Suc (wd_calls w3))) (wd_db ?w4)"
      using fresh_from_later [OF ok(2), of "Suc (Suc (wd_calls w3))" "wd_db ?w4"] by simp
    moreover have "t' \<le> we_now env (Suc (wd_calls w3))"
      using t' monoD [OF assms(2), of "wd_calls w3" "Suc (wd_calls w3)"] by simp
    moreover have "no_job (we_x env) k rid (js @ [?fin] @ ?new)" if "k \<in> set later'" for k
      using none [of k] that l by auto
    ultimately have "stage env rid kind' later' (wd_calls ?w4) (wd_db ?w4)"
      unfolding stage_def using turn(2) ok(1,3) js(2)
      by (intro conjI exI [of _ "js @ [?fin]"] exI [of _ uid'] exI [of _ t']) (auto simp: db_ok_jobs never_due_def)
    then show "\<exists>w4. run_turn fuel env services worker_id w = Some (Finished, w4) \<and> marked w3 w4 \<and>
        stage env rid kind' later' (wd_calls w4) (wd_db w4)"
      using turn(1) by (intro exI [of _ ?w4]) (auto simp: marked_def)
  qed
qed

end
