(* ===== verification/Worker_Pipeline.thy ===== *)
theory Worker_Pipeline
  imports Worker_Completion
begin

text \<open>
  The four turns that carry a due raffle to its published proof, one lemma for each: what the turn finds
  in the queue, what its handler does, and the job it leaves for the next turn.
\<close>

section \<open>What the turns keep\<close>

lemma new_ids: "i < 10 \<Longrightarrow> ids i \<in> ids ` {..<(10 :: nat)}"
  by simp

lemma unused_job: "uid \<notin> used_ids db \<Longrightarrow> \<forall>j \<in> set (jobs db). j_id j \<noteq> uid"
  unfolding used_ids_def by (metis UnCI imageI)

lemma fresh_from_ids: "fresh_from env n db \<Longrightarrow> fresh_ids env n db"
  unfolding fresh_ids_def by (intro allI impI unused_job) (simp add: fresh_from_def)

lemma used_ids_frozen: "used_ids (frozen_db x ids now rid root pl db) \<subseteq> used_ids db \<union> ids ` {..<10}"
  using new_ids [of 0 ids] new_ids [of 1 ids] new_ids [of 2 ids] by (auto simp: used_ids_def frozen_db_def)

lemma used_ids_drawn:
  "d_id d = ids 0 \<Longrightarrow> used_ids (drawn_db x ids now rid f d amounts pl db) \<subseteq> used_ids db \<union> ids ` {..<10}"
  using new_ids [of 0 ids] new_ids [of 1 ids] new_ids [of 2 ids] new_ids [of 3 ids] new_ids [of 4 ids] new_ids [of 5 ids]
  by (auto simp: used_ids_def drawn_db_def dest: drawn_payouts_rows(4))

lemma never_due_set:
  assumes "never_due env db" and "raffles db' = set_where P f (raffles db)" and "\<And>r. r_status (f r) \<noteq> Open"
  shows "never_due env db'"
  using assms by (auto simp: never_due_def set_set_where close_due_def)

text \<open>The raffle's row in its present status, and the tables that no step of the pipeline writes.\<close>

definition carried :: "raffle_row \<Rightarrow> RaffleStatus \<Rightarrow> db \<Rightarrow> db \<Rightarrow> bool" where
  "carried r st db0 db \<longleftrightarrow> entries db = entries db0 \<and> invoices db = invoices db0 \<and> organizers db = organizers db0 \<and>
     (\<exists>s \<in> set (raffles db). r_status s = st \<and> r_id s = r_id r \<and> r_organizer_id s = r_organizer_id r \<and>
        r_end_time s = r_end_time r \<and> r_randomness_delay_blocks s = r_randomness_delay_blocks r \<and>
        r_total_pool_sats s = r_total_pool_sats r \<and> r_total_tickets s = r_total_tickets r)"

lemma carried_self: "r \<in> set (raffles db) \<Longrightarrow> carried r (r_status r) db db"
  by (auto simp: carried_def)

lemma carried_frame:
  assumes "carried r st db0 db" and "entries db' = entries db" and "invoices db' = invoices db" and "organizers db' = organizers db"
    and "raffles db' = raffles db"
  shows "carried r st db0 db'"
  using assms by (simp add: carried_def)

lemma carried_jobs [simp]: "carried r st db0 (db\<lparr>jobs := js\<rparr>) = carried r st db0 db"
  by (simp add: carried_def)

lemma carried_set:
  assumes "carried r st db0 db" and "raffles db' = set_where P f (raffles db)"
    and "entries db' = entries db" and "invoices db' = invoices db" and "organizers db' = organizers db"
    and "\<And>s. r_id s = r_id r \<Longrightarrow> r_status s = st \<Longrightarrow> P s"
    and "\<And>s. r_status (f s) = st' \<and> r_id (f s) = r_id s \<and> r_organizer_id (f s) = r_organizer_id s \<and> r_end_time (f s) = r_end_time s \<and>
      r_randomness_delay_blocks (f s) = r_randomness_delay_blocks s \<and> r_total_pool_sats (f s) = r_total_pool_sats s \<and>
      r_total_tickets (f s) = r_total_tickets s"
  shows "carried r st' db0 db'"
proof -
  obtain s where s: "s \<in> set (raffles db)" "r_status s = st \<and> r_id s = r_id r \<and> r_organizer_id s = r_organizer_id r \<and>
        r_end_time s = r_end_time r \<and> r_randomness_delay_blocks s = r_randomness_delay_blocks r \<and>
        r_total_pool_sats s = r_total_pool_sats r \<and> r_total_tickets s = r_total_tickets r"
    using assms(1) unfolding carried_def by blast
  then have "f s \<in> set (raffles db')"
    using assms(6) by (auto simp: assms(2) set_set_where)
  then show ?thesis
    unfolding carried_def using s(2) assms(1,3-5) assms(7) [of s] by (intro conjI bexI [of _ "f s"]) (simp_all add: carried_def)
qed

section \<open>The turn that closes\<close>

text \<open>A queue in which nothing is left to do, and nothing was ever done for the raffle.\<close>

definition idle_queue :: "externals \<Rightarrow> RaffleId \<Rightarrow> db \<Rightarrow> bool" where
  "idle_queue x rid db \<longleftrightarrow> jobs_ok (jobs db) \<and> (\<forall>j \<in> set (jobs db). settled_job j) \<and>
     (\<forall>k \<in> {''raffle.close'', ''raffle.draw'', ''payout.execute'', ''proof.generate''}. no_job x k rid (jobs db))"

definition scheduled_db :: "world_env \<Rightarrow> nat \<Rightarrow> RaffleId \<Rightarrow> db \<Rightarrow> db" where
  "scheduled_db env n rid db = db\<lparr>
     raffles := set_where (close_due (we_now env n)) (set_status (we_now env n) Closing) (raffles db),
     jobs := jobs db @ [pipeline_job (we_x env) (we_ids env n 0) (we_now env n) ''raffle.close'' rid],
     audit_events := audit_events db @ [audit_row_of (we_ids env n 1) (we_now env n) rid ''raffle.closing'' (JObj [])]\<rparr>"

lemma due_raffle_scheduled:
  assumes "env_ok env" and "db_ok (we_x env) db" and "r \<in> set (raffles db)" and "close_due (we_now env n) r"
    and "\<forall>s \<in> set (raffles db). s \<noteq> r \<longrightarrow> (\<forall>k. \<not> close_due (we_now env k) s)" and "idle_queue (we_x env) (r_id r) db"
    and "fresh_from env n db" and "distinct_calls env n m" and "n < m"
  shows "schedule_due_closes (we_x env) (we_ids env n) (we_now env n) db = Ok (1, scheduled_db env n (r_id r) db)"
    and "stage env (r_id r) ''raffle.close'' [''raffle.draw'', ''payout.execute'', ''proof.generate''] n (scheduled_db env n (r_id r) db)"
    and "carried r Closing db (scheduled_db env n (r_id r) db)"
proof -
  let ?x = "we_x env" and ?ids = "we_ids env n" and ?now = "we_now env n"
  let ?db = "scheduled_db env n (r_id r) db"
  have ok: "store_ok ?x db"
    using assms(2) by (simp add: db_ok_def)
  have fresh: "fresh_call ?ids db"
    using assms(7,8) by (rule fresh_call_at) (simp_all add: assms(9))
  have others: "\<forall>s \<in> set (raffles db). s \<noteq> r \<longrightarrow> \<not> close_due ?now s"
    using assms(5) by blast
  have q: "no_job ?x ''raffle.close'' (r_id r) (jobs db)" "jobs_ok (jobs db)" "\<forall>j \<in> set (jobs db). settled_job j"
    "no_job ?x ''raffle.draw'' (r_id r) (jobs db)" "no_job ?x ''payout.execute'' (r_id r) (jobs db)"
    "no_job ?x ''proof.generate'' (r_id r) (jobs db)"
    using assms(6) by (simp_all add: idle_queue_def)
  show sched: "schedule_due_closes ?x ?ids ?now db = Ok (1, ?db)"
    unfolding scheduled_db_def using ok assms(3,4) others q(1) fresh by (rule schedule_one)
  have step: "db_run env db ?db"
    using sched by (intro db_run_step) (rule db_step.schedule_due_closes)
  have "used_ids ?db \<subseteq> used_ids db \<union> ?ids ` {..<10}"
    using new_ids [of 0 ?ids] new_ids [of 1 ?ids] by (auto simp: used_ids_def scheduled_db_def)
  then have "fresh_from env (Suc n) ?db"
    by (rule fresh_from_step [OF assms(7,8) order_refl order_refl assms(9)])
  moreover have "never_due env ?db"
    unfolding never_due_def
  proof (intro ballI allI)
    fix s k
    assume "s \<in> set (raffles ?db)"
    then consider "r_status s = Closing" | "s \<in> set (raffles db)" "\<not> close_due ?now s"
      by (auto simp: scheduled_db_def set_set_where set_status_def)
    then show "\<not> close_due (we_now env k) s"
      using assms(4,5) by cases (auto simp: close_due_def)
  qed
  moreover have "jobs_ok (jobs ?db)"
    using q(2,1) fresh_callD(1) [OF fresh, of 0] unfolding scheduled_db_def by (simp add: jobs_ok_append)
  ultimately show "stage env (r_id r) ''raffle.close'' [''raffle.draw'', ''payout.execute'', ''proof.generate''] n ?db"
    unfolding stage_def using db_run_ok [OF assms(1) step assms(2)] q(3-6)
    by (intro conjI exI [of _ "jobs db"] exI [of _ "?ids 0"] exI [of _ ?now]) (simp_all add: scheduled_db_def)
  have "set_status ?now Closing r \<in> set (raffles ?db)"
    using assms(3,4) by (auto simp: scheduled_db_def set_set_where)
  then show "carried r Closing db ?db"
    unfolding carried_def by (intro conjI bexI [of _ "set_status ?now Closing r"]) (simp_all add: scheduled_db_def, simp_all add: set_status_def)
qed

lemma close_turn:
  assumes "undisturbed env" and "env_ok env" and "mono (we_now env)" and "x_uuid_parse (we_x env) (x_uuid_text (we_x env) (r_id r)) = Some (r_id r)"
    and "db_ok (we_x env) (wd_db w)" and "r \<in> set (raffles (wd_db w))" and "close_due (we_now env (wd_calls w)) r"
    and "\<forall>s \<in> set (raffles (wd_db w)). s \<noteq> r \<longrightarrow> (\<forall>k. \<not> close_due (we_now env k) s)" and "idle_queue (we_x env) (r_id r) (wd_db w)"
    and "fresh_from env (wd_calls w) (wd_db w)" and "distinct_calls env (wd_calls w) m" and "wd_calls w + 4 < m"
    and "r_total_tickets r \<noteq> 0" and "pending_invoices (r_id r) (wd_db w) = 0"
  obtains w' where "run_turn fuel env services worker_id w = Some (Finished, w')"
    and "stage env (r_id r) ''raffle.draw'' [''payout.execute'', ''proof.generate''] (wd_calls w') (wd_db w')"
    and "carried r RandomnessPending (wd_db w) (wd_db w')" and "bitcoin_blocks (wd_db w') = bitcoin_blocks (wd_db w)"
    and "draws (wd_db w') = draws (wd_db w)" and "proofs (wd_db w') = proofs (wd_db w)"
    and "wd_paid w' = wd_paid w" and "wd_calls w' = wd_calls w + 5"
proof -
  let ?x = "we_x env" and ?n = "wd_calls w"
  let ?db = "scheduled_db env ?n (r_id r) (wd_db w)"
  have "?n < m"
    using assms(12) by simp
  note sched = due_raffle_scheduled [OF assms(2,5-11) this]
  have kinds: "''raffle.close'' \<notin> set [''raffle.draw'', ''payout.execute'', ''proof.generate'']"
    by simp
  obtain job v where cl: "claims_raffle env ''raffle.close'' (r_id r) job"
    and wk: "working env (r_id r) [''raffle.draw'', ''payout.execute'', ''proof.generate''] ?db w v"
    and fin: "\<And>w3 uid t kind' later'. reconcile_payment fuel env services worker_id job v = Some (Ok (), w3) \<Longrightarrow>
      [''raffle.draw'', ''payout.execute'', ''proof.generate''] = kind' # later' \<Longrightarrow>
      jobs (wd_db w3) = jobs (wd_db v) @ [pipeline_job ?x uid t kind' (r_id r)] \<Longrightarrow> uid \<notin> used_ids (wd_db v) \<Longrightarrow>
      kind' \<notin> set later' \<Longrightarrow> t \<le> we_now env (wd_calls w3) \<Longrightarrow> db_ok ?x (wd_db w3) \<Longrightarrow>
      fresh_from env (wd_calls w3) (wd_db w3) \<Longrightarrow> never_due env (wd_db w3) \<Longrightarrow>
      \<exists>w4. run_turn fuel env services worker_id w = Some (Finished, w4) \<and> marked w3 w4 \<and>
        stage env (r_id r) kind' later' (wd_calls w4) (wd_db w4)"
    using assms(1,3,4) sched(1,2) kinds
    by (rule stage_turn [where fuel = fuel and services = services and worker_id = worker_id]) (rule that; assumption)
  obtain js where v: "wd_db v = ?db\<lparr>jobs := js\<rparr>" "wd_calls v = Suc (Suc ?n)" "wd_paid v = wd_paid w" "db_ok ?x (wd_db v)"
    "fresh_from env (wd_calls v) (wd_db v)" "no_job ?x ''raffle.draw'' (r_id r) (jobs (wd_db v))" "never_due env (wd_db v)"
    using wk unfolding working_def by auto
  have car: "carried r Closing (wd_db w) (wd_db v)"
    using sched(3) by (simp add: v(1))
  then obtain s where s: "s \<in> set (raffles (wd_db v))" "r_status s = Closing" "r_id s = r_id r" "r_total_tickets s = r_total_tickets r"
    unfolding carried_def by blast
  let ?k = "Suc (wd_calls v)"
  have k: "wd_calls v \<le> ?k" "?n \<le> ?k" "?k < m"
    using assms(12) by (simp_all add: v(2))
  note fresh = fresh_call_at [OF v(5) assms(11) k]
  have pending: "pending_invoices (r_id s) (wd_db v) = 0"
    using assms(14) by (simp add: v(1) s(3) pending_invoices_def scheduled_db_def)
  have ready: "r_total_tickets s \<noteq> 0" "no_job ?x ''raffle.draw'' (r_id s) (jobs (wd_db v))" "claims_raffle env ''raffle.close'' (r_id s) job"
    using assms(13) s(3,4) v(6) cl by simp_all
  have quiet: "quiet env"
    using assms(1) by (simp add: undisturbed_def)
  obtain root pl where h: "raffle_close env job v = (Ok (), v\<lparr>wd_db := frozen_db ?x (we_ids env ?k) (we_now env ?k) (r_id s) root pl (wd_db v),
      wd_calls := Suc ?k\<rparr>)"
    by (rule raffle_close_succeeds [OF quiet ready(3) v(4) s(1,2) ready(1) pending ready(2) fresh])
  let ?w3 = "v\<lparr>wd_db := frozen_db ?x (we_ids env ?k) (we_now env ?k) (r_id s) root pl (wd_db v), wd_calls := Suc ?k\<rparr>"
  have rec: "reconcile_payment fuel env services worker_id job v = Some (Ok (), ?w3)"
    using cl h by (simp add: reconcile_payment_def claims_raffle_def)
  have "\<exists>w4. run_turn fuel env services worker_id w = Some (Finished, w4) \<and> marked ?w3 w4 \<and>
      stage env (r_id r) ''raffle.draw'' [''payout.execute'', ''proof.generate''] (wd_calls w4) (wd_db w4)"
  proof (rule fin [OF rec refl])
    show "jobs (wd_db ?w3) = jobs (wd_db v) @ [pipeline_job ?x (we_ids env ?k 2) (we_now env ?k) ''raffle.draw'' (r_id r)]"
      by (simp add: frozen_db_def s(3))
    show "we_ids env ?k 2 \<notin> used_ids (wd_db v)"
      using fresh by (simp add: fresh_call_def)
    show "we_now env ?k \<le> we_now env (wd_calls ?w3)"
      using monoD [OF assms(3), of ?k "Suc ?k"] by simp
    show "db_ok ?x (wd_db ?w3)"
      using db_run_ok [OF assms(2) runsD [OF runs_raffle_close [OF assms(2)] v(4) h] v(4)] .
    show "fresh_from env (wd_calls ?w3) (wd_db ?w3)"
      using fresh_from_step [OF v(5) assms(11) k used_ids_frozen] by simp
    show "never_due env (wd_db ?w3)"
      by (rule never_due_set [OF v(7), where P = "\<lambda>q. r_id q = r_id s" and f = "freeze_row (we_now env ?k) RandomnessPending root"])
        (simp add: frozen_db_def, simp add: freeze_row_def)
  qed simp
  then obtain w4 where w4: "run_turn fuel env services worker_id w = Some (Finished, w4)" "marked ?w3 w4"
    "stage env (r_id r) ''raffle.draw'' [''payout.execute'', ''proof.generate''] (wd_calls w4) (wd_db w4)"
    by blast
  have "carried r RandomnessPending (wd_db w) (wd_db ?w3)"
    using car by (rule carried_set [where P = "\<lambda>q. r_id q = r_id s" and f = "freeze_row (we_now env ?k) RandomnessPending root"])
      (simp_all add: frozen_db_def s(3), simp_all add: freeze_row_def)
  then show thesis
    using w4(2) v by (intro that [OF w4(1,3)]) (auto simp: marked_def frozen_db_def scheduled_db_def)
qed

section \<open>The turn that draws\<close>

lemma stage_schedule:
  assumes "stage env rid kind later n db"
  shows "schedule_due_closes (we_x env) ids (we_now env n) db = Ok (0, db)"
  by (rule schedule_none) (use assms in \<open>auto simp: stage_def never_due_def db_ok_def\<close>)

lemma distinct_calls_from: "distinct_calls env n m \<Longrightarrow> n \<le> n' \<Longrightarrow> distinct_calls env n' m"
  by (simp add: distinct_calls_def)

lemma draw_turn:
  assumes "undisturbed env" and "env_ok env" and "mono (we_now env)" and "x_uuid_parse (we_x env) (x_uuid_text (we_x env) (r_id r)) = Some (r_id r)"
    and "stage env (r_id r) ''raffle.draw'' [''payout.execute'', ''proof.generate''] (wd_calls w) (wd_db w)"
    and "carried r RandomnessPending db0 (wd_db w)"
    and "ws_bitcoin services = Some source" and "bitcoin_chain source chain tip" and "closes_at chain (r_end_time r) tip c"
    and "uint c + r_randomness_delay_blocks r < uint tip" and "blocks_agree chain tip (wd_db w)"
    and "\<forall>d \<in> set (draws (wd_db w)). d_raffle_id d \<noteq> r_id r"
    and "distinct_calls env n m" and "n \<le> wd_calls w" and "wd_calls w + unat tip + 12 \<le> m"
  obtains w' d k amounts where "run_turn fuel env services worker_id w = Some (Finished, w')"
    and "stage env (r_id r) ''payout.execute'' [''proof.generate''] (wd_calls w') (wd_db w')"
    and "carried r PayoutPending db0 (wd_db w')" and "draws (wd_db w') = draws (wd_db w) @ [d]" and "d_raffle_id d = r_id r"
    and "d_randomness_block_hash d = as_bytes (bk_hash (chain (c + of_int (r_randomness_delay_blocks r))))"
    and "\<exists>e \<in> set (entries db0). e_raffle_id e = r_id r \<and> e_id e = d_winner_entry_id d \<and>
       e_ticket_start e \<le> d_winning_ticket d \<and> d_winning_ticket d < e_ticket_end e"
    and "payouts (wd_db w') = payouts (wd_db w) @ drawn_payouts (we_x env) (we_ids env k) (we_now env k) (r_id r) amounts"
    and "proofs (wd_db w') = proofs (wd_db w)" and "wd_paid w' = wd_paid w"
    and "wd_calls w \<le> wd_calls w'" and "wd_calls w' \<le> wd_calls w + unat tip + 13"
proof -
  let ?x = "we_x env"
  have kinds: "''raffle.draw'' \<notin> set [''payout.execute'', ''proof.generate'']"
    by simp
  note sched = stage_schedule [OF assms(5), of "we_ids env (wd_calls w)"]
  obtain job v where cl: "claims_raffle env ''raffle.draw'' (r_id r) job"
    and wk: "working env (r_id r) [''payout.execute'', ''proof.generate''] (wd_db w) w v"
    and fin: "\<And>w3 uid t kind' later'. reconcile_payment fuel env services worker_id job v = Some (Ok (), w3) \<Longrightarrow>
      [''payout.execute'', ''proof.generate''] = kind' # later' \<Longrightarrow>
      jobs (wd_db w3) = jobs (wd_db v) @ [pipeline_job ?x uid t kind' (r_id r)] \<Longrightarrow> uid \<notin> used_ids (wd_db v) \<Longrightarrow>
      kind' \<notin> set later' \<Longrightarrow> t \<le> we_now env (wd_calls w3) \<Longrightarrow> db_ok ?x (wd_db w3) \<Longrightarrow>
      fresh_from env (wd_calls w3) (wd_db w3) \<Longrightarrow> never_due env (wd_db w3) \<Longrightarrow>
      \<exists>w4. run_turn fuel env services worker_id w = Some (Finished, w4) \<and> marked w3 w4 \<and>
        stage env (r_id r) kind' later' (wd_calls w4) (wd_db w4)"
    using assms(1,3,4) sched assms(5) kinds
    by (rule stage_turn [where fuel = fuel and services = services and worker_id = worker_id]) (rule that; assumption)
  obtain js where v: "wd_db v = (wd_db w)\<lparr>jobs := js\<rparr>" "wd_calls v = Suc (Suc (wd_calls w))" "wd_paid v = wd_paid w" "db_ok ?x (wd_db v)"
    "fresh_from env (wd_calls v) (wd_db v)" "no_job ?x ''payout.execute'' (r_id r) (jobs (wd_db v))" "never_due env (wd_db v)"
    using wk unfolding working_def by auto
  have car: "carried r RandomnessPending db0 (wd_db v)"
    using assms(6) by (simp add: v(1))
  then obtain s where s: "s \<in> set (raffles (wd_db v))" "r_status s = RandomnessPending" "r_id s = r_id r" "r_end_time s = r_end_time r"
      "r_randomness_delay_blocks s = r_randomness_delay_blocks r" and ent: "entries (wd_db v) = entries db0"
    unfolding carried_def by blast
  have quiet: "quiet env"
    using assms(1) by (simp add: undisturbed_def)
  have pre: "claims_raffle env ''raffle.draw'' (r_id s) job" "closes_at chain (r_end_time s) tip c"
    "uint c + r_randomness_delay_blocks s < uint tip" "blocks_agree chain tip (wd_db v)"
    "\<forall>d \<in> set (draws (wd_db v)). d_raffle_id d \<noteq> r_id s" "no_job ?x ''payout.execute'' (r_id s) (jobs (wd_db v))"
    using cl assms(9-12) v(6) s(3-5) by (simp_all add: v(1) blocks_agree_def)
  have m: "distinct_calls env (wd_calls v) m" "wd_calls v + unat tip + 10 \<le> m"
    using distinct_calls_from [OF assms(13), of "wd_calls v"] assms(14,15) by (simp_all add: v(2))
  obtain k t root and rh :: u64 and rand and result :: DrawResult and amounts pl where
    h: "raffle_draw env services job v = (Ok (), v\<lparr>wd_db := drawn_db ?x (we_ids env k) (we_now env k) (r_id s)
        (drawn_row (we_now env k) (uint c) (bk_hash (chain c)) (uint rh) rand)
        (draw_row_of (we_ids env k 0) (we_now env k) (r_id s) root rand (uint (dr_winning_ticket result)) (dr_winner_entry_id result))
        amounts pl ((wd_db v)\<lparr>bitcoin_blocks := t\<rparr>), wd_calls := Suc k\<rparr>)"
    and rand: "rand = bk_hash (chain (c + of_int (r_randomness_delay_blocks s)))"
    and k: "wd_calls v \<le> k" "k < wd_calls v + unat tip + 10"
    and win: "\<exists>e \<in> set (entries (wd_db v)). e_raffle_id e = r_id s \<and> e_id e = dr_winner_entry_id result \<and>
       e_ticket_start e \<le> uint (dr_winning_ticket result) \<and> uint (dr_winning_ticket result) < e_ticket_end e"
    by (rule raffle_draw_succeeds [OF quiet assms(2) pre(1) assms(7,8) pre(2-4) v(4) s(1,2) pre(5,6) v(5) m])
  let ?f = "drawn_row (we_now env k) (uint c) (bk_hash (chain c)) (uint rh) rand"
  let ?d = "draw_row_of (we_ids env k 0) (we_now env k) (r_id s) root rand (uint (dr_winning_ticket result)) (dr_winner_entry_id result)"
  let ?db3 = "drawn_db ?x (we_ids env k) (we_now env k) (r_id s) ?f ?d amounts pl ((wd_db v)\<lparr>bitcoin_blocks := t\<rparr>)"
  let ?w3 = "v\<lparr>wd_db := ?db3, wd_calls := Suc k\<rparr>"
  have rec: "reconcile_payment fuel env services worker_id job v = Some (Ok (), ?w3)"
    using cl h by (simp add: reconcile_payment_def claims_raffle_def)
  have km: "k < m"
    using k(2) m(2) by simp
  have src: "\<forall>source. ws_bitcoin services = Some source \<longrightarrow> source_ok source"
    using assms(7) chain_source_ok [OF assms(8)] by simp
  have "\<exists>w4. run_turn fuel env services worker_id w = Some (Finished, w4) \<and> marked ?w3 w4 \<and>
      stage env (r_id r) ''payout.execute'' [''proof.generate''] (wd_calls w4) (wd_db w4)"
  proof (rule fin [OF rec refl])
    show "jobs (wd_db ?w3) = jobs (wd_db v) @ [pipeline_job ?x (we_ids env k 4) (we_now env k) ''payout.execute'' (r_id r)]"
      by (simp add: drawn_db_def s(3))
    show "we_ids env k 4 \<notin> used_ids (wd_db v)"
      using v(5) k(1) by (simp add: fresh_from_def)
    show "we_now env k \<le> we_now env (wd_calls ?w3)"
      using monoD [OF assms(3), of k "Suc k"] by simp
    show "db_ok ?x (wd_db ?w3)"
      using db_run_ok [OF assms(2) runsD [OF runs_raffle_draw [OF assms(2) src] v(4) h] v(4)] .
    have "used_ids ?db3 \<subseteq> used_ids (wd_db v) \<union> we_ids env k ` {..<10}"
      using used_ids_drawn [of ?d "we_ids env k" ?x "we_now env k" "r_id s" ?f amounts pl "(wd_db v)\<lparr>bitcoin_blocks := t\<rparr>"]
      by (simp add: draw_row_of_def)
    then show "fresh_from env (wd_calls ?w3) (wd_db ?w3)"
      using fresh_from_step [OF v(5) m(1) k(1,1) km] by simp
    show "never_due env (wd_db ?w3)"
      by (rule never_due_set [OF v(7), where P = "\<lambda>q. r_id q = r_id s" and f = ?f])
        (simp add: drawn_db_def, simp add: drawn_row_def)
  qed simp
  then obtain w4 where w4: "run_turn fuel env services worker_id w = Some (Finished, w4)" "marked ?w3 w4"
    "stage env (r_id r) ''payout.execute'' [''proof.generate''] (wd_calls w4) (wd_db w4)"
    by blast
  have "carried r PayoutPending db0 (wd_db ?w3)"
    using car by (rule carried_set [where P = "\<lambda>q. r_id q = r_id s" and f = ?f])
      (simp_all add: drawn_db_def s(3), simp_all add: drawn_row_def)
  moreover obtain js' where w4': "wd_db w4 = ?db3\<lparr>jobs := js'\<rparr>" "wd_calls w4 = Suc (Suc k)" "wd_paid w4 = wd_paid w"
    using w4(2) v(3) by (auto simp: marked_def)
  ultimately have car4: "carried r PayoutPending db0 (wd_db w4)"
    by simp
  show thesis
    by (rule that [OF w4(1,3) car4, of ?d k amounts])
      (use win rand k in \<open>simp_all add: w4' drawn_db_def v s(3,5) [symmetric] ent [symmetric] draw_row_of_def\<close>)
qed

section \<open>The turn that pays\<close>

text \<open>An address for which every positive amount resolves to an invoice that the provider pays.\<close>

definition reachable_address :: "WorkerServices \<Rightarrow> LightningAddressResolver \<Rightarrow> string \<Rightarrow> bool" where
  "reachable_address services resolve a \<longleftrightarrow> (\<forall>k amount. 0 < amount \<longrightarrow> amount < 2 ^ 63 \<longrightarrow>
     (\<exists>invoice. resolve k a (Sats (of_int amount)) = Ok invoice \<and> ri_amount_sats invoice = Sats (of_int amount) \<and>
        (\<forall>j req. prq_bolt11 req = ri_bolt11 invoice \<longrightarrow> prq_amount_sats req = Sats (of_int amount) \<longrightarrow>
           (\<exists>attempt. pv_pay_invoice (ws_provider services) j req = Ok attempt))))"

definition reachable_ciphertext :: "WorkerServices \<Rightarrow> LightningAddressResolver \<Rightarrow> bytes \<Rightarrow> bool" where
  "reachable_ciphertext services resolve c \<longleftrightarrow> (\<exists>a. ws_decrypt services c = Ok a \<and> reachable_address services resolve a)"

text \<open>Whoever wins, the winner, the organizer and the platform can be paid.\<close>

definition recipients_reachable :: "WorkerServices \<Rightarrow> LightningAddressResolver \<Rightarrow> raffle_row \<Rightarrow> db \<Rightarrow> bool" where
  "recipients_reachable services resolve r db \<longleftrightarrow>
     (\<exists>a. ws_platform_address services = Some a \<and> reachable_address services resolve a) \<and>
     (\<exists>org \<in> set (organizers db). o_id org = r_organizer_id r) \<and>
     (\<forall>org \<in> set (organizers db). o_id org = r_organizer_id r \<longrightarrow>
        reachable_ciphertext services resolve (o_lightning_address_ciphertext org)) \<and>
     (\<forall>e \<in> set (entries db). e_raffle_id e = r_id r \<longrightarrow>
        (\<exists>i \<in> set (invoices db). i_id i = e_invoice_id e) \<and>
        (\<forall>i \<in> set (invoices db). i_id i = e_invoice_id e \<longrightarrow>
           (\<exists>c. i_payout_address_ciphertext i = Some c \<and> reachable_ciphertext services resolve c)))"

lemma first_of_all:
  assumes "cs \<noteq> []" and "\<forall>c \<in> set cs. \<exists>b. c = Some b \<and> P b"
  obtains b where "first_ciphertext cs = Ok (Some b)" and "P b"
  using assms by (cases cs) (auto simp: first_ciphertext_def)

lemma winner_ciphertexts_drawn:
  assumes "draws db = ds @ [d]" and "\<forall>d \<in> set ds. d_raffle_id d \<noteq> rid" and "d_raffle_id d = rid"
  shows "set (winner_ciphertexts rid db) = (\<Union>e \<in> {e \<in> set (entries db). e_id e = d_winner_entry_id d}.
    i_payout_address_ciphertext ` {i \<in> set (invoices db). i_id i = e_invoice_id e})"
proof -
  have "set (winner_ciphertexts rid db) = (\<Union>d \<in> {d \<in> set (draws db). d_raffle_id d = rid}.
    \<Union>e \<in> {e \<in> set (entries db). e_id e = d_winner_entry_id d}. i_payout_address_ciphertext ` {i \<in> set (invoices db). i_id i = e_invoice_id e})"
    unfolding winner_ciphertexts_def by auto
  moreover have "{d \<in> set (draws db). d_raffle_id d = rid} = {d}"
    using assms by auto
  ultimately show ?thesis
    by simp
qed

lemma organizer_ciphertexts_of:
  assumes "{s \<in> set (raffles db). r_id s = rid} = {s}"
  shows "set (organizer_ciphertexts rid db) =
    (\<lambda>org. Some (o_lightning_address_ciphertext org)) ` {org \<in> set (organizers db). o_id org = r_organizer_id s}"
proof -
  have "set (organizer_ciphertexts rid db) = (\<Union>s \<in> {s \<in> set (raffles db). r_id s = rid}.
    (\<lambda>org. Some (o_lightning_address_ciphertext org)) ` {org \<in> set (organizers db). o_id org = r_organizer_id s})"
    unfolding organizer_ciphertexts_def by auto
  then show ?thesis
    by (simp add: assms)
qed

text \<open>The payouts of a draw are payable.\<close>

lemma drawn_payable:
  assumes "recipients_reachable services resolve r db0" and "store_ok x db" and "carried r st db0 db"
    and "draws db = ds @ [d]" and "\<forall>d \<in> set ds. d_raffle_id d \<noteq> r_id r"
    and "\<exists>e \<in> set (entries db0). e_raffle_id e = r_id r \<and> e_id e = d_winner_entry_id d"
    and "d_raffle_id d = r_id r" and "p_raffle_id p = r_id r" and "p_recipient_type p \<in> {RWinner, ROrganizer, RPlatform}" and "payout_check p"
  shows "payable services resolve db p"
proof -
  have tabs: "entries db0 = entries db" "invoices db0 = invoices db" "organizers db0 = organizers db"
    using assms(3) by (simp_all add: carried_def)
  note rr = assms(1) [unfolded recipients_reachable_def tabs]
  obtain s where s: "s \<in> set (raffles db)" "r_id s = r_id r" "r_organizer_id s = r_organizer_id r"
    using assms(3) unfolding carried_def by blast
  have own: "q = s" if "q \<in> set (raffles db)" "r_id q = r_id r" for q
    using raffle_row_unique [OF assms(2) that(1) s(1)] that(2) s(2) by simp
  obtain e where e: "e \<in> set (entries db)" "e_raffle_id e = r_id r" "e_id e = d_winner_entry_id d"
    using assms(6) by (auto simp: tabs)
  have won: "f = e" if "f \<in> set (entries db)" "e_id f = d_winner_entry_id d" for f
    using entries_tbl.row_unique [OF store_okD(3) [OF assms(2)] that(1) e(1)] that(2) e(3) by (simp add: entry_conflict_def)
  have "\<exists>a. known_address services db (claimed_of p) a \<and> reachable_address services resolve a"
  proof (cases "p_recipient_type p")
    case RWinner
    have "{f \<in> set (entries db). e_id f = d_winner_entry_id d} = {e}"
      using e won by blast
    then have set: "set (winner_ciphertexts (r_id r) db) = i_payout_address_ciphertext ` {i \<in> set (invoices db). i_id i = e_invoice_id e}"
      unfolding winner_ciphertexts_drawn [OF assms(4,5,7)] by simp
    have known: "\<exists>i \<in> set (invoices db). i_id i = e_invoice_id e"
      "\<forall>i \<in> set (invoices db). i_id i = e_invoice_id e \<longrightarrow> (\<exists>b. i_payout_address_ciphertext i = Some b \<and> reachable_ciphertext services resolve b)"
      using rr e(1,2) by blast+
    have "set (winner_ciphertexts (r_id r) db) \<noteq> {}"
      unfolding set using known(1) by blast
    then have some: "winner_ciphertexts (r_id r) db \<noteq> []"
      by (metis set_empty)
    have all: "\<forall>c \<in> set (winner_ciphertexts (r_id r) db). \<exists>b. c = Some b \<and> reachable_ciphertext services resolve b"
      unfolding set using known(2) by auto
    obtain b where "first_ciphertext (winner_ciphertexts (r_id r) db) = Ok (Some b)" "reachable_ciphertext services resolve b"
      using some all by (rule first_of_all)
    then show ?thesis
      using RWinner by (auto simp: known_address_def payout_recipient_ciphertext_def claimed_of_def assms(8) reachable_ciphertext_def)
  next
    case ROrganizer
    have "{q \<in> set (raffles db). r_id q = r_id r} = {s}"
      using s own by blast
    note set = organizer_ciphertexts_of [OF this, unfolded s(3)]
    have known: "\<exists>org \<in> set (organizers db). o_id org = r_organizer_id r"
      "\<forall>org \<in> set (organizers db). o_id org = r_organizer_id r \<longrightarrow> reachable_ciphertext services resolve (o_lightning_address_ciphertext org)"
      using rr by blast+
    have "set (organizer_ciphertexts (r_id r) db) \<noteq> {}"
      unfolding set using known(1) by blast
    then have some: "organizer_ciphertexts (r_id r) db \<noteq> []"
      by (metis set_empty)
    have all: "\<forall>c \<in> set (organizer_ciphertexts (r_id r) db). \<exists>b. c = Some b \<and> reachable_ciphertext services resolve b"
      unfolding set using known(2) by auto
    obtain b where "first_ciphertext (organizer_ciphertexts (r_id r) db) = Ok (Some b)" "reachable_ciphertext services resolve b"
      using some all by (rule first_of_all)
    then show ?thesis
      using ROrganizer by (auto simp: known_address_def payout_recipient_ciphertext_def claimed_of_def assms(8) reachable_ciphertext_def)
  qed (use rr assms(9) in \<open>auto simp: known_address_def claimed_of_def\<close>)
  moreover have "0 < p_amount_sats p" "p_amount_sats p < 2 ^ 63"
    using assms(10) by (simp_all add: payout_check_def bigint_def)
  ultimately show ?thesis
    by (fastforce simp: payable_def reachable_address_def payout_request_def claimed_of_def)
qed

text \<open>So a raffle that was just drawn is ready for the payout job.\<close>

lemma drawn_unsettled:
  assumes "payouts db = ps @ drawn_payouts x ids now rid amounts" and "\<forall>p \<in> set ps. p_raffle_id p \<noteq> rid"
  shows "unsettled rid db = drawn_payouts x ids now rid amounts" and "payouts_of rid (payouts db) = drawn_payouts x ids now rid amounts"
  using assms drawn_payouts_rows(1,2) [of _ x ids now rid amounts]
  by (auto simp: unsettled_def payouts_of_def filter_empty_conv filter_id_conv)

lemma drawn_ready:
  assumes "recipients_reachable services resolve r db0" and "db_ok (we_x env) db" and "carried r PayoutPending db0 db"
    and "draws db = ds @ [d]" and "\<forall>d \<in> set ds. d_raffle_id d \<noteq> r_id r" and "d_raffle_id d = r_id r"
    and "\<exists>e \<in> set (entries db0). e_raffle_id e = r_id r \<and> e_id e = d_winner_entry_id d"
    and "payouts db = ps @ drawn_payouts x ids now (r_id r) amounts" and "\<forall>p \<in> set ps. p_raffle_id p \<noteq> r_id r"
    and "0 < r_total_pool_sats r" and "fresh_from env n db"
  shows "ready env services resolve (r_id r) n db"
proof -
  note uns = drawn_unsettled [OF assms(8,9)]
  have ok: "store_ok (we_x env) db" "payouts_ok (we_x env) db"
    using assms(2) by (simp_all add: db_ok_def)
  obtain s where s: "s \<in> set (raffles db)" "r_status s = PayoutPending" "r_id s = r_id r" "r_total_pool_sats s = r_total_pool_sats r"
    using assms(3) unfolding carried_def by blast
  then have "s \<in> drawn_raffles db"
    by (simp add: drawn_raffles_def drawn_status_def)
  then have "payouts_total (r_id r) (payouts db) = r_total_pool_sats r"
    using ok(2) s(3,4) by (fastforce simp: payouts_ok_def)
  then have some: "drawn_payouts x ids now (r_id r) amounts \<noteq> []"
    using assms(10) by (auto simp: payouts_total_def uns(2))
  have "p_status p \<in> {PayPending, PayFailed} \<and> payable services resolve db p" if p: "p \<in> set (drawn_payouts x ids now (r_id r) amounts)" for p
  proof -
    have "payout_check p"
      using ok(2) p assms(8) by (simp add: payouts_ok_def table_ok_def)
    then show ?thesis
      using drawn_payable [OF assms(1) ok(1) assms(3,4,5,7,6) drawn_payouts_rows(1,3) [OF p]] drawn_payouts_rows(2) [OF p] by simp
  qed
  moreover have "fresh_ids env n db"
    using assms(11) by (rule fresh_from_ids)
  ultimately show ?thesis
    unfolding ready_def uns(1) using assms(2) some s(1-3) by blast
qed

lemma same_payouts:
  assumes "map payout_identity ps = map payout_identity qs"
  shows "p_id ` set ps = p_id ` set qs" and "p_id ` set (payouts_of rid ps) = p_id ` set (payouts_of rid qs)"
proof -
  have image: "p_id ` set ps = fst ` set (map payout_identity ps)"
      "p_id ` set (payouts_of rid ps) = fst ` {i \<in> set (map payout_identity ps). fst (snd i) = rid}" for ps
    by (force simp: payout_identity_def payouts_of_def)+
  show "p_id ` set ps = p_id ` set qs"
    by (simp only: image(1) assms)
  show "p_id ` set (payouts_of rid ps) = p_id ` set (payouts_of rid qs)"
    by (simp only: image(2) assms)
qed

lemma payout_turn:
  assumes "undisturbed env" and "env_ok env" and "mono (we_now env)" and "x_uuid_parse (we_x env) (x_uuid_text (we_x env) (r_id r)) = Some (r_id r)"
    and "stage env (r_id r) ''payout.execute'' [''proof.generate''] (wd_calls w) (wd_db w)" and "carried r PayoutPending db0 (wd_db w)"
    and "ws_resolver services = Some resolve" and "recipients_reachable services resolve r db0"
    and "draws (wd_db w) = ds @ [d]" and "\<forall>d \<in> set ds. d_raffle_id d \<noteq> r_id r" and "d_raffle_id d = r_id r"
    and "\<exists>e \<in> set (entries db0). e_raffle_id e = r_id r \<and> e_id e = d_winner_entry_id d"
    and "payouts (wd_db w) = ps @ drawn_payouts x ids now (r_id r) amounts" and "\<forall>p \<in> set ps. p_raffle_id p \<noteq> r_id r"
    and "0 < r_total_pool_sats r" and "3 < fuel"
    and "distinct_calls env n m" and "n \<le> wd_calls w" and "wd_calls w + 18 \<le> m"
  obtains w' reqs where "run_turn fuel env services worker_id w = Some (Finished, w')"
    and "stage env (r_id r) ''proof.generate'' [] (wd_calls w') (wd_db w')" and "carried r PaidOut db0 (wd_db w')"
    and "draws (wd_db w') = draws (wd_db w)" and "proofs (wd_db w') = proofs (wd_db w)"
    and "wd_paid w' = wd_paid w @ reqs" and "distinct (map prq_payout_id reqs)"
    and "set (map prq_payout_id reqs) = p_id ` set (payouts_of (r_id r) (payouts (wd_db w')))"
    and "wd_calls w \<le> wd_calls w'" and "wd_calls w' \<le> wd_calls w + 19"
proof -
  let ?x = "we_x env"
  have kinds: "''payout.execute'' \<notin> set [''proof.generate'']"
    by simp
  note sched = stage_schedule [OF assms(5), of "we_ids env (wd_calls w)"]
  obtain job v where cl: "claims_raffle env ''payout.execute'' (r_id r) job"
    and wk: "working env (r_id r) [''proof.generate''] (wd_db w) w v"
    and fin: "\<And>w3 uid t kind' later'. reconcile_payment fuel env services worker_id job v = Some (Ok (), w3) \<Longrightarrow>
      [''proof.generate''] = kind' # later' \<Longrightarrow>
      jobs (wd_db w3) = jobs (wd_db v) @ [pipeline_job ?x uid t kind' (r_id r)] \<Longrightarrow> uid \<notin> used_ids (wd_db v) \<Longrightarrow>
      kind' \<notin> set later' \<Longrightarrow> t \<le> we_now env (wd_calls w3) \<Longrightarrow> db_ok ?x (wd_db w3) \<Longrightarrow>
      fresh_from env (wd_calls w3) (wd_db w3) \<Longrightarrow> never_due env (wd_db w3) \<Longrightarrow>
      \<exists>w4. run_turn fuel env services worker_id w = Some (Finished, w4) \<and> marked w3 w4 \<and>
        stage env (r_id r) kind' later' (wd_calls w4) (wd_db w4)"
    using assms(1,3,4) sched assms(5) kinds
    by (rule stage_turn [where fuel = fuel and services = services and worker_id = worker_id]) (rule that; assumption)
  obtain js where v: "wd_db v = (wd_db w)\<lparr>jobs := js\<rparr>" "wd_calls v = Suc (Suc (wd_calls w))" "wd_paid v = wd_paid w" "db_ok ?x (wd_db v)"
    "fresh_from env (wd_calls v) (wd_db v)" "no_job ?x ''proof.generate'' (r_id r) (jobs (wd_db v))" "never_due env (wd_db v)"
    using wk unfolding working_def by auto
  have car: "carried r PayoutPending db0 (wd_db v)"
    using assms(6) by (simp add: v(1))
  have quiet: "quiet env"
    using assms(1) by (simp add: undisturbed_def)
  have dr: "draws (wd_db v) = ds @ [d]" "payouts (wd_db v) = ps @ drawn_payouts x ids now (r_id r) amounts"
    using assms(9,13) by (simp_all add: v(1))
  have rdy: "ready env services resolve (r_id r) (wd_calls v) (wd_db v)"
    by (rule drawn_ready [OF assms(8) v(4) car dr(1) assms(10-12) dr(2) assms(14,15) v(5)])
  have uns: "length (unsettled (r_id r) (wd_db v)) < fuel" "length (unsettled (r_id r) (wd_db v)) \<le> 3"
    using drawn_payouts_length [of x ids now "r_id r" amounts] assms(16) drawn_unsettled(1) [OF dr(2) assms(14)] by simp_all
  obtain u reqs where loop: "payout_loop fuel env services resolve worker_id (r_id r) v = Some (Ok (), u)"
    and made: "payouts_made env (r_id r) v reqs u"
    using payout_loop_completes [OF quiet assms(2) rdy uns(1)] by blast
  note made = made [unfolded payouts_made_def]
  obtain k qs where k: "wd_calls v \<le> k" "k < wd_calls u" and qs: "map payout_identity qs = map payout_identity (payouts (wd_db v))"
    and ins: "insert_job (we_ids env k 0) (we_now env k) ''proof.generate'' (x_uuid_text ?x (r_id r))
          (JObj [(''raffle_id'', JStr (x_uuid_text ?x (r_id r)))])
          ((wd_db v)\<lparr>payouts := qs, raffles := set_where (\<lambda>q. r_id q = r_id r \<and> r_status q = PayoutPending)
             (set_status (we_now env k) PaidOut) (raffles (wd_db v))\<rparr>) = Ok (wd_db u)"
    using made unfolding completed_def by blast
  have new: "we_ids env k 0 \<notin> used_ids (wd_db v)"
    using v(5) k(1) by (simp add: fresh_from_def)
  have u: "wd_db u = (wd_db v)\<lparr>payouts := qs, raffles := set_where (\<lambda>q. r_id q = r_id r \<and> r_status q = PayoutPending)
      (set_status (we_now env k) PaidOut) (raffles (wd_db v)),
      jobs := jobs (wd_db v) @ [pipeline_job ?x (we_ids env k 0) (we_now env k) ''proof.generate'' (r_id r)]\<rparr>"
    using ins v(6) unused_job [OF new] by (subst (asm) insert_job_new) simp_all
  have rec: "reconcile_payment fuel env services worker_id job v = Some (Ok (), u)"
    using cl loop assms(7) by (simp add: reconcile_payment_def claims_raffle_def payout_execute_def bindW_def job_uuid_def liftE_def returnW_def)
  have calls: "wd_calls u \<le> wd_calls w + 18"
    using made uns(2) by (simp add: v(2))
  have m: "distinct_calls env (wd_calls v) m" "k < m"
    using distinct_calls_from [OF assms(17), of "wd_calls v"] assms(18,19) k(2) calls by (simp_all add: v(2))
  have "\<exists>w4. run_turn fuel env services worker_id w = Some (Finished, w4) \<and> marked u w4 \<and>
      stage env (r_id r) ''proof.generate'' [] (wd_calls w4) (wd_db w4)"
  proof (rule fin [OF rec refl _ new])
    show "jobs (wd_db u) = jobs (wd_db v) @ [pipeline_job ?x (we_ids env k 0) (we_now env k) ''proof.generate'' (r_id r)]"
      by (simp add: u)
    show "we_now env k \<le> we_now env (wd_calls u)"
      using monoD [OF assms(3), of k "wd_calls u"] k(2) by simp
    show "db_ok ?x (wd_db u)"
      using db_run_ok [OF assms(2) payout_loop_run [OF assms(2) v(4) loop] v(4)] .
    have "used_ids (wd_db u) \<subseteq> used_ids (wd_db v) \<union> we_ids env k ` {..<10}"
      using same_payouts(1) [OF qs] new_ids [of 0 "we_ids env k"] by (auto simp: used_ids_def u)
    then show "fresh_from env (wd_calls u) (wd_db u)"
      using fresh_from_later [OF fresh_from_step [OF v(5) m(1) k(1,1) m(2)], of "wd_db u" "wd_calls u" "wd_db u"] k(2) by simp
    show "never_due env (wd_db u)"
      by (rule never_due_set [OF v(7), where P = "\<lambda>q. r_id q = r_id r \<and> r_status q = PayoutPending" and f = "set_status (we_now env k) PaidOut"])
        (simp add: u, simp add: set_status_def)
  qed simp
  then obtain w4 where w4: "run_turn fuel env services worker_id w = Some (Finished, w4)" "marked u w4"
    "stage env (r_id r) ''proof.generate'' [] (wd_calls w4) (wd_db w4)"
    by blast
  have "carried r PaidOut db0 (wd_db u)"
    using car by (rule carried_set [where P = "\<lambda>q. r_id q = r_id r \<and> r_status q = PayoutPending" and f = "set_status (we_now env k) PaidOut"])
      (simp_all add: u, simp_all add: set_status_def)
  moreover obtain js' where w4': "wd_db w4 = (wd_db u)\<lparr>jobs := js'\<rparr>" "wd_calls w4 = Suc (wd_calls u)" "wd_paid w4 = wd_paid u"
    using w4(2) by (auto simp: marked_def)
  ultimately have car4: "carried r PaidOut db0 (wd_db w4)"
    by simp
  have "p_id ` set (payouts_of (r_id r) (payouts (wd_db w4))) = p_id ` set (unsettled (r_id r) (wd_db v))"
    using same_payouts(2) [OF qs, of "r_id r"] drawn_unsettled [OF dr(2) assms(14)] by (simp add: w4'(1) u)
  then show thesis
    using made calls k by (intro that [OF w4(1,3) car4, of reqs]) (simp_all add: w4' u v(1-3))
qed

section \<open>The turn that proves\<close>

lemma proof_turn:
  assumes "undisturbed env" and "env_ok env" and "mono (we_now env)" and "x_uuid_parse (we_x env) (x_uuid_text (we_x env) (r_id r)) = Some (r_id r)"
    and "stage env (r_id r) ''proof.generate'' [] (wd_calls w) (wd_db w)" and "carried r PaidOut db0 (wd_db w)"
    and "encoders_ok (we_x env)" and "publishes env services"
    and "table_ok proof_check proof_conflict (proofs (wd_db w))" and "\<forall>p \<in> set (proofs (wd_db w)). pr_raffle_id p \<noteq> r_id r"
    and "distinct_calls env n m" and "n \<le> wd_calls w" and "wd_calls w + 3 \<le> m"
  obtains w' p doc where "run_turn fuel env services worker_id w = Some (Finished, w')"
    and "raffles (wd_db w') = raffles (wd_db w)" and "draws (wd_db w') = draws (wd_db w)" and "payouts (wd_db w') = payouts (wd_db w)"
    and "wd_paid w' = wd_paid w" and "db_ok (we_x env) (wd_db w')"
    and "p \<in> set (proofs (wd_db w'))" and "pr_raffle_id p = r_id r" and "pr_published_at p \<noteq> None"
    and "x_to_value (we_x env) doc = Ok (pr_proof_json p)" and "is_verified (verify (x_sha (we_x env)) (x_jcs (we_x env)) doc)"
    and "pp_raffle_id (pd_payload doc) = r_id r" and "ledger_rows (r_id r) (wd_db w) = Ok (pp_entries (pd_payload doc))"
proof -
  let ?x = "we_x env"
  have kinds: "''proof.generate'' \<notin> set []"
    by simp
  note sched = stage_schedule [OF assms(5), of "we_ids env (wd_calls w)"]
  obtain job v where cl: "claims_raffle env ''proof.generate'' (r_id r) job" and wk: "working env (r_id r) [] (wd_db w) w v"
    and fin: "\<And>w3. reconcile_payment fuel env services worker_id job v = Some (Ok (), w3) \<Longrightarrow> jobs (wd_db w3) = jobs (wd_db v) \<Longrightarrow>
      \<exists>w4. run_turn fuel env services worker_id w = Some (Finished, w4) \<and> marked w3 w4"
    using assms(1,3,4) sched assms(5) kinds
    by (rule stage_turn [where fuel = fuel and services = services and worker_id = worker_id]) (rule that; assumption)
  obtain js where v: "wd_db v = (wd_db w)\<lparr>jobs := js\<rparr>" "wd_calls v = Suc (Suc (wd_calls w))" "wd_paid v = wd_paid w" "db_ok ?x (wd_db v)"
    "fresh_from env (wd_calls v) (wd_db v)"
    using wk unfolding working_def by auto
  have quiet: "quiet env" and ok: "store_ok ?x (wd_db v)"
    using assms(1) v(4) by (simp_all add: undisturbed_def db_ok_def)
  have "carried r PaidOut db0 (wd_db v)"
    using assms(6) by (simp add: v(1))
  then obtain s where s: "s \<in> set (raffles (wd_db v))" "r_status s = PaidOut" "r_id s = r_id r"
    unfolding carried_def by blast
  have m: "distinct_calls env (wd_calls v) m" "wd_calls v < m"
    using distinct_calls_from [OF assms(11), of "wd_calls v"] assms(12,13) by (simp_all add: v(2))
  note fresh = fresh_call_at [OF v(5) m(1) order_refl order_refl m(2)]
  have pre: "claims_raffle env ''proof.generate'' (r_id s) job" "table_ok proof_check proof_conflict (proofs (wd_db v))"
    "\<forall>p \<in> set (proofs (wd_db v)). pr_raffle_id p \<noteq> r_id s"
    using cl assms(9,10) by (simp_all add: v(1) s(3))
  obtain doc val pub pl where h: "proof_generate env services job v =
      (Ok (), v\<lparr>wd_db := published_db env (wd_calls v) (r_id s) val doc pub pl (wd_db v), wd_calls := wd_calls v + 3\<rparr>)"
    and doc: "is_verified (verify (x_sha ?x) (x_jcs ?x) doc)" "pp_raffle_id (pd_payload doc) = r_id s"
      "ledger_rows (r_id s) (wd_db v) = Ok (pp_entries (pd_payload doc))" "x_to_value ?x doc = Ok val"
    by (rule proof_generate_succeeds [OF quiet pre(1) ok assms(7,8) s(1,2) pre(2,3) fresh])
  let ?db3 = "published_db env (wd_calls v) (r_id s) val doc pub pl (wd_db v)"
  let ?w3 = "v\<lparr>wd_db := ?db3, wd_calls := wd_calls v + 3\<rparr>"
  have rec: "reconcile_payment fuel env services worker_id job v = Some (Ok (), ?w3)"
    using cl h by (simp add: reconcile_payment_def claims_raffle_def)
  obtain w4 where turn: "run_turn fuel env services worker_id w = Some (Finished, w4)" and mk: "marked ?w3 w4"
    using fin [OF rec] by (auto simp: published_db_def)
  obtain js' where w4: "wd_db w4 = ?db3\<lparr>jobs := js'\<rparr>" "wd_paid w4 = wd_paid v"
    using mk by (auto simp: marked_def)
  have "db_ok ?x ?db3"
    using db_run_ok [OF assms(2) runsD [OF runs_proof_generate [OF assms(2)] v(4) h] v(4)] by simp
  then have ok4: "db_ok ?x (wd_db w4)"
    by (simp add: w4(1) db_ok_jobs)
  have rows: "ledger_rows (r_id r) (wd_db v) = ledger_rows (r_id r) (wd_db w)"
    by (simp add: v(1) ledger_rows_def entry_rows_def)
  show thesis
    by (rule that [OF turn _ _ _ _ ok4, of "publish_row (we_now env (wd_calls v + 2)) (pb_uri pub) (pb_version_id pub) (pb_etag pub)
          (proof_row_of (we_ids env (wd_calls v) 0) (we_now env (wd_calls v)) (r_id s) val doc)" doc])
      (use doc rows in \<open>simp_all add: w4 published_db_def v(1,3) s(3) publish_row_def proof_row_of_def\<close>)
qed

end
