(* ===== verification/Worker_Liveness.thy ===== *)
theory Worker_Liveness
  imports Worker_Pipeline
begin

text \<open>
  The pipeline as a whole: on a due raffle, four turns of the executor end in a published proof. The
  assumptions name what the code relies on: no interference, a clock that does not go back, new
  identifiers, and services that answer.
\<close>

section \<open>The four turns\<close>

text \<open>What is asked of the environment: one worker alone, a clock that does not go back, identifiers that parse.\<close>

definition orderly :: "world_env \<Rightarrow> bool" where
  "orderly env \<longleftrightarrow> undisturbed env \<and> env_ok env \<and> mono (we_now env) \<and> (\<forall>u. x_uuid_parse (we_x env) (x_uuid_text (we_x env) u) = Some u)"

text \<open>Of the services: one honest chain, a resolver, storage and encoders that accept the proof.\<close>

definition cooperative :: "world_env \<Rightarrow> WorkerServices \<Rightarrow> LightningAddressResolver \<Rightarrow> (u64 \<Rightarrow> Block) \<Rightarrow> u64 \<Rightarrow> bool" where
  "cooperative env services resolve chain tip \<longleftrightarrow>
     (\<exists>source. ws_bitcoin services = Some source \<and> bitcoin_chain source chain tip) \<and>
     ws_resolver services = Some resolve \<and> publishes env services \<and> encoders_ok (we_x env)"

text \<open>Of the database: the raffle is due, has sold tickets and waits for no payment; no other raffle comes due.\<close>

definition lone_due :: "world_env \<Rightarrow> nat \<Rightarrow> raffle_row \<Rightarrow> db \<Rightarrow> bool" where
  "lone_due env n r db \<longleftrightarrow> r \<in> set (raffles db) \<and> close_due (we_now env n) r \<and>
     (\<forall>s \<in> set (raffles db). s \<noteq> r \<longrightarrow> (\<forall>k. \<not> close_due (we_now env k) s)) \<and>
     0 < r_total_pool_sats r \<and> r_total_tickets r \<noteq> 0 \<and> pending_invoices (r_id r) db = 0"

definition untouched :: "externals \<Rightarrow> RaffleId \<Rightarrow> db \<Rightarrow> bool" where
  "untouched x rid db \<longleftrightarrow> idle_queue x rid db \<and> (\<forall>d \<in> set (draws db). d_raffle_id d \<noteq> rid) \<and>
     table_ok proof_check proof_conflict (proofs db) \<and> (\<forall>p \<in> set (proofs db). pr_raffle_id p \<noteq> rid)"

text \<open>The first two turns end with a drawn raffle: its draw, its payouts and the job that pays them.\<close>

definition won_by_entry :: "RaffleId \<Rightarrow> db \<Rightarrow> draw_row \<Rightarrow> bool" where
  "won_by_entry rid db d \<longleftrightarrow> d_raffle_id d = rid \<and>
     (\<exists>e \<in> set (entries db). e_raffle_id e = rid \<and> e_id e = d_winner_entry_id d \<and>
        e_ticket_start e \<le> d_winning_ticket d \<and> d_winning_ticket d < e_ticket_end e)"

definition drawn_for :: "world_env \<Rightarrow> raffle_row \<Rightarrow> db \<Rightarrow> draw_row \<Rightarrow> world \<Rightarrow> bool" where
  "drawn_for env r db0 d w \<longleftrightarrow> stage env (r_id r) ''payout.execute'' [''proof.generate''] (wd_calls w) (wd_db w) \<and>
     carried r PayoutPending db0 (wd_db w) \<and> proofs (wd_db w) = proofs db0 \<and> draws (wd_db w) = draws db0 @ [d] \<and>
     won_by_entry (r_id r) db0 d \<and>
     (\<exists>ps k amounts. payouts (wd_db w) = ps @ drawn_payouts (we_x env) (we_ids env k) (we_now env k) (r_id r) amounts \<and>
        (\<forall>p \<in> set ps. p_raffle_id p \<noteq> r_id r))"

lemma orderlyD:
  assumes "orderly env"
  shows "undisturbed env" and "env_ok env" and "mono (we_now env)" and "x_uuid_parse (we_x env) (x_uuid_text (we_x env) u) = Some u"
    and "uuid_text_ok (we_x env)"
  using assms by (simp_all add: orderly_def env_ok_def)

lemma turns_draw:
  assumes "orderly env" and "cooperative env services resolve chain tip" and "db_ok (we_x env) (wd_db w)"
    and "lone_due env (wd_calls w) r (wd_db w)" and "untouched (we_x env) (r_id r) (wd_db w)" and "blocks_agree chain tip (wd_db w)"
    and "closes_at chain (r_end_time r) tip c" and "uint c + r_randomness_delay_blocks r < uint tip"
    and "fresh_from env (wd_calls w) (wd_db w)" and "distinct_calls env (wd_calls w) m" and "wd_calls w + unat tip + 17 \<le> m"
  obtains w1 w2 d where "run_turn fuel env services worker_id w = Some (Finished, w1)"
    and "run_turn fuel env services worker_id w1 = Some (Finished, w2)" and "drawn_for env r (wd_db w) d w2"
    and "d_randomness_block_hash d = as_bytes (bk_hash (chain (c + of_int (r_randomness_delay_blocks r))))"
    and "wd_paid w2 = wd_paid w" and "wd_calls w \<le> wd_calls w2" and "wd_calls w2 \<le> wd_calls w + unat tip + 18"
proof -
  let ?x = "we_x env" and ?rid = "r_id r"
  note env = orderlyD(1-3) [OF assms(1)] orderlyD(4) [OF assms(1), of ?rid]
  obtain source where src: "ws_bitcoin services = Some source" "bitcoin_chain source chain tip"
    using assms(2) unfolding cooperative_def by blast
  have due: "r \<in> set (raffles (wd_db w))" "close_due (we_now env (wd_calls w)) r"
    "\<forall>s \<in> set (raffles (wd_db w)). s \<noteq> r \<longrightarrow> (\<forall>k. \<not> close_due (we_now env k) s)"
    "r_total_tickets r \<noteq> 0" "pending_invoices ?rid (wd_db w) = 0"
    using assms(4) unfolding lone_due_def by blast+
  have unt: "idle_queue ?x ?rid (wd_db w)" "\<forall>d \<in> set (draws (wd_db w)). d_raffle_id d \<noteq> ?rid"
    using assms(5) unfolding untouched_def by blast+
  have m: "wd_calls w + 4 < m"
    using assms(11) by simp
  obtain w1 where t1: "run_turn fuel env services worker_id w = Some (Finished, w1)"
    and s1: "stage env ?rid ''raffle.draw'' [''payout.execute'', ''proof.generate''] (wd_calls w1) (wd_db w1)"
    and c1: "carried r RandomnessPending (wd_db w) (wd_db w1)" and r1: "bitcoin_blocks (wd_db w1) = bitcoin_blocks (wd_db w)"
      "draws (wd_db w1) = draws (wd_db w)" "proofs (wd_db w1) = proofs (wd_db w)" "wd_paid w1 = wd_paid w" "wd_calls w1 = wd_calls w + 5"
    by (rule close_turn [OF env assms(3) due(1-3) unt(1) assms(9,10) m due(4,5)])
  have b1: "blocks_agree chain tip (wd_db w1)" "\<forall>d \<in> set (draws (wd_db w1)). d_raffle_id d \<noteq> ?rid"
    "wd_calls w \<le> wd_calls w1" "wd_calls w1 + unat tip + 12 \<le> m"
    using assms(6,11) unt(2) by (simp_all add: blocks_agree_def r1)
  obtain w2 d k amounts where t2: "run_turn fuel env services worker_id w1 = Some (Finished, w2)"
    and s2: "stage env ?rid ''payout.execute'' [''proof.generate''] (wd_calls w2) (wd_db w2)"
    and c2: "carried r PayoutPending (wd_db w) (wd_db w2)" and d: "draws (wd_db w2) = draws (wd_db w1) @ [d]" "d_raffle_id d = ?rid"
      "d_randomness_block_hash d = as_bytes (bk_hash (chain (c + of_int (r_randomness_delay_blocks r))))"
      "\<exists>e \<in> set (entries (wd_db w)). e_raffle_id e = ?rid \<and> e_id e = d_winner_entry_id d \<and>
         e_ticket_start e \<le> d_winning_ticket d \<and> d_winning_ticket d < e_ticket_end e"
    and r2: "payouts (wd_db w2) = payouts (wd_db w1) @ drawn_payouts ?x (we_ids env k) (we_now env k) ?rid amounts"
      "proofs (wd_db w2) = proofs (wd_db w1)" "wd_paid w2 = wd_paid w1" "wd_calls w1 \<le> wd_calls w2" "wd_calls w2 \<le> wd_calls w1 + unat tip + 13"
    by (rule draw_turn [OF env s1 c1 src assms(7,8) b1(1,2) assms(10) b1(3,4)])
  obtain s where s: "s \<in> set (raffles (wd_db w1))" "r_status s = RandomnessPending" "r_id s = ?rid"
    using c1 unfolding carried_def by blast
  have "\<forall>p \<in> set (payouts (wd_db w1)). p_raffle_id p \<noteq> ?rid"
    using undrawn_payouts [of ?x "wd_db w1" s] s s1 orderlyD(5) [OF assms(1)] by (simp add: stage_def drawn_status_def)
  then have dr: "drawn_for env r (wd_db w) d w2"
    unfolding drawn_for_def won_by_entry_def using s2 c2 d(1,2,4) r2(1,2) r1(2,3) by auto
  show thesis
    using d(3) r1(4,5) r2(3-5) by (intro that [OF t1 t2 dr]) simp_all
qed

text \<open>The other two pay it out and publish its proof.\<close>

definition proven_for :: "world_env \<Rightarrow> RaffleId \<Rightarrow> db \<Rightarrow> db \<Rightarrow> bool" where
  "proven_for env rid db0 db \<longleftrightarrow>
     (\<exists>p \<in> set (proofs db). \<exists>doc. pr_raffle_id p = rid \<and> pr_published_at p \<noteq> None \<and> x_to_value (we_x env) doc = Ok (pr_proof_json p) \<and>
        pp_raffle_id (pd_payload doc) = rid \<and> ledger_rows rid db0 = Ok (pp_entries (pd_payload doc)) \<and>
        is_verified (verify (x_sha (we_x env)) (x_jcs (we_x env)) doc))"

lemma turns_pay:
  assumes "orderly env" and "cooperative env services resolve chain tip" and "drawn_for env r db0 d w"
    and "untouched (we_x env) (r_id r) db0" and "recipients_reachable services resolve r db0" and "0 < r_total_pool_sats r" and "3 < fuel"
    and "distinct_calls env n m" and "n \<le> wd_calls w" and "wd_calls w + 22 \<le> m"
  obtains w1 w2 reqs where "run_turn fuel env services worker_id w = Some (Finished, w1)"
    and "run_turn fuel env services worker_id w1 = Some (Finished, w2)"
    and "\<exists>s \<in> set (raffles (wd_db w2)). r_id s = r_id r \<and> r_status s = PaidOut \<and> r_total_pool_sats s = r_total_pool_sats r"
    and "db_ok (we_x env) (wd_db w2)" and "draws (wd_db w2) = draws (wd_db w)" and "wd_paid w2 = wd_paid w @ reqs"
    and "distinct (map prq_payout_id reqs)" and "set (map prq_payout_id reqs) = p_id ` set (payouts_of (r_id r) (payouts (wd_db w2)))"
    and "proven_for env (r_id r) db0 (wd_db w2)"
proof -
  let ?x = "we_x env" and ?rid = "r_id r"
  note env = orderlyD(1-3) [OF assms(1)] orderlyD(4) [OF assms(1), of ?rid]
  have svc: "ws_resolver services = Some resolve" "publishes env services" "encoders_ok ?x"
    using assms(2) unfolding cooperative_def by blast+
  have unt: "\<forall>d \<in> set (draws db0). d_raffle_id d \<noteq> ?rid"
    "table_ok proof_check proof_conflict (proofs db0)" "\<forall>p \<in> set (proofs db0). pr_raffle_id p \<noteq> ?rid"
    using assms(4) unfolding untouched_def by blast+
  obtain ps k amounts where dr: "stage env ?rid ''payout.execute'' [''proof.generate''] (wd_calls w) (wd_db w)"
      "carried r PayoutPending db0 (wd_db w)" "proofs (wd_db w) = proofs db0" "draws (wd_db w) = draws db0 @ [d]" "d_raffle_id d = ?rid"
      "\<exists>e \<in> set (entries db0). e_raffle_id e = ?rid \<and> e_id e = d_winner_entry_id d"
    and ps: "payouts (wd_db w) = ps @ drawn_payouts ?x (we_ids env k) (we_now env k) ?rid amounts" "\<forall>p \<in> set ps. p_raffle_id p \<noteq> ?rid"
    using assms(3) unfolding drawn_for_def won_by_entry_def by blast
  have "wd_calls w + 18 \<le> m"
    using assms(10) by simp
  then obtain w1 reqs where t1: "run_turn fuel env services worker_id w = Some (Finished, w1)"
    and s1: "stage env ?rid ''proof.generate'' [] (wd_calls w1) (wd_db w1)" and c1: "carried r PaidOut db0 (wd_db w1)"
    and r1: "draws (wd_db w1) = draws (wd_db w)" "proofs (wd_db w1) = proofs (wd_db w)" "wd_paid w1 = wd_paid w @ reqs"
      "distinct (map prq_payout_id reqs)" "set (map prq_payout_id reqs) = p_id ` set (payouts_of ?rid (payouts (wd_db w1)))"
      "wd_calls w \<le> wd_calls w1" "wd_calls w1 \<le> wd_calls w + 19"
    using payout_turn [OF env dr(1,2) svc(1) assms(5) dr(4) unt(1) dr(5,6) ps assms(6,7,8,9)] by metis
  have p1: "table_ok proof_check proof_conflict (proofs (wd_db w1))" "\<forall>p \<in> set (proofs (wd_db w1)). pr_raffle_id p \<noteq> ?rid"
    "n \<le> wd_calls w1" "wd_calls w1 + 3 \<le> m"
    using unt(2,3) r1(6,7) assms(9,10) by (simp_all add: r1(2) dr(3))
  obtain w2 p doc where t2: "run_turn fuel env services worker_id w1 = Some (Finished, w2)"
    and r2: "raffles (wd_db w2) = raffles (wd_db w1)" "draws (wd_db w2) = draws (wd_db w1)" "payouts (wd_db w2) = payouts (wd_db w1)"
      "wd_paid w2 = wd_paid w1" "db_ok ?x (wd_db w2)"
    and pr: "p \<in> set (proofs (wd_db w2))" "pr_raffle_id p = ?rid" "pr_published_at p \<noteq> None" "x_to_value ?x doc = Ok (pr_proof_json p)"
      "is_verified (verify (x_sha ?x) (x_jcs ?x) doc)" "pp_raffle_id (pd_payload doc) = ?rid"
      "ledger_rows ?rid (wd_db w1) = Ok (pp_entries (pd_payload doc))"
    by (rule proof_turn [OF env s1 c1 svc(3,2) p1(1,2) assms(8) p1(3,4)])
  have "entries (wd_db w1) = entries db0"
    using c1 by (simp add: carried_def)
  then have "ledger_rows ?rid db0 = Ok (pp_entries (pd_payload doc))"
    using pr(7) by (simp add: ledger_rows_def entry_rows_def)
  then have "proven_for env ?rid db0 (wd_db w2)"
    unfolding proven_for_def using pr(1-6) by blast
  moreover have "\<exists>s \<in> set (raffles (wd_db w2)). r_id s = ?rid \<and> r_status s = PaidOut \<and> r_total_pool_sats s = r_total_pool_sats r"
    using c1 unfolding carried_def r2(1) by blast
  ultimately show thesis
    using r1(1,3-5) r2(2-5) by (intro that [OF t1 t2]) simp_all
qed

text \<open>The four turns one by one: freezing, drawing, paying, proving.\<close>

lemma four_turns:
  assumes "orderly env" and "cooperative env services resolve chain tip" and "db_ok (we_x env) (wd_db w)"
    and "lone_due env (wd_calls w) r (wd_db w)" and "untouched (we_x env) (r_id r) (wd_db w)"
    and "recipients_reachable services resolve r (wd_db w)" and "blocks_agree chain tip (wd_db w)"
    and "closes_at chain (r_end_time r) tip c" and "uint c + r_randomness_delay_blocks r < uint tip"
    and "fresh_from env (wd_calls w) (wd_db w)" and "distinct_calls env (wd_calls w) m" and "wd_calls w + unat tip + 40 \<le> m"
    and "3 < fuel"
  obtains w1 w2 w3 w4 reqs d where "run_turn fuel env services worker_id w = Some (Finished, w1)"
    and "run_turn fuel env services worker_id w1 = Some (Finished, w2)"
    and "run_turn fuel env services worker_id w2 = Some (Finished, w3)"
    and "run_turn fuel env services worker_id w3 = Some (Finished, w4)"
    and "d \<in> set (draws (wd_db w4))" and "won_by_entry (r_id r) (wd_db w) d"
    and "d_randomness_block_hash d = as_bytes (bk_hash (chain (c + of_int (r_randomness_delay_blocks r))))"
    and "\<exists>s \<in> set (raffles (wd_db w4)). r_id s = r_id r \<and> r_status s = PaidOut \<and> r_total_pool_sats s = r_total_pool_sats r"
    and "db_ok (we_x env) (wd_db w4)" and "wd_paid w4 = wd_paid w @ reqs" and "distinct (map prq_payout_id reqs)"
    and "set (map prq_payout_id reqs) = p_id ` set (payouts_of (r_id r) (payouts (wd_db w4)))"
    and "proven_for env (r_id r) (wd_db w) (wd_db w4)"
proof -
  have m: "wd_calls w + unat tip + 17 \<le> m"
    using assms(12) by simp
  obtain w1 w2 d where t1: "run_turn fuel env services worker_id w = Some (Finished, w1)"
    and t2: "run_turn fuel env services worker_id w1 = Some (Finished, w2)" and d: "drawn_for env r (wd_db w) d w2"
      "d_randomness_block_hash d = as_bytes (bk_hash (chain (c + of_int (r_randomness_delay_blocks r))))"
    and r2: "wd_paid w2 = wd_paid w" "wd_calls w \<le> wd_calls w2" "wd_calls w2 \<le> wd_calls w + unat tip + 18"
    using assms(1-5,7-11) m by (rule turns_draw)
  have pool: "0 < r_total_pool_sats r"
    using assms(4) unfolding lone_due_def by blast
  have m2: "wd_calls w2 + 22 \<le> m"
    using r2(3) assms(12) by linarith
  obtain w3 w4 reqs where t3: "run_turn fuel env services worker_id w2 = Some (Finished, w3)"
    and t4: "run_turn fuel env services worker_id w3 = Some (Finished, w4)"
    and s: "\<exists>s \<in> set (raffles (wd_db w4)). r_id s = r_id r \<and> r_status s = PaidOut \<and> r_total_pool_sats s = r_total_pool_sats r"
    and ok: "db_ok (we_x env) (wd_db w4)" and r4: "draws (wd_db w4) = draws (wd_db w2)" "wd_paid w4 = wd_paid w2 @ reqs"
      "distinct (map prq_payout_id reqs)" "set (map prq_payout_id reqs) = p_id ` set (payouts_of (r_id r) (payouts (wd_db w4)))"
    and proven: "proven_for env (r_id r) (wd_db w) (wd_db w4)"
    using assms(1,2) d(1) assms(5,6) pool assms(13,11) r2(2) m2 by (rule turns_pay)
  have "d \<in> set (draws (wd_db w4))" "won_by_entry (r_id r) (wd_db w) d"
    using d(1) by (simp_all add: drawn_for_def r4(1))
  moreover have "wd_paid w4 = wd_paid w @ reqs"
    using r4(2) r2(1) by simp
  ultimately show thesis
    using t1 t2 t3 t4 d(2) s ok r4(3,4) proven by (intro that)
qed

text \<open>C4. Four turns of an undisturbed worker carry a due raffle all the way: when the outside cooperates, the
  raffle ends as paid out, its draw is seeded by the block that the delay names and won by an entry that
  holds the ticket, every payout is settled after exactly one request to the provider and together they
  make up the pool, and a proof of the raffle's ledger that verifies is stored and published.
\<close>

theorem due_raffle_completes:
  assumes "orderly env" and "cooperative env services resolve chain tip" and "db_ok (we_x env) (wd_db w)"
    and "lone_due env (wd_calls w) r (wd_db w)" and "untouched (we_x env) (r_id r) (wd_db w)"
    and "recipients_reachable services resolve r (wd_db w)" and "blocks_agree chain tip (wd_db w)"
    and "closes_at chain (r_end_time r) tip c" and "uint c + r_randomness_delay_blocks r < uint tip"
    and "fresh_from env (wd_calls w) (wd_db w)" and "distinct_calls env (wd_calls w) m" and "wd_calls w + unat tip + 40 \<le> m"
    and "3 < fuel"
  shows "\<exists>w' reqs. run_jobs 4 fuel env services worker_id w = Some w' \<and>
    (\<exists>s \<in> set (raffles (wd_db w')). r_id s = r_id r \<and> r_status s = PaidOut) \<and>
    (\<exists>d \<in> set (draws (wd_db w')). won_by_entry (r_id r) (wd_db w) d \<and>
       d_randomness_block_hash d = as_bytes (bk_hash (chain (c + of_int (r_randomness_delay_blocks r))))) \<and>
    wd_paid w' = wd_paid w @ reqs \<and> distinct (map prq_payout_id reqs) \<and>
    set (map prq_payout_id reqs) = p_id ` set (payouts_of (r_id r) (payouts (wd_db w'))) \<and>
    (\<forall>q \<in> set (payouts_of (r_id r) (payouts (wd_db w'))). p_status q = PaySettled) \<and>
    payouts_total (r_id r) (payouts (wd_db w')) = r_total_pool_sats r \<and>
    proven_for env (r_id r) (wd_db w) (wd_db w')"
proof -
  obtain w1 w2 w3 w4 reqs d where t: "run_turn fuel env services worker_id w = Some (Finished, w1)"
      "run_turn fuel env services worker_id w1 = Some (Finished, w2)"
      "run_turn fuel env services worker_id w2 = Some (Finished, w3)"
      "run_turn fuel env services worker_id w3 = Some (Finished, w4)"
    and d: "d \<in> set (draws (wd_db w4))" "won_by_entry (r_id r) (wd_db w) d"
      "d_randomness_block_hash d = as_bytes (bk_hash (chain (c + of_int (r_randomness_delay_blocks r))))"
    and s: "\<exists>s \<in> set (raffles (wd_db w4)). r_id s = r_id r \<and> r_status s = PaidOut \<and> r_total_pool_sats s = r_total_pool_sats r"
    and ok: "db_ok (we_x env) (wd_db w4)"
    and paid: "wd_paid w4 = wd_paid w @ reqs" "distinct (map prq_payout_id reqs)"
      "set (map prq_payout_id reqs) = p_id ` set (payouts_of (r_id r) (payouts (wd_db w4)))"
    and proven: "proven_for env (r_id r) (wd_db w) (wd_db w4)"
    using assms by (rule four_turns)
  have run: "run_jobs 4 fuel env services worker_id w = Some w4"
    by (simp add: numeral_eq_Suc t)
  obtain z where z: "z \<in> drawn_raffles (wd_db w4)" "r_id z = r_id r" "r_status z = PaidOut" "r_total_pool_sats z = r_total_pool_sats r"
    using s by (auto simp: drawn_raffles_def drawn_status_def)
  then have "payouts_total (r_id r) (payouts (wd_db w4)) = r_total_pool_sats r"
      "\<forall>q \<in> set (payouts_of (r_id r) (payouts (wd_db w4))). p_status q = PaySettled"
    using ok unfolding db_ok_def payouts_ok_def by metis+
  then show ?thesis
    using run d s proven paid by (intro exI [of _ w4] exI [of _ reqs]) auto
qed

section \<open>A run of the pipeline\<close>

text \<open>
  The sample raffle, due at time 1000, with a chain of six blocks, five hundred microseconds apart: block 2
  closes the raffle and block 3 seeds the draw.
\<close>

definition pipeline_env :: world_env where
  "pipeline_env = sample_worker_env\<lparr>we_ids := (\<lambda>k n. of_nat (1000 + 16 * min k 1000 + n))\<rparr>"

definition pipeline_blocks :: "Block list" where
  "pipeline_blocks = map (\<lambda>n. \<lparr>bk_height = of_nat n, bk_hash = hash_repeat (of_nat n), bk_previous_hash = ZERO_HASH,
     bk_time = 500 * int n\<rparr>) [0..<6]"

definition pipeline_services :: WorkerServices where
  "pipeline_services = sample_services\<lparr>
     ws_bitcoin := Some (FixtureSource pipeline_blocks),
     ws_proof_store := Some (\<lambda>_ h _. Ok \<lparr>pb_uri = h, pb_version_id = ''1'', pb_etag = ''e''\<rparr>)\<rparr>"

definition pipeline_db :: db where
  "pipeline_db = (sample_store Open)\<lparr>invoices := [sample_invoice_row 5 InvSettled 3]\<rparr>"

lemma pipeline_db_sel [simp]:
  "raffles pipeline_db = [sample_raffle_row Open]" "invoices pipeline_db = [sample_invoice_row 5 InvSettled 3]"
  "entries pipeline_db = [sample_entry_row]" "payouts pipeline_db = []" "jobs pipeline_db = []" "draws pipeline_db = []"
  "proofs pipeline_db = []" "audit_events pipeline_db = []" "outbox_events pipeline_db = []" "bitcoin_blocks pipeline_db = []"
  "organizers pipeline_db = [\<lparr>o_id = 1, o_display_name = ''org'', o_lightning_address_ciphertext = [7], o_status = OrgActive\<rparr>]"
  by (simp_all add: pipeline_db_def sample_payouts_def drawn_status_def) (simp_all add: sample_store_def empty_db_def)

lemma pipeline_env_sel [simp]:
  "we_x pipeline_env = sample_ext" "we_now pipeline_env k = 2000 + int k"
  "we_to_vec pipeline_env doc = Ok []"
  by (simp_all add: pipeline_env_def sample_worker_env_def)

lemma pipeline_orderly: "orderly pipeline_env"
proof -
  have "x_uuid_parse sample_ext (x_uuid_text sample_ext u) = Some u" for u
    by (simp add: sample_ext_def)
  moreover have "mono (we_now pipeline_env)"
    by (simp add: mono_def)
  moreover have "env_ok pipeline_env" "undisturbed pipeline_env"
    by (simp_all add: env_ok_def undisturbed_def quiet_def pipeline_env_def sample_worker_env_def reachable.start)
  ultimately show ?thesis
    by (simp add: orderly_def)
qed

lemma pipeline_block: "n < 6 \<Longrightarrow> pipeline_blocks ! n = \<lparr>bk_height = of_nat n, bk_hash = hash_repeat (of_nat n),
     bk_previous_hash = ZERO_HASH, bk_time = 500 * int n\<rparr>" and pipeline_length: "length pipeline_blocks = 6"
  by (simp_all add: pipeline_blocks_def del: upt_Suc)

interpretation pipeline: consecutive_blocks pipeline_blocks
proof unfold_locales
  show "pipeline_blocks \<noteq> []" "length pipeline_blocks \<le> 2 ^ 63"
    using pipeline_length by auto
  show "unat (bk_height (pipeline_blocks ! i)) = i" if "i < length pipeline_blocks" for i
    using that by (simp add: pipeline_length pipeline_block unat_of_nat)
  have "inj_on (\<lambda>n. of_nat n :: u8) {0..<6}"
    by (rule inj_onI) (simp add: word_of_nat_eq_iff take_bit_nat_eq_self)
  then show "distinct (map bk_hash pipeline_blocks)"
    by (simp add: pipeline_blocks_def distinct_map comp_def inj_on_def del: upt_Suc)
qed

lemma pipeline_chain: "bitcoin_chain (FixtureSource pipeline_blocks) (\<lambda>h. pipeline_blocks ! unat h) 5"
  using pipeline.bitcoin_chain_axioms by (simp add: pipeline_length)

lemma pipeline_late:
  assumes "2 \<le> i" and "i \<le> (5 :: u64)"
  shows "1000 \<le> bk_time (pipeline_blocks ! unat i)"
proof -
  have "2 \<le> unat i" "unat i < 6"
    using assms by (simp_all add: word_le_nat_alt)
  then show ?thesis
    by (simp add: pipeline_block del: of_nat_unat)
qed

lemma pipeline_cooperative:
  "cooperative pipeline_env pipeline_services (\<lambda>_. fake_resolve_exact_amount) (\<lambda>h. pipeline_blocks ! unat h) 5"
  using pipeline_chain
  by (simp add: cooperative_def pipeline_services_def sample_services_def publishes_def encoders_ok_def sample_ext_def)

lemma pipeline_db_ok: "db_ok sample_ext pipeline_db"
proof -
  have "table_ok invoice_check invoice_conflict [sample_invoice_row 5 InvSettled 3]"
    by (simp add: table_ok_def invoice_check_def sample_invoice_row_def bigint_def)
  then have "keeps_core (sample_store Open) pipeline_db"
    by (simp add: keeps_core_def pipeline_db_def)
  from keeps_core_store [OF this] show ?thesis
    using sample_db_ok [of Open] by (simp add: db_ok_def)
qed

lemma fake_reachable:
  assumes "trim a \<noteq> []"
  shows "reachable_address pipeline_services (\<lambda>_. fake_resolve_exact_amount) a"
  unfolding reachable_address_def
proof (intro allI impI)
  fix k :: nat and amount :: int
  assume amount: "0 < amount" "amount < 2 ^ 63"
  have self: "prq_bolt11 req = ri_bolt11 invoice \<Longrightarrow> req\<lparr>prq_bolt11 := ri_bolt11 invoice\<rparr> = req" for req :: PayoutRequest and invoice
    by (cases req) simp
  obtain invoice where i: "fake_resolve_exact_amount a (Sats (of_int amount)) = Ok invoice"
    using assms by (simp add: fake_resolve_exact_amount_def)
  have pay: "ri_amount_sats invoice = Sats (of_int amount) \<and> (prq_amount_sats req = Sats (of_int amount) \<longrightarrow>
      (\<exists>attempt. fake_pay_invoice (req\<lparr>prq_bolt11 := ri_bolt11 invoice\<rparr>) = Ok attempt))" for req
    using fake_pays [OF assms amount, of req] i by auto
  show "\<exists>invoice. fake_resolve_exact_amount a (Sats (of_int amount)) = Ok invoice \<and> ri_amount_sats invoice = Sats (of_int amount) \<and>
      (\<forall>j req. prq_bolt11 req = ri_bolt11 invoice \<longrightarrow> prq_amount_sats req = Sats (of_int amount) \<longrightarrow>
        (\<exists>attempt. pv_pay_invoice (ws_provider pipeline_services) j req = Ok attempt))"
  proof (intro exI [of _ invoice] conjI allI impI i)
    show "ri_amount_sats invoice = Sats (of_int amount)"
      using pay by blast
    fix req :: PayoutRequest and j :: nat
    assume "prq_bolt11 req = ri_bolt11 invoice" "prq_amount_sats req = Sats (of_int amount)"
    then show "\<exists>attempt. pv_pay_invoice (ws_provider pipeline_services) j req = Ok attempt"
      using pay [of req] self [of req invoice] by (simp add: pipeline_services_def sample_services_def FakePaymentProvider_def)
  qed
qed

lemma pipeline_recipients: "recipients_reachable pipeline_services (\<lambda>_. fake_resolve_exact_amount) (sample_raffle_row Open) pipeline_db"
proof -
  have "reachable_address pipeline_services (\<lambda>_. fake_resolve_exact_amount) ''a@b''"
    "reachable_address pipeline_services (\<lambda>_. fake_resolve_exact_amount) ''p@q''"
    by (rule fake_reachable, simp add: trim_def trim_matches_def trim_end_matches_def is_space_def)+
  then show ?thesis
    by (simp add: recipients_reachable_def reachable_ciphertext_def)
       (simp add: pipeline_services_def sample_services_def sample_rows)
qed

lemma pipeline_distinct: "distinct_calls pipeline_env 0 45"
proof -
  have eq: "(of_nat a :: uuid) = of_nat b \<longleftrightarrow> a = b" if "a < 100000" "b < 100000" for a b
    using that by (simp add: word_of_nat_eq_iff take_bit_nat_eq_self)
  have same: "we_ids pipeline_env k i = we_ids pipeline_env k' j \<longleftrightarrow> 16 * min k 1000 + i = 16 * min k' 1000 + j" if "i < 10" "j < 10" for k k' i j
    using that eq [of "1000 + 16 * min k 1000 + i" "1000 + 16 * min k' 1000 + j"] by (simp add: pipeline_env_def)
  show ?thesis
    unfolding distinct_calls_def by (auto simp: inj_on_def same)
qed

lemma pipeline_ready:
  fixes w :: world and r :: raffle_row
  defines "w \<equiv> sample_world pipeline_db" and "r \<equiv> sample_raffle_row Open"
  shows "db_ok (we_x pipeline_env) (wd_db w)" and "lone_due pipeline_env (wd_calls w) r (wd_db w)"
    and "untouched (we_x pipeline_env) (r_id r) (wd_db w)"
    and "recipients_reachable pipeline_services (\<lambda>_. fake_resolve_exact_amount) r (wd_db w)"
    and "blocks_agree (\<lambda>h. pipeline_blocks ! unat h) 5 (wd_db w)"
    and "closes_at (\<lambda>h. pipeline_blocks ! unat h) (r_end_time r) 5 2"
    and "uint (2 :: u64) + r_randomness_delay_blocks r < uint (5 :: u64)"
    and "fresh_from pipeline_env (wd_calls w) (wd_db w)" and "distinct_calls pipeline_env (wd_calls w) 45"
    and "wd_calls w + unat (5 :: u64) + 40 \<le> 45"
proof -
  have w: "wd_db w = pipeline_db" "wd_calls w = 0"
    by (simp_all add: w_def sample_world_def)
  show "db_ok (we_x pipeline_env) (wd_db w)"
    by (simp add: w pipeline_db_ok)
  show "lone_due pipeline_env (wd_calls w) r (wd_db w)"
    by (simp add: w r_def lone_due_def close_due_def pending_invoices_def) (simp add: sample_rows)
  show "untouched (we_x pipeline_env) (r_id r) (wd_db w)"
    by (simp add: w untouched_def idle_queue_def jobs_ok_def table_ok_def)
  show "recipients_reachable pipeline_services (\<lambda>_. fake_resolve_exact_amount) r (wd_db w)"
    by (simp add: w r_def pipeline_recipients)
  show "blocks_agree (\<lambda>h. pipeline_blocks ! unat h) 5 (wd_db w)"
    by (simp add: w blocks_agree_def table_ok_def)
  show "closes_at (\<lambda>h. pipeline_blocks ! unat h) (r_end_time r) 5 2"
    using pipeline_late by (simp add: r_def closes_at_def sample_raffle_row_def pipeline_block)
  show "uint (2 :: u64) + r_randomness_delay_blocks r < uint (5 :: u64)"
    by (simp add: r_def sample_raffle_row_def)
  show "fresh_from pipeline_env (wd_calls w) (wd_db w)"
    by (simp add: w fresh_from_def used_ids_def)
  show "distinct_calls pipeline_env (wd_calls w) 45"
    by (simp add: w pipeline_distinct)
qed (simp add: w_def sample_world_def)

lemma pipeline_turns:
  obtains w1 w2 w3 w4 reqs where "run_turn 4 pipeline_env pipeline_services ''w1'' (sample_world pipeline_db) = Some (Finished, w1)"
    and "run_turn 4 pipeline_env pipeline_services ''w1'' w1 = Some (Finished, w2)"
    and "run_turn 4 pipeline_env pipeline_services ''w1'' w2 = Some (Finished, w3)"
    and "run_turn 4 pipeline_env pipeline_services ''w1'' w3 = Some (Finished, w4)"
    and "\<exists>s \<in> set (raffles (wd_db w4)). r_id s = 2 \<and> r_status s = PaidOut \<and> r_total_pool_sats s = 300"
    and "db_ok sample_ext (wd_db w4)" and "set (map prq_payout_id reqs) = p_id ` set (payouts_of 2 (payouts (wd_db w4)))"
    and "wd_paid w4 = wd_paid (sample_world pipeline_db) @ reqs"
proof -
  have fuel: "3 < (4 :: nat)" and r: "r_id (sample_raffle_row Open) = 2" "r_total_pool_sats (sample_raffle_row Open) = 300"
    by (simp_all add: sample_raffle_row_def)
  show thesis
    by (rule four_turns [OF pipeline_orderly pipeline_cooperative pipeline_ready fuel, where worker_id = "''w1''",
        unfolded r pipeline_env_sel(1)]) (rule that; assumption)
qed

theorem due_raffle_completes_witness:
  "\<exists>w'. run_jobs 4 4 pipeline_env pipeline_services ''w1'' (sample_world pipeline_db) = Some w' \<and>
     (\<exists>s \<in> set (raffles (wd_db w')). r_id s = 2 \<and> r_status s = PaidOut) \<and> payouts_total 2 (payouts (wd_db w')) = 300 \<and>
     proven_for pipeline_env 2 pipeline_db (wd_db w')"
proof -
  have "wd_db (sample_world pipeline_db) = pipeline_db" "3 < (4 :: nat)"
    by (simp_all add: sample_world_def)
  with due_raffle_completes [OF pipeline_orderly pipeline_cooperative pipeline_ready, of 4 "''w1''"] show ?thesis
    by auto
qed

end
