(* ===== verification/Worker_Turns.thy ===== *)
theory Worker_Turns
  imports Worker_Liveness
begin

text \<open>
  What a turn of the executor does with the job it has taken. A job is only reported as finished when its work
  is in the database, done on the evidence that its handler has to ask for; its row is then marked as succeeded.
  A job whose handler failed waits for its next attempt, or is dead after the last one.
\<close>

section \<open>The work of a job\<close>

text \<open>The raffle or the invoice that the payload of a job names.\<close>

definition job_names :: "world_env \<Rightarrow> string \<Rightarrow> ClaimedJob \<Rightarrow> uuid \<Rightarrow> bool" where
  "job_names env key job uid \<longleftrightarrow>
     (\<exists>text. Option.bind (json_get key (cj_payload job)) json_as_str = Some text \<and> x_uuid_parse (we_x env) text = Some uid)"

text \<open>
  \<open>v\<close> is the world in which the handler starts and \<open>z\<close> the one in which it ends; the database at its first call
  includes what other processes did before.
\<close>

definition first_seen :: "world_env \<Rightarrow> world \<Rightarrow> db" where
  "first_seen env v = we_others env (wd_calls v) (wd_db v)"

text \<open>Closing: no invoice of the raffle was pending, and the closing raffle has been frozen.\<close>

definition close_done :: "world_env \<Rightarrow> ClaimedJob \<Rightarrow> world \<Rightarrow> world \<Rightarrow> bool" where
  "close_done env job v z \<longleftrightarrow>
     (\<exists>rid. job_names env ''raffle_id'' job rid \<and> pending_invoices rid (first_seen env v) = 0 \<and>
        (\<exists>r \<in> set (raffles (we_others env (Suc (wd_calls v)) (first_seen env v))). r_id r = rid \<and> r_status r = Closing) \<and>
        (\<exists>r \<in> set (raffles (wd_db z)). r_id r = rid \<and> r_entries_root r \<noteq> None \<and>
           r_status r = (if r_total_tickets r = 0 then Cancelled else RandomnessPending)))"

text \<open>
  Drawing: the close block is the one that the search finds below the tip that the source gave, the randomness block
  was given for the height that lies the raffle's delay above it and has a confirmation, both were canonical in the
  database right before the draw, and the draw on these two is on record.
\<close>

definition draw_done :: "world_env \<Rightarrow> WorkerServices \<Rightarrow> ClaimedJob \<Rightarrow> world \<Rightarrow> world \<Rightarrow> bool" where
  "draw_done env services job v z \<longleftrightarrow>
     (\<exists>rid source frozen tip close j randomness k db. job_names env ''raffle_id'' job rid \<and> ws_bitcoin services = Some source \<and>
        frozen_draw_context rid (first_seen env v) = Ok frozen \<and>
        bs_tip_height source (Suc (wd_calls v)) = Ok tip \<and>
        fst (close_search (bs_block_at source) (fd_end_time frozen) tip (wd_calls v + 2) tip) = Ok close \<and>
        bs_block_at source j (bk_height close + of_int (fd_randomness_delay_blocks frozen)) = Ok randomness \<and>
        bk_height close + of_int (fd_randomness_delay_blocks frozen) + 1 \<le> tip \<and>
        canonical_block_matches (bk_height close) (bk_hash close) db = Ok True \<and>
        canonical_block_matches (bk_height randomness) (bk_hash randomness) (we_others env k db) = Ok True \<and>
        wd_calls z = k + 2 \<and>
        bitcoin_blocks (wd_db z) = bitcoin_blocks (we_others env (Suc k) (we_others env k db)) \<and>
        (\<exists>d \<in> set (draws (wd_db z)). d_raffle_id d = rid \<and> d_randomness_block_hash d = as_bytes (bk_hash randomness)) \<and>
        (\<exists>r \<in> set (raffles (wd_db z)). r_id r = rid \<and> r_status r = PayoutPending \<and>
           r_close_block_height r = Some (uint (bk_height close)) \<and> r_close_block_hash r = Some (as_bytes (bk_hash close)) \<and>
           r_randomness_block_height r = Some (uint (bk_height randomness)) \<and>
           r_randomness_block_hash r = Some (as_bytes (bk_hash randomness))))"

text \<open>Paying: no payout of the raffle is left that the worker could have claimed at its last call.\<close>

definition payout_done :: "world_env \<Rightarrow> ClaimedJob \<Rightarrow> world \<Rightarrow> bool" where
  "payout_done env job z \<longleftrightarrow>
     (\<exists>rid k. job_names env ''raffle_id'' job rid \<and> wd_calls z = Suc k \<and>
        (\<forall>p \<in> set (payouts (wd_db z)). payout_claimable rid (we_now env k) p \<longrightarrow> we_payout_locked env k p))"

text \<open>Proving: the store accepted the bytes of the generated document under its hash, and this is what is on record.\<close>

definition proof_done :: "world_env \<Rightarrow> WorkerServices \<Rightarrow> ClaimedJob \<Rightarrow> world \<Rightarrow> world \<Rightarrow> bool" where
  "proof_done env services job v z \<longleftrightarrow>
     (\<exists>rid publish doc db json pub. job_names env ''raffle_id'' job rid \<and> ws_proof_store services = Some publish \<and>
        generate_terminal_proof (we_x env) (we_ids env (wd_calls v)) (we_now env (wd_calls v)) rid (first_seen env v) = Ok (doc, db) \<and>
        we_to_vec env doc = Ok json \<and>
        publish (Suc (wd_calls v)) (to_hex (x_hex_encode (we_x env)) (pd_proof_hash doc)) json = Ok pub \<and>
        (\<exists>p \<in> set (proofs (wd_db z)). is_proof_of rid p \<and> pr_storage_uri p = Some (pb_uri pub) \<and>
           pr_storage_version_id p = Some (pb_version_id pub) \<and> pr_storage_etag p = Some (pb_etag pub)))"

text \<open>
  Reconciling: nothing to ask for, or the provider has answered. An invoice is settled with an entry, or refunded when the
  payment came late, only if the provider says that it is paid; it is given up only if the provider says that it
  cannot be paid any more; and a pending payment does not finish the job.
\<close>

definition settled_or_refunded :: "InvoiceId \<Rightarrow> db \<Rightarrow> bool" where
  "settled_or_refunded iid db \<longleftrightarrow>
     (\<exists>i \<in> set (invoices db). i_id i = iid \<and> i_status i = InvSettled) \<and> (\<exists>e \<in> set (entries db). e_invoice_id e = iid) \<or>
     (\<exists>i \<in> set (invoices db). i_id i = iid \<and> i_status i \<noteq> InvPending) \<and>
       (\<exists>f \<in> set (refunds db). f_invoice_id f = iid \<and> f_reason f = LateSettlement)"

definition reconcile_done :: "world_env \<Rightarrow> WorkerServices \<Rightarrow> ClaimedJob \<Rightarrow> world \<Rightarrow> world \<Rightarrow> bool" where
  "reconcile_done env services job v z \<longleftrightarrow>
     (\<exists>iid found. job_names env ''invoice_id'' job iid \<and> collection_payment_reference iid (first_seen env v) = Ok found \<and>
        (case found of
           None \<Rightarrow> wd_db z = first_seen env v
         | Some reference \<Rightarrow>
             (\<exists>status. pv_get_payment (ws_provider services) (Suc (wd_calls v)) reference = Ok status \<and>
                (case pst_state status of
                   PmtSettled \<Rightarrow> settled_or_refunded iid (wd_db z)
                 | PmtPending \<Rightarrow> False
                 | _ \<Rightarrow> let db = we_others env (wd_calls v + 2) (first_seen env v) in
                     wd_db z = db\<lparr>invoices := set_where (\<lambda>i. i_id i = iid \<and> i_status i = InvPending)
                       (\<lambda>i. i\<lparr>i_status := InvCollectionFailed\<rparr>) (invoices db)\<rparr>))))"

text \<open>The work by the kind of the job; other kinds are ignored.\<close>

definition work_done :: "world_env \<Rightarrow> WorkerServices \<Rightarrow> ClaimedJob \<Rightarrow> world \<Rightarrow> world \<Rightarrow> bool" where
  "work_done env services job v z \<longleftrightarrow>
     (if cj_kind job = ''raffle.draw'' then draw_done env services job v z
      else if cj_kind job = ''proof.generate'' then proof_done env services job v z
      else if cj_kind job = ''payout.execute'' then payout_done env job z
      else if cj_kind job = ''raffle.close'' then close_done env job v z
      else if cj_kind job = ''payment.reconcile'' then reconcile_done env services job v z
      else z = v)"

section \<open>The handlers do it\<close>

lemma job_uuid_Ok: "job_uuid env key job w = (Ok uid, v) \<longleftrightarrow> job_names env key job uid \<and> v = w"
  by (auto simp: job_uuid_def job_names_def liftE_Ok map_err_eq_Ok bindR_eq_Ok ok_or_eq_Ok)

lemma reading_Ok: "reading r db = Ok (a, db') \<longleftrightarrow> r = Ok a \<and> db' = db"
  by (auto simp: reading_def bindR_eq_Ok)

lemmas handler_Ok = process_Ok job_uuid_Ok reading_Ok map_err_eq_Ok ok_or_eq_Ok returnW_def

lemma raffle_close_done:
  assumes "raffle_close env job v = (Ok (), z)"
  shows "close_done env job v z"
proof -
  obtain rid root where job: "job_names env ''raffle_id'' job rid" and pending: "pending_invoices rid (first_seen env v) = 0"
    and freeze: "freeze_raffle (we_x env) (we_ids env (Suc (wd_calls v))) (we_now env (Suc (wd_calls v))) rid
      (we_others env (Suc (wd_calls v)) (first_seen env v)) = Ok (root, wd_db z)"
    using assms by (auto simp: raffle_close_def handler_Ok first_seen_def split: if_splits)
  from freeze obtain row n where row: "fetch_optional (\<lambda>r. r_id r = rid)
      (raffles (we_others env (Suc (wd_calls v)) (first_seen env v))) = Some row" "r_status row = Closing"
    and rs: "sql_update raffle_check raffle_conflict (\<lambda>r. r_id r = rid)
      (freeze_row (we_now env (Suc (wd_calls v))) (if r_total_tickets row = 0 then Cancelled else RandomnessPending) root)
      (raffles (we_others env (Suc (wd_calls v)) (first_seen env v))) = Ok (raffles (wd_db z), n)"
    by (rule freeze_raffle_Ok)
  note r = fetch_optional_Some [OF row(1)]
  let ?r = "freeze_row (we_now env (Suc (wd_calls v))) (if r_total_tickets row = 0 then Cancelled else RandomnessPending) root row"
  have "?r \<in> set (raffles (wd_db z))"
    using rs r by (auto simp: sql_update_Ok set_set_where)
  then have "\<exists>r \<in> set (raffles (wd_db z)). r_id r = rid \<and> r_entries_root r \<noteq> None \<and>
      r_status r = (if r_total_tickets r = 0 then Cancelled else RandomnessPending)"
    using r by (intro bexI [of _ ?r]) (simp_all add: freeze_row_def)
  with job pending row(2) r show ?thesis
    unfolding close_done_def by blast
qed

lemma close_block_Ok:
  "close_block source end_time tip w = (Ok b, v) \<Longrightarrow> fst (close_search (bs_block_at source) end_time tip (wd_calls w) tip) = Ok b"
  by (auto simp: close_block_def map_err_eq_Ok split: prod.splits)

lemma raffle_draw_done:
  assumes "raffle_draw env services job v = (Ok (), z)"
  shows "draw_done env services job v z"
proof -
  obtain source rid frozen tip close v2 j randomness result db1 k2 where
    facts: "ws_bitcoin services = Some source" "job_names env ''raffle_id'' job rid"
      "frozen_draw_context rid (first_seen env v) = Ok frozen" "bs_tip_height source (Suc (wd_calls v)) = Ok tip"
    and found: "close_block source (fd_end_time frozen) tip
      (v\<lparr>wd_db := first_seen env v, wd_calls := Suc (Suc (wd_calls v))\<rparr>) = (Ok close, v2)"
    and block: "bs_block_at source j (bk_height close + of_int (fd_randomness_delay_blocks frozen)) = Ok randomness"
      "\<not> tip < bk_height close + of_int (fd_randomness_delay_blocks frozen) + 1"
    and drawn': "create_draw_and_payouts (we_x env) (we_ids env (Suc k2)) (we_now env (Suc k2)) rid (bk_height close) (bk_hash close)
      (bk_height randomness) (bk_hash randomness) (we_others env (Suc k2) (we_others env k2 db1)) = Ok (result, wd_db z)"
    and canonical: "wd_calls z = Suc (Suc k2)"
      "canonical_block_matches (bk_height close) (bk_hash close) db1 = Ok True"
      "canonical_block_matches (bk_height randomness) (bk_hash randomness) (we_others env k2 db1) = Ok True"
    using assms
    by (auto simp: raffle_draw_def record_block_def block_matches_def handler_Ok first_seen_def Let_def split: if_splits)
  define k where "k = Suc k2"
  define db where "db = we_others env (Suc k2) (we_others env k2 db1)"
  note drawn = drawn' [folded k_def, folded db_def [unfolded k_def [symmetric]]]
  obtain raffle root n items dbp js au where row: "fetch_optional (\<lambda>r. r_id r = rid) (raffles db) = Some raffle"
    and ps: "insert_payouts (we_x env) (we_now env k) rid items (db\<lparr>draws := draws db @
      [draw_row_of (we_ids env k 0) (we_now env k) rid root (bk_hash randomness) (uint (dr_winning_ticket result)) (dr_winner_entry_id result)]\<rparr>) = Ok dbp"
    and z: "wd_db z = dbp\<lparr>jobs := js, raffles := raffles (wd_db z), audit_events := au\<rparr>"
    and rs: "sql_update raffle_check raffle_conflict (\<lambda>r. r_id r = rid)
         (drawn_row (we_now env k) (uint (bk_height close)) (bk_hash close) (uint (bk_height randomness)) (bk_hash randomness))
         (raffles db) = Ok (raffles (wd_db z), n)"
    using drawn by (rule create_draw_and_payouts_Ok)
  have "bitcoin_blocks (wd_db z) = bitcoin_blocks (we_others env (Suc k2) (we_others env k2 db1))"
    using insert_payouts_frame [OF ps] by (subst z) (auto simp: db_def)
  note canonical = canonical this
  note r = fetch_optional_Some [OF row]
  let ?r = "drawn_row (we_now env k) (uint (bk_height close)) (bk_hash close) (uint (bk_height randomness)) (bk_hash randomness) raffle"
  have "?r \<in> set (raffles (wd_db z))"
    using rs r by (auto simp: sql_update_Ok set_set_where)
  then have raffle: "\<exists>r \<in> set (raffles (wd_db z)). r_id r = rid \<and> r_status r = PayoutPending \<and>
      r_close_block_height r = Some (uint (bk_height close)) \<and> r_close_block_hash r = Some (as_bytes (bk_hash close)) \<and>
      r_randomness_block_height r = Some (uint (bk_height randomness)) \<and>
      r_randomness_block_hash r = Some (as_bytes (bk_hash randomness))"
    using r by (intro bexI [of _ ?r]) (simp_all add: drawn_row_def)
  have draw: "\<exists>d \<in> set (draws (wd_db z)). d_raffle_id d = rid \<and> d_randomness_block_hash d = as_bytes (bk_hash randomness)"
    using create_draw_records(2) [OF drawn row] by blast
  have "fst (close_search (bs_block_at source) (fd_end_time frozen) tip (wd_calls v + 2) tip) = Ok close"
    using close_block_Ok [OF found] by simp
  with facts block canonical raffle draw show ?thesis
    unfolding draw_done_def not_less add_2_eq_Suc' by blast
qed

lemma recorded_publication:
  assumes "record_proof_publication now rid uri version etag db = Ok ((), db')"
  shows "\<exists>p \<in> set (proofs db'). is_proof_of rid p \<and> pr_storage_uri p = Some uri \<and>
    pr_storage_version_id p = Some version \<and> pr_storage_etag p = Some etag"
proof -
  let ?P = "\<lambda>p. is_proof_of rid p \<and> pr_storage_uri p = None"
  let ?f = "\<lambda>p. p\<lparr>pr_storage_uri := Some uri, pr_storage_version_id := Some version, pr_storage_etag := Some etag,
    pr_published_at := Some now\<rparr>"
  obtain t n where t: "sql_update proof_check proof_conflict ?P ?f (proofs db) = Ok (t, n)" and db': "db' = db\<lparr>proofs := t\<rparr>"
    and again: "n \<noteq> 1 \<longrightarrow> (\<exists>p. fetch_optional (is_proof_of rid) t = Some p \<and> pr_storage_uri p = Some uri \<and>
      pr_storage_version_id p = Some version \<and> pr_storage_etag p = Some etag)"
    using assms by (auto simp: record_proof_publication_def bindR_eq_Ok map_err_eq_Ok ok_or_eq_Ok split: if_splits)
  show ?thesis
  proof (cases "n = 1")
    case True
    then have "filter ?P (proofs db) \<noteq> []"
      using t by (auto simp: sql_update_Ok)
    then obtain p where p: "p \<in> set (proofs db)" "?P p"
      unfolding filter_empty_conv by blast
    then have "?f p \<in> set (proofs db')"
      using t by (auto simp: db' sql_update_Ok set_set_where)
    then show ?thesis
      using p(2) by (intro bexI [of _ "?f p"]) (simp_all add: is_proof_of_def)
  next
    case False
    then show ?thesis
      using again by (auto simp: db' dest!: fetch_optional_Some)
  qed
qed

lemma proof_generate_done:
  assumes "proof_generate env services job v = (Ok (), z)"
  shows "proof_done env services job v z"
proof -
  obtain rid publish doc db json pub k where
    facts: "job_names env ''raffle_id'' job rid" "ws_proof_store services = Some publish"
      "generate_terminal_proof (we_x env) (we_ids env (wd_calls v)) (we_now env (wd_calls v)) rid (first_seen env v) = Ok (doc, db)"
      "we_to_vec env doc = Ok json" "publish (Suc (wd_calls v)) (to_hex (x_hex_encode (we_x env)) (pd_proof_hash doc)) json = Ok pub"
    and rec: "record_proof_publication (we_now env k) rid (pb_uri pub) (pb_version_id pub) (pb_etag pub) (we_others env k db)
      = Ok ((), wd_db z)"
    using assms by (auto simp: proof_generate_def handler_Ok first_seen_def)
  have "\<exists>p \<in> set (proofs (wd_db z)). is_proof_of rid p \<and> pr_storage_uri p = Some (pb_uri pub) \<and>
      pr_storage_version_id p = Some (pb_version_id pub) \<and> pr_storage_etag p = Some (pb_etag pub)"
    using rec by (rule recorded_publication)
  with facts show ?thesis
    unfolding proof_done_def by blast
qed

lemma payout_loop_done:
  "payout_loop fuel env services resolve worker_id rid v = Some (Ok (), z) \<Longrightarrow>
     \<exists>k. wd_calls z = Suc k \<and>
       (\<forall>p \<in> set (payouts (wd_db z)). payout_claimable rid (we_now env k) p \<longrightarrow> we_payout_locked env k p)"
proof (induction fuel arbitrary: v)
  case (Suc fuel)
  obtain c u where c: "claim_next env worker_id rid v = (c, u)"
    by (cases "claim_next env worker_id rid v")
  show ?case
  proof (cases "\<exists>payout. c = Ok (Some payout)")
    case True
    then show ?thesis
      using Suc.prems Suc.IH by (auto simp: c split: prod.splits sum.splits)
  next
    case False
    then have z: "c = Ok None" "z = u"
      using Suc.prems by (auto simp: c split: sum.splits option.splits)
    let ?k = "wd_calls v"
    have "claim_payout (we_payout_locked env ?k) (we_now env ?k) rid worker_id (we_others env ?k (wd_db v)) = Ok (None, wd_db z)"
      and "wd_calls z = Suc ?k"
      using c by (auto simp: z claim_next_def storeE_Ok)
    with claim_payout_None show ?thesis
      by metis
  qed
qed simp

lemma payout_execute_done:
  assumes "payout_execute fuel env services worker_id job v = Some (Ok (), z)"
  shows "payout_done env job z"
proof -
  obtain rid resolve where "job_names env ''raffle_id'' job rid"
    "payout_loop fuel env services resolve worker_id rid v = Some (Ok (), z)"
    using assms by (auto simp: payout_execute_def handler_Ok split: prod.splits sum.splits)
  with payout_loop_done show ?thesis
    unfolding payout_done_def by blast
qed

lemma settle_invoice_done:
  assumes "settle_invoice_and_append_entry x ids now iid eid t db = Ok (entry, db')"
  shows "settled_or_refunded iid db'"
  using assms
proof (cases rule: settle_cases)
  case (again invoice)
  then show ?thesis
    by (auto simp: settled_or_refunded_def dest!: fetch_optional_Some)
next
  case (append invoice r)
  note i = fetch_optional_Some [OF append(1)]
  from append(5) obtain row and np :: u64 and n m u ob where row: "entry_row_of x entry (i_id invoice) t = Ok row"
    and rows: "sql_update invoice_check invoice_conflict (\<lambda>i. i_id i = i_id invoice) (mark_settled x t) (invoices db) = Ok (invoices db', n)"
    and db': "db' = db\<lparr>entries := entries db @ [row], invoices := invoices db', raffles := raffles db',
      audit_events := u, outbox_events := ob\<rparr>"
    by (rule append_entry_Ok)
  have "entries db' = entries db @ [row]"
    by (subst db') simp
  moreover have "e_invoice_id row = iid"
    using entry_row_ids [OF row] i by simp
  moreover have "mark_settled x t invoice \<in> set (invoices db')"
    using rows i by (auto simp: sql_update_Ok set_set_where)
  ultimately show ?thesis
    using i unfolding settled_or_refunded_def
    by (intro disjI1 conjI bexI [of _ "mark_settled x t invoice"] bexI [of _ row]) (simp_all add: mark_settled_def)
qed

lemma late_settlement_done:
  assumes "mark_late_settlement_for_refund x ids now iid db = Ok (fid, db')"
  shows "settled_or_refunded iid db'"
proof -
  obtain i rows' n t b f where i: "i \<in> set (invoices db)" "i_id i = iid"
    and rows: "(if i_status i = InvPending
        then sql (sql_update invoice_check invoice_conflict (\<lambda>i. i_id i = iid) (\<lambda>i. i\<lparr>i_status := InvIneligible\<rparr>) (invoices db))
        else Ok (invoices db, 0)) = Ok (rows', n)"
    and f: "f \<in> set t" "f_invoice_id f = iid" "f_reason f = LateSettlement"
    and db': "invoices db' = rows'" "refunds db' = t"
    using assms
    by (auto simp: mark_late_settlement_for_refund_def bindR_eq_Ok ok_or_eq_Ok map_err_eq_Ok fetch_one_Ok
        dest!: fetch_optional_Some elim!: write_audit_Ok)
  have "(if i_status i = InvPending then i\<lparr>i_status := InvIneligible\<rparr> else i) \<in> set rows'"
    using rows i by (auto simp: map_err_eq_Ok sql_update_Ok set_set_where split: if_splits)
  then have "\<exists>i \<in> set (invoices db'). i_id i = iid \<and> i_status i \<noteq> InvPending"
    using i(2) unfolding db'
    by (intro bexI [of _ "if i_status i = InvPending then i\<lparr>i_status := InvIneligible\<rparr> else i"]) auto
  with f show ?thesis
    by (auto simp: settled_or_refunded_def db')
qed

lemma settle_or_refund_done:
  assumes "settle_or_refund env iid v = (Ok (), z)"
  shows "settled_or_refunded iid (wd_db z)"
proof -
  let ?settle = "\<lambda>k. settle_invoice_and_append_entry (we_x env) (we_ids env k) (we_now env k) iid (entry_uuid env k) (we_clock env k)"
  obtain q u where q: "transact env ?settle v = (q, u)"
    by (cases "transact env ?settle v")
  show ?thesis
  proof (cases q)
    case (Inl e)
    then have "e = RaffleNotOpen" and "bindW (storeW env (\<lambda>k. mark_late_settlement_for_refund (we_x env) (we_ids env k) (we_now env k) iid))
        (\<lambda>_. returnW ()) u = (Ok (), z)"
      using assms unfolding settle_or_refund_def q by (auto split: PersistenceError.splits)
    then show ?thesis
      by (auto simp: process_Ok returnW_def intro: late_settlement_done)
  next
    case (Inr entry)
    have "storeW env ?settle v = (Ok entry, u)"
      by (simp add: storeE_def q Inr)
    then show ?thesis
      using assms unfolding settle_or_refund_def q by (auto simp: Inr storeE_Ok intro: settle_invoice_done)
  qed
qed

lemma payment_reconcile_done:
  assumes "payment_reconcile env services job v = (Ok (), z)"
  shows "reconcile_done env services job v z"
proof -
  let ?u = "v\<lparr>wd_db := first_seen env v, wd_calls := Suc (wd_calls v)\<rparr>"
  obtain iid found where iid: "job_names env ''invoice_id'' job iid"
      "collection_payment_reference iid (first_seen env v) = Ok found"
    and rest: "(case found of None \<Rightarrow> returnW ()
       | Some reference \<Rightarrow> bindW (askW (\<lambda>k. map_err payment_error_text (pv_get_payment (ws_provider services) k reference)))
           (\<lambda>status. case pst_state status of PmtSettled \<Rightarrow> settle_or_refund env iid
              | PmtPending \<Rightarrow> liftW (Err ''payment is not settled yet'')
              | _ \<Rightarrow> storeW env (\<lambda>k. mark_collection_uncollectible iid))) ?u = (Ok (), z)"
    using assms unfolding payment_reconcile_def by (auto simp: handler_Ok first_seen_def)
  show ?thesis
  proof (cases found)
    case None
    then show ?thesis
      using iid rest by (auto simp: reconcile_done_def returnW_def)
  next
    case (Some reference)
    let ?t = "?u\<lparr>wd_calls := Suc (Suc (wd_calls v))\<rparr>"
    obtain status where status: "pv_get_payment (ws_provider services) (Suc (wd_calls v)) reference = Ok status"
      and handled: "(case pst_state status of PmtSettled \<Rightarrow> settle_or_refund env iid
              | PmtPending \<Rightarrow> liftW (Err ''payment is not settled yet'')
              | _ \<Rightarrow> storeW env (\<lambda>k. mark_collection_uncollectible iid)) ?t = (Ok (), z)"
      using rest by (auto simp: Some process_Ok map_err_eq_Ok)
    have "case pst_state status of PmtSettled \<Rightarrow> settled_or_refunded iid (wd_db z) | PmtPending \<Rightarrow> False
        | _ \<Rightarrow> let db = we_others env (wd_calls v + 2) (first_seen env v) in
            wd_db z = db\<lparr>invoices := set_where (\<lambda>i. i_id i = iid \<and> i_status i = InvPending)
              (\<lambda>i. i\<lparr>i_status := InvCollectionFailed\<rparr>) (invoices db)\<rparr>"
      using handled settle_or_refund_done
      by (cases "pst_state status")
         (auto simp: process_Ok mark_collection_uncollectible_def bindR_eq_Ok map_err_eq_Ok sql_update_Ok Let_def)
    with iid status show ?thesis
      unfolding reconcile_done_def by (intro exI [of _ iid] exI [of _ found]) (auto simp: Some)
  qed
qed

lemma reconcile_work_done:
  assumes "reconcile_payment fuel env services worker_id job v = Some (Ok (), z)"
  shows "work_done env services job v z"
  using assms raffle_draw_done proof_generate_done payout_execute_done raffle_close_done payment_reconcile_done
  by (auto simp: reconcile_payment_def work_done_def split: if_splits)

section \<open>The row of the job\<close>

definition held_job :: "string \<Rightarrow> ClaimedJob \<Rightarrow> job_row \<Rightarrow> bool" where
  "held_job worker_id job j \<longleftrightarrow> j_id j = cj_id job \<and> j_status j = Running \<and> j_lease_owner j = Some worker_id"

definition retried_job :: "timestamp \<Rightarrow> ClaimedJob \<Rightarrow> string \<Rightarrow> job_row \<Rightarrow> job_row" where
  "retried_job now job error j =
     j\<lparr>j_status := (if cj_attempts job \<ge> cj_max_attempts job then Dead else Queued), j_available_at := now + seconds 15,
       j_lease_owner := None, j_lease_expires_at := None, j_last_error := Some error, j_updated_at := now\<rparr>"

text \<open>The second call of a turn takes a job that was due and free, and puts it on record as running under the worker's lease.\<close>

definition takes_job :: "world_env \<Rightarrow> string \<Rightarrow> world \<Rightarrow> ClaimedJob \<Rightarrow> world \<Rightarrow> bool" where
  "takes_job env worker_id w job v \<longleftrightarrow>
     (let k = Suc (wd_calls w) in wd_calls v = Suc k \<and> wd_paid v = wd_paid w \<and>
        (\<exists>j. job_claimable (we_now env k) j \<and> \<not> we_job_locked env k j \<and>
           job = claimed_job (we_now env k + seconds 60) (running_job worker_id (we_now env k) j) \<and>
           running_job worker_id (we_now env k) j \<in> set (jobs (wd_db v))))"

text \<open>
  The last call of a turn changes the row of the job, if the worker still holds it, and nothing else: a lease
  that was lost in the meantime leaves the job to the worker that has it now.
\<close>

definition marks_job :: "world_env \<Rightarrow> string \<Rightarrow> ClaimedJob \<Rightarrow> (job_row \<Rightarrow> job_row) \<Rightarrow> world \<Rightarrow> world \<Rightarrow> bool" where
  "marks_job env worker_id job f z w' \<longleftrightarrow>
     (let db = we_others env (wd_calls z) (wd_db z) in
        jobs_ok (jobs db) \<longrightarrow> wd_db w' = db\<lparr>jobs := set_where (held_job worker_id job) f (jobs db)\<rparr>)"

lemma marked_update:
  assumes "jobs_ok js" and "\<And>j. job_check j \<Longrightarrow> job_check (f j)" and "\<And>i j. job_conflict (f i) j \<longleftrightarrow> job_conflict i j"
  shows "sql_update job_check job_conflict (held_job worker_id job) f js =
      Ok (set_where (held_job worker_id job) f js, length (filter (held_job worker_id job) js))"
    and "length (filter (held_job worker_id job) js) \<noteq> 1 \<Longrightarrow> set_where (held_job worker_id job) f js = js"
proof -
  show "sql_update job_check job_conflict (held_job worker_id job) f js =
      Ok (set_where (held_job worker_id job) f js, length (filter (held_job worker_id job) js))"
    using assms(1) unfolding jobs_ok_def
    by (rule jobs_tbl.update_succeeds) (use assms in \<open>auto simp: jobs_ok_def table_ok_def\<close>)
  assume other: "length (filter (held_job worker_id job) js) \<noteq> 1"
  have "length (filter (held_job worker_id job) js) \<le> 1"
    using assms(1) unfolding jobs_ok_def
    by (rule jobs_tbl.affected_le_1) (simp add: held_job_def job_conflict_def)
  with other have "filter (held_job worker_id job) js = []"
    by (cases "filter (held_job worker_id job) js") simp_all
  then show "set_where (held_job worker_id job) f js = js"
    by (intro set_where_cong) (auto simp: filter_empty_conv)
qed

lemma succeed_marks:
  "marks_job env worker_id job (succeeded_job (we_now env (wd_calls z))) z
     (snd (transact env (\<lambda>k. succeed (we_now env k) (cj_id job) worker_id) z))"
proof -
  let ?db = "we_others env (wd_calls z) (wd_db z)" and ?f = "succeeded_job (we_now env (wd_calls z))"
  have "wd_db (snd (transact env (\<lambda>k. succeed (we_now env k) (cj_id job) worker_id) z)) =
      ?db\<lparr>jobs := set_where (held_job worker_id job) ?f (jobs ?db)\<rparr>" if ok: "jobs_ok (jobs ?db)"
  proof -
    have f: "job_check j \<Longrightarrow> job_check (?f j)" "job_conflict (?f i) j \<longleftrightarrow> job_conflict i j" for i j
      by (simp_all add: succeeded_job_def job_check_def job_conflict_def)
    note upd = marked_update [OF ok f, of worker_id job]
    show ?thesis
      using upd by (auto simp: transact_def Let_def succeed_def held_job_def [abs_def] succeeded_job_def [abs_def])
  qed
  then show ?thesis
    by (simp add: marks_job_def Let_def)
qed

lemma retry_marks:
  "marks_job env worker_id job (retried_job (we_now env (wd_calls z)) job e) z
     (snd (transact env (\<lambda>k. fail_or_retry (we_now env k) job worker_id 15 e) z))"
proof -
  let ?db = "we_others env (wd_calls z) (wd_db z)" and ?f = "retried_job (we_now env (wd_calls z)) job e"
  have "wd_db (snd (transact env (\<lambda>k. fail_or_retry (we_now env k) job worker_id 15 e) z)) =
      ?db\<lparr>jobs := set_where (held_job worker_id job) ?f (jobs ?db)\<rparr>" if ok: "jobs_ok (jobs ?db)"
  proof -
    have f: "job_check j \<Longrightarrow> job_check (?f j)" "job_conflict (?f i) j \<longleftrightarrow> job_conflict i j" for i j
      by (simp_all add: retried_job_def job_check_def job_conflict_def)
    note upd = marked_update [OF ok f, of worker_id job]
    show ?thesis
      using upd by (auto simp: transact_def Let_def fail_or_retry_def held_job_def [abs_def] retried_job_def [abs_def])
  qed
  then show ?thesis
    by (simp add: marks_job_def Let_def)
qed

section \<open>Turns\<close>

lemma transact_Ok:
  "transact env op w = (Ok a, v) \<longleftrightarrow>
     (\<exists>db'. op (wd_calls w) (we_others env (wd_calls w) (wd_db w)) = Ok (a, db') \<and> v = w\<lparr>wd_db := db', wd_calls := Suc (wd_calls w)\<rparr>)"
  by (auto simp: transact_def Let_def split: sum.splits prod.splits)

lemma claim_takes_job:
  assumes "transact env (\<lambda>k. claim_job (we_job_locked env k) (we_now env k) worker_id 60) v = (Ok (Some job), u)"
    and "wd_calls v = Suc (wd_calls w)" and "wd_paid v = wd_paid w"
  shows "takes_job env worker_id w job u"
proof -
  let ?k = "wd_calls v"
  have claim: "claim_job (we_job_locked env ?k) (we_now env ?k) worker_id 60 (we_others env ?k (wd_db v)) = Ok (Some job, wd_db u)"
    and u: "wd_calls u = Suc ?k" "wd_paid u = wd_paid v"
    using assms(1) by (auto simp: transact_Ok)
  from claim obtain j where j: "candidate (job_claimable (we_now env ?k)) (we_job_locked env ?k) j_available_at
      (sort_key j_created_at (jobs (we_others env ?k (wd_db v)))) = Some j"
    and db: "wd_db u = (we_others env ?k (wd_db v))\<lparr>jobs := set_where (\<lambda>r. j_id r = j_id j)
      (job_take_lease (we_now env ?k) worker_id (we_now env ?k + seconds 60)) (jobs (we_others env ?k (wd_db v)))\<rparr>"
    and job: "job = claimed_job (we_now env ?k + seconds 60) (job_take_lease (we_now env ?k) worker_id (we_now env ?k + seconds 60) j)"
    by (rule claim_job_Some)
  have "running_job worker_id (we_now env ?k) j \<in> set (jobs (wd_db u))"
    using candidate_Some(1) [OF j] by (auto simp: db set_set_where running_job_def)
  with candidate_Some(2,3) [OF j] u job assms(2,3) show ?thesis
    by (auto simp: takes_job_def running_job_def)
qed

lemma claim_finds_nothing:
  assumes "transact env (\<lambda>k. claim_job (we_job_locked env k) (we_now env k) worker_id 60) v = (Ok None, u)"
  shows "\<forall>j \<in> set (jobs (wd_db u)). job_claimable (we_now env (wd_calls v)) j \<longrightarrow> we_job_locked env (wd_calls v) j"
proof -
  let ?k = "wd_calls v"
  have claim: "claim_job (we_job_locked env ?k) (we_now env ?k) worker_id 60 (we_others env ?k (wd_db v)) = Ok (None, wd_db u)"
    using assms by (auto simp: transact_Ok)
  then have "candidate (job_claimable (we_now env ?k)) (we_job_locked env ?k) j_available_at
      (sort_key j_created_at (jobs (we_others env ?k (wd_db v)))) = None"
    by (auto simp: claim_job_def Let_def bindR_eq_Ok split: option.splits)
  then show ?thesis
    unfolding claim_job_None [OF claim] candidate_None by simp
qed

text \<open>What the outcome that a turn reports stands for.\<close>

fun turn_outcome ::
  "nat \<Rightarrow> world_env \<Rightarrow> WorkerServices \<Rightarrow> string \<Rightarrow> world \<Rightarrow> Turn \<Rightarrow> world \<Rightarrow> bool" where
  "turn_outcome fuel env services worker_id w Idle w' \<longleftrightarrow>
     (\<forall>j \<in> set (jobs (wd_db w')). job_claimable (we_now env (Suc (wd_calls w))) j \<longrightarrow> we_job_locked env (Suc (wd_calls w)) j)"
| "turn_outcome fuel env services worker_id w ClaimFailed w' \<longleftrightarrow> wd_calls w' = wd_calls w + 2"
| "turn_outcome fuel env services worker_id w Finished w' \<longleftrightarrow>
     (\<exists>job v z. takes_job env worker_id w job v \<and>
        reconcile_payment fuel env services worker_id job v = Some (Ok (), z) \<and> work_done env services job v z \<and>
        marks_job env worker_id job (succeeded_job (we_now env (wd_calls z))) z w')"
| "turn_outcome fuel env services worker_id w (Rescheduled e) w' \<longleftrightarrow>
     (\<exists>job v z. takes_job env worker_id w job v \<and>
        reconcile_payment fuel env services worker_id job v = Some (Err (Failed e), z) \<and>
        marks_job env worker_id job (retried_job (we_now env (wd_calls z)) job e) z w')"
| "turn_outcome fuel env services worker_id w (Crashed m) w' \<longleftrightarrow>
     (\<exists>job v. takes_job env worker_id w job v \<and> reconcile_payment fuel env services worker_id job v = Some (Err (Panic m), w'))"

text \<open>C9. A turn of the executor does the job it takes, whatever the payment provider, the Bitcoin source, the resolver and the
  object store answer and whatever other processes commit in between. It reports a job as finished only when its work is
  in the database, on the right evidence: a raffle was closed while no invoice was pending, drawn from confirmed blocks that
  were canonical, paid until nothing was left to claim, proven by what the object store accepted; an invoice was
  settled or refunded only when the provider says that it is paid, and given up only when it says that it cannot be. Then the row
  of the job is marked as succeeded; after an error it waits 15 seconds for its next attempt, or is dead after
  the last one, with the error; a lost lease changes neither. The turn as a whole is a run of transactions of
  the store, so that every ledger stays valid and every payout accounted for.\<close>

theorem turn_does_its_job:
  assumes "env_ok env" and "\<forall>source. ws_bitcoin services = Some source \<longrightarrow> source_ok source"
    and "db_ok (we_x env) (wd_db w)" and "run_turn fuel env services worker_id w = Some (t, w')"
  shows "turn_outcome fuel env services worker_id w t w' \<and>
    reachable (db_step (we_x env)) (wd_db w) (wd_db w') \<and> db_ok (we_x env) (wd_db w')"
proof -
  let ?v = "snd (transact env (\<lambda>k. schedule_due_closes (we_x env) (we_ids env k) (we_now env k)) w)"
  have v: "wd_calls ?v = Suc (wd_calls w)" "wd_paid ?v = wd_paid w"
    by (auto simp: transact_def Let_def split: sum.splits prod.splits)
  obtain c u where c: "transact env (\<lambda>k. claim_job (we_job_locked env k) (we_now env k) worker_id 60) ?v = (c, u)"
    by (cases "transact env (\<lambda>k. claim_job (we_job_locked env k) (we_now env k) worker_id 60) ?v")
  have u: "wd_calls u = wd_calls w + 2" "wd_paid u = wd_paid w"
    using transact_forward [OF c] v by simp_all
  have "turn_outcome fuel env services worker_id w t w'"
  proof (cases "\<exists>job. c = Ok (Some job)")
    case True
    then obtain job where job: "c = Ok (Some job)"
      by blast
    have taken: "takes_job env worker_id w job u"
      using c [unfolded job] v by (rule claim_takes_job)
    obtain r z where rec: "reconcile_payment fuel env services worker_id job u = Some (r, z)"
      using assms(4) by (auto simp: run_turn_def Let_def c job split: option.splits prod.splits)
    note turn = assms(4) [unfolded run_turn_def Let_def c job prod.case sum.case option.case rec]
    show ?thesis
    proof (cases r)
      case (Inl a)
      then show ?thesis
      proof (cases a)
        case (Failed e)
        then have t: "t = Rescheduled e" and "w' = snd (transact env (\<lambda>k. fail_or_retry (we_now env k) job worker_id 15 e) z)"
          using turn Inl by auto
        with taken rec [unfolded Inl Failed] retry_marks [of env worker_id job z e] show ?thesis
          unfolding t turn_outcome.simps by blast
      next
        case (Panic m)
        then have t: "t = Crashed m" and "w' = z"
          using turn Inl by auto
        with taken rec [unfolded Inl Panic] show ?thesis
          unfolding t turn_outcome.simps by blast
      qed
    next
      case (Inr x)
      then have t: "t = Finished" and w': "w' = snd (transact env (\<lambda>k. succeed (we_now env k) (cj_id job) worker_id) z)"
        and rec': "reconcile_payment fuel env services worker_id job u = Some (Ok (), z)"
        using turn rec by auto
      with taken reconcile_work_done [OF rec'] succeed_marks [of env worker_id job z] rec' show ?thesis
        unfolding t turn_outcome.simps by blast
    qed
  next
    case False
    show ?thesis
    proof (cases c)
      case (Inl e)
      then show ?thesis
        using assms(4) u by (auto simp: run_turn_def Let_def c)
    next
      case (Inr found)
      with False have "c = Ok None"
        by (cases found) auto
      then show ?thesis
        using assms(4) claim_finds_nothing [of env worker_id ?v u] c v by (auto simp: run_turn_def Let_def)
    qed
  qed
  then show ?thesis
    using run_turn_run [OF assms] db_run_ok [OF assms(1) run_turn_run [OF assms] assms(3)] by (simp add: db_run_def)
qed

text \<open>The first turn of the sample pipeline closes the raffle.\<close>

theorem turn_does_its_job_witness:
  "\<exists>w' job v z. run_turn 4 pipeline_env pipeline_services ''w1'' (sample_world pipeline_db) = Some (Finished, w') \<and>
     takes_job pipeline_env ''w1'' (sample_world pipeline_db) job v \<and> work_done pipeline_env pipeline_services job v z \<and>
     db_ok sample_ext (wd_db w')"
proof -
  obtain w' where run: "run_turn 4 pipeline_env pipeline_services ''w1'' (sample_world pipeline_db) = Some (Finished, w')"
    by (rule pipeline_turns)
  have "env_ok pipeline_env" "\<forall>source. ws_bitcoin pipeline_services = Some source \<longrightarrow> source_ok source"
    "db_ok (we_x pipeline_env) (wd_db (sample_world pipeline_db))"
    using pipeline_orderly chain_source_ok [OF pipeline_chain] pipeline_ready(1) by (simp_all add: orderly_def pipeline_services_def)
  from turn_does_its_job [OF this run] run show ?thesis
    by auto
qed

end
