(* ===== verification/Oidc.thy ===== *)
theory Oidc
  imports Text
begin

text \<open>
  Sign-in at the identity provider, \<open>crates/openpool-api/src/oidc.rs\<close>: the authorization-code flow with
  PKCE and the mapping of Keycloak claims to the roles the API knows. The crates \<open>openidconnect\<close>,
  \<open>base64\<close>, \<open>url\<close> and \<open>serde_json\<close> are parameters, gathered in a record whose type variables stand for the
  provider metadata, the client, the token request, the token response, the ID token and its claims.
\<close>

section \<open>Data\<close>

record OidcSettings =
  od_issuer :: string
  od_client_id :: string
  od_client_secret :: "string option"
  od_redirect_url :: string

record AuthorizationStart =
  as_authorization_url :: string
  as_state :: string
  as_nonce :: string
  as_pkce_verifier :: string

record AuthenticatedIdentity =
  ai_subject :: string
  ai_roles :: "string list"

datatype OidcError =
    OidcConfiguration string
  | OidcDiscovery string
  | OidcExchange string
  | OidcMissingIdToken
  | OidcTokenValidation string

fun oidc_error_text :: "OidcError \<Rightarrow> string" where
  "oidc_error_text (OidcConfiguration e) = ''OIDC configuration is invalid: '' @ e"
| "oidc_error_text (OidcDiscovery e) = ''OIDC discovery failed: '' @ e"
| "oidc_error_text (OidcExchange e) = ''OIDC token exchange failed: '' @ e"
| "oidc_error_text OidcMissingIdToken = ''OIDC token response did not include an ID token''"
| "oidc_error_text (OidcTokenValidation e) = ''OIDC ID token validation failed: '' @ e"

record RealmAccess =
  ra_roles :: "string list"

record KeycloakClaims =
  kc_groups :: "string list"
  kc_realm_access :: RealmAccess

section \<open>Roles\<close>

definition supported_role :: "string \<Rightarrow> string option" where
  "supported_role role =
     (if role = ''organizer'' \<or> role = ''openpool-organizer'' then Some ''organizer''
      else if role = ''operator'' \<or> role = ''openpool-operator'' then Some ''operator''
      else None)"

definition keycloak_roles ::
  "(string \<Rightarrow> string + bytes) \<Rightarrow> (bytes \<Rightarrow> string + KeycloakClaims) \<Rightarrow> string \<Rightarrow> OidcError + string list" where
  "keycloak_roles base64url from_slice raw_token =
     bindR (ok_or (case split_on (CHR ''.'') raw_token of _ # payload # _ \<Rightarrow> Some payload | _ \<Rightarrow> None)
         (OidcTokenValidation ''ID token is not a JWT'')) (\<lambda>payload.
     bindR (map_err OidcTokenValidation (base64url payload)) (\<lambda>bs.
     bindR (map_err OidcTokenValidation (from_slice bs)) (\<lambda>claims.
       Ok (List.map_filter supported_role (kc_groups claims @ ra_roles (kc_realm_access claims))))))"

section \<open>The adapter\<close>

record ('md, 'client, 'request, 'token, 'id_token, 'claims) openid =
  oi_issuer_url :: "string \<Rightarrow> string + string"
  oi_discover :: "string \<Rightarrow> string + 'md"
  oi_redirect_url :: "string \<Rightarrow> string + string"
  oi_client :: "'md \<Rightarrow> string \<Rightarrow> string option \<Rightarrow> string \<Rightarrow> 'client"
  oi_code_challenge :: "string \<Rightarrow> string"
  oi_authorize_url :: "nat \<Rightarrow> 'client \<Rightarrow> string list \<Rightarrow> string \<Rightarrow> string \<times> string \<times> string"
  oi_exchange_code :: "'client \<Rightarrow> string \<Rightarrow> string + 'request"
  oi_request :: "nat \<Rightarrow> 'request \<Rightarrow> string \<Rightarrow> string + 'token"
  oi_id_token :: "'token \<Rightarrow> 'id_token option"
  oi_claims :: "'client \<Rightarrow> string \<Rightarrow> 'id_token \<Rightarrow> string + 'claims"
  oi_id_token_text :: "'id_token \<Rightarrow> string"
  oi_subject :: "'claims \<Rightarrow> string"
  oi_base64url :: "string \<Rightarrow> string + bytes"
  oi_keycloak_claims :: "bytes \<Rightarrow> string + KeycloakClaims"

record 'md OidcProvider =
  op_metadata :: 'md
  op_settings :: OidcSettings

definition discover ::
  "('md, 'client, 'request, 'token, 'id_token, 'claims) openid \<Rightarrow> OidcSettings \<Rightarrow> OidcError + 'md OidcProvider" where
  "discover lib settings =
     bindR (map_err OidcConfiguration (oi_issuer_url lib (od_issuer settings))) (\<lambda>issuer.
     bindR (map_err OidcDiscovery (oi_discover lib issuer)) (\<lambda>metadata.
       Ok \<lparr>op_metadata = metadata, op_settings = settings\<rparr>))"

text \<open>\<open>CoreClient::from_provider_metadata(..).set_redirect_uri(..)\<close>.\<close>

definition core_client ::
  "('md, 'client, 'request, 'token, 'id_token, 'claims) openid \<Rightarrow> 'md OidcProvider \<Rightarrow> OidcError + 'client" where
  "core_client lib self =
     bindR (map_err OidcConfiguration (oi_redirect_url lib (od_redirect_url (op_settings self)))) (\<lambda>redirect.
       Ok (oi_client lib (op_metadata self) (od_client_id (op_settings self)) (od_client_secret (op_settings self)) redirect))"

text \<open>The verifier is the text of two fresh identifiers; state and nonce come from the library's random source.\<close>

definition begin_authorization ::
  "('md, 'client, 'request, 'token, 'id_token, 'claims) openid \<Rightarrow> (uuid \<Rightarrow> string) \<Rightarrow> (nat \<Rightarrow> nat \<Rightarrow> uuid) \<Rightarrow> 'md OidcProvider
     \<Rightarrow> nat \<Rightarrow> OidcError + AuthorizationStart" where
  "begin_authorization lib uuid_text ids self k =
     (let verifier = uuid_text (ids k 0) @ uuid_text (ids k 1);
          challenge = oi_code_challenge lib verifier in
      bindR (core_client lib self) (\<lambda>client.
        case oi_authorize_url lib k client [''openid'', ''profile''] challenge of
          (url, state, nonce) \<Rightarrow>
            Ok \<lparr>as_authorization_url = url, as_state = state, as_nonce = nonce, as_pkce_verifier = verifier\<rparr>))"

definition exchange_code ::
  "('md, 'client, 'request, 'token, 'id_token, 'claims) openid \<Rightarrow> 'md OidcProvider
     \<Rightarrow> nat \<Rightarrow> string \<Rightarrow> string \<Rightarrow> string \<Rightarrow> OidcError + AuthenticatedIdentity" where
  "exchange_code lib self k code verifier nonce =
     bindR (core_client lib self) (\<lambda>client.
     bindR (map_err OidcExchange (oi_exchange_code lib client code)) (\<lambda>request.
     bindR (map_err OidcExchange (oi_request lib k request verifier)) (\<lambda>token.
     bindR (ok_or (oi_id_token lib token) OidcMissingIdToken) (\<lambda>id_token.
     bindR (map_err OidcTokenValidation (oi_claims lib client nonce id_token)) (\<lambda>claims.
     bindR (keycloak_roles (oi_base64url lib) (oi_keycloak_claims lib) (oi_id_token_text lib id_token)) (\<lambda>roles.
       Ok \<lparr>ai_subject = oi_subject lib claims, ai_roles = roles\<rparr>))))))"

text \<open>What the HTTP handlers use of an adapter.\<close>

record OidcAdapter =
  oa_begin_authorization :: "nat \<Rightarrow> OidcError + AuthorizationStart"
  oa_exchange_code :: "nat \<Rightarrow> string \<Rightarrow> string \<Rightarrow> string \<Rightarrow> OidcError + AuthenticatedIdentity"

definition oidc_adapter ::
  "('md, 'client, 'request, 'token, 'id_token, 'claims) openid \<Rightarrow> (uuid \<Rightarrow> string) \<Rightarrow> (nat \<Rightarrow> nat \<Rightarrow> uuid) \<Rightarrow> 'md OidcProvider
     \<Rightarrow> OidcAdapter" where
  "oidc_adapter lib uuid_text ids self =
     \<lparr>oa_begin_authorization = begin_authorization lib uuid_text ids self, oa_exchange_code = exchange_code lib self\<rparr>"

section \<open>Lemmas\<close>

text \<open>A signed-in identity only carries roles that a claim of its token names.\<close>

lemma supported_role_Some:
  "supported_role c = Some r \<longleftrightarrow>
     (r = ''organizer'' \<and> c \<in> {''organizer'', ''openpool-organizer''}) \<or> (r = ''operator'' \<and> c \<in> {''operator'', ''openpool-operator''})"
  by (auto simp: supported_role_def)

lemma keycloak_roles_claimed:
  assumes "keycloak_roles b64 from_slice token = Ok roles" and "r \<in> set roles"
  obtains payload bs claims c where "b64 payload = Ok bs" and "from_slice bs = Ok claims"
    and "c \<in> set (kc_groups claims) \<union> set (ra_roles (kc_realm_access claims))" and "supported_role c = Some r"
  using assms by (auto simp: keycloak_roles_def bindR_eq_Ok map_err_eq_Ok List.map_filter_def) blast+

end
