(* ===== verification/Api.thy ===== *)
theory Api
  imports Process Address_Cipher Oidc
begin

text \<open>
  The HTTP interface, \<open>crates/openpool-api/src/lib.rs\<close>: errors and their responses, authentication, one
  handler per route, and the routing table. A handler is a process on the store (theory Process); a request
  is what the extractors of the web framework (crate \<open>axum\<close>) hand to a handler, and a reply what a
  handler returns to it. JSON and RFC 3339 parsing, HMAC, hex and the AEAD are parameters.
\<close>

section \<open>Errors\<close>

record ApiError =
  er_status :: u16
  er_code :: string
  er_message :: string

definition bad :: "string \<Rightarrow> ApiError" where
  "bad error = \<lparr>er_status = 400, er_code = ''validation_error'', er_message = error\<rparr>"

definition forbidden :: "string \<Rightarrow> ApiError" where
  "forbidden message = \<lparr>er_status = 403, er_code = ''forbidden'', er_message = message\<rparr>"

definition provider :: "string \<Rightarrow> ApiError" where
  "provider message = \<lparr>er_status = 502, er_code = ''provider_error'', er_message = message\<rparr>"

definition internal :: "string \<Rightarrow> ApiError" where
  "internal message = \<lparr>er_status = 500, er_code = ''internal_error'', er_message = message\<rparr>"

definition unavailable :: "string \<Rightarrow> ApiError" where
  "unavailable message = \<lparr>er_status = 503, er_code = ''dependency_unavailable'', er_message = message\<rparr>"

text \<open>A handler ends with a reply, with an error that becomes a response, or with a panic.\<close>

datatype Failure = Refused ApiError | Crash string

type_synonym 'a api = "(Failure, 'a) process"

text \<open>\<open>From<PersistenceError> for ApiError\<close>.\<close>

definition api_error_of :: "world_env \<Rightarrow> PersistenceError \<Rightarrow> Failure" where
  "api_error_of env e =
     (case e of
        Panicked m \<Rightarrow> Crash m
      | NotFound _ \<Rightarrow> Refused \<lparr>er_status = 404, er_code = ''not_found'', er_message = persistence_error_text (we_sql_text env) e\<rparr>
      | _ \<Rightarrow> Refused \<lparr>er_status = 409, er_code = ''conflict'', er_message = persistence_error_text (we_sql_text env) e\<rparr>)"

record Problem =
  pb_status :: u16
  pb_code :: string
  pb_detail :: string
  pb_request_id :: uuid

definition into_response :: "uuid \<Rightarrow> ApiError \<Rightarrow> u16 \<times> Problem" where
  "into_response request_id e =
     (er_status e, \<lparr>pb_status = er_status e, pb_code = er_code e, pb_detail = er_message e, pb_request_id = request_id\<rparr>)"

abbreviation liftA :: "ApiError + 'a \<Rightarrow> 'a api" where
  "liftA r \<equiv> liftE (map_err Refused r)"

abbreviation askA :: "(nat \<Rightarrow> ApiError + 'a) \<Rightarrow> 'a api" where
  "askA f \<equiv> askE (\<lambda>k. map_err Refused (f k))"

abbreviation storeA :: "world_env \<Rightarrow> (nat \<Rightarrow> db \<Rightarrow> PersistenceError + 'a \<times> db) \<Rightarrow> 'a api" where
  "storeA env \<equiv> storeE (api_error_of env) env"

section \<open>State and libraries\<close>

type_synonym HeaderMap = "(string \<times> string) list"

text \<open>The cipher is its key; the provider and the adapter are what the handlers call of them.\<close>

record ApiState =
  st_payment_provider :: PaymentProvider
  st_address_cipher :: bytes
  st_mavapay_webhook_secret :: "bytes option"
  st_development_identity_enabled :: bool
  st_oidc :: "OidcAdapter option"
  st_secure_session_cookie :: bool

record ApiLibrary =
  al_aead :: aead
  al_nonce :: "nat \<Rightarrow> bytes"
  al_hex_decode :: "string \<Rightarrow> string + bytes"
  al_hmac :: "bytes \<Rightarrow> bytes \<Rightarrow> bytes"
  al_from_slice :: "bytes \<Rightarrow> string + json"
  al_parse_rfc3339 :: "string \<Rightarrow> string + timestamp"

definition hash :: "world_env \<Rightarrow> bytes \<Rightarrow> Hash32" where
  "hash env v = x_sha (we_x env) v"

text \<open>\<open>Uuid::new_v4()\<close>, \<open>OffsetDateTime::now_utc()\<close> and encryption under a fresh nonce.\<close>

definition new_uuid :: "world_env \<Rightarrow> uuid api" where
  "new_uuid env = askE (\<lambda>k. Ok (we_ids env k 9))"

definition now_utc :: "world_env \<Rightarrow> timestamp api" where
  "now_utc env = askE (\<lambda>k. Ok (we_clock env k))"

definition encrypt_address :: "ApiLibrary \<Rightarrow> ApiState \<Rightarrow> string \<Rightarrow> bytes api" where
  "encrypt_address lib s address =
     askA (\<lambda>k. ok_or (encrypt (al_aead lib) (st_address_cipher s) (al_nonce lib k) address)
       (internal ''could not encrypt payment address''))"

text \<open>\<open>time::Duration::minutes\<close> and \<open>hours\<close>.\<close>

definition minutes :: "int \<Rightarrow> timestamp" where
  "minutes n = seconds (60 * n)"

definition hours :: "int \<Rightarrow> timestamp" where
  "hours n = minutes (60 * n)"

section \<open>Authentication\<close>

definition session_id_from_headers :: "world_env \<Rightarrow> HeaderMap \<Rightarrow> ApiError + uuid" where
  "session_id_from_headers env headers =
     ok_or (Option.bind (Option.bind (header_str ''cookie'' headers)
         (\<lambda>cookie. find_map (\<lambda>part. strip_prefix ''openpool_session='' (trim part)) (split_on (CHR 0x3B) cookie)))
         (x_uuid_parse (we_x env)))
       (forbidden ''OIDC session cookie is required'')"

text \<open>The live session of an identifier; \<open>oidc_session(id).await?.ok_or_else(..)?\<close>.\<close>

definition live_session :: "world_env \<Rightarrow> uuid \<Rightarrow> OidcSession api" where
  "live_session env session_id =
     bindW (storeA env (\<lambda>k db. reading (Ok (oidc_session (we_now env k) session_id db)) db)) (\<lambda>found.
       liftA (ok_or found (forbidden ''OIDC session is invalid or expired'')))"

definition validate_csrf :: "world_env \<Rightarrow> ApiState \<Rightarrow> HeaderMap \<Rightarrow> unit api" where
  "validate_csrf env s headers =
     (if st_development_identity_enabled s then returnW ()
      else
        bindW (liftA (session_id_from_headers env headers)) (\<lambda>session_id.
        bindW (liftA (ok_or (header_str ''x-openpool-csrf'' headers) (forbidden ''CSRF token is required''))) (\<lambda>token.
        bindW (live_session env session_id) (\<lambda>session.
          if os_csrf_token_hash session \<noteq> as_bytes (hash env (str_bytes token))
          then liftA (Err (forbidden ''CSRF token is invalid''))
          else returnW ()))))"

text \<open>\<open>serde_json::from_value::<Vec<String>>\<close>.\<close>

definition string_list :: "json \<Rightarrow> string list option" where
  "string_list v =
     (case v of JArr items \<Rightarrow> if list_all (\<lambda>i. json_as_str i \<noteq> None) items then Some (List.map_filter json_as_str items) else None
      | _ \<Rightarrow> None)"

definition session_roles :: "OidcSession \<Rightarrow> ApiError + string list" where
  "session_roles session = ok_or (string_list (os_roles session)) (forbidden ''OIDC session roles are invalid'')"

definition identity :: "world_env \<Rightarrow> ApiState \<Rightarrow> HeaderMap \<Rightarrow> OrganizerId api" where
  "identity env s headers =
     (if st_development_identity_enabled s then
        liftA (ok_or (Option.bind (header_str ''x-dev-organizer-id'' headers) (x_uuid_parse (we_x env)))
          (forbidden ''x-dev-organizer-id UUID is required''))
      else
        bindW (liftA (session_id_from_headers env headers)) (\<lambda>session_id.
        bindW (live_session env session_id) (\<lambda>session.
        bindW (liftA (session_roles session)) (\<lambda>roles.
          if ''organizer'' \<notin> set roles then liftA (Err (forbidden ''organizer role is required''))
          else returnW (os_subject session)))))"

definition require_operator :: "world_env \<Rightarrow> ApiState \<Rightarrow> HeaderMap \<Rightarrow> unit api" where
  "require_operator env s headers =
     (if st_development_identity_enabled s then
        liftA (if header_str ''x-dev-operator'' headers = Some ''true'' then Ok ()
               else Err (forbidden ''x-dev-operator: true is required''))
      else
        bindW (liftA (session_id_from_headers env headers)) (\<lambda>session_id.
        bindW (live_session env session_id) (\<lambda>session.
        bindW (liftA (session_roles session)) (\<lambda>roles.
          if ''operator'' \<in> set roles then returnW ()
          else liftA (Err (forbidden ''operator role is required''))))))"

definition active_organizer :: "world_env \<Rightarrow> OrganizerId \<Rightarrow> unit api" where
  "active_organizer env organizer_id =
     bindW (storeA env (\<lambda>k db. reading (Ok (organizer_exists organizer_id db)) db)) (\<lambda>active.
       if \<not> active then liftA (Err (forbidden ''active organizer required'')) else returnW ())"

section \<open>Replies\<close>

datatype ReplyBody =
    NoBody
  | HealthBody string
  | OpenApiBody
  | PageBody
  | RedirectBody string
  | RafflesBody "WireRaffle list"
  | RaffleBody WireRaffle
  | PoolBody PublicPool
  | EntriesBody EntryPage
  | VerificationBody VerificationResult
  | ProofBody ProofDocument
  | MetadataBody PublicProofMetadata
  | ResultBody PublicResult
  | RefundBody PublicRefund
  | InvoiceBody WireInvoice
  | JobsBody "OperatorJob list"
  | IdBody uuid

record Reply =
  rp_status :: u16
  rp_set_cookie :: "string list"
  rp_body :: ReplyBody

definition reply :: "u16 \<Rightarrow> ReplyBody \<Rightarrow> Reply" where
  "reply status body = \<lparr>rp_status = status, rp_set_cookie = [], rp_body = body\<rparr>"

section \<open>Sign-in\<close>

definition login_attempt :: "AuthorizationStart \<Rightarrow> timestamp \<Rightarrow> NewOidcLoginAttempt" where
  "login_attempt start now =
     \<lparr>nl_state = as_state start, nl_nonce = as_nonce start, nl_pkce_verifier = as_pkce_verifier start,
      nl_expires_at = now + minutes 10\<rparr>"

definition oidc_login :: "world_env \<Rightarrow> ApiState \<Rightarrow> Reply api" where
  "oidc_login env s =
     bindW (liftA (ok_or (st_oidc s) (unavailable ''OIDC is not configured''))) (\<lambda>oidc.
     bindW (askA (\<lambda>k. map_err (\<lambda>e. unavailable (oidc_error_text e)) (oa_begin_authorization oidc k))) (\<lambda>start.
     bindW (now_utc env) (\<lambda>now.
     bindW (storeA env (\<lambda>k. create_oidc_login_attempt (we_x env) (login_attempt start now))) (\<lambda>_.
       returnW (reply 307 (RedirectBody (as_authorization_url start)))))))"

text \<open>The first half of the digest as an identifier.\<close>

definition oidc_subject_id :: "world_env \<Rightarrow> string \<Rightarrow> uuid" where
  "oidc_subject_id env subject = foldl (\<lambda>n b. 256 * n + ucast b) 0 (take 16 (as_bytes (hash env (str_bytes subject))))"

definition secure_suffix :: "ApiState \<Rightarrow> string" where
  "secure_suffix s = (if st_secure_session_cookie s then ''; Secure'' else '''')"

definition session_cookie :: "world_env \<Rightarrow> ApiState \<Rightarrow> uuid \<Rightarrow> ApiError + string" where
  "session_cookie env s session_id =
     ok_or (header_from_str (''openpool_session='' @ x_uuid_text (we_x env) session_id @
         ''; HttpOnly; SameSite=Lax; Path=/; Max-Age=28800'' @ secure_suffix s))
       (internal ''could not set session cookie'')"

definition csrf_cookie :: "ApiState \<Rightarrow> string \<Rightarrow> ApiError + string" where
  "csrf_cookie s csrf_token =
     ok_or (header_from_str (''openpool_csrf='' @ csrf_token @ ''; SameSite=Lax; Path=/; Max-Age=28800'' @ secure_suffix s))
       (internal ''could not set CSRF cookie'')"

definition new_session :: "world_env \<Rightarrow> uuid \<Rightarrow> AuthenticatedIdentity \<Rightarrow> string \<Rightarrow> timestamp \<Rightarrow> NewOidcSession" where
  "new_session env session_id ident csrf_token now =
     \<lparr>ns_id = session_id, ns_subject = oidc_subject_id env (ai_subject ident),
      ns_roles = JArr (map JStr (ai_roles ident)),
      ns_csrf_token_hash = as_bytes (hash env (str_bytes csrf_token)), ns_expires_at = now + hours 8\<rparr>"

definition oidc_callback :: "world_env \<Rightarrow> ApiState \<Rightarrow> string \<Rightarrow> string \<Rightarrow> Reply api" where
  "oidc_callback env s code state =
     bindW (liftA (ok_or (st_oidc s) (unavailable ''OIDC is not configured''))) (\<lambda>oidc.
     bindW (storeA env (\<lambda>k db. Ok (consume_oidc_login_attempt (we_now env k) state db))) (\<lambda>found.
     bindW (liftA (ok_or found (forbidden ''OIDC state is invalid or expired''))) (\<lambda>attempt.
     bindW (askA (\<lambda>k. map_err (\<lambda>e. forbidden (''OIDC callback was rejected: '' @ oidc_error_text e))
         (oa_exchange_code oidc k code (ol_pkce_verifier attempt) (ol_nonce attempt)))) (\<lambda>ident.
     bindW (new_uuid env) (\<lambda>session_id.
     bindW (new_uuid env) (\<lambda>csrf_id.
     let csrf_token = x_uuid_text (we_x env) csrf_id in
     bindW (now_utc env) (\<lambda>now.
     bindW (storeA env (\<lambda>k. create_oidc_session (we_x env) (new_session env session_id ident csrf_token now))) (\<lambda>_.
     bindW (liftA (session_cookie env s session_id)) (\<lambda>first.
     bindW (liftA (csrf_cookie s csrf_token)) (\<lambda>second.
       returnW \<lparr>rp_status = 303, rp_set_cookie = [first, second], rp_body = RedirectBody ''/organizer''\<rparr>))))))))))"

definition clearing_cookie :: "ApiState \<Rightarrow> string \<Rightarrow> ApiError + string" where
  "clearing_cookie s cookie =
     ok_or (header_from_str (cookie @ ''=; HttpOnly; SameSite=Lax; Path=/; Max-Age=0'' @ secure_suffix s))
       (internal ''could not clear session cookie'')"

definition oidc_logout :: "world_env \<Rightarrow> ApiState \<Rightarrow> HeaderMap \<Rightarrow> Reply api" where
  "oidc_logout env s headers =
     bindW (validate_csrf env s headers) (\<lambda>_.
     bindW (if st_development_identity_enabled s then returnW ()
            else bindW (liftA (session_id_from_headers env headers)) (\<lambda>session_id.
                   storeA env (\<lambda>k db. Ok ((), delete_oidc_session session_id db)))) (\<lambda>_.
     bindW (liftA (collectR (clearing_cookie s) [''openpool_session'', ''openpool_csrf''])) (\<lambda>cookies.
       returnW \<lparr>rp_status = 204, rp_set_cookie = cookies, rp_body = NoBody\<rparr>)))"

end
