(* ===== verification/Api_Handlers.thy ===== *)
theory Api_Handlers
  imports Api
begin

text \<open>
  The handlers of \<open>crates/openpool-api/src/lib.rs\<close> behind the routes, and the routing table: public
  reads, organizers and their raffles, operator jobs, invoices and the Mavapay webhook.
\<close>

section \<open>Public reads\<close>

text \<open>\<open>Json(persistence.read(..).await?)\<close>; the conversion to the wire form of a raffle can panic.\<close>

definition read_reply :: "world_env \<Rightarrow> (db \<Rightarrow> PersistenceError + 'a) \<Rightarrow> ('a \<Rightarrow> ReplyBody) \<Rightarrow> Reply api" where
  "read_reply env f body = bindW (storeA env (\<lambda>k db. reading (f db) db)) (\<lambda>a. returnW (reply 200 (body a)))"

definition wire_raffles :: "world_env \<Rightarrow> PublicRaffle list \<Rightarrow> WireRaffle list api" where
  "wire_raffles env rs = liftE (map_err (api_error_of env) (collectR wire_raffle rs))"

definition list_raffles :: "world_env \<Rightarrow> Reply api" where
  "list_raffles env =
     bindW (storeA env (\<lambda>k db. reading (list_public_raffles db) db)) (\<lambda>rs.
     bindW (wire_raffles env rs) (\<lambda>ws. returnW (reply 200 (RafflesBody ws))))"

definition get_raffle :: "world_env \<Rightarrow> uuid \<Rightarrow> Reply api" where
  "get_raffle env id' =
     bindW (storeA env (\<lambda>k db. reading (public_raffle id' db) db)) (\<lambda>r.
     bindW (liftE (map_err (api_error_of env) (wire_raffle r))) (\<lambda>v. returnW (reply 200 (RaffleBody v))))"

definition get_pool :: "world_env \<Rightarrow> uuid \<Rightarrow> Reply api" where
  "get_pool env id' = read_reply env (public_pool (we_x env) id') PoolBody"

text \<open>\<open>clamp\<close> on a \<open>u32\<close>; the defaults of the query string.\<close>

definition entry_limit :: "u32 option \<Rightarrow> u32" where
  "entry_limit limit = max 1 (min 100 (case limit of None \<Rightarrow> 50 | Some l \<Rightarrow> l))"

definition list_entries :: "world_env \<Rightarrow> uuid \<Rightarrow> u64 option \<Rightarrow> u32 option \<Rightarrow> Reply api" where
  "list_entries env id' cursor limit =
     read_reply env (public_entries (we_x env) id' (case cursor of None \<Rightarrow> 0 | Some c \<Rightarrow> c) (entry_limit limit)) EntriesBody"

definition verify_proof :: "world_env \<Rightarrow> uuid \<Rightarrow> ProofDocument \<Rightarrow> Reply api" where
  "verify_proof env id' document =
     (if pp_raffle_id (pd_payload document) \<noteq> id' then liftA (Err (bad ''proof raffle_id does not match the request path''))
      else returnW (reply 200 (VerificationBody (verify (x_sha (we_x env)) (x_jcs (we_x env)) document))))"

definition get_proof :: "world_env \<Rightarrow> uuid \<Rightarrow> Reply api" where
  "get_proof env id' = read_reply env (public_proof (we_x env) id') ProofBody"

definition get_proof_metadata :: "world_env \<Rightarrow> uuid \<Rightarrow> Reply api" where
  "get_proof_metadata env id' = read_reply env (public_proof_metadata (we_x env) id') MetadataBody"

definition get_result :: "world_env \<Rightarrow> uuid \<Rightarrow> Reply api" where
  "get_result env id' = read_reply env (public_result id') ResultBody"

definition get_refund :: "world_env \<Rightarrow> uuid \<Rightarrow> Reply api" where
  "get_refund env id' = read_reply env (public_refund id') RefundBody"

definition get_invoice :: "world_env \<Rightarrow> uuid \<Rightarrow> Reply api" where
  "get_invoice env id' = read_reply env (public_invoice id') (\<lambda>i. InvoiceBody (wire_invoice i))"

section \<open>Organizers and raffles\<close>

record OrganizerRequest =
  or_display_name :: string
  or_lightning_address :: string

definition create_organizer_account ::
  "world_env \<Rightarrow> ApiLibrary \<Rightarrow> ApiState \<Rightarrow> HeaderMap \<Rightarrow> OrganizerRequest \<Rightarrow> Reply api" where
  "create_organizer_account env lib s headers body =
     bindW (validate_csrf env s headers) (\<lambda>_.
     if trim (or_display_name body) = [] \<or> trim (or_lightning_address body) = []
     then liftA (Err (bad ''display_name and lightning_address are required''))
     else
     bindW (identity env s headers) (\<lambda>id'.
     bindW (encrypt_address lib s (or_lightning_address body)) (\<lambda>ciphertext.
     bindW (storeA env (\<lambda>k. create_organizer
         \<lparr>no_id = id', no_display_name = or_display_name body, no_lightning_address_ciphertext = ciphertext\<rparr>)) (\<lambda>_.
       returnW (reply 201 NoBody)))))"

record RaffleRequest =
  rr_name :: string
  rr_entry_price_sats :: u64
  rr_start_time :: string
  rr_end_time :: string
  rr_winner_bps :: u16
  rr_organizer_bps :: u16
  rr_platform_bps :: u16

definition parse_time :: "ApiLibrary \<Rightarrow> string \<Rightarrow> ApiError + timestamp" where
  "parse_time lib v = map_err (\<lambda>_. bad ''timestamps must be RFC3339'') (al_parse_rfc3339 lib v)"

text \<open>\<open>map_err(ApiError::bad)\<close> on a domain error.\<close>

definition checked :: "DomainError + 'a \<Rightarrow> ApiError + 'a" where
  "checked r = map_err (\<lambda>e. bad (domain_error_text e)) r"

definition validated_raffle :: "ApiLibrary \<Rightarrow> RaffleRequest \<Rightarrow> RaffleId \<Rightarrow> OrganizerId \<Rightarrow> ApiError + NewDraftRaffle" where
  "validated_raffle lib body id' organizer_id =
     (if trim (rr_name body) = [] then Err (bad ''name is required'')
      else if rr_entry_price_sats body = 0 then Err (bad ''entry_price_sats must be positive'')
      else
        bindR (parse_time lib (rr_start_time body)) (\<lambda>start_time.
        bindR (parse_time lib (rr_end_time body)) (\<lambda>end_time.
        if end_time \<le> start_time then Err (bad ''end_time must be after start_time'')
        else
        bindR (checked (BasisPoints_new (rr_winner_bps body))) (\<lambda>winner.
        bindR (checked (BasisPoints_new (rr_organizer_bps body))) (\<lambda>organizer.
        bindR (checked (BasisPoints_new (rr_platform_bps body))) (\<lambda>platform.
        bindR (checked (PayoutSplit_new winner organizer platform)) (\<lambda>payout_split.
          Ok \<lparr>nr_id = id', nr_organizer_id = organizer_id, nr_name = trim (rr_name body),
              nr_entry_price_sats = Sats (rr_entry_price_sats body), nr_start_time = start_time,
              nr_end_time = end_time, nr_randomness_delay_blocks = 6, nr_payout_split = payout_split\<rparr>)))))))"

definition list_organizer_raffles :: "world_env \<Rightarrow> ApiState \<Rightarrow> HeaderMap \<Rightarrow> Reply api" where
  "list_organizer_raffles env s headers =
     bindW (identity env s headers) (\<lambda>organizer_id.
     bindW (active_organizer env organizer_id) (\<lambda>_.
     bindW (storeA env (\<lambda>k db. reading (organizer_raffles organizer_id db) db)) (\<lambda>rs.
     bindW (wire_raffles env rs) (\<lambda>ws. returnW (reply 200 (RafflesBody ws))))))"

definition create_raffle :: "world_env \<Rightarrow> ApiLibrary \<Rightarrow> ApiState \<Rightarrow> HeaderMap \<Rightarrow> RaffleRequest \<Rightarrow> Reply api" where
  "create_raffle env lib s headers body =
     bindW (validate_csrf env s headers) (\<lambda>_.
     bindW (identity env s headers) (\<lambda>organizer_id.
     bindW (active_organizer env organizer_id) (\<lambda>_.
     bindW (new_uuid env) (\<lambda>id'.
     bindW (liftA (validated_raffle lib body id' organizer_id)) (\<lambda>raffle.
     bindW (storeA env (\<lambda>k. create_draft_raffle (we_x env) (we_ids env k) (we_now env k) raffle)) (\<lambda>_.
       returnW (reply 201 (IdBody (nr_id raffle)))))))))"

definition update_raffle_request ::
  "world_env \<Rightarrow> ApiLibrary \<Rightarrow> ApiState \<Rightarrow> HeaderMap \<Rightarrow> uuid \<Rightarrow> RaffleRequest \<Rightarrow> Reply api" where
  "update_raffle_request env lib s headers id' body =
     bindW (validate_csrf env s headers) (\<lambda>_.
     bindW (identity env s headers) (\<lambda>organizer_id.
     bindW (active_organizer env organizer_id) (\<lambda>_.
     bindW (liftA (validated_raffle lib body id' organizer_id)) (\<lambda>raffle.
     bindW (storeA env (\<lambda>k. update_raffle (we_x env) (we_ids env k) (we_now env k) organizer_id raffle)) (\<lambda>_.
       returnW (reply 204 NoBody))))))"

text \<open>\<open>schedule\<close>, \<open>open\<close> and \<open>cancel\<close>.\<close>

definition transition :: "world_env \<Rightarrow> ApiState \<Rightarrow> HeaderMap \<Rightarrow> uuid \<Rightarrow> RaffleStatus \<Rightarrow> Reply api" where
  "transition env s headers raffle_id status =
     bindW (validate_csrf env s headers) (\<lambda>_.
     bindW (identity env s headers) (\<lambda>organizer_id.
     bindW (storeA env (\<lambda>k. transition_raffle (we_x env) (we_ids env k) (we_now env k) organizer_id raffle_id status)) (\<lambda>_.
       returnW (reply 204 NoBody))))"

section \<open>Operator jobs\<close>

definition list_operator_jobs :: "world_env \<Rightarrow> ApiState \<Rightarrow> HeaderMap \<Rightarrow> Reply api" where
  "list_operator_jobs env s headers =
     bindW (require_operator env s headers) (\<lambda>_. read_reply env (\<lambda>db. Ok (operator_jobs db)) JobsBody)"

definition retry_operator_job :: "world_env \<Rightarrow> ApiState \<Rightarrow> HeaderMap \<Rightarrow> uuid \<Rightarrow> Reply api" where
  "retry_operator_job env s headers id' =
     bindW (validate_csrf env s headers) (\<lambda>_.
     bindW (require_operator env s headers) (\<lambda>_.
     bindW (storeA env (\<lambda>k. retry_dead_job (we_now env k) id')) (\<lambda>retried.
       if retried then returnW (reply 202 NoBody) else liftA (Err (bad ''only dead jobs can be retried'')))))"

section \<open>Webhooks\<close>

text \<open>
  \<open>serde_json::from_value::<MavapayWebhook>\<close>: a derived struct is read from an object, or from an array of
  its fields in order.
\<close>

record MavapayWebhook =
  mw_event_id :: string
  mw_invoice_id :: uuid

definition webhook_fields :: "(string \<Rightarrow> uuid option) \<Rightarrow> json \<Rightarrow> json \<Rightarrow> MavapayWebhook option" where
  "webhook_fields parse event_id invoice_id =
     Option.bind (json_as_str event_id) (\<lambda>e.
     Option.bind (Option.bind (json_as_str invoice_id) parse) (\<lambda>i.
       Some \<lparr>mw_event_id = e, mw_invoice_id = i\<rparr>))"

definition mavapay_webhook :: "(string \<Rightarrow> uuid option) \<Rightarrow> json \<Rightarrow> MavapayWebhook option" where
  "mavapay_webhook parse v =
     (case v of
        JArr [e, i] \<Rightarrow> webhook_fields parse e i
      | JObj _ \<Rightarrow>
          Option.bind (json_get ''event_id'' v) (\<lambda>e. Option.bind (json_get ''invoice_id'' v) (\<lambda>i. webhook_fields parse e i))
      | _ \<Rightarrow> None)"

definition webhook_event :: "world_env \<Rightarrow> bytes \<Rightarrow> json \<Rightarrow> MavapayWebhook \<Rightarrow> NewWebhookEvent" where
  "webhook_event env body raw_payload normalized =
     \<lparr>nw_provider_name = ''mavapay'', nw_provider_event_id = mw_event_id normalized,
      nw_invoice_id = mw_invoice_id normalized, nw_payload_hash = hash env body, nw_raw_payload = raw_payload\<rparr>"

text \<open>The checks before the event is recorded.\<close>

definition authentic_webhook :: "ApiLibrary \<Rightarrow> ApiState \<Rightarrow> HeaderMap \<Rightarrow> bytes \<Rightarrow> ApiError + unit" where
  "authentic_webhook lib s headers body =
     (if length body > 64 * 1024 then Err (bad ''webhook body exceeds the 64 KiB limit'')
      else
        bindR (ok_or (header_str ''x-mavapay-signature'' headers) (forbidden ''mavapay signature is required'')) (\<lambda>signature.
        bindR (ok_or (st_mavapay_webhook_secret s)
            (unavailable ''mavapay webhook verification is not configured'')) (\<lambda>secret.
        if \<not> verify_webhook_signature (al_hex_decode lib) (al_hmac lib) secret body signature
        then Err (forbidden ''mavapay signature is invalid'')
        else Ok ())))"

definition normalized_webhook :: "world_env \<Rightarrow> ApiLibrary \<Rightarrow> bytes \<Rightarrow> ApiError + NewWebhookEvent" where
  "normalized_webhook env lib body =
     bindR (map_err (\<lambda>_. bad ''webhook payload must be valid JSON'') (al_from_slice lib body)) (\<lambda>raw_payload.
     bindR (ok_or (mavapay_webhook (x_uuid_parse (we_x env)) raw_payload)
         (bad ''webhook event_id and invoice_id are required'')) (\<lambda>normalized.
     if trim (mw_event_id normalized) = [] then Err (bad ''webhook event_id is required'')
     else Ok (webhook_event env body raw_payload normalized)))"

definition receive_mavapay_webhook :: "world_env \<Rightarrow> ApiLibrary \<Rightarrow> ApiState \<Rightarrow> HeaderMap \<Rightarrow> bytes \<Rightarrow> Reply api" where
  "receive_mavapay_webhook env lib s headers body =
     bindW (liftA (authentic_webhook lib s headers body)) (\<lambda>_.
     bindW (liftA (normalized_webhook env lib body)) (\<lambda>event.
     bindW (storeA env (\<lambda>k. record_webhook_and_enqueue (we_x env) (we_ids env k) (we_now env k) event)) (\<lambda>_.
       returnW (reply 202 NoBody))))"

section \<open>Invoices\<close>

record InvoiceRequest =
  ir_lightning_address :: string
  ir_ticket_count :: u64

definition collection_invoice_row ::
  "world_env \<Rightarrow> InvoiceId \<Rightarrow> RaffleId \<Rightarrow> string \<Rightarrow> bytes \<Rightarrow> u64 \<Rightarrow> timestamp \<Rightarrow> NewCollectionInvoice" where
  "collection_invoice_row env invoice_id raffle_id address ciphertext ticket_count now =
     \<lparr>nc_id = invoice_id, nc_raffle_id = raffle_id, nc_participant_public_id = hash env (str_bytes address),
      nc_payment_reference_hash = hash env (uuid_bytes invoice_id), nc_payout_address_ciphertext = ciphertext,
      nc_ticket_count = ticket_count, nc_requested_at = now, nc_expires_at = now + minutes 15\<rparr>"

definition collection_request :: "InvoiceId \<Rightarrow> PendingCollectionInvoice \<Rightarrow> CollectionRequest" where
  "collection_request invoice_id pending =
     \<lparr>cr_invoice_id = invoice_id, cr_amount_sats = pc_amount_sats pending, cr_expires_at = pc_expires_at pending\<rparr>"

definition collection_ok :: "PendingCollectionInvoice \<Rightarrow> CollectionInvoice \<Rightarrow> bool" where
  "collection_ok pending c \<longleftrightarrow>
     ci_amount_sats c = pc_amount_sats pending \<and> ci_expires_at c \<le> pc_expires_at pending \<and> ci_bolt11 c \<noteq> []"

text \<open>What happens to the provider's answer.\<close>

definition failed_collection :: "world_env \<Rightarrow> InvoiceId \<Rightarrow> string \<Rightarrow> CollectionInvoice api" where
  "failed_collection env invoice_id message =
     bindW (storeA env (\<lambda>k. fail_collection_invoice invoice_id)) (\<lambda>_. liftA (Err (provider message)))"

definition accept_collection ::
  "world_env \<Rightarrow> PendingCollectionInvoice \<Rightarrow> InvoiceId \<Rightarrow> PaymentError + CollectionInvoice \<Rightarrow> CollectionInvoice api" where
  "accept_collection env pending invoice_id answer =
     (case answer of
        Ok c \<Rightarrow> if collection_ok pending c then returnW c
                else failed_collection env invoice_id ''provider returned an invalid collection invoice''
      | Err _ \<Rightarrow> failed_collection env invoice_id ''payment provider could not create an invoice'')"

definition collect_payment :: "world_env \<Rightarrow> ApiState \<Rightarrow> InvoiceId \<Rightarrow> PendingCollectionInvoice \<Rightarrow> Reply api" where
  "collect_payment env s invoice_id pending =
     bindW (askE (\<lambda>k. Ok (pv_create_collection (st_payment_provider s) k (collection_request invoice_id pending)))) (\<lambda>answer.
     bindW (accept_collection env pending invoice_id answer) (\<lambda>collection.
     bindW (storeA env (\<lambda>k. store_collection_invoice (we_x env) invoice_id (ci_provider_quote_id collection)
         (ci_provider_payment_hash collection) (ci_bolt11 collection) (ci_expires_at collection))) (\<lambda>_.
     bindW (storeA env (\<lambda>k db. reading (public_invoice invoice_id db) db)) (\<lambda>invoice.
       returnW (reply 201 (InvoiceBody (wire_invoice invoice)))))))"

definition create_invoice :: "world_env \<Rightarrow> ApiLibrary \<Rightarrow> ApiState \<Rightarrow> uuid \<Rightarrow> InvoiceRequest \<Rightarrow> Reply api" where
  "create_invoice env lib s raffle_id body =
     (let address = trim (ir_lightning_address body) in
      if address = [] then liftA (Err (bad ''lightning_address is required''))
      else
      bindW (now_utc env) (\<lambda>now.
      bindW (new_uuid env) (\<lambda>invoice_id.
      bindW (encrypt_address lib s address) (\<lambda>ciphertext.
      bindW (storeA env (\<lambda>k. create_collection_invoice (we_x env) (we_ids env k) (we_now env k)
          (collection_invoice_row env invoice_id raffle_id address ciphertext (ir_ticket_count body) now))) (\<lambda>pending.
        collect_payment env s invoice_id pending)))))"

section \<open>Routing\<close>

text \<open>A request after the extractors, by the handler its route selects.\<close>

datatype Request =
    Health
  | OpenApi
  | Page
  | OidcLogin
  | OidcCallback string string
  | OidcLogout
  | ListRaffles
  | GetRaffle uuid
  | GetPool uuid
  | ListEntries uuid "u64 option" "u32 option"
  | GetProof uuid
  | GetProofMetadata uuid
  | GetResult uuid
  | GetRefund uuid
  | VerifyProof uuid ProofDocument
  | CreateInvoice uuid InvoiceRequest
  | GetInvoice uuid
  | PostMavapayWebhook bytes
  | CreateOrganizer OrganizerRequest
  | ListOrganizerRaffles
  | CreateRaffle RaffleRequest
  | UpdateRaffle uuid RaffleRequest
  | ListOperatorJobs
  | RetryOperatorJob uuid
  | Schedule uuid
  | OpenRaffle uuid
  | Cancel uuid

fun handle :: "world_env \<Rightarrow> ApiLibrary \<Rightarrow> ApiState \<Rightarrow> HeaderMap \<Rightarrow> Request \<Rightarrow> Reply api" where
  "handle env lib s headers Health = returnW (reply 200 (HealthBody ''ok''))"
| "handle env lib s headers OpenApi = returnW (reply 200 OpenApiBody)"
| "handle env lib s headers Page = returnW (reply 200 PageBody)"
| "handle env lib s headers OidcLogin = oidc_login env s"
| "handle env lib s headers (OidcCallback code state) = oidc_callback env s code state"
| "handle env lib s headers OidcLogout = oidc_logout env s headers"
| "handle env lib s headers ListRaffles = list_raffles env"
| "handle env lib s headers (GetRaffle i) = get_raffle env i"
| "handle env lib s headers (GetPool i) = get_pool env i"
| "handle env lib s headers (ListEntries i cursor limit) = list_entries env i cursor limit"
| "handle env lib s headers (GetProof i) = get_proof env i"
| "handle env lib s headers (GetProofMetadata i) = get_proof_metadata env i"
| "handle env lib s headers (GetResult i) = get_result env i"
| "handle env lib s headers (GetRefund i) = get_refund env i"
| "handle env lib s headers (VerifyProof i document) = verify_proof env i document"
| "handle env lib s headers (CreateInvoice i body) = create_invoice env lib s i body"
| "handle env lib s headers (GetInvoice i) = get_invoice env i"
| "handle env lib s headers (PostMavapayWebhook body) = receive_mavapay_webhook env lib s headers body"
| "handle env lib s headers (CreateOrganizer body) = create_organizer_account env lib s headers body"
| "handle env lib s headers ListOrganizerRaffles = list_organizer_raffles env s headers"
| "handle env lib s headers (CreateRaffle body) = create_raffle env lib s headers body"
| "handle env lib s headers (UpdateRaffle i body) = update_raffle_request env lib s headers i body"
| "handle env lib s headers ListOperatorJobs = list_operator_jobs env s headers"
| "handle env lib s headers (RetryOperatorJob i) = retry_operator_job env s headers i"
| "handle env lib s headers (Schedule i) = transition env s headers i Scheduled"
| "handle env lib s headers (OpenRaffle i) = transition env s headers i Open"
| "handle env lib s headers (Cancel i) = transition env s headers i Cancelled"

declare handle.simps [simp del]

end
