(* ===== verification/Api_Access.thy ===== *)
theory Api_Access
  imports Api_Handlers
begin

text \<open>
  Who may do what over HTTP. A check of a request either passes on evidence found in the headers and in a
  state of the database that the request saw, or it refuses the request; it never writes. The interface
  is a locale, interpreted for the CSRF check, the two role checks and the webhook signature.
\<close>

section \<open>What a request saw\<close>

text \<open>
  Other processes commit between the calls of a request. Between the calls \<open>m\<close> and \<open>n\<close> they did so at the calls
  \<open>ks\<close>; only they wrote between two worlds; the state of the database that call \<open>k\<close> of the request saw.
\<close>

definition turns :: "nat \<Rightarrow> nat \<Rightarrow> nat list \<Rightarrow> bool" where
  "turns m n ks \<longleftrightarrow> m \<le> n \<and> sorted_wrt (<) ks \<and> set ks \<subseteq> {m..<n}"

definition others_only :: "world_env \<Rightarrow> world \<Rightarrow> world \<Rightarrow> bool" where
  "others_only env w w' \<longleftrightarrow>
     (\<exists>ks. turns (wd_calls w) (wd_calls w') ks \<and> wd_db w' = fold (we_others env) ks (wd_db w)) \<and> wd_paid w' = wd_paid w"

definition seen :: "world_env \<Rightarrow> world \<Rightarrow> nat \<Rightarrow> db \<Rightarrow> bool" where
  "seen env w k db \<longleftrightarrow> (\<exists>ks. turns (wd_calls w) k ks \<and> db = we_others env k (fold (we_others env) ks (wd_db w)))"

lemma turns_append: "turns l m ks \<Longrightarrow> turns m n ks' \<Longrightarrow> turns l n (ks @ ks')"
  by (fastforce simp: turns_def sorted_wrt_append)

definition refused :: "Failure + 'a \<Rightarrow> bool" where
  "refused r \<longleftrightarrow> (\<exists>e. r = Err (Refused e) \<and> er_status e \<in> {400, 403, 503})"

lemma refused_Err [simp]:
  "refused (Err (Refused (bad m)))" "refused (Err (Refused (forbidden m)))" "refused (Err (Refused (unavailable m)))"
  by (simp_all add: refused_def bad_def forbidden_def unavailable_def)

lemma refused_retype: "refused (Err f :: Failure + 'a) \<Longrightarrow> refused (Err f :: Failure + 'b)"
  by (auto simp: refused_def)

lemma others_only_refl [simp]: "others_only env w w"
  unfolding others_only_def by (simp add: turns_def exI [of _ "[]"])

lemma others_only_trans: "others_only env u v \<Longrightarrow> others_only env v w \<Longrightarrow> others_only env u w"
  unfolding others_only_def by (metis fold_append o_apply turns_append)

lemma seen_later: "others_only env w v \<Longrightarrow> seen env v k db \<Longrightarrow> seen env w k db"
  unfolding others_only_def seen_def by (metis fold_append o_apply turns_append)

lemma seen_next: "seen env w (wd_calls w) (we_others env (wd_calls w) (wd_db w))"
  unfolding seen_def by (rule exI [of _ "[]"]) (simp add: turns_def)

text \<open>Which calls leave the database to the others.\<close>

definition only_reads :: "world_env \<Rightarrow> ('e, 'a) process \<Rightarrow> bool" where
  "only_reads env m \<longleftrightarrow> (\<forall>w. others_only env w (snd (m w)))"

named_theorems read_rules \<open>calls that do not write\<close>

lemma only_reads_return [read_rules]: "only_reads env (returnW a)" "only_reads env (liftE r)"
  by (simp_all add: only_reads_def returnW_def liftE_def)

lemma only_reads_ask [read_rules]: "only_reads env (askE f)"
  by (auto simp: only_reads_def askE_def others_only_def turns_def intro!: exI [of _ "[]"])

lemma only_reads_bind [read_rules]: "only_reads env m \<Longrightarrow> (\<And>a. only_reads env (k a)) \<Longrightarrow> only_reads env (bindW m k)"
  unfolding only_reads_def bindW_def
  by (auto split: prod.splits sum.splits) (metis others_only_trans snd_conv)+

lemma transact_reading:
  "transact env (\<lambda>k db. reading (f k db) db) w =
     (f (wd_calls w) (we_others env (wd_calls w) (wd_db w)),
      w\<lparr>wd_db := we_others env (wd_calls w) (wd_db w), wd_calls := Suc (wd_calls w)\<rparr>)"
  by (cases "f (wd_calls w) (we_others env (wd_calls w) (wd_db w))") (simp_all add: transact_def reading_def Let_def)

lemma only_reads_reading [read_rules]: "only_reads env (storeE conv env (\<lambda>k db. reading (f k db) db))"
  by (auto simp: only_reads_def storeE_def transact_reading others_only_def turns_def intro!: exI [of _ "[wd_calls _]"])

section \<open>Checks\<close>

text \<open>
  A check with the evidence that it passes on. \<open>evidence w a\<close> speaks of the states seen from \<open>w\<close> on, so it
  holds already at an earlier world that only others wrote to since.
\<close>

locale access_check =
  fixes env :: world_env
    and check :: "'a api"
    and evidence :: "world \<Rightarrow> 'a \<Rightarrow> bool"
  assumes reads: "only_reads env check"
    and passes: "check w = (Ok a, w') \<Longrightarrow> evidence w a"
    and refuses: "check w = (Err f, w') \<Longrightarrow> refused (Err f :: Failure + 'a)"
begin

text \<open>Behind the check nothing happens without evidence.\<close>

lemma guarded:
  assumes "bindW check rest w = (r, w')"
  shows "(\<exists>a v. evidence w a \<and> check w = (Ok a, v) \<and> others_only env w v \<and> rest a v = (r, w')) \<or>
    (refused r \<and> others_only env w w')"
proof -
  obtain q v where q: "check w = (q, v)"
    by (cases "check w")
  then have v: "others_only env w v"
    using reads by (auto simp: only_reads_def dest: spec [of _ w])
  show ?thesis
  proof (cases q)
    case (Inl f)
    then show ?thesis
      using assms q v refuses [of w f v] by (auto simp: bindW_def intro: refused_retype)
  next
    case (Inr a)
    then show ?thesis
      using assms q v passes [of w a v] by (auto simp: bindW_def)
  qed
qed

end

section \<open>Sessions\<close>

text \<open>The request carries the cookie of a session that was live in a state it saw, and the session has a property.\<close>

definition session_evidence :: "world_env \<Rightarrow> HeaderMap \<Rightarrow> (OidcSession \<Rightarrow> bool) \<Rightarrow> world \<Rightarrow> bool" where
  "session_evidence env headers P w \<longleftrightarrow>
     (\<exists>sid k db session. session_id_from_headers env headers = Ok sid \<and> seen env w k db \<and>
        oidc_session (we_now env k) sid db = Some session \<and> P session)"

definition csrf_matches :: "world_env \<Rightarrow> HeaderMap \<Rightarrow> OidcSession \<Rightarrow> bool" where
  "csrf_matches env headers session \<longleftrightarrow>
     (\<exists>token. header_str ''x-openpool-csrf'' headers = Some token \<and>
        os_csrf_token_hash session = as_bytes (x_sha (we_x env) (str_bytes token)))"

definition has_role :: "string \<Rightarrow> OidcSession \<Rightarrow> bool" where
  "has_role role session \<longleftrightarrow> (\<exists>roles. session_roles session = Ok roles \<and> role \<in> set roles)"

lemma session_evidence_later:
  "others_only env w v \<Longrightarrow> session_evidence env headers P v \<Longrightarrow> session_evidence env headers P w"
  unfolding session_evidence_def using seen_later by blast

lemma session_evidence_mono:
  "session_evidence env headers P w \<Longrightarrow> (\<And>session. P session \<Longrightarrow> Q session) \<Longrightarrow> session_evidence env headers Q w"
  unfolding session_evidence_def by blast

lemma live_session_reads [read_rules]: "only_reads env (live_session env sid)"
  unfolding live_session_def by (intro read_rules)

lemma live_session_result:
  "live_session env sid w = (r, v) \<Longrightarrow>
     (\<exists>session db. r = Ok session \<and> seen env w (wd_calls w) db \<and> oidc_session (we_now env (wd_calls w)) sid db = Some session) \<or>
     r = Err (Refused (forbidden ''OIDC session is invalid or expired''))"
  by (cases "oidc_session (we_now env (wd_calls w)) sid (we_others env (wd_calls w) (wd_db w))")
     (auto simp: live_session_def bindW_def storeE_def transact_reading liftE_def intro: seen_next
      intro!: exI [of _ "we_others env (wd_calls w) (wd_db w)"])

text \<open>A process that looks at the live session of the request and goes on.\<close>

definition with_session :: "world_env \<Rightarrow> HeaderMap \<Rightarrow> (OidcSession \<Rightarrow> Failure + 'a) \<Rightarrow> 'a api" where
  "with_session env headers f =
     bindW (liftA (session_id_from_headers env headers)) (\<lambda>sid. bindW (live_session env sid) (\<lambda>session. liftE (f session)))"

lemma with_session_check:
  assumes "\<And>session a. f session = Ok a \<Longrightarrow> P a session"
    and "\<And>session e. f session = Err e \<Longrightarrow> refused (Err e :: Failure + 'a)"
  shows "access_check env (with_session env headers f :: 'a api) (\<lambda>w a. session_evidence env headers (P a) w)"
proof
  show "only_reads env (with_session env headers f)"
    unfolding with_session_def by (intro read_rules)
next
  fix w a w'
  assume "with_session env headers f w = (Ok a, w')"
  then obtain sid session v where "session_id_from_headers env headers = Ok sid"
    and "live_session env sid w = (Ok session, v)" and "f session = Ok a"
    by (auto simp: with_session_def bindW_def liftE_def map_err_eq_Ok split: prod.splits sum.splits)
  then show "session_evidence env headers (P a) w"
    using live_session_result assms(1) unfolding session_evidence_def by blast
next
  fix w e w'
  assume r: "with_session env headers f w = (Err e, w')"
  show "refused (Err e :: Failure + 'a)"
  proof (cases "session_id_from_headers env headers")
    case (Inl x)
    then have "e = Refused (forbidden ''OIDC session cookie is required'')"
      using r by (auto simp: with_session_def bindW_def liftE_def session_id_from_headers_def ok_or_eq_Err)
    then show ?thesis by simp
  next
    case (Inr sid)
    obtain q v where "live_session env sid w = (q, v)"
      by (cases "live_session env sid w")
    with live_session_result [OF this] r Inr show ?thesis
      using assms(2) by (auto simp: with_session_def bindW_def liftE_def split: sum.splits)
  qed
qed

text \<open>The checks of the code are such looks at the session.\<close>

definition csrf_result :: "world_env \<Rightarrow> HeaderMap \<Rightarrow> OidcSession \<Rightarrow> Failure + unit" where
  "csrf_result env headers session =
     (case header_str ''x-openpool-csrf'' headers of
        None \<Rightarrow> Err (Refused (forbidden ''CSRF token is required''))
      | Some token \<Rightarrow>
          if os_csrf_token_hash session \<noteq> as_bytes (hash env (str_bytes token))
          then Err (Refused (forbidden ''CSRF token is invalid'')) else Ok ())"

definition role_result :: "string \<Rightarrow> string \<Rightarrow> (OidcSession \<Rightarrow> 'a) \<Rightarrow> OidcSession \<Rightarrow> Failure + 'a" where
  "role_result role message f session =
     bindR (map_err Refused (session_roles session)) (\<lambda>roles.
       if role \<in> set roles then Ok (f session) else Err (Refused (forbidden message)))"

lemma session_roles_Err: "session_roles session = Err e \<Longrightarrow> e = forbidden ''OIDC session roles are invalid''"
  by (auto simp: session_roles_def ok_or_eq_Err)

lemma role_result_Ok: "role_result role message f session = Ok a \<Longrightarrow> has_role role session \<and> a = f session"
  by (auto simp: role_result_def has_role_def bindR_eq_Ok map_err_eq_Ok split: if_splits)

lemma role_result_Err: "role_result role message f session = Err e \<Longrightarrow> refused (Err e :: Failure + 'a)"
  by (auto simp: role_result_def bindR_eq_Err map_err_eq_Err dest: session_roles_Err split: if_splits)

lemma csrf_result_Ok: "csrf_result env headers session = Ok a \<Longrightarrow> csrf_matches env headers session"
  by (auto simp: csrf_result_def csrf_matches_def hash_def split: option.splits if_splits)

lemma csrf_result_Err: "csrf_result env headers session = Err e \<Longrightarrow> refused (Err e :: Failure + unit)"
  by (auto simp: csrf_result_def split: option.splits if_splits)

lemma access_check_weaken:
  "access_check env check E \<Longrightarrow> (\<And>w a. E w a \<Longrightarrow> E' w a) \<Longrightarrow> access_check env check E'"
  unfolding access_check_def by blast

lemma identity_with_session:
  assumes "\<not> st_development_identity_enabled s"
  shows "identity env s headers =
    with_session env headers (role_result ''organizer'' ''organizer role is required'' os_subject)"
proof -
  have "bindW (liftA (session_roles session)) (\<lambda>roles.
          if ''organizer'' \<notin> set roles then liftA (Err (forbidden ''organizer role is required'')) else returnW (os_subject session))
      = liftE (role_result ''organizer'' ''organizer role is required'' os_subject session)" for session :: OidcSession
    by (cases "session_roles session") (auto simp: fun_eq_iff bindW_def liftE_def returnW_def role_result_def)
  with assms show ?thesis
    by (simp add: identity_def with_session_def)
qed

lemma operator_with_session:
  assumes "\<not> st_development_identity_enabled s"
  shows "require_operator env s headers =
    with_session env headers (role_result ''operator'' ''operator role is required'' (\<lambda>_. ()))"
proof -
  have "bindW (liftA (session_roles session)) (\<lambda>roles.
          if ''operator'' \<in> set roles then returnW () else liftA (Err (forbidden ''operator role is required'')))
      = liftE (role_result ''operator'' ''operator role is required'' (\<lambda>_. ()) session)" for session :: OidcSession
    by (cases "session_roles session") (auto simp: fun_eq_iff bindW_def liftE_def returnW_def role_result_def)
  with assms show ?thesis
    by (simp add: require_operator_def with_session_def)
qed

lemma csrf_with_session:
  assumes "\<not> st_development_identity_enabled s" and "header_str ''x-openpool-csrf'' headers = Some token"
  shows "validate_csrf env s headers = with_session env headers (csrf_result env headers)"
proof -
  have "(if os_csrf_token_hash session \<noteq> as_bytes (hash env (str_bytes token))
         then liftA (Err (forbidden ''CSRF token is invalid'')) else returnW ())
      = liftE (csrf_result env headers session)" for session :: OidcSession
    using assms(2) by (auto simp: csrf_result_def returnW_def liftE_def fun_eq_iff)
  moreover have "bindW (liftA (ok_or (Some token) e)) k = k token" for e :: ApiError and k :: "string \<Rightarrow> unit api"
    by (auto simp: bindW_def liftE_def fun_eq_iff)
  ultimately show ?thesis
    using assms by (simp add: validate_csrf_def with_session_def)
qed

lemma csrf_without_token:
  assumes "\<not> st_development_identity_enabled s" and "header_str ''x-openpool-csrf'' headers = None"
  shows "\<exists>e. validate_csrf env s headers = liftE (Err (Refused (forbidden e)))"
proof (cases "session_id_from_headers env headers")
  case (Inl e)
  then have "e = forbidden ''OIDC session cookie is required''"
    by (auto simp: session_id_from_headers_def ok_or_eq_Err)
  with Inl assms show ?thesis
    by (intro exI) (auto simp: validate_csrf_def fun_eq_iff bindW_def liftE_def)
next
  case (Inr sid)
  with assms show ?thesis
    by (intro exI) (auto simp: validate_csrf_def fun_eq_iff bindW_def liftE_def)
qed

text \<open>The evidence; with the development identity switched on there is none to give.\<close>

definition csrf_evidence :: "world_env \<Rightarrow> ApiState \<Rightarrow> HeaderMap \<Rightarrow> world \<Rightarrow> unit \<Rightarrow> bool" where
  "csrf_evidence env s headers w a \<longleftrightarrow>
     st_development_identity_enabled s \<or> session_evidence env headers (csrf_matches env headers) w"

definition role_evidence :: "string \<Rightarrow> (OidcSession \<Rightarrow> 'a) \<Rightarrow> world_env \<Rightarrow> ApiState \<Rightarrow> HeaderMap \<Rightarrow> world \<Rightarrow> 'a \<Rightarrow> bool" where
  "role_evidence role f env s headers w a \<longleftrightarrow>
     st_development_identity_enabled s \<or> session_evidence env headers (\<lambda>session. has_role role session \<and> a = f session) w"

interpretation identity_check: access_check env "identity env s headers" "role_evidence ''organizer'' os_subject env s headers"
  for env s headers
proof (cases "st_development_identity_enabled s")
  case False
  then show "access_check env (identity env s headers) (role_evidence ''organizer'' os_subject env s headers)"
    unfolding identity_with_session [OF False] role_evidence_def
    using with_session_check [of "role_result ''organizer'' ''organizer role is required'' os_subject"
        "\<lambda>a session. has_role ''organizer'' session \<and> a = os_subject session"]
    by (simp add: role_result_Ok role_result_Err)
next
  case True
  then show "access_check env (identity env s headers) (role_evidence ''organizer'' os_subject env s headers)"
    by unfold_locales
       (auto simp: identity_def role_evidence_def read_rules, auto simp: liftE_def map_err_eq_Err ok_or_eq_Err)
qed

interpretation operator_check: access_check env "require_operator env s headers" "role_evidence ''operator'' (\<lambda>_. ()) env s headers"
  for env s headers
proof (cases "st_development_identity_enabled s")
  case False
  then show "access_check env (require_operator env s headers) (role_evidence ''operator'' (\<lambda>_. ()) env s headers)"
    unfolding operator_with_session [OF False] role_evidence_def
    using with_session_check [of "role_result ''operator'' ''operator role is required'' (\<lambda>_. ())"
        "\<lambda>a session. has_role ''operator'' session \<and> a = ()"]
    by (simp add: role_result_Ok role_result_Err)
next
  case True
  then show "access_check env (require_operator env s headers) (role_evidence ''operator'' (\<lambda>_. ()) env s headers)"
    by unfold_locales
       (auto simp: require_operator_def role_evidence_def read_rules, auto simp: liftE_def split: if_splits)
qed

interpretation csrf_check: access_check env "validate_csrf env s headers" "csrf_evidence env s headers"
  for env s headers
proof (cases "st_development_identity_enabled s \<or> header_str ''x-openpool-csrf'' headers = None")
  case False
  then obtain token where dev: "\<not> st_development_identity_enabled s" and token: "header_str ''x-openpool-csrf'' headers = Some token"
    by auto
  show "access_check env (validate_csrf env s headers) (csrf_evidence env s headers)"
    unfolding csrf_with_session [OF dev token] csrf_evidence_def
    by (rule access_check_weaken [OF with_session_check [OF csrf_result_Ok csrf_result_Err]]) auto
next
  case True
  show "access_check env (validate_csrf env s headers) (csrf_evidence env s headers)"
  proof (cases "st_development_identity_enabled s")
    case dev: True
    then show ?thesis
      by unfold_locales (simp_all add: validate_csrf_def csrf_evidence_def read_rules, simp add: returnW_def)
  next
    case dev: False
    then obtain e where e: "validate_csrf env s headers = liftE (Err (Refused (forbidden e)))"
      using csrf_without_token True by blast
    show ?thesis
      unfolding e by unfold_locales (simp_all add: read_rules, auto simp: liftE_def)
  qed
qed

text \<open>The signature of a webhook.\<close>

definition webhook_evidence :: "ApiLibrary \<Rightarrow> ApiState \<Rightarrow> HeaderMap \<Rightarrow> bytes \<Rightarrow> world \<Rightarrow> unit \<Rightarrow> bool" where
  "webhook_evidence lib s headers body w a \<longleftrightarrow>
     length body \<le> 64 * 1024 \<and>
     (\<exists>secret signature. st_mavapay_webhook_secret s = Some secret \<and>
        header_str ''x-mavapay-signature'' headers = Some signature \<and>
        al_hex_decode lib signature = Ok (al_hmac lib secret body))"

interpretation webhook_check: access_check env "liftA (authentic_webhook lib s headers body)" "webhook_evidence lib s headers body"
  for env lib s headers body
proof
  fix w a w' f
  show "only_reads env (liftA (authentic_webhook lib s headers body))"
    by (rule read_rules)
  show "webhook_evidence lib s headers body w a" if "liftA (authentic_webhook lib s headers body) w = (Ok a, w')"
    using that by (auto simp: webhook_evidence_def authentic_webhook_def liftE_def map_err_eq_Ok bindR_eq_Ok ok_or_eq_Ok
        verify_webhook_signature_def split: if_splits sum.splits)
  show "refused (Err f :: Failure + unit)" if "liftA (authentic_webhook lib s headers body) w = (Err f, w')"
    using that by (auto simp: authentic_webhook_def liftE_def map_err_eq_Err bindR_eq_Err ok_or_eq_Err
        split: if_splits)
qed

end
