(* ===== verification/Api_Guarantees.thy ===== *)
theory Api_Guarantees
  imports Api_Access Store_Samples
begin

text \<open>
  What the HTTP interface guarantees: privileged requests act only for a session that passed the CSRF and
  the role check, and a webhook is believed only with a valid signature.
\<close>

section \<open>Privileged requests\<close>

text \<open>The role that a request which changes something for an organizer or an operator needs.\<close>

fun required_role :: "Request \<Rightarrow> string option" where
  "required_role (CreateOrganizer _) = Some ''organizer''"
| "required_role (CreateRaffle _) = Some ''organizer''"
| "required_role (UpdateRaffle _ _) = Some ''organizer''"
| "required_role (Schedule _) = Some ''organizer''"
| "required_role (OpenRaffle _) = Some ''organizer''"
| "required_role (Cancel _) = Some ''organizer''"
| "required_role (RetryOperatorJob _) = Some ''operator''"
| "required_role _ = None"

text \<open>The outcome of a request that is guarded by the CSRF token and a role.\<close>

definition guarded_outcome :: "world_env \<Rightarrow> HeaderMap \<Rightarrow> string \<Rightarrow> world \<Rightarrow> Failure + Reply \<Rightarrow> world \<Rightarrow> bool" where
  "guarded_outcome env headers role w r w' \<longleftrightarrow>
     (session_evidence env headers (csrf_matches env headers) w \<and> session_evidence env headers (has_role role) w) \<or>
     (refused r \<and> others_only env w w')"

lemma guarded_by_csrf:
  assumes "\<not> st_development_identity_enabled s" and "bindW (validate_csrf env s headers) (\<lambda>_. m) w = (r, w')"
    and "\<And>v. m v = (r, w') \<Longrightarrow> session_evidence env headers (has_role role) v \<or> (refused r \<and> others_only env v w')"
  shows "guarded_outcome env headers role w r w'"
proof -
  consider (pass) v where "csrf_evidence env s headers w ()" and "others_only env w v" and "m v = (r, w')"
    | (refuse) "refused r" and "others_only env w w'"
    using csrf_check.guarded [OF assms(2)] by auto
  then show ?thesis
  proof cases
    case pass
    from assms(3) [OF pass(3)] pass(1,2) assms(1) show ?thesis
      by (auto simp: guarded_outcome_def csrf_evidence_def intro: session_evidence_later others_only_trans)
  qed (auto simp: guarded_outcome_def)
qed

lemma guarded_by_identity:
  assumes "\<not> st_development_identity_enabled s" and "bindW (identity env s headers) k w = (r, w')"
  shows "session_evidence env headers (has_role ''organizer'') w \<or> (refused r \<and> others_only env w w')"
  using identity_check.guarded [OF assms(2)] assms(1)
  by (auto simp: role_evidence_def elim!: session_evidence_mono)

lemma guarded_by_operator:
  assumes "\<not> st_development_identity_enabled s" and "bindW (require_operator env s headers) k w = (r, w')"
  shows "session_evidence env headers (has_role ''operator'') w \<or> (refused r \<and> others_only env w w')"
  using operator_check.guarded [OF assms(2)] assms(1)
  by (auto simp: role_evidence_def elim!: session_evidence_mono)

text \<open>Outside of development mode, a request that creates or changes an organizer, a raffle or a job acts only if
  its cookie named a session that was live in a state of the database the request saw, its CSRF header hashed to the
  token of that session, and the roles of that session include the required one; otherwise it is refused with status
  400 or 403 (503 for a missing dependency) and has written nothing. This holds whatever other processes do in between.\<close>

theorem guarded_requests:
  assumes "\<not> st_development_identity_enabled s" and "required_role request = Some role"
    and "handle env lib s headers request w = (r, w')"
  shows "(session_evidence env headers (csrf_matches env headers) w \<and> session_evidence env headers (has_role role) w) \<or>
    (refused r \<and> others_only env w w')"
proof -
  note guards = guarded_by_csrf [OF assms(1)] guarded_by_identity [OF assms(1)] guarded_by_operator [OF assms(1)]
  have "guarded_outcome env headers role w r w'"
  proof (cases request)
    case (CreateOrganizer body)
    show ?thesis
      using assms(2,3) unfolding CreateOrganizer handle.simps create_organizer_account_def
      by (elim guards(1)) (auto split: if_splits dest!: guards(2) simp: liftE_def)
  qed (use assms(2,3) in \<open>auto simp: handle.simps create_raffle_def update_raffle_request_def transition_def
      retry_operator_job_def elim!: guards(1) dest: guards(2,3)\<close>)
  then show ?thesis
    by (simp add: guarded_outcome_def)
qed

text \<open>An organizer cancels an open raffle over a live session.\<close>

definition sample_library :: ApiLibrary where
  "sample_library = \<lparr>al_aead = sample_aead, al_nonce = (\<lambda>_. replicate 12 0), al_hex_decode = (\<lambda>_. Ok [1]),
     al_hmac = (\<lambda>_ _. [1]), al_from_slice = (\<lambda>_. Ok (JArr [JStr ''e1'', JStr ''uuuuu''])), al_parse_rfc3339 = (\<lambda>_. Ok 0)\<rparr>"

definition sample_state :: ApiState where
  "sample_state = \<lparr>st_payment_provider = FakePaymentProvider (x_uuid_text sample_ext), st_address_cipher = replicate 32 0,
     st_mavapay_webhook_secret = Some [5], st_development_identity_enabled = False, st_oidc = None,
     st_secure_session_cookie = True\<rparr>"

definition sample_headers :: HeaderMap where
  "sample_headers = [(''cookie'', ''openpool_session=uuu''), (''x-openpool-csrf'', ''t''), (''x-mavapay-signature'', ''01'')]"

definition sample_api_env :: world_env where
  "sample_api_env = \<lparr>we_x = sample_ext, we_ids = (\<lambda>k n. of_nat (1000 + 16 * k + n)), we_now = (\<lambda>k. 2000 + int k),
     we_clock = (\<lambda>k. 150), we_job_locked = (\<lambda>_ _. False), we_payout_locked = (\<lambda>_ _. False),
     we_others = (\<lambda>_ db. db), we_sql_text = (\<lambda>_. ''sql''), we_to_vec = (\<lambda>_. Ok [])\<rparr>"

definition sample_session :: session_row where
  "sample_session = \<lparr>s_id = 3, s_subject = 1, s_roles = JArr [JStr ''organizer''], s_csrf_token_hash = as_bytes ZERO_HASH,
     s_expires_at = 9000\<rparr>"

definition sample_api_world :: world where
  "sample_api_world = \<lparr>wd_db = (sample_store Open)\<lparr>oidc_sessions := [sample_session]\<rparr>, wd_calls = 0, wd_paid = []\<rparr>"

lemma sample_headers_simps [simp]:
  "session_id_from_headers sample_api_env sample_headers = Ok 3"
  "header_str ''x-openpool-csrf'' sample_headers = Some ''t''"
  "header_str ''x-mavapay-signature'' sample_headers = Some ''01''"
  by (simp_all add: session_id_from_headers_def sample_headers_def header_str_def header_to_str_def sample_api_env_def
      sample_ext_def trim_def trim_matches_def trim_end_matches_def is_space_def)

lemma sample_api_env_simps [simp]:
  "we_x sample_api_env = sample_ext" "we_others sample_api_env k db = db" "x_sha sample_ext bs = ZERO_HASH"
  by (simp_all add: sample_api_env_def sample_ext_def)

lemma sample_live_session:
  "oidc_sessions (wd_db w) = [sample_session] \<Longrightarrow> wd_calls w < 100 \<Longrightarrow>
     live_session sample_api_env 3 w =
       (Ok \<lparr>os_subject = 1, os_roles = JArr [JStr ''organizer''], os_csrf_token_hash = as_bytes ZERO_HASH, os_expires_at = 9000\<rparr>,
        w\<lparr>wd_calls := Suc (wd_calls w)\<rparr>)"
  by (simp add: live_session_def bindW_def storeE_def transact_reading liftE_def sample_api_env_def oidc_session_def
      fetch_optional_def sample_session_def)

lemma sample_cancel:
  assumes "\<not> st_development_identity_enabled s"
  shows "\<exists>w'. handle sample_api_env sample_library s sample_headers (Cancel 2) sample_api_world = (Ok (reply 204 NoBody), w')"
proof -
  have "\<exists>db'. transition_raffle sample_ext (we_ids sample_api_env 2) (we_now sample_api_env 2) 1 2 Cancelled
      (wd_db sample_api_world) = Ok ((), db')"
    by (simp add: transition_raffle_def sample_api_world_def transition_allowed_def set_status_def sample_rows eval_sql raffle_check_def)
  then obtain db' where "transition_raffle sample_ext (we_ids sample_api_env 2) (we_now sample_api_env 2) 1 2 Cancelled
      ((sample_store Open)\<lparr>oidc_sessions := [sample_session]\<rparr>) = Ok ((), db')"
    by (auto simp: sample_api_world_def)
  then show ?thesis
    by (simp add: handle.simps transition_def bindW_def validate_csrf_def identity_def assms liftE_def
        sample_live_session sample_api_world_def hash_def session_roles_def string_list_def List.map_filter_def returnW_def
        storeE_def transact_def Let_def numeral_2_eq_2 [symmetric])
qed

section \<open>Webhooks\<close>

text \<open>C13. A webhook request is either refused before anything is written, or its body of at most 64 KiB carried the HMAC of
  exactly these bytes under the configured secret; then the one event named in the body is recorded with the digest of
  the body, in one transaction on a state of the database the request saw, and the reply tells how that transaction ended.\<close>

theorem webhook_needs_signature:
  "case handle env lib s headers (PostMavapayWebhook body) w of (r, w') \<Rightarrow>
     (refused r \<and> others_only env w w') \<or>
     (\<exists>secret signature event k db. st_mavapay_webhook_secret s = Some secret \<and>
        header_str ''x-mavapay-signature'' headers = Some signature \<and>
        al_hex_decode lib signature = Ok (al_hmac lib secret body) \<and> length body \<le> 65536 \<and>
        normalized_webhook env lib body = Ok event \<and> nw_provider_name event = ''mavapay'' \<and>
        trim (nw_provider_event_id event) \<noteq> [] \<and> nw_payload_hash event = x_sha (we_x env) body \<and> seen env w k db \<and>
        (case record_webhook_and_enqueue (we_x env) (we_ids env k) (we_now env k) event db of
           Ok (_, db') \<Rightarrow> r = Ok (reply 202 NoBody) \<and> wd_db w' = db'
         | Err e \<Rightarrow> r = Err (api_error_of env e) \<and> wd_db w' = db))"
proof -
  obtain r w' where h: "handle env lib s headers (PostMavapayWebhook body) w = (r, w')"
    by (cases "handle env lib s headers (PostMavapayWebhook body) w")
  consider (pass) "webhook_evidence lib s headers body w ()"
      and "bindW (liftA (normalized_webhook env lib body)) (\<lambda>event.
        bindW (storeA env (\<lambda>k. record_webhook_and_enqueue (we_x env) (we_ids env k) (we_now env k) event)) (\<lambda>_.
          returnW (reply 202 NoBody))) w = (r, w')"
    | (refuse) "refused r" and "others_only env w w'"
    using webhook_check.guarded [where env = env, OF h [unfolded handle.simps receive_mavapay_webhook_def]]
    by (elim disjE exE conjE) (auto simp: liftE_def)
  then show ?thesis
  proof cases
    case pass
    show ?thesis
    proof (cases "normalized_webhook env lib body")
      case (Inl e)
      then have "refused r \<and> w' = w"
        using pass(2) by (auto simp: normalized_webhook_def bindW_def liftE_def bindR_eq_Err map_err_eq_Err ok_or_eq_Err
            split: if_splits)
      then show ?thesis
        by (simp add: h)
    next
      case (Inr event)
      let ?k = "wd_calls w" and ?db = "we_others env (wd_calls w) (wd_db w)"
      have event: "nw_provider_name event = ''mavapay''" "trim (nw_provider_event_id event) \<noteq> []"
        "nw_payload_hash event = x_sha (we_x env) body"
        using Inr by (auto simp: normalized_webhook_def webhook_event_def hash_def bindR_eq_Ok split: if_splits)
      have "case record_webhook_and_enqueue (we_x env) (we_ids env ?k) (we_now env ?k) event ?db of
           Ok (_, db') \<Rightarrow> r = Ok (reply 202 NoBody) \<and> wd_db w' = db'
         | Err e \<Rightarrow> r = Err (api_error_of env e) \<and> wd_db w' = ?db"
        using pass(2) Inr by (auto simp: bindW_def liftE_def storeE_def transact_def Let_def returnW_def split: sum.splits prod.splits)
      with event Inr pass(1) seen_next [of env w] show ?thesis
        unfolding h webhook_evidence_def by simp blast
    qed
  qed (simp add: h)
qed

end
