(* ===== verification/Api_Store.thy ===== *)
theory Api_Store
  imports Api_Guarantees
begin

text \<open>
  The HTTP interface on the store: every request moves the database along transactions of the store,
  whatever its outcome and whatever other processes do in between.
\<close>

section \<open>Triples of the handlers\<close>

lemma runs_seq:
  "env_ok env \<Longrightarrow> runs env no_check m \<Longrightarrow> (\<And>a. runs env no_check (k a)) \<Longrightarrow> runs env no_check (bindW m k)"
  by (rule runs_bind)

lemma runs_transaction:
  "env_ok env \<Longrightarrow> (\<And>k db a db'. op k db = Ok (a, db') \<Longrightarrow> db_step (we_x env) db db') \<Longrightarrow>
     runs env no_check (storeE conv env op)"
  by (rule runs_store) simp_all

lemma runs_no_check:
  "runs env no_check (returnW a)" "runs env no_check (liftE r)" "runs env no_check (askE f)"
  by (auto intro: runs_return runs_lift runs_ask)

lemma runs_reading: "env_ok env \<Longrightarrow> runs env no_check (storeE conv env (\<lambda>k db. reading (f k db) db))"
  unfolding runs_def
proof (intro allI impI)
  fix w r w'
  assume ok: "env_ok env" and "storeE conv env (\<lambda>k db. reading (f k db) db) w = (r, w')"
  then have "wd_db w' = we_others env (wd_calls w) (wd_db w)"
    by (auto simp: storeE_def transact_reading)
  with ok show "db_run env (wd_db w) (wd_db w') \<and> (\<forall>a. r = Ok a \<longrightarrow> no_check a)"
    by (simp add: env_ok_def db_run_def)
qed

lemmas handler_rules = runs_no_check runs_reading runs_seq

lemma runs_live_session: "env_ok env \<Longrightarrow> runs env no_check (live_session env sid)"
  unfolding live_session_def by (intro handler_rules)

lemma runs_checks:
  assumes "env_ok env"
  shows "runs env no_check (validate_csrf env s headers)" "runs env no_check (identity env s headers)"
    "runs env no_check (require_operator env s headers)" "runs env no_check (active_organizer env oid)"
  using assms
  by (auto simp: validate_csrf_def identity_def require_operator_def active_organizer_def
      intro!: handler_rules runs_live_session runs_if)

lemma runs_small:
  "env_ok env \<Longrightarrow> runs env no_check (read_reply env f body)" "runs env no_check (new_uuid env)" "runs env no_check (now_utc env)"
  "runs env no_check (encrypt_address lib s a)" "runs env no_check (wire_raffles env rs)"
  by (auto simp: read_reply_def new_uuid_def now_utc_def encrypt_address_def wire_raffles_def intro!: handler_rules)

lemmas request_rules = handler_rules runs_checks runs_small runs_if runs_transaction

lemma runs_consume:
  "env_ok env \<Longrightarrow> runs env no_check (storeE conv env (\<lambda>k db. Ok (consume_oidc_login_attempt (f k) state db)))"
  by (rule runs_transaction) (auto dest!: arg_cong [of _ _ snd] intro: db_step.consume_oidc_login_attempt)

lemma runs_sign_in:
  assumes "env_ok env"
  shows "runs env no_check (oidc_login env s)" "runs env no_check (oidc_callback env s code state)"
    "runs env no_check (oidc_logout env s headers)"
proof -
  have login: "runs env no_check (storeA env (\<lambda>k. create_oidc_login_attempt (we_x env) a))" for a
    using assms by (rule runs_transaction) (rule db_step.create_oidc_login_attempt)
  have session: "runs env no_check (storeA env (\<lambda>k. create_oidc_session (we_x env) a))" for a
    using assms by (rule runs_transaction) (rule db_step.create_oidc_session)
  have delete: "runs env no_check (storeA env (\<lambda>k db. Ok ((), delete_oidc_session sid db)))" for sid
    using assms by (rule runs_transaction) (auto intro: db_step.delete_oidc_session)
  show "runs env no_check (oidc_login env s)"
    unfolding oidc_login_def using assms by (intro handler_rules runs_small login)
  show "runs env no_check (oidc_callback env s code state)"
    unfolding oidc_callback_def Let_def using assms by (intro handler_rules runs_small runs_consume session)
  show "runs env no_check (oidc_logout env s headers)"
    unfolding oidc_logout_def using assms by (intro handler_rules runs_checks runs_if delete)
qed

lemma runs_administration:
  assumes "env_ok env"
  shows "runs env no_check (create_organizer_account env lib s headers org)" "runs env no_check (create_raffle env lib s headers body)"
    "runs env no_check (update_raffle_request env lib s headers i body)" "runs env no_check (transition env s headers i status)"
    "runs env no_check (retry_operator_job env s headers i)" "runs env no_check (receive_mavapay_webhook env lib s headers bs)"
  unfolding create_organizer_account_def create_raffle_def update_raffle_request_def transition_def retry_operator_job_def
    receive_mavapay_webhook_def
  by - (intro request_rules; (rule assms | erule db_step.intros))+

lemma runs_collection:
  assumes "env_ok env"
  shows "runs env no_check (failed_collection env iid message)" "runs env no_check (collect_payment env s iid pending)"
proof -
  show fail: "runs env no_check (failed_collection env iid message)" for message
    unfolding failed_collection_def
    by (intro handler_rules runs_transaction) (use assms in \<open>auto intro: db_step.fail_collection_invoice\<close>)
  have "runs env no_check (accept_collection env pending iid answer)" for answer
    unfolding accept_collection_def by (cases answer) (auto intro!: runs_no_check fail)
  then show "runs env no_check (collect_payment env s iid pending)"
    unfolding collect_payment_def
    by (intro handler_rules runs_transaction) (use assms in \<open>auto intro: db_step.store_collection_invoice\<close>)
qed

lemma runs_invoice:
  assumes "env_ok env"
  shows "runs env no_check (create_invoice env lib s i body)"
proof -
  have "runs env no_check (storeA env (\<lambda>k. create_collection_invoice (we_x env) (we_ids env k) (we_now env k) invoice))" for invoice
    using assms by (auto intro!: runs_transaction intro: db_step.create_collection_invoice)
  then show ?thesis
    using assms by (auto simp: create_invoice_def Let_def intro!: handler_rules runs_small runs_collection)
qed

text \<open>Every request, whatever its headers and its body.\<close>

lemma runs_handle:
  assumes "env_ok env"
  shows "runs env no_check (handle env lib s headers request)"
  using assms
  by (cases request)
     (auto simp: handle.simps list_raffles_def get_raffle_def get_pool_def list_entries_def get_proof_def get_proof_metadata_def
        get_result_def get_refund_def get_invoice_def verify_proof_def list_organizer_raffles_def list_operator_jobs_def
      intro!: request_rules runs_sign_in runs_administration runs_invoice)

end
