(* ===== verification/System_Payments.thy ===== *)
theory System_Payments
  imports Worker_Payouts Api_Store
begin

text \<open>
  Which processes ask the provider to pay. No request to the API and no job but the payout job hands a
  payment to the provider, and every payment that a turn hands over is promised by a payout on record.
\<close>

section \<open>Processes that pay nothing\<close>

abbreviation pays_nothing :: "('e, 'a) process \<Rightarrow> bool" where
  "pays_nothing \<equiv> sends (\<lambda>_. False)"

lemma pays_nothingD: "pays_nothing m \<Longrightarrow> m w = (r, w') \<Longrightarrow> wd_paid w' = wd_paid w"
  by (fastforce simp: sends_def)

lemma sends_if: "sends Q m \<Longrightarrow> sends Q n \<Longrightarrow> sends Q (if b then m else n)"
  by simp

lemma sends_close_block: "sends Q (close_block source end_time tip)"
  by (auto simp: sends_def close_block_def split: prod.splits)

lemmas silent_rules = sends_bind sends_nothing sends_if sends_close_block

text \<open>The jobs of the worker, the payout job apart.\<close>

lemma silent_settle_or_refund: "sends Q (settle_or_refund env iid)"
proof -
  have "sends Q (bindW (storeW env (\<lambda>k. mark_late_settlement_for_refund (we_x env) (we_ids env k) (we_now env k) iid)) (\<lambda>_. returnW ()))"
    by (intro silent_rules)
  then show ?thesis
    unfolding settle_or_refund_def
    by (fastforce simp: sends_def dest: transact_paid split: prod.splits sum.splits PersistenceError.splits)
qed

lemma silent_jobs:
  "sends Q (raffle_draw env services job)" "sends Q (proof_generate env services job)" "sends Q (raffle_close env job)"
  "sends Q (payment_reconcile env services job)"
  by (auto simp: raffle_draw_def proof_generate_def raffle_close_def payment_reconcile_def job_uuid_def record_block_def
      block_matches_def Let_def intro!: silent_rules silent_settle_or_refund split: option.splits PaymentState.splits)

text \<open>The handlers of the API.\<close>

lemma silent_checks:
  "sends Q (validate_csrf env s headers)" "sends Q (identity env s headers)" "sends Q (require_operator env s headers)"
  "sends Q (active_organizer env oid)" "sends Q (read_reply env f body)" "sends Q (new_uuid env)" "sends Q (now_utc env)"
  "sends Q (encrypt_address lib s a)" "sends Q (wire_raffles env rs)"
  by (auto simp: validate_csrf_def identity_def require_operator_def active_organizer_def live_session_def read_reply_def
      new_uuid_def now_utc_def encrypt_address_def wire_raffles_def intro!: silent_rules)

lemmas silent_request_rules = silent_rules silent_checks

lemma silent_collection: "sends Q (collect_payment env s iid pending)"
  by (auto simp: collect_payment_def accept_collection_def failed_collection_def
      intro!: silent_request_rules split: sum.splits)

lemma silent_sign_in:
  "sends Q (oidc_login env s)" "sends Q (oidc_callback env s code state)" "sends Q (oidc_logout env s headers)"
  unfolding oidc_login_def oidc_callback_def oidc_logout_def Let_def by (intro silent_request_rules)+

lemma silent_administration:
  "sends Q (create_organizer_account env lib s headers org)" "sends Q (create_raffle env lib s headers body)"
  "sends Q (update_raffle_request env lib s headers i body)" "sends Q (transition env s headers i status)"
  "sends Q (retry_operator_job env s headers i)" "sends Q (receive_mavapay_webhook env lib s headers bs)"
  "sends Q (create_invoice env lib s i invoice)"
  unfolding create_organizer_account_def create_raffle_def update_raffle_request_def transition_def retry_operator_job_def
    receive_mavapay_webhook_def create_invoice_def Let_def
  by (intro silent_request_rules silent_collection)+

lemma api_pays_nothing: "pays_nothing (handle env lib s headers request)"
  by (cases request)
     (auto simp: handle.simps list_raffles_def get_raffle_def get_pool_def list_entries_def get_proof_def get_proof_metadata_def
        get_result_def get_refund_def get_invoice_def verify_proof_def list_organizer_raffles_def list_operator_jobs_def
      intro!: silent_request_rules silent_sign_in silent_administration)

section \<open>Promised payments\<close>

text \<open>A payment is promised when a payout on record has its identifier, its idempotency key and its amount.\<close>

definition promised_by :: "PayoutRequest \<Rightarrow> payout_row \<Rightarrow> bool" where
  "promised_by req p \<longleftrightarrow> p_id p = prq_payout_id req \<and> p_idempotency_key p = prq_idempotency_key req \<and>
     p_amount_sats p = uint (as_u64 (prq_amount_sats req))"

definition pays_promised :: "world \<Rightarrow> world \<Rightarrow> bool" where
  "pays_promised w w' \<longleftrightarrow>
     (\<exists>reqs. wd_paid w' = wd_paid w @ reqs \<and> (\<forall>req \<in> set reqs. \<exists>p \<in> set (payouts (wd_db w')). promised_by req p))"

lemma promised_later:
  assumes "p \<in> set (payouts db)" and "promised_by req p" and "reachable (db_step x) db db'"
  shows "\<exists>p \<in> set (payouts db'). promised_by req p"
proof -
  have "payout_identity p \<in> payout_identity ` set (payouts db')"
    using reachable_promises [OF assms(3)] assms(1) unfolding keeps_promises_def by blast
  then obtain q where "q \<in> set (payouts db')" "payout_identity q = payout_identity p"
    by fastforce
  with assms(2) show ?thesis
    by (intro bexI [of _ q]) (simp_all add: promised_by_def payout_identity_def)
qed

lemma pays_promised_same: "wd_paid w' = wd_paid w \<Longrightarrow> pays_promised w w'"
  by (simp add: pays_promised_def)

lemma pays_promised_trans:
  assumes "pays_promised u v" and "pays_promised v w" and "db_run env (wd_db v) (wd_db w)"
  shows "pays_promised u w"
proof -
  obtain first more where first: "wd_paid v = wd_paid u @ first" "\<forall>req \<in> set first. \<exists>p \<in> set (payouts (wd_db v)). promised_by req p"
    and more: "wd_paid w = wd_paid v @ more" "\<forall>req \<in> set more. \<exists>p \<in> set (payouts (wd_db w)). promised_by req p"
    using assms(1,2) unfolding pays_promised_def by blast
  have "\<forall>req \<in> set first. \<exists>p \<in> set (payouts (wd_db w)). promised_by req p"
    using first(2) promised_later assms(3) unfolding db_run_def by blast
  with first(1) more show ?thesis
    unfolding pays_promised_def by (intro exI [of _ "first @ more"]) auto
qed

lemma payout_execute_promised:
  assumes "env_ok env" and "db_ok (we_x env) (wd_db w)" and "payout_execute fuel env services worker_id job w = Some (r, w')"
  shows "pays_promised w w'"
proof -
  obtain reqs rid where paid: "wd_paid w' = wd_paid w @ reqs"
    and held: "held_on_the_way env worker_id rid (wd_db w) reqs (wd_db w')"
    using payout_execute_requests [OF assms] by blast
  have "\<exists>p \<in> set (payouts (wd_db w')). promised_by req p" if "req \<in> set reqs" for req
  proof -
    from held that obtain db where db: "db_ok (we_x env) db" "reachable (db_step (we_x env)) db (wd_db w')"
      and "held_request env worker_id rid db req"
      using db_run_ok [OF assms(1) _ assms(2)] unfolding held_on_the_way_def db_run_def by blast
    then obtain p where "p \<in> set (payouts db)" "promised_by req p"
      using db(1) by (fastforce simp: held_request_def promised_by_def db_ok_def payouts_ok_def)
    then show ?thesis
      using db(2) by (rule promised_later)
  qed
  with paid show ?thesis
    unfolding pays_promised_def by blast
qed

lemma reconcile_promised:
  assumes "env_ok env" and "db_ok (we_x env) (wd_db w)" and "reconcile_payment fuel env services worker_id job w = Some (r, w')"
  shows "pays_promised w w'"
  using assms(3) payout_execute_promised [OF assms(1,2)] pays_nothingD [OF silent_jobs(1)] pays_nothingD [OF silent_jobs(2)]
    pays_nothingD [OF silent_jobs(3)] pays_nothingD [OF silent_jobs(4)]
  by (auto simp: reconcile_payment_def pays_promised_same split: if_splits)

lemma transact_silent [simp]: "wd_paid (snd (transact env op w)) = wd_paid w"
  by (rule transact_paid [of env op w "fst (transact env op w)"]) simp

lemma run_turn_promised:
  assumes "env_ok env" and "\<forall>source. ws_bitcoin services = Some source \<longrightarrow> source_ok source"
    and "db_ok (we_x env) (wd_db w)" and "run_turn fuel env services worker_id w = Some (t, w')"
  shows "pays_promised w w'"
proof -
  let ?v = "snd (transact env (\<lambda>k. schedule_due_closes (we_x env) (we_ids env k) (we_now env k)) w)"
  have v: "db_run env (wd_db w) (wd_db ?v)"
    using assms(1,3) by (rule transact_db) (rule db_step.schedule_due_closes)
  note vok = db_run_ok [OF assms(1) v assms(3)]
  obtain c u where c: "transact env (\<lambda>k. claim_job (we_job_locked env k) (we_now env k) worker_id 60) ?v = (c, u)"
    by (cases "transact env (\<lambda>k. claim_job (we_job_locked env k) (we_now env k) worker_id 60) ?v")
  have u: "db_run env (wd_db ?v) (wd_db u)" "wd_paid u = wd_paid w"
    using transact_run [OF assms(1) _ vok c] transact_paid [OF c] by (auto intro: db_step.claim_job)
  show ?thesis
  proof (cases "\<exists>job. c = Ok (Some job)")
    case True
    then obtain job where job: "c = Ok (Some job)"
      by blast
    with assms(4) obtain r z where rec: "reconcile_payment fuel env services worker_id job u = Some (r, z)"
      by (auto simp: run_turn_def Let_def c split: option.splits prod.splits)
    note z = reconcile_promised [OF assms(1) db_run_ok [OF assms(1) u(1) vok] rec]
    note zok = db_run_ok [OF assms(1) reconcile_run [OF assms(1,2) db_run_ok [OF assms(1) u(1) vok] rec]
      db_run_ok [OF assms(1) u(1) vok]]
    have "wd_paid w' = wd_paid z"
      using assms(4) by (auto simp: run_turn_def Let_def c job rec split: sum.splits Abort.splits)
    moreover have "db_run env (wd_db z) (wd_db w')"
      using assms(4) transact_db [OF assms(1) zok, where op = "\<lambda>k. succeed (we_now env k) (cj_id job) worker_id"]
        transact_db [OF assms(1) zok, where op = "\<lambda>k. fail_or_retry (we_now env k) job worker_id 15 e" for e]
      by (auto simp: run_turn_def Let_def c job rec split: sum.splits Abort.splits intro: db_step.succeed db_step.fail_or_retry)
    ultimately have "pays_promised u w'"
      using pays_promised_trans [OF z pays_promised_same] by blast
    then show ?thesis
      by (simp add: pays_promised_def u(2))
  next
    case False
    then have "w' = u"
      using assms(4) by (auto simp: run_turn_def Let_def c split: sum.splits option.splits)
    with u(2) show ?thesis
      by (simp add: pays_promised_same)
  qed
qed

section \<open>What a provider is asked to pay\<close>

text \<open>
  The requests for a raffle, as a provider that honours idempotency keys counts them: one payment for each
  key and amount, however often it is asked for. The keys of a raffle are those of its three recipients.
\<close>

definition billed :: "externals \<Rightarrow> RaffleId \<Rightarrow> PayoutRequest list \<Rightarrow> (string \<times> int) set" where
  "billed x rid reqs = (\<lambda>req. (prq_idempotency_key req, uint (as_u64 (prq_amount_sats req)))) `
     set (filter (\<lambda>req. prq_idempotency_key req \<in> set (map (payout_key x rid) [RWinner, ROrganizer, RPlatform])) reqs)"

lemma promised_billed:
  assumes "uuid_text_ok x" and "payouts_ok x db" and "\<forall>req \<in> set reqs. \<exists>p \<in> set (payouts db). promised_by req p"
  shows "billed x rid reqs \<subseteq> (\<lambda>p. (p_idempotency_key p, p_amount_sats p)) ` set (payouts_of rid (payouts db))"
proof
  fix b
  assume "b \<in> billed x rid reqs"
  then obtain req t where req: "req \<in> set reqs" "prq_idempotency_key req = payout_key x rid t"
    and b: "b = (prq_idempotency_key req, uint (as_u64 (prq_amount_sats req)))"
    by (auto simp: billed_def)
  then obtain p where p: "p \<in> set (payouts db)" "promised_by req p"
    using assms(3) by blast
  have "payout_key x (p_raffle_id p) (p_recipient_type p) = payout_key x rid t"
    using p req(2) assms(2) by (simp add: payouts_ok_def promised_by_def)
  then have "p \<in> set (payouts_of rid (payouts db))"
    using p(1) by (simp add: payout_key_eq [OF assms(1)] payouts_of_def)
  then show "b \<in> (\<lambda>p. (p_idempotency_key p, p_amount_sats p)) ` set (payouts_of rid (payouts db))"
    using p(2) by (intro image_eqI [of _ _ p]) (simp_all add: b promised_by_def)
qed

lemma unique_payouts_distinct: "unique_ok payout_conflict ps \<Longrightarrow> distinct ps"
  by (induction ps) (auto simp: payout_conflict_def)

lemma payouts_total_keys:
  assumes "table_ok payout_check payout_conflict (payouts db)"
  shows "(\<Sum>b \<in> (\<lambda>p. (p_idempotency_key p, p_amount_sats p)) ` set (payouts_of rid (payouts db)). snd b) = payouts_total rid (payouts db)"
proof -
  have "inj_on (\<lambda>p. (p_idempotency_key p, p_amount_sats p)) (set (payouts_of rid (payouts db)))"
    using payouts_tbl.row_unique [OF assms] by (auto simp: inj_on_def payouts_of_def payout_conflict_def)
  moreover have "distinct (payouts_of rid (payouts db))"
    using assms unique_payouts_distinct by (simp add: table_ok_def payouts_of_def)
  ultimately show ?thesis
    by (simp add: sum.reindex payouts_total_def sum_list_distinct_conv_sum_set)
qed

lemma billed_within_payouts:
  assumes "uuid_text_ok x" and "payouts_ok x db" and "\<forall>req \<in> set reqs. \<exists>p \<in> set (payouts db). promised_by req p"
  shows "(\<Sum>b \<in> billed x rid reqs. snd b) \<le> payouts_total rid (payouts db)"
proof -
  have tab: "table_ok payout_check payout_conflict (payouts db)"
    using assms(2) by (simp add: payouts_ok_def)
  have "(\<Sum>b \<in> billed x rid reqs. snd b) \<le>
      (\<Sum>b \<in> (\<lambda>p. (p_idempotency_key p, p_amount_sats p)) ` set (payouts_of rid (payouts db)). snd b)"
    using tab by (intro sum_mono2 promised_billed [OF assms]) (auto simp: table_ok_def payout_check_def payouts_of_def)
  then show ?thesis
    by (simp add: payouts_total_keys [OF tab])
qed

text \<open>Billed amounts are determined by their key.\<close>

lemma billed_once:
  assumes "uuid_text_ok x" and "payouts_ok x db" and "\<forall>req \<in> set reqs. \<exists>p \<in> set (payouts db). promised_by req p"
    and "req \<in> set reqs" and "req' \<in> set reqs" and "prq_idempotency_key req = prq_idempotency_key req'"
  shows "prq_payout_id req = prq_payout_id req' \<and> as_u64 (prq_amount_sats req) = as_u64 (prq_amount_sats req')"
proof -
  obtain p p' where p: "p \<in> set (payouts db)" "promised_by req p" "p' \<in> set (payouts db)" "promised_by req' p'"
    using assms(3-5) by blast
  moreover have "payout_conflict p p'"
    using p assms(6) by (simp add: promised_by_def payout_conflict_def)
  ultimately have "p = p'"
    using assms(2) payouts_tbl.row_unique by (auto simp: payouts_ok_def)
  with p show ?thesis
    by (simp add: promised_by_def word_uint_eq_iff)
qed

text \<open>No bill is counted for two raffles.\<close>

lemma billed_apart: "uuid_text_ok x \<Longrightarrow> i \<noteq> j \<Longrightarrow> billed x i reqs \<inter> billed x j reqs = {}"
  by (auto simp: billed_def payout_key_eq)

end
