(* ===== verification/Api_Invoices.thy ===== *)
theory Api_Invoices
  imports Api_Store
begin

text \<open>
  The outcome of a request for an invoice when no other process interferes: the participant gets an invoice
  over the exact price of the tickets, or, when the provider fails, no collectible invoice is left behind.
\<close>

section \<open>The transactions of the request\<close>

lemma create_collection_invoice_Ok:
  assumes "create_collection_invoice x ids now invoice db = Ok (pending, db')"
    and "table_ok raffle_check raffle_conflict (raffles db)"
  obtains raffle row where "raffle \<in> set (raffles db)" and "r_id raffle = nc_raffle_id invoice" and "r_status raffle = Open"
    and "nc_requested_at invoice < r_end_time raffle"
    and "invoices db' = invoices db @ [row]" and "entries db' = entries db" and "invoice_check row"
    and "\<forall>i \<in> set (invoices db). \<not> invoice_conflict i row"
    and "i_id row = nc_id invoice" and "i_raffle_id row = nc_raffle_id invoice" and "i_status row = InvPending"
    and "i_bolt11 row = None" and "i_ticket_count row = uint (nc_ticket_count invoice)"
    and "i_amount_sats row = r_entry_price_sats raffle * uint (nc_ticket_count invoice)"
    and "uint (as_u64 (pc_amount_sats pending)) = i_amount_sats row"
    and "pc_expires_at pending = min (nc_expires_at invoice) (r_end_time raffle)"
proof -
  from assms(1) obtain raffle price amount_sats amount count t where
    raffle: "fetch_optional (\<lambda>r. r_id r = nc_raffle_id invoice) (raffles db) = Some raffle" "r_status raffle = Open"
      "\<not> r_end_time raffle \<le> nc_requested_at invoice"
    and price: "db_as_u64 (r_entry_price_sats raffle) = Ok price" "checked_mul price (nc_ticket_count invoice) = Some amount_sats"
    and cols: "db_as_i64 amount_sats = Ok amount" "db_as_i64 (nc_ticket_count invoice) = Ok count"
    and ins: "sql_insert invoice_check invoice_conflict (\<exists>r \<in> set (raffles db). r_id r = nc_raffle_id invoice)
         \<lparr>i_id = nc_id invoice, i_raffle_id = nc_raffle_id invoice,
          i_participant_public_id = as_bytes (nc_participant_public_id invoice),
          i_payment_reference_hash = as_bytes (nc_payment_reference_hash invoice),
          i_amount_sats = amount, i_ticket_count = count, i_status = InvPending, i_settled_at = None,
          i_created_at = now, i_payout_address_ciphertext = Some (nc_payout_address_ciphertext invoice),
          i_bolt11 = None, i_provider_quote_id = None, i_provider_payment_hash = None,
          i_expires_at = Some (x_timestamptz x (min (nc_expires_at invoice) (r_end_time raffle)))\<rparr> (invoices db) = Ok t"
    and aud: "write_audit (ids 0) now (nc_raffle_id invoice) ''invoice.collection_requested''
         (JObj [(''invoice_id'', JStr (x_uuid_text x (nc_id invoice))), (''amount_sats'', JNum (uint amount_sats))])
         (db\<lparr>invoices := t\<rparr>) = Ok db'"
    and pending: "pending = \<lparr>pc_id = nc_id invoice, pc_amount_sats = Sats amount_sats,
        pc_expires_at = min (nc_expires_at invoice) (r_end_time raffle)\<rparr>"
    unfolding create_collection_invoice_def
    by (auto simp: bindR_eq_Ok map_err_eq_Ok ok_or_eq_Ok Let_def split: if_splits)
  have amount: "amount = uint amount_sats" "count = uint (nc_ticket_count invoice)"
    using cols by (auto simp: db_as_i64_Ok)
  have "uint price = r_entry_price_sats raffle"
    using price(1) fetch_optional_Some [OF raffle(1)] assms(2)
    by (auto simp: db_as_u64_Ok uint_of_int table_ok_def raffle_check_def)
  moreover have "unat amount_sats = unat price * unat (nc_ticket_count invoice)"
    using price(2) by (simp add: checked_mul_eq_Some)
  then have "uint amount_sats = uint price * uint (nc_ticket_count invoice)"
    unfolding uint_nat by (metis of_nat_mult)
  ultimately have sum: "uint amount_sats = r_entry_price_sats raffle * uint (nc_ticket_count invoice)"
    by simp
  from aud obtain au where db': "db' = db\<lparr>invoices := t, audit_events := au\<rparr>"
    by (auto elim: write_audit_Ok)
  show thesis
    using fetch_optional_Some [OF raffle(1)] raffle(2,3) ins amount sum
    by (intro that [of raffle "last t"]) (auto simp: sql_insert_Ok db' pending)
qed

text \<open>The provider's answer on the row that was just written: the row is the only one it can touch.\<close>

lemma new_row_only:
  assumes "\<forall>i \<in> set old. \<not> invoice_conflict i row"
  shows "set_where (\<lambda>i. i_id i = i_id row \<and> Q i) f (old @ [row]) = old @ [if Q row then f row else row]"
proof -
  have "i_id i \<noteq> i_id row" if "i \<in> set old" for i
    using assms that by (auto simp: invoice_conflict_def)
  then show ?thesis
    by (auto simp: set_where_def intro!: map_idI)
qed

lemma store_collection_invoice_Ok:
  assumes "store_collection_invoice x (i_id row) q h b t db = Ok (u, db')" and "invoices db = old @ [row]"
    and "\<forall>i \<in> set old. \<not> invoice_conflict i row" and "i_status row = InvPending" and "i_bolt11 row = None"
  shows "db' = db\<lparr>invoices := old @ [row\<lparr>i_provider_quote_id := Some q, i_provider_payment_hash := Some h,
      i_bolt11 := Some b, i_expires_at := Some (x_timestamptz x t)\<rparr>]\<rparr>"
  using assms(1,2,4,5) new_row_only [OF assms(3), of "\<lambda>i. i_status i = InvPending \<and> i_bolt11 i = None"]
  by (auto simp: store_collection_invoice_def bindR_eq_Ok map_err_eq_Ok sql_update_Ok split: if_splits)

lemma fail_collection_invoice_Ok:
  assumes "table_ok invoice_check invoice_conflict (invoices db)" and "invoices db = old @ [row]"
    and "\<forall>i \<in> set old. \<not> invoice_conflict i row" and "i_status row = InvPending" and "i_bolt11 row = None"
  shows "fail_collection_invoice (i_id row) db = Ok ((), db\<lparr>invoices := old @ [row\<lparr>i_status := InvCollectionFailed\<rparr>]\<rparr>)"
proof -
  have "sql_update invoice_check invoice_conflict (\<lambda>i. i_id i = i_id row \<and> i_status i = InvPending \<and> i_bolt11 i = None)
      (\<lambda>i. i\<lparr>i_status := InvCollectionFailed\<rparr>) (invoices db) =
    Ok (set_where (\<lambda>i. i_id i = i_id row \<and> i_status i = InvPending \<and> i_bolt11 i = None)
          (\<lambda>i. i\<lparr>i_status := InvCollectionFailed\<rparr>) (invoices db),
        length (filter (\<lambda>i. i_id i = i_id row \<and> i_status i = InvPending \<and> i_bolt11 i = None) (invoices db)))"
    by (rule invoices_tbl.update_succeeds [OF assms(1)])
       (use assms(1) in \<open>auto simp: table_ok_def invoice_check_def invoice_conflict_def\<close>)
  then show ?thesis
    using assms(2,4,5) new_row_only [OF assms(3), of "\<lambda>i. i_status i = InvPending \<and> i_bolt11 i = None"]
    by (simp add: fail_collection_invoice_def)
qed

lemma public_invoice_succeeds:
  assumes "invoices db = old @ [row]" and "\<forall>i \<in> set old. i_id i \<noteq> iid" and "i_id row = iid" and "invoice_check row"
    and "\<forall>e \<in> set (entries db). entry_check e"
  obtains v where "public_invoice iid db = Ok v" and "uint (as_u64 (pi_amount_sats v)) = i_amount_sats row"
    and "pi_bolt11 v = i_bolt11 row"
proof -
  have "find (\<lambda>i. i_id i = iid) (old @ [row]) = Some row"
    using assms(2,3) by (induction old) auto
  then have row: "fetch_optional (\<lambda>i. i_id i = iid) (invoices db) = Some row"
    by (simp add: fetch_optional_def assms(1))
  have "0 \<le> e_ticket_start e \<and> 0 \<le> e_ticket_end e"
    if "fetch_optional (\<lambda>e. e_invoice_id e = iid) (entries db) = Some e" for e
    using fetch_optional_Some [OF that] assms(5) by (auto simp: entry_check_def)
  then show thesis
    using row assms(3,4) that
    by (cases "fetch_optional (\<lambda>e. e_invoice_id e = iid) (entries db)")
       (auto simp: public_invoice_def db_as_u64_def uint_of_int invoice_check_def)
qed

section \<open>The outcome\<close>

text \<open>No other process writes during the request.\<close>

definition alone :: "world_env \<Rightarrow> bool" where
  "alone env \<longleftrightarrow> (\<forall>k db. we_others env k db = db)"

lemma alone_store:
  "alone env \<Longrightarrow> storeE conv env op w =
     (case op (wd_calls w) (wd_db w) of
        Err e \<Rightarrow> (Err (conv e), w\<lparr>wd_calls := Suc (wd_calls w)\<rparr>)
      | Ok (a, db') \<Rightarrow> (Ok a, w\<lparr>wd_db := db', wd_calls := Suc (wd_calls w)\<rparr>))"
  by (auto simp: storeE_def transact_def Let_def alone_def split: sum.splits)

lemma api_error_status: "api_error_of env e = Refused x \<Longrightarrow> er_status x \<noteq> 502"
  by (auto simp: api_error_of_def split: PersistenceError.splits)

definition collected_row :: "externals \<Rightarrow> CollectionInvoice \<Rightarrow> invoice_row \<Rightarrow> invoice_row" where
  "collected_row x c row = row\<lparr>i_provider_quote_id := Some (ci_provider_quote_id c),
     i_provider_payment_hash := Some (ci_provider_payment_hash c), i_bolt11 := Some (ci_bolt11 c),
     i_expires_at := Some (x_timestamptz x (ci_expires_at c))\<rparr>"

text \<open>The provider is asked after the row was written.\<close>

lemma collect_payment_accepted:
  assumes "alone env" and v: "invoices (wd_db v) = old @ [row]" "\<forall>i \<in> set old. \<not> invoice_conflict i row"
    "i_status row = InvPending" "i_bolt11 row = None" "invoice_check row" "\<forall>e \<in> set (entries (wd_db v)). entry_check e"
    and "pv_create_collection (st_payment_provider s) (wd_calls v) (collection_request (i_id row) pending) = Ok c"
    and "collection_ok pending c" and "collect_payment env s (i_id row) pending v = (r, w')"
  shows "(\<exists>wire. r = Ok (reply 201 (InvoiceBody wire)) \<and> invoices (wd_db w') = old @ [collected_row (we_x env) c row] \<and>
      uint (wi_amount_sats wire) = i_amount_sats row \<and> wi_bolt11 wire = Some (ci_bolt11 c)) \<or>
    (\<exists>f. r = Err f \<and> (\<forall>e. f = Refused e \<longrightarrow> er_status e \<noteq> 502) \<and> invoices (wd_db w') = old @ [row])"
proof -
  let ?store = "store_collection_invoice (we_x env) (i_id row) (ci_provider_quote_id c) (ci_provider_payment_hash c)
      (ci_bolt11 c) (ci_expires_at c) (wd_db v)"
  have run: "(r, w') = bindW (storeA env (\<lambda>k. store_collection_invoice (we_x env) (i_id row) (ci_provider_quote_id c)
      (ci_provider_payment_hash c) (ci_bolt11 c) (ci_expires_at c))) (\<lambda>_.
     bindW (storeA env (\<lambda>k db. reading (public_invoice (i_id row) db) db)) (\<lambda>invoice.
       returnW (reply 201 (InvoiceBody (wire_invoice invoice))))) (v\<lparr>wd_calls := Suc (wd_calls v)\<rparr>)"
    using assms(8-10) by (simp add: collect_payment_def bindW_def [of "askE _"] askE_def accept_collection_def
        bindW_def [of "returnW _"] returnW_def [of c])
  show ?thesis
  proof (cases ?store)
    case (Inl e)
    then show ?thesis
      using run v(1) by (auto simp: bindW_def alone_store [OF assms(1)] dest: api_error_status)
  next
    case (Inr p)
    then obtain db' where st: "?store = Ok ((), db')"
      by (cases p) auto
    then have db': "db' = (wd_db v)\<lparr>invoices := old @ [collected_row (we_x env) c row]\<rparr>"
      using store_collection_invoice_Ok [OF st v(1-4)] by (simp add: collected_row_def)
    have "\<forall>i \<in> set old. i_id i \<noteq> i_id row"
      using v(2) by (auto simp: invoice_conflict_def)
    then obtain pub where "public_invoice (i_id row) db' = Ok pub" "uint (as_u64 (pi_amount_sats pub)) = i_amount_sats row"
        "pi_bolt11 pub = Some (ci_bolt11 c)"
      using public_invoice_succeeds [of db' old "collected_row (we_x env) c row" "i_id row"] v(5,6)
      by (auto simp: db' collected_row_def invoice_check_def)
    then show ?thesis
      using run st db' by (auto simp: bindW_def alone_store [OF assms(1)] reading_def returnW_def wire_invoice_def)
  qed
qed

lemma collect_payment_rejected:
  assumes "alone env" and "table_ok invoice_check invoice_conflict (invoices (wd_db v))"
    and v: "invoices (wd_db v) = old @ [row]" "\<forall>i \<in> set old. \<not> invoice_conflict i row"
      "i_status row = InvPending" "i_bolt11 row = None"
    and "\<And>c. pv_create_collection (st_payment_provider s) (wd_calls v) (collection_request (i_id row) pending) = Ok c \<Longrightarrow>
      \<not> collection_ok pending c"
    and "collect_payment env s (i_id row) pending v = (r, w')"
  shows "(\<exists>e. r = Err (Refused e) \<and> er_status e = 502) \<and>
    invoices (wd_db w') = old @ [row\<lparr>i_status := InvCollectionFailed\<rparr>]"
  using assms(7,8) fail_collection_invoice_Ok [OF assms(2) v]
  by (cases "pv_create_collection (st_payment_provider s) (wd_calls v) (collection_request (i_id row) pending)")
     (auto simp: collect_payment_def bindW_def askE_def accept_collection_def failed_collection_def alone_store [OF assms(1)]
       liftE_def provider_def)

text \<open>The row that the request wrote before it asks the provider; an earlier end leaves the invoices alone.\<close>

lemma create_invoice_cases:
  assumes "alone env" and "handle env lib s headers (CreateInvoice raffle_id body) w = (r, w')"
  obtains (early) "invoices (wd_db w') = invoices (wd_db w)" and "\<And>rep. r \<noteq> Ok rep" and "\<And>e. r = Err (Refused e) \<Longrightarrow> er_status e \<noteq> 502"
  | (asked) iid ciphertext ids now pending db v where
      "create_collection_invoice (we_x env) ids now (collection_invoice_row env iid raffle_id (trim (ir_lightning_address body))
         ciphertext (ir_ticket_count body) (we_clock env (wd_calls w))) (wd_db w) = Ok (pending, db)"
      and "wd_db v = db" and "collect_payment env s iid pending v = (r, w')"
proof -
  let ?address = "trim (ir_lightning_address body)" and ?k = "wd_calls w"
  let ?iid = "we_ids env (Suc ?k) 9"
  show thesis
  proof (cases "?address = []")
    case True
    then show thesis
      using assms(2) by (intro early) (auto simp: handle.simps create_invoice_def liftE_def bad_def)
  next
    case False
    note run = assms(2) [unfolded handle.simps create_invoice_def Let_def if_not_P [OF False] bindW_def now_utc_def new_uuid_def
        encrypt_address_def askE_def alone_store [OF assms(1)], simplified]
    show thesis
    proof (cases "encrypt (al_aead lib) (st_address_cipher s) (al_nonce lib (Suc (Suc ?k))) ?address")
      case None
      then show thesis
        using run by (intro early) (auto simp: internal_def)
    next
      case (Some ciphertext)
      let ?new = "collection_invoice_row env ?iid raffle_id ?address ciphertext (ir_ticket_count body) (we_clock env ?k)"
      let ?op = "create_collection_invoice (we_x env) (we_ids env (Suc (Suc (Suc ?k)))) (we_now env (Suc (Suc (Suc ?k)))) ?new (wd_db w)"
      show thesis
      proof (cases ?op)
        case (Inl e)
        then show thesis
          using run Some by (intro early) (auto dest: api_error_status)
      next
        case (Inr p)
        then obtain pending db where op: "?op = Ok (pending, db)"
          by (cases p) auto
        show thesis
          by (rule asked [OF op, of "w\<lparr>wd_db := db, wd_calls := Suc (Suc (Suc (Suc ?k)))\<rparr>"])
             (use run Some op in simp_all)
      qed
    qed
  qed
qed

text \<open>C15. A request for an invoice, when no other process interferes: if it succeeds, the raffle was open and not past its end,
  the provider was asked for exactly the entry price times the ticket count and answered with an invoice over that
  amount that expires in time, and one pending invoice with these data was added, which the reply shows. If it fails, no
  pending invoice with a payment request was added, so nothing of the attempt can be collected; and if it fails because of the
  provider, with status 502, no pending invoice was added at all that could hold up the closing of the raffle.\<close>

theorem invoice_request_outcome:
  assumes "alone env" and "db_ok (we_x env) (wd_db w)"
    and "handle env lib s headers (CreateInvoice raffle_id body) w = (r, w')"
  shows "case r of
      Ok rep \<Rightarrow> \<exists>raffle row c k req wire. raffle \<in> set (raffles (wd_db w)) \<and> r_id raffle = raffle_id \<and> r_status raffle = Open \<and>
        we_clock env (wd_calls w) < r_end_time raffle \<and>
        invoices (wd_db w') = invoices (wd_db w) @ [row] \<and> i_raffle_id row = raffle_id \<and> i_status row = InvPending \<and>
        i_ticket_count row = uint (ir_ticket_count body) \<and> i_amount_sats row = r_entry_price_sats raffle * i_ticket_count row \<and>
        0 < i_amount_sats row \<and> pv_create_collection (st_payment_provider s) k req = Ok c \<and> cr_invoice_id req = i_id row \<and>
        uint (as_u64 (cr_amount_sats req)) = i_amount_sats row \<and> uint (as_u64 (ci_amount_sats c)) = i_amount_sats row \<and>
        ci_expires_at c \<le> min (we_clock env (wd_calls w) + minutes 15) (r_end_time raffle) \<and>
        i_bolt11 row = Some (ci_bolt11 c) \<and> ci_bolt11 c \<noteq> [] \<and>
        rep = reply 201 (InvoiceBody wire) \<and> uint (wi_amount_sats wire) = i_amount_sats row \<and> wi_bolt11 wire = i_bolt11 row
    | Err f \<Rightarrow>
        filter (\<lambda>i. i_status i = InvPending \<and> i_bolt11 i \<noteq> None) (invoices (wd_db w')) =
          filter (\<lambda>i. i_status i = InvPending \<and> i_bolt11 i \<noteq> None) (invoices (wd_db w)) \<and>
        (\<forall>e. f = Refused e \<and> er_status e = 502 \<longrightarrow>
           filter (\<lambda>i. i_status i = InvPending) (invoices (wd_db w')) = filter (\<lambda>i. i_status i = InvPending) (invoices (wd_db w)))"
  using assms(1,3)
proof (cases rule: create_invoice_cases)
  case early
  then show ?thesis
    by (cases r) auto
next
  case (asked iid ciphertext ids now pending db v)
  have tables: "table_ok raffle_check raffle_conflict (raffles (wd_db w))" "table_ok invoice_check invoice_conflict (invoices (wd_db w))"
    using assms(2) by (auto simp: db_ok_def dest: store_okD)
  obtain raffle row where raffle: "raffle \<in> set (raffles (wd_db w))" "r_id raffle = raffle_id" "r_status raffle = Open"
      "we_clock env (wd_calls w) < r_end_time raffle"
    and inv: "invoices (wd_db v) = invoices (wd_db w) @ [row]" "invoice_check row" "entries (wd_db v) = entries (wd_db w)" "\<forall>i \<in> set (invoices (wd_db w)). \<not> invoice_conflict i row"
    and row: "i_id row = iid" "i_raffle_id row = raffle_id" "i_status row = InvPending" "i_bolt11 row = None"
      "i_ticket_count row = uint (ir_ticket_count body)" "i_amount_sats row = r_entry_price_sats raffle * uint (ir_ticket_count body)"
    and pending: "uint (as_u64 (pc_amount_sats pending)) = i_amount_sats row"
      "pc_expires_at pending = min (we_clock env (wd_calls w) + minutes 15) (r_end_time raffle)"
    by (rule create_collection_invoice_Ok [OF asked(1) tables(1)]) (auto simp: collection_invoice_row_def asked(2))
  have tab: "table_ok invoice_check invoice_conflict (invoices (wd_db v))"
    using tables(2) inv by (auto simp: table_ok_def unique_ok_append)
  have ents: "\<forall>e \<in> set (entries (wd_db v)). entry_check e"
    using assms(2) inv(3) store_okD(8) by (fastforce simp: db_ok_def)
  show ?thesis
  proof (cases "\<exists>c. pv_create_collection (st_payment_provider s) (wd_calls v) (collection_request iid pending) = Ok c \<and> collection_ok pending c")
    case True
    then obtain c where c: "pv_create_collection (st_payment_provider s) (wd_calls v) (collection_request iid pending) = Ok c"
      and cok: "collection_ok pending c" by blast
    have "0 < i_amount_sats row"
      using inv(2) by (simp add: invoice_check_def)
    with collect_payment_accepted [OF assms(1) inv(1,4) row(3,4) inv(2) ents c [folded row(1)] cok asked(3) [folded row(1)]] raffle row pending c cok
    show ?thesis
      by (elim disjE exE conjE)
         (auto simp: collected_row_def collection_ok_def collection_request_def
           intro!: exI [of _ raffle] exI [of _ "collected_row (we_x env) c row"] exI [of _ c] exI [of _ "wd_calls v"])
  next
    case False
    then show ?thesis
      using collect_payment_rejected [OF assms(1) tab inv(1,4) row(3,4) _ asked(3) [folded row(1)]] row(1)
      by (auto simp: inv(1))
  qed
qed

definition sample_invoice_world :: world where
  "sample_invoice_world = \<lparr>wd_db = sample_store Open, wd_calls = 0, wd_paid = []\<rparr>"

lemma sample_invoice_request:
  "\<exists>rep w'. handle sample_api_env sample_library sample_state [] (CreateInvoice 2 \<lparr>ir_lightning_address = ''a@b'', ir_ticket_count = 3\<rparr>)
     sample_invoice_world = (Ok rep, w')"
proof -
  have address: "trim ''a@b'' = ''a@b''"
    by (simp add: trim_def trim_matches_def trim_end_matches_def is_space_def)
  have alone: "alone sample_api_env"
    by (simp add: alone_def)
  have ids: "we_clock sample_api_env k = 150" "we_ids sample_api_env k n = of_nat (1000 + 16 * k + n)" for k n
    by (simp_all add: sample_api_env_def)
  have zero: "ZERO_HASH = hash_repeat 0"
    by (simp add: hash_repeat_0)
  show ?thesis
    by (simp add: handle.simps create_invoice_def Let_def address bindW_def now_utc_def new_uuid_def encrypt_address_def askE_def
        alone_store [OF alone] sample_library_def sample_aead_def encrypt_def sample_invoice_world_def collect_payment_def
        create_collection_invoice_def collection_invoice_row_def eval_sql sample_rows checked_mul_def hash_def minutes_def seconds_def
        zero invoice_check_def bigint_def sample_state_def FakePaymentProvider_def fake_create_collection_def collection_request_def
        accept_collection_def collection_ok_def returnW_def store_collection_invoice_def public_invoice_def reading_def
        ids)
qed

theorem invoice_request_outcome_witness:
  "\<exists>rep w' row. handle sample_api_env sample_library sample_state []
       (CreateInvoice 2 \<lparr>ir_lightning_address = ''a@b'', ir_ticket_count = 3\<rparr>) sample_invoice_world = (Ok rep, w') \<and>
     row \<in> set (invoices (wd_db w')) \<and> i_status row = InvPending \<and> i_ticket_count row = 3 \<and> i_amount_sats row = 300 \<and>
     i_bolt11 row \<noteq> None"
proof -
  obtain rep w' where run: "handle sample_api_env sample_library sample_state []
      (CreateInvoice 2 \<lparr>ir_lightning_address = ''a@b'', ir_ticket_count = 3\<rparr>) sample_invoice_world = (Ok rep, w')"
    using sample_invoice_request by blast
  have "alone sample_api_env" "db_ok (we_x sample_api_env) (wd_db sample_invoice_world)"
    by (simp_all add: alone_def sample_invoice_world_def sample_db_ok)
  from invoice_request_outcome [OF this run] obtain row where "row \<in> set (invoices (wd_db w'))"
    and "i_status row = InvPending" "i_ticket_count row = 3" "i_amount_sats row = 300" "i_bolt11 row \<noteq> None"
    by (auto simp: sample_invoice_world_def sample_raffle_row_def) blast
  with run show ?thesis
    by blast
qed

end
