(* ===== verification/Store_Receipts.thy ===== *)
theory Store_Receipts
  imports Store_System
begin

text \<open>
  Entries and settled invoices correspond: along every run of the store, the entries are exactly the
  settled invoices, with the same raffle, participant, amount and number of tickets. So a ticket exists
  only for a payment, and every payment that counted has its tickets.
\<close>

section \<open>Receipts\<close>

text \<open>What an invoice and an entry have in common.\<close>

type_synonym receipt = "InvoiceId \<times> RaffleId \<times> bytes \<times> int \<times> int"

definition invoice_receipt :: "invoice_row \<Rightarrow> receipt" where
  "invoice_receipt i = (i_id i, i_raffle_id i, i_participant_public_id i, i_amount_sats i, i_ticket_count i)"

definition entry_receipt :: "entry_row \<Rightarrow> receipt" where
  "entry_receipt e =
     (e_invoice_id e, e_raffle_id e, e_participant_public_id e, e_amount_sats e, e_ticket_end e - e_ticket_start e)"

definition settled :: "invoice_row list \<Rightarrow> invoice_row set" where
  "settled t = {i \<in> set t. i_status i = InvSettled}"

definition receipts_ok :: "db \<Rightarrow> bool" where
  "receipts_ok db \<longleftrightarrow> entry_receipt ` set (entries db) = invoice_receipt ` settled (invoices db)"

definition keeps_receipts :: "db \<Rightarrow> db \<Rightarrow> bool" where
  "keeps_receipts db db' \<longleftrightarrow>
     entries db' = entries db \<and> settled (invoices db') = settled (invoices db)"

lemma keeps_receipts_ok: "keeps_receipts db db' \<Longrightarrow> receipts_ok db \<Longrightarrow> receipts_ok db'"
  by (simp add: keeps_receipts_def receipts_ok_def)

lemma keeps_receipts_same [intro]: "entries db' = entries db \<Longrightarrow> invoices db' = invoices db \<Longrightarrow> keeps_receipts db db'"
  by (simp add: keeps_receipts_def)

lemma settled_append: "i_status i \<noteq> InvSettled \<Longrightarrow> settled (t @ [i]) = settled t"
  by (auto simp: settled_def)

lemma settled_update:
  assumes "\<And>i. i \<in> set t \<Longrightarrow> P i \<Longrightarrow> i_status i \<noteq> InvSettled \<and> i_status (f i) \<noteq> InvSettled"
  shows "settled (set_where P f t) = settled t"
  using assms by (auto simp: settled_def set_set_where)

section \<open>Transactions that keep them\<close>

lemma receipts_invoices:
  "create_pending_invoice now invoice db = Ok (u, db') \<Longrightarrow> keeps_receipts db db'"
  "create_collection_invoice x ids now col db = Ok (pc, db') \<Longrightarrow> keeps_receipts db db'"
  by (auto simp: create_pending_invoice_def create_collection_invoice_def bindR_eq_Ok map_err_eq_Ok ok_or_eq_Ok Let_def
      sql_insert_Ok keeps_receipts_def settled_append split: if_splits elim!: write_audit_Ok)

lemma receipts_updates:
  "store_collection_invoice x iid q h b t db = Ok (u, db') \<Longrightarrow> keeps_receipts db db'"
  "fail_collection_invoice iid db = Ok (u, db') \<Longrightarrow> keeps_receipts db db'"
  "mark_collection_uncollectible iid db = Ok (u, db') \<Longrightarrow> keeps_receipts db db'"
  by (auto simp: store_collection_invoice_def fail_collection_invoice_def mark_collection_uncollectible_def bindR_eq_Ok map_err_eq_Ok
      sql_update_Ok keeps_receipts_def settled_def set_set_where split: if_splits)

lemma receipts_late:
  assumes "mark_late_settlement_for_refund x ids now iid db = Ok (uid, db')" and "store_ok x db"
  shows "keeps_receipts db db'"
proof -
  note tab = store_okD(4) [OF assms(2)]
  from assms(1) obtain i js k where i: "fetch_optional (\<lambda>i. i_id i = iid) (invoices db) = Some i"
    and js: "(if i_status i = InvPending then sql (sql_update invoice_check invoice_conflict (\<lambda>i. i_id i = iid)
        (\<lambda>i. i\<lparr>i_status := InvIneligible\<rparr>) (invoices db)) else Ok (invoices db, 0)) = Ok (js, k)"
    and db': "entries db' = entries db" "invoices db' = js"
    unfolding mark_late_settlement_for_refund_def
    by (auto simp: bindR_eq_Ok map_err_eq_Ok ok_or_eq_Ok elim!: write_audit_Ok)
  have "j = i" if "j \<in> set (invoices db)" "i_id j = iid" for j
    using invoices_tbl.row_unique [OF tab that(1)] fetch_optional_Some [OF i] that(2) by (simp add: invoice_conflict_def)
  then have "settled js = settled (invoices db)"
    using js by (cases "i_status i = InvPending") (auto simp: map_err_eq_Ok sql_update_Ok intro!: settled_update)
  then show ?thesis
    by (simp add: keeps_receipts_def db')
qed

lemma receipts_raffles:
  "create_organizer org db = Ok (u, db') \<Longrightarrow> keeps_receipts db db'"
  "create_draft_raffle x ids now raffle db = Ok (u, db') \<Longrightarrow> keeps_receipts db db'"
  "transition_raffle x ids now oid rid st db = Ok (u, db') \<Longrightarrow> keeps_receipts db db'"
  "update_raffle x ids now oid raffle db = Ok (u, db') \<Longrightarrow> keeps_receipts db db'"
  "record_webhook_and_enqueue x ids now ev db = Ok (f, db') \<Longrightarrow> keeps_receipts db db'"
  "create_refund_eligibility ids now rid iid reason db = Ok (uid, db') \<Longrightarrow> keeps_receipts db db'"
  by (auto elim!: create_organizer_Ok create_draft_raffle_Ok transition_raffle_Ok update_raffle_Ok)
     (auto simp: record_webhook_and_enqueue_def create_refund_eligibility_def bindR_eq_Ok map_err_eq_Ok
       split: if_splits elim!: insert_job_Ok)

lemma receipts_closing:
  "schedule_due_closes x ids now db = Ok (n, db') \<Longrightarrow> keeps_receipts db db'"
  by (auto simp: schedule_due_closes_def bindR_eq_Ok map_err_eq_Ok dest!: schedule_closes_frame)

text \<open>An operation given by the fields it writes.\<close>

lemma receipts_frame:
  "db' = d \<Longrightarrow> entries d = entries db \<Longrightarrow> invoices d = invoices db \<Longrightarrow> keeps_receipts db db'"
  by auto

lemma receipts_freeze: "freeze_raffle x ids now rid db = Ok (root, db') \<Longrightarrow> keeps_receipts db db'"
  by (erule freeze_raffle_Ok, erule receipts_frame) simp_all

lemma receipts_draw:
  assumes "create_draw_and_payouts x ids now rid ch bh rh rand db = Ok (result, db')"
  shows "keeps_receipts db db'"
  using assms
proof (rule create_draw_and_payouts_Ok)
  fix db1 js t ds items
  assume "insert_payouts x now rid items (db\<lparr>draws := ds\<rparr>) = Ok db1"
  then obtain ps where db1: "db1 = db\<lparr>draws := ds, payouts := ps\<rparr>"
    using insert_payouts_frame by blast
  assume "db' = db1\<lparr>jobs := js, raffles := raffles db', audit_events := t\<rparr>"
  then show ?thesis
    by (rule receipts_frame) (simp_all add: db1)
qed

lemma receipts_payouts:
  "claim_payout plocked now rid w db = Ok (cp, db') \<Longrightarrow> keeps_receipts db db'"
  "fail_payout pid w failure db = Ok (u, db') \<Longrightarrow> keeps_receipts db db'"
  by (auto simp: claim_payout_def fail_payout_def bindR_eq_Ok map_err_eq_Ok Let_def split: if_splits option.splits)

lemma receipts_settle_payout: "settle_payout x ids now pid w ref db = Ok (f, db') \<Longrightarrow> keeps_receipts db db'"
  by (erule settle_payout_Ok, elim exE, erule receipts_frame) simp_all

lemma receipts_proofs:
  "generate_terminal_proof x ids now rid db = Ok (doc, db') \<Longrightarrow> keeps_receipts db db'"
  "record_proof_publication now rid uri v etag db = Ok (u, db') \<Longrightarrow> keeps_receipts db db'"
  "record_canonical_block x now h bh prev t db = Ok (u, db') \<Longrightarrow> keeps_receipts db db'"
  by (auto simp: generate_terminal_proof_def record_proof_publication_def record_canonical_block_def bindR_eq_Ok map_err_eq_Ok
      ok_or_eq_Ok split: if_splits elim!: write_audit_Ok)

lemma receipts_sessions:
  "create_oidc_session x s db = Ok (u, db') \<Longrightarrow> keeps_receipts db db'"
  "keeps_receipts db (delete_oidc_session uid db)"
  "create_oidc_login_attempt x l db = Ok (u, db') \<Longrightarrow> keeps_receipts db db'"
  "keeps_receipts db (snd (consume_oidc_login_attempt now st db))"
  by (auto simp: create_oidc_session_def delete_oidc_session_def create_oidc_login_attempt_def
      consume_oidc_login_attempt_def bindR_eq_Ok map_err_eq_Ok Let_def)

lemma receipts_queue:
  "enqueue x now job db = Ok (b, db') \<Longrightarrow> keeps_receipts db db'"
  "claim_job locked now w ls db = Ok (c, db') \<Longrightarrow> keeps_receipts db db'"
  "succeed now jid w db = Ok (u, db') \<Longrightarrow> keeps_receipts db db'"
  "fail_or_retry now cj w ra er db = Ok (d, db') \<Longrightarrow> keeps_receipts db db'"
  "retry_dead_job now uid db = Ok (b, db') \<Longrightarrow> keeps_receipts db db'"
  "claim_outbox lockedx now w ls db = Ok (ce, db') \<Longrightarrow> keeps_receipts db db'"
  "mark_delivered now uid w db = Ok (u, db') \<Longrightarrow> keeps_receipts db db'"
  by (auto simp: enqueue_def claim_job_def succeed_def fail_or_retry_def retry_dead_job_def claim_outbox_def mark_delivered_def
      bindR_eq_Ok map_err_eq_Ok ok_or_eq_Ok Let_def split: if_splits option.splits)

section \<open>Settlement\<close>

text \<open>The settled invoice and its entry get the same receipt.\<close>

lemma appended_receipt:
  assumes "next_entry x invoice raffle count eid settled_at = Ok entry" and "entry_row_of x entry (i_id invoice) settled_at = Ok row"
    and "invoice_check invoice"
  shows "entry_receipt row = invoice_receipt invoice"
  using assms(1)
proof (rule next_entry_Ok)
  fix d prev and ts tc te :: u64
  assume e: "entry = LedgerEntry_create (x_sha x) d prev" and tc: "tc = of_int (i_ticket_count invoice)"
    and sum: "unat ts + unat tc = unat te" and rid: "ed_raffle_id d = i_raffle_id invoice"
    and pid: "as_bytes (ed_participant_public_id d) = i_participant_public_id invoice"
    and amount: "ed_amount_sats d = Sats (of_int (i_amount_sats invoice))"
    and range: "ed_ticket_range d = \<lparr>tr_start = ts, tr_end = te\<rparr>"
  have data: "le_data entry = d"
    by (simp add: e LedgerEntry_create_def)
  have "uint te - uint ts = uint tc"
    using arg_cong [OF sum, of int] by simp
  moreover have "uint tc = i_ticket_count invoice" "uint (of_int (i_amount_sats invoice) :: u64) = i_amount_sats invoice"
    using assms(3) by (simp_all add: tc uint_of_int invoice_check_def)
  ultimately show ?thesis
    using assms(2) unfolding entry_row_of_def data Let_def
    by (auto simp: bindR_eq_Ok db_as_i64_Ok entry_receipt_def invoice_receipt_def rid pid amount range)
qed

lemma receipts_append:
  assumes "append_entry x ids now invoice raffle eid settled_at db = Ok (entry, db')" and "store_ok x db"
    and "fetch_optional (\<lambda>i. i_id i = iid) (invoices db) = Some invoice" and "receipts_ok db"
  shows "receipts_ok db'"
  using assms(1)
proof (rule append_entry_Ok)
  fix row n t ob
  assume next_entry: "next_entry x invoice raffle (entry_count (i_raffle_id invoice) db) eid settled_at = Ok entry"
    and row: "entry_row_of x entry (i_id invoice) settled_at = Ok row"
    and upd: "sql_update invoice_check invoice_conflict (\<lambda>i. i_id i = i_id invoice) (mark_settled x settled_at) (invoices db)
      = Ok (invoices db', n)"
    and db': "db' = db\<lparr>entries := entries db @ [row], invoices := invoices db', raffles := raffles db',
      audit_events := t, outbox_events := ob\<rparr>"
  note tab = store_okD(4) [OF assms(2)]
  have inv: "invoice \<in> set (invoices db)" "invoice_check invoice"
    using fetch_optional_Some [OF assms(3)] tab by (auto simp: table_ok_def)
  have es: "entries db' = entries db @ [row]"
    by (rule arg_cong [OF db', of entries, THEN trans]) simp
  have only: "j = invoice" if "j \<in> set (invoices db)" "i_id j = i_id invoice" for j
    using invoices_tbl.row_unique [OF tab that(1) inv(1)] that(2) by (simp add: invoice_conflict_def)
  have "invoices db' = set_where (\<lambda>i. i_id i = i_id invoice) (mark_settled x settled_at) (invoices db)"
    using upd by (simp add: sql_update_Ok)
  then have set_db': "set (invoices db') = mark_settled x settled_at ` {i \<in> set (invoices db). i_id i = i_id invoice} \<union>
      {i \<in> set (invoices db). i_id i \<noteq> i_id invoice}"
    by (simp add: set_set_where)
  have "{i \<in> set (invoices db). i_id i = i_id invoice} = {invoice}"
    using only inv(1) by blast
  with set_db' only have "settled (invoices db') = insert (mark_settled x settled_at invoice) (settled (invoices db) - {invoice})"
    by (auto simp: settled_def mark_settled_def)
  moreover have "invoice_receipt (mark_settled x settled_at invoice) = invoice_receipt invoice"
    by (simp add: invoice_receipt_def mark_settled_def)
  ultimately have "invoice_receipt ` settled (invoices db') = insert (invoice_receipt invoice) (invoice_receipt ` settled (invoices db))"
    by auto
  then show ?thesis
    using assms(4) appended_receipt [OF next_entry row inv(2)] by (simp add: receipts_ok_def es)
qed

lemma receipts_settle:
  assumes "settle_invoice_and_append_entry x ids now iid eid t db = Ok (entry, db')" and "store_ok x db" and "receipts_ok db"
  shows "receipts_ok db'"
  using assms receipts_append
  by (auto simp: settle_invoice_and_append_entry_def bindR_eq_Ok ok_or_eq_Ok map_err_eq_Ok split: if_splits)

section \<open>Every run\<close>

lemmas keeps_receipts_steps = receipts_invoices receipts_updates receipts_raffles receipts_closing receipts_freeze receipts_draw
  receipts_payouts receipts_settle_payout receipts_proofs receipts_queue receipts_sessions(1,3)

lemma db_step_receipts:
  assumes "db_step x db db'" and "store_ok x db" and "receipts_ok db"
  shows "receipts_ok db'"
proof -
  have keep: "receipts_ok d" if "keeps_receipts db d" for d
    using keeps_receipts_ok [OF that assms(3)] .
  show ?thesis
    using assms(1)
  proof cases
    case delete_oidc_session
    then show ?thesis
      using keep receipts_sessions(2) by blast
  next
    case consume_oidc_login_attempt
    then show ?thesis
      using keep receipts_sessions(4) by blast
  qed ((erule keeps_receipts_steps [THEN keep] | erule receipts_late [OF _ assms(2), THEN keep]
      | erule receipts_settle [OF _ assms(2,3)]); assumption?)+
qed

lemma receipts_ok_empty: "receipts_ok empty_db"
  by (simp add: receipts_ok_def settled_def empty_db_def)

definition receipts_inv :: "externals \<Rightarrow> db \<Rightarrow> bool" where
  "receipts_inv x db \<longleftrightarrow> (uuid_text_ok x \<longrightarrow> db_ok x db \<and> receipts_ok db)"

interpretation receipts: invariant_system empty_db "db_step x" "receipts_inv x"
  for x
proof unfold_locales
  show "receipts_inv x empty_db"
    by (simp add: receipts_inv_def db_ok_def store_ok_empty payouts_ok_empty receipts_ok_empty)
  show "receipts_inv x t" if "receipts_inv x s" "db_step x s t" for s t
    using that db_step_store_ok db_step_payouts_ok db_step_receipts by (auto simp: receipts_inv_def db_ok_def)
qed

section \<open>Sums\<close>

lemma unique_ok_distinct:
  assumes "unique_ok conflict t" and "\<And>r s. k r = k s \<Longrightarrow> conflict r s"
  shows "distinct (map k t)"
  using assms(1) by (induction t) (auto dest: assms(2))

lemma distinct_filter_map: "distinct (map k t) \<Longrightarrow> distinct (map k (filter P t))"
  by (induction t) auto

text \<open>What was paid for the entries of a raffle is what its settled invoices amount to.\<close>

lemma receipts_sum:
  assumes "receipts_ok db" and "store_ok x db"
  shows "(\<Sum>e \<leftarrow> filter (\<lambda>e. e_raffle_id e = rid) (entries db). e_amount_sats e) =
    (\<Sum>i \<leftarrow> filter (\<lambda>i. i_raffle_id i = rid \<and> i_status i = InvSettled) (invoices db). i_amount_sats i)"
proof -
  let ?es = "filter (\<lambda>e. e_raffle_id e = rid) (entries db)"
  let ?is = "filter (\<lambda>i. i_raffle_id i = rid \<and> i_status i = InvSettled) (invoices db)"
  let ?amount = "\<lambda>(r :: receipt). fst (snd (snd (snd r)))"
  have "distinct (map e_invoice_id ?es)" "distinct (map i_id ?is)"
    using assms(2)
    by (auto intro!: distinct_filter_map unique_ok_distinct [of entry_conflict] unique_ok_distinct [of invoice_conflict]
        simp: store_ok_def table_ok_def entry_conflict_def invoice_conflict_def)
  then have "distinct (map entry_receipt ?es)" "distinct (map invoice_receipt ?is)"
    by (auto simp: distinct_map inj_on_def entry_receipt_def invoice_receipt_def)
  moreover have "set (map entry_receipt ?es) = {r \<in> entry_receipt ` set (entries db). fst (snd r) = rid}"
    by (auto simp: entry_receipt_def)
  moreover have "set (map invoice_receipt ?is) = {r \<in> invoice_receipt ` settled (invoices db). fst (snd r) = rid}"
    by (auto simp: invoice_receipt_def settled_def)
  ultimately have "sum_list (map ?amount (map entry_receipt ?es)) = sum_list (map ?amount (map invoice_receipt ?is))"
    using assms(1) by (simp only: sum_list_distinct_conv_sum_set receipts_ok_def)
  then show ?thesis
    by (simp add: comp_def entry_receipt_def invoice_receipt_def)
qed

end
