(* ===== verification/Store_Proofs.thy ===== *)
theory Store_Proofs
  imports Store_Reachable
begin

text \<open>
  The published proofs: every proof row of a database in order holds a document that the public verifier
  accepts, of a raffle that is paid out, with exactly the entries of that raffle in the database. Every
  transaction keeps it, so that whatever proof is ever served can be checked by anybody.
\<close>

section \<open>Proof rows\<close>

definition proof_row_ok :: "externals \<Rightarrow> db \<Rightarrow> proof_row \<Rightarrow> bool" where
  "proof_row_ok x db row \<longleftrightarrow>
     (\<exists>doc. x_to_value x doc = Ok (pr_proof_json row) \<and> is_verified (verify (x_sha x) (x_jcs x) doc) \<and>
        pp_raffle_id (pd_payload doc) = pr_raffle_id row \<and> pr_proof_hash row = as_bytes (pd_proof_hash doc) \<and>
        ledger_rows (pr_raffle_id row) db = Ok (pp_entries (pd_payload doc))) \<and>
     (\<exists>r \<in> set (raffles db). r_id r = pr_raffle_id row \<and> r_status r = PaidOut)"

definition proofs_ok :: "externals \<Rightarrow> db \<Rightarrow> bool" where
  "proofs_ok x db \<longleftrightarrow> (\<forall>row \<in> set (proofs db). proof_row_ok x db row)"

lemma proofs_ok_empty: "proofs_ok x empty_db"
  by (simp add: proofs_ok_def empty_db_def)

text \<open>A paid out raffle stays paid out, with its entries.\<close>

lemma proof_row_ok_step:
  assumes "proof_row_ok x db row" and "db_step x db db'" and "store_ok x db"
  shows "proof_row_ok x db' row"
proof -
  obtain r where r: "r \<in> set (raffles db)" "r_id r = pr_raffle_id row" "r_status r = PaidOut"
    using assms(1) by (auto simp: proof_row_ok_def)
  from db_step_follows [OF assms(2,3) r(1)] obtain r' where "r' \<in> set (raffles db')" "row_step r r'"
    and es: "raffle_entries (r_id r) db' = raffle_entries (r_id r) db"
    using r(3) by (auto simp: raffle_follows_def)
  then have "\<exists>r' \<in> set (raffles db'). r_id r' = pr_raffle_id row \<and> r_status r' = PaidOut"
    using r(2,3) by (auto simp: status_defs)
  moreover have "ledger_rows (pr_raffle_id row) db' = ledger_rows (pr_raffle_id row) db"
    using es r(2) by (simp add: ledger_rows_def entry_rows_def raffle_entries_def)
  ultimately show ?thesis
    using assms(1) by (simp add: proof_row_ok_def)
qed

section \<open>Transactions that leave the proofs alone\<close>

text \<open>The publication of a proof fills in where it is; the document stays.\<close>

definition keeps_proofs :: "db \<Rightarrow> db \<Rightarrow> bool" where
  "keeps_proofs db db' \<longleftrightarrow>
     (\<forall>row' \<in> set (proofs db'). \<exists>row \<in> set (proofs db). pr_raffle_id row' = pr_raffle_id row \<and>
        pr_proof_json row' = pr_proof_json row \<and> pr_proof_hash row' = pr_proof_hash row)"

lemma keeps_proofs_same [intro]: "proofs db' = proofs db \<Longrightarrow> keeps_proofs db db'"
  by (auto simp: keeps_proofs_def)

lemma keeps_proofs_frame: "db' = d \<Longrightarrow> proofs d = proofs db \<Longrightarrow> keeps_proofs db db'"
  by auto

lemma proof_row_ok_cong:
  "proof_row_ok x db row \<Longrightarrow> pr_raffle_id row' = pr_raffle_id row \<Longrightarrow> pr_proof_json row' = pr_proof_json row \<Longrightarrow>
     pr_proof_hash row' = pr_proof_hash row \<Longrightarrow> proof_row_ok x db row'"
  by (simp add: proof_row_ok_def)

lemma keeps_proofs_ok:
  assumes "keeps_proofs db db'" and "db_step x db db'" and "store_ok x db" and "proofs_ok x db"
  shows "proofs_ok x db'"
  unfolding proofs_ok_def
proof
  fix row'
  assume "row' \<in> set (proofs db')"
  then obtain row where row: "row \<in> set (proofs db)" "pr_raffle_id row' = pr_raffle_id row"
      "pr_proof_json row' = pr_proof_json row" "pr_proof_hash row' = pr_proof_hash row"
    using assms(1) by (auto simp: keeps_proofs_def)
  then show "proof_row_ok x db' row'"
    using proof_row_ok_cong [OF proof_row_ok_step [OF _ assms(2,3)] row(2-4)] assms(4) by (simp add: proofs_ok_def)
qed

lemma proofs_raffles:
  "create_organizer org db = Ok (u, db') \<Longrightarrow> keeps_proofs db db'"
  "create_draft_raffle x ids now raffle db = Ok (u, db') \<Longrightarrow> keeps_proofs db db'"
  "transition_raffle x ids now oid rid st db = Ok (u, db') \<Longrightarrow> keeps_proofs db db'"
  "update_raffle x ids now oid raffle db = Ok (u, db') \<Longrightarrow> keeps_proofs db db'"
  by (auto elim!: create_organizer_Ok create_draft_raffle_Ok transition_raffle_Ok update_raffle_Ok)

lemma proofs_invoices:
  "create_pending_invoice now invoice db = Ok (u, db') \<Longrightarrow> keeps_proofs db db'"
  "create_collection_invoice x ids now col db = Ok (pc, db') \<Longrightarrow> keeps_proofs db db'"
  "store_collection_invoice x iid q h b t db = Ok (u, db') \<Longrightarrow> keeps_proofs db db'"
  "fail_collection_invoice iid db = Ok (u, db') \<Longrightarrow> keeps_proofs db db'"
  "mark_collection_uncollectible iid db = Ok (u, db') \<Longrightarrow> keeps_proofs db db'"
  "record_webhook_and_enqueue x ids now ev db = Ok (f, db') \<Longrightarrow> keeps_proofs db db'"
  "create_refund_eligibility ids now rid iid reason db = Ok (uid, db') \<Longrightarrow> keeps_proofs db db'"
  "mark_late_settlement_for_refund x ids now iid db = Ok (uid, db') \<Longrightarrow> keeps_proofs db db'"
  by (auto simp: create_pending_invoice_def create_collection_invoice_def store_collection_invoice_def fail_collection_invoice_def
      mark_collection_uncollectible_def record_webhook_and_enqueue_def create_refund_eligibility_def
      mark_late_settlement_for_refund_def bindR_eq_Ok map_err_eq_Ok ok_or_eq_Ok Let_def
      split: if_splits elim!: write_audit_Ok insert_job_Ok)

lemma proofs_settlement:
  "settle_invoice_and_append_entry x ids now iid eid t db = Ok (entry, db') \<Longrightarrow> keeps_proofs db db'"
  by (auto simp: settle_invoice_and_append_entry_def bindR_eq_Ok ok_or_eq_Ok map_err_eq_Ok split: if_splits)
     (erule append_entry_Ok, erule keeps_proofs_frame, simp)

lemma proofs_closing:
  "schedule_due_closes x ids now db = Ok (n, db') \<Longrightarrow> keeps_proofs db db'"
  "freeze_raffle x ids now rid db = Ok (root, db') \<Longrightarrow> keeps_proofs db db'"
  by (auto simp: schedule_due_closes_def bindR_eq_Ok map_err_eq_Ok dest!: schedule_closes_frame)
     (erule freeze_raffle_Ok, erule keeps_proofs_frame, simp)

lemma proofs_draw:
  assumes "create_draw_and_payouts x ids now rid ch bh rh rand db = Ok (result, db')"
  shows "keeps_proofs db db'"
  using assms
proof (rule create_draw_and_payouts_Ok)
  fix db1 js t ds items
  assume "insert_payouts x now rid items (db\<lparr>draws := ds\<rparr>) = Ok db1"
  then obtain ps where db1: "db1 = db\<lparr>draws := ds, payouts := ps\<rparr>"
    using insert_payouts_frame by blast
  assume "db' = db1\<lparr>jobs := js, raffles := raffles db', audit_events := t\<rparr>"
  then show ?thesis
    by (rule keeps_proofs_frame) (simp add: db1)
qed

lemma proofs_payouts:
  "claim_payout plocked now rid w db = Ok (cp, db') \<Longrightarrow> keeps_proofs db db'"
  "fail_payout pid w failure db = Ok (u, db') \<Longrightarrow> keeps_proofs db db'"
  "settle_payout x ids now pid w ref db = Ok (f, db') \<Longrightarrow> keeps_proofs db db'"
  by (auto simp: claim_payout_def fail_payout_def bindR_eq_Ok map_err_eq_Ok Let_def split: if_splits option.splits)
     (erule settle_payout_Ok, elim exE, erule keeps_proofs_frame, simp)

lemma keeps_proofs_update:
  assumes "proofs db' = set_where P f (proofs db)"
    and "\<And>p. pr_raffle_id (f p) = pr_raffle_id p \<and> pr_proof_json (f p) = pr_proof_json p \<and> pr_proof_hash (f p) = pr_proof_hash p"
  shows "keeps_proofs db db'"
  using assms(2) unfolding keeps_proofs_def assms(1) set_set_where by fastforce

lemma proofs_publication:
  assumes "record_proof_publication now rid uri v etag db = Ok (u, db')"
  shows "keeps_proofs db db'"
proof (rule keeps_proofs_update)
  let ?f = "\<lambda>p. p\<lparr>pr_storage_uri := Some uri, pr_storage_version_id := Some v, pr_storage_etag := Some etag, pr_published_at := Some now\<rparr>"
  show "proofs db' = set_where (\<lambda>p. is_proof_of rid p \<and> pr_storage_uri p = None) ?f (proofs db)"
    using assms by (auto simp: record_proof_publication_def bindR_eq_Ok map_err_eq_Ok ok_or_eq_Ok sql_update_Ok split: if_splits)
qed simp

lemma proofs_others:
  "record_canonical_block x now h bh prev t db = Ok (u, db') \<Longrightarrow> keeps_proofs db db'"
  "create_oidc_session x s db = Ok (u, db') \<Longrightarrow> keeps_proofs db db'"
  "create_oidc_login_attempt x l db = Ok (u, db') \<Longrightarrow> keeps_proofs db db'"
  "enqueue x now job db = Ok (b, db') \<Longrightarrow> keeps_proofs db db'"
  "claim_job locked now w ls db = Ok (c, db') \<Longrightarrow> keeps_proofs db db'"
  "succeed now jid w db = Ok (u, db') \<Longrightarrow> keeps_proofs db db'"
  "fail_or_retry now cj w ra er db = Ok (d, db') \<Longrightarrow> keeps_proofs db db'"
  "retry_dead_job now uid db = Ok (b, db') \<Longrightarrow> keeps_proofs db db'"
  "claim_outbox lockedx now w ls db = Ok (ce, db') \<Longrightarrow> keeps_proofs db db'"
  "mark_delivered now uid w db = Ok (u, db') \<Longrightarrow> keeps_proofs db db'"
  by (auto simp: record_canonical_block_def create_oidc_session_def create_oidc_login_attempt_def enqueue_def claim_job_def
      succeed_def fail_or_retry_def retry_dead_job_def claim_outbox_def mark_delivered_def bindR_eq_Ok map_err_eq_Ok ok_or_eq_Ok
      Let_def split: if_splits option.splits)

lemma proofs_deletes:
  "keeps_proofs db (delete_oidc_session uid db)" "keeps_proofs db (snd (consume_oidc_login_attempt now st db))"
  by (auto simp: delete_oidc_session_def consume_oidc_login_attempt_def Let_def)

lemmas keeps_proofs_steps = proofs_raffles proofs_invoices proofs_settlement proofs_closing proofs_draw proofs_payouts
  proofs_publication proofs_others

section \<open>Every run\<close>

lemma generated_proof_ok:
  assumes "generate_terminal_proof x ids now rid db = Ok (doc, db')"
  obtains row where "proofs db' = proofs db @ [row]" and "proof_row_ok x db' row" and "is_proof_of rid row"
proof -
  from assms obtain r p v t au where r: "fetch_optional (\<lambda>r. r_id r = rid) (raffles db) = Some r" "r_status r = PaidOut"
    and p: "terminal_payload x rid r db = Ok p"
    and doc: "ProofDocument_create (x_sha x) (x_jcs x) p = Ok doc" "is_verified (verify (x_sha x) (x_jcs x) doc)"
    and val: "x_to_value x doc = Ok v"
    and t: "sql_insert proof_check proof_conflict (\<exists>r \<in> set (raffles db). r_id r = rid)
         \<lparr>pr_id = ids 0, pr_raffle_id = rid, pr_protocol_version = PROTOCOL_VERSION,
          pr_proof_json = v, pr_proof_hash = as_bytes (pd_proof_hash doc), pr_storage_uri = None,
          pr_created_at = now, pr_storage_version_id = None, pr_storage_etag = None, pr_published_at = None\<rparr>
         (proofs db) = Ok t"
    and db': "db' = db\<lparr>proofs := t, audit_events := au\<rparr>"
    by (auto simp: generate_terminal_proof_def bindR_eq_Ok map_err_eq_Ok fetch_one_Ok split: if_splits elim!: write_audit_Ok)
  have payload: "pd_payload doc = p"
    using doc(1) by (auto simp: ProofDocument_create_def bindR_eq_Ok)
  have fields: "pp_raffle_id p = rid" "ledger_rows rid db = Ok (pp_entries p)"
    using p by (auto simp: terminal_payload_def bindR_eq_Ok)
  have "ledger_rows rid db' = ledger_rows rid db"
    by (simp add: db' ledger_rows_def entry_rows_def)
  then show thesis
    using t doc val payload fields fetch_optional_Some [OF r(1)] r(2)
    by (intro that [of "last t"]) (auto simp: sql_insert_Ok db' proof_row_ok_def is_proof_of_def)
qed

lemma db_step_proofs:
  assumes "db_step x db db'" and "store_ok x db" and "proofs_ok x db"
  shows "proofs_ok x db'"
proof -
  have keep: "proofs_ok x db'" if "keeps_proofs db db'"
    using keeps_proofs_ok [OF that assms] .
  show ?thesis
    using assms(1)
  proof cases
    case (generate_terminal_proof ids now rid doc)
    from generate_terminal_proof obtain row where "proofs db' = proofs db @ [row]" "proof_row_ok x db' row"
      by (rule generated_proof_ok)
    then show ?thesis
      using assms(3) proof_row_ok_step [OF _ assms(1,2)] by (auto simp: proofs_ok_def)
  next
    case delete_oidc_session
    then show ?thesis
      using keep proofs_deletes(1) by blast
  next
    case consume_oidc_login_attempt
    then show ?thesis
      using keep proofs_deletes(2) by blast
  qed ((erule keeps_proofs_steps [THEN keep]; assumption?)+)
qed

definition proofs_inv :: "externals \<Rightarrow> db \<Rightarrow> db \<Rightarrow> bool" where
  "proofs_inv x db0 db \<longleftrightarrow> (uuid_text_ok x \<and> db_ok x db0 \<and> proofs_ok x db0 \<longrightarrow> db_ok x db \<and> proofs_ok x db)"

interpretation published: invariant_system db0 "db_step x" "proofs_inv x db0"
  for db0 x
proof unfold_locales
  show "proofs_inv x db0 db0"
    by (simp add: proofs_inv_def)
  show "proofs_inv x db0 t" if "proofs_inv x db0 s" "db_step x s t" for s t
    using that db_step_store_ok db_step_payouts_ok db_step_proofs by (auto simp: proofs_inv_def db_ok_def)
qed

text \<open>What the public read of a proof returns, when the decoder inverts the encoder.\<close>

definition document_text_ok :: "externals \<Rightarrow> bool" where
  "document_text_ok x \<longleftrightarrow> (\<forall>doc v. x_to_value x doc = Ok v \<longrightarrow> x_from_value x v = Ok doc)"

lemma public_proof_ok:
  assumes "public_proof x rid db = Ok doc" and "proofs_ok x db" and "document_text_ok x"
  shows "is_verified (verify (x_sha x) (x_jcs x) doc) \<and> pp_raffle_id (pd_payload doc) = rid \<and>
    ledger_rows rid db = Ok (pp_entries (pd_payload doc)) \<and> (\<exists>r \<in> set (raffles db). r_id r = rid \<and> r_status r = PaidOut)"
proof -
  obtain row where row: "fetch_optional (is_proof_of rid) (proofs db) = Some row" "x_from_value x (pr_proof_json row) = Ok doc"
    using assms(1) by (auto simp: public_proof_def bindR_eq_Ok ok_or_eq_Ok map_err_eq_Ok)
  then have "pr_raffle_id row = rid" "proof_row_ok x db row"
    using fetch_optional_Some [OF row(1)] assms(2) by (auto simp: is_proof_of_def proofs_ok_def)
  then show ?thesis
    using row(2) assms(3) by (auto simp: proof_row_ok_def document_text_ok_def)
qed

end
