(* ===== verification/Startup.thy ===== *)
theory Startup
  imports Api_Guarantees Worker
begin

text \<open>
  Configuration and start-up: \<open>crates/openpool-core/src/config.rs\<close> and the \<open>main\<close> functions of the API and
  the worker, which choose an implementation of every interface from the environment. Environment
  variables are a function from names to values; connecting to the database, migrating it, binding a
  socket, parsing socket addresses and numbers, the HTTP client with its decoders, and the OpenID library
  (theory Oidc) are parameters.
  Installing the tracing subscriber and running the servers are left out.
\<close>

section \<open>Configuration\<close>

datatype Environment = Development | Test | Staging | Production

record 'addr AppConfig =
  cf_environment :: Environment
  cf_api_bind_addr :: 'addr
  cf_worker_bind_addr :: 'addr

datatype ConfigError =
    Missing string
  | InvalidEnvironment string
  | InvalidSocketAddress string

fun config_error_text :: "ConfigError \<Rightarrow> string" where
  "config_error_text (Missing name) = ''required environment variable '' @ name @ '' is missing''"
| "config_error_text (InvalidEnvironment v) = ''APP_ENV must be development, test, staging, or production; got '' @ v"
| "config_error_text (InvalidSocketAddress name) = name @ '' must be a valid socket address''"

definition parse_environment :: "string \<Rightarrow> ConfigError + Environment" where
  "parse_environment v =
     (if v = ''development'' then Ok Development
      else if v = ''test'' then Ok Test
      else if v = ''staging'' then Ok Staging
      else if v = ''production'' then Ok Production
      else Err (InvalidEnvironment v))"

definition from_values :: "(string \<Rightarrow> 'addr option) \<Rightarrow> string \<Rightarrow> string \<Rightarrow> string \<Rightarrow> ConfigError + 'addr AppConfig" where
  "from_values parse environment api_bind_addr worker_bind_addr =
     bindR (parse_environment environment) (\<lambda>environment.
     bindR (ok_or (parse api_bind_addr) (InvalidSocketAddress ''API_BIND_ADDR'')) (\<lambda>api.
     bindR (ok_or (parse worker_bind_addr) (InvalidSocketAddress ''WORKER_BIND_ADDR'')) (\<lambda>worker.
       Ok \<lparr>cf_environment = environment, cf_api_bind_addr = api, cf_worker_bind_addr = worker\<rparr>)))"

definition required :: "(string \<Rightarrow> string option) \<Rightarrow> string \<Rightarrow> ConfigError + string" where
  "required vars name = ok_or (vars name) (Missing name)"

definition from_env :: "(string \<Rightarrow> 'addr option) \<Rightarrow> (string \<Rightarrow> string option) \<Rightarrow> ConfigError + 'addr AppConfig" where
  "from_env parse vars =
     bindR (required vars ''APP_ENV'') (\<lambda>environment.
     bindR (required vars ''API_BIND_ADDR'') (\<lambda>api.
     bindR (required vars ''WORKER_BIND_ADDR'') (\<lambda>worker.
       from_values parse environment api worker)))"

section \<open>The environment of a process\<close>

text \<open>What a \<open>main\<close> function can fail with; it is boxed and printed.\<close>

datatype StartupError =
    ConfigFailed ConfigError
  | VarMissing string
  | Unavailable string
  | CipherFailed ApiStartupError
  | OidcFailed OidcError
  | StorageFailed ProofStorageError
  | NotANumber string

record 'addr startup_io =
  io_vars :: "string \<Rightarrow> string option"
  io_parse_addr :: "string \<Rightarrow> 'addr option"
  io_parse_i64 :: "string \<Rightarrow> string + int"
  io_connect :: "string \<Rightarrow> string + unit"
  io_migrate :: "string + unit"
  io_bind :: "'addr \<Rightarrow> string + unit"
  io_base64 :: "string \<Rightarrow> string + bytes"
  io_uuid_text :: "uuid \<Rightarrow> string"
  io_uuids :: "nat \<Rightarrow> nat \<Rightarrow> uuid"
  io_http :: "nat \<Rightarrow> http_client"
  io_now :: "nat \<Rightarrow> timestamp"
  io_codec :: mavapay_codec
  io_decode_pay :: "string \<Rightarrow> string + LnurlPayResponse"
  io_decode_invoice :: "string \<Rightarrow> string + LnurlInvoiceResponse"
  io_decode_block :: "string \<Rightarrow> string + EsploraBlock"
  io_hex_decode :: "string \<Rightarrow> string + bytes"
  io_from_unix :: "i64 \<Rightarrow> timestamp option"
  io_s3_env :: s3_env
  io_aead :: aead

text \<open>\<open>std::env::var(name)?\<close>, and with \<open>unwrap_or_default\<close>.\<close>

definition var :: "'addr startup_io \<Rightarrow> string \<Rightarrow> StartupError + string" where
  "var io name = ok_or (io_vars io name) (VarMissing name)"

definition var_or_default :: "'addr startup_io \<Rightarrow> string \<Rightarrow> string" where
  "var_or_default io name = (case io_vars io name of None \<Rightarrow> [] | Some v \<Rightarrow> v)"

definition is_deployed :: "Environment \<Rightarrow> bool" where
  "is_deployed e \<longleftrightarrow> e = Staging \<or> e = Production"

text \<open>The payment provider; both processes choose it the same way.\<close>

definition choose_provider :: "'addr startup_io \<Rightarrow> Environment \<Rightarrow> StartupError + PaymentProvider" where
  "choose_provider io e =
     (if \<not> is_deployed e then Ok (FakePaymentProvider (mc_uuid_text (io_codec io)))
      else
        bindR (var io ''MAVAPAY_API_KEY'') (\<lambda>api_key.
        let base_url = var_or_default io ''MAVAPAY_BASE_URL'' in
          Ok (MavapayProvider (io_codec io) (io_http io)
            (if base_url = [] then Mavapay_staging api_key else Mavapay_with_base_url api_key base_url))))"

section \<open>The API\<close>

definition webhook_secret :: "'addr startup_io \<Rightarrow> Environment \<Rightarrow> StartupError + bytes" where
  "webhook_secret io e =
     (if \<not> is_deployed e then
        Ok (str_bytes (case io_vars io ''MAVAPAY_WEBHOOK_SECRET'' of None \<Rightarrow> ''openpool-dev-webhook'' | Some v \<Rightarrow> v))
      else bindR (var io ''MAVAPAY_WEBHOOK_SECRET'') (\<lambda>secret. Ok (str_bytes secret)))"

definition choose_oidc ::
  "('md, 'client, 'request, 'token, 'id_token, 'claims) openid \<Rightarrow> 'addr startup_io \<Rightarrow> Environment \<Rightarrow> StartupError + OidcAdapter option" where
  "choose_oidc oidc_lib io e =
     (if \<not> is_deployed e then Ok None
      else
        bindR (var io ''OIDC_ISSUER'') (\<lambda>issuer.
        bindR (var io ''OIDC_CLIENT_ID'') (\<lambda>client_id.
        bindR (var io ''OIDC_REDIRECT_URL'') (\<lambda>redirect_url.
        bindR (map_err OidcFailed (discover oidc_lib \<lparr>od_issuer = issuer, od_client_id = client_id,
            od_client_secret = io_vars io ''OIDC_CLIENT_SECRET'', od_redirect_url = redirect_url\<rparr>)) (\<lambda>self.
          Ok (Some (oidc_adapter oidc_lib (io_uuid_text io) (io_uuids io) self)))))))"

text \<open>\<open>None\<close> after a run that only migrates.\<close>

definition api_main ::
  "('md, 'client, 'request, 'token, 'id_token, 'claims) openid \<Rightarrow> 'addr startup_io \<Rightarrow> StartupError + ApiState option" where
  "api_main oidc_lib io =
     bindR (map_err ConfigFailed (from_env (io_parse_addr io) (io_vars io))) (\<lambda>config.
     bindR (var io ''DATABASE_URL'') (\<lambda>database_url.
     bindR (var io ''ADDRESS_ENCRYPTION_KEY'') (\<lambda>encryption_key.
     bindR (map_err Unavailable (io_connect io database_url)) (\<lambda>_.
     bindR (map_err Unavailable (io_migrate io)) (\<lambda>_.
     if io_vars io ''OPENPOOL_MIGRATE_ONLY'' = Some ''true'' then Ok None
     else
     bindR (map_err Unavailable (io_bind io (cf_api_bind_addr config))) (\<lambda>_.
     let e = cf_environment config in
     bindR (choose_provider io e) (\<lambda>payment_provider.
     bindR (webhook_secret io e) (\<lambda>secret.
     bindR (choose_oidc oidc_lib io e) (\<lambda>oidc.
     bindR (map_err CipherFailed (from_base64 (io_base64 io) encryption_key)) (\<lambda>cipher.
       Ok (Some \<lparr>st_payment_provider = payment_provider, st_address_cipher = cipher,
         st_mavapay_webhook_secret = Some secret, st_development_identity_enabled = (\<not> is_deployed e),
         st_oidc = oidc, st_secure_session_cookie = is_deployed e\<rparr>)))))))))))"

section \<open>The worker\<close>

definition choose_resolver :: "'addr startup_io \<Rightarrow> Environment \<Rightarrow> LightningAddressResolver option" where
  "choose_resolver io e = Some (if \<not> is_deployed e then (\<lambda>_. fake_resolve_exact_amount) 
     else (\<lambda>k. lnurl_resolve_exact_amount (io_decode_pay io) (io_decode_invoice io) (io_http io k)))"

definition choose_proof_store ::
  "'addr startup_io \<Rightarrow> Environment \<Rightarrow> StartupError + (nat \<Rightarrow> string \<Rightarrow> bytes \<Rightarrow> ProofStorageError + PublishedProof) option" where
  "choose_proof_store io e =
     (if \<not> is_deployed e then Ok None
      else
        bindR (var io ''PROOF_STORAGE_ENDPOINT'') (\<lambda>endpoint.
        bindR (var io ''PROOF_STORAGE_REGION'') (\<lambda>region.
        bindR (var io ''PROOF_STORAGE_BUCKET'') (\<lambda>bucket.
        bindR (var io ''PROOF_STORAGE_ACCESS_KEY_ID'') (\<lambda>access_key_id.
        bindR (var io ''PROOF_STORAGE_SECRET_ACCESS_KEY'') (\<lambda>secret_access_key.
        bindR (map_err NotANumber (io_parse_i64 io
            (case io_vars io ''PROOF_STORAGE_RETENTION_DAYS'' of None \<Rightarrow> ''2555'' | Some v \<Rightarrow> v))) (\<lambda>retention_days.
        bindR (map_err StorageFailed (S3ProofStore_new \<lparr>s3_endpoint = endpoint, s3_region = region, s3_bucket = bucket,
            s3_access_key_id = access_key_id, s3_secret_access_key = secret_access_key,
            s3_retention_days = retention_days\<rparr>)) (\<lambda>settings.
          Ok (Some (\<lambda>k. publish_immutable (io_s3_env io) (io_http io k) settings (io_now io k)))))))))))"

text \<open>An empty or missing \<open>ESPLORA_BASE_URL\<close> leaves the source out.\<close>

definition choose_bitcoin :: "'addr startup_io \<Rightarrow> BitcoinSource option" where
  "choose_bitcoin io =
     (case io_vars io ''ESPLORA_BASE_URL'' of
        None \<Rightarrow> None
      | Some url \<Rightarrow> if url = [] then None else Some (Esplora (io_hex_decode io) (io_decode_block io) (io_from_unix io) (io_http io) url))"

definition worker_main :: "'addr startup_io \<Rightarrow> StartupError + WorkerServices \<times> string" where
  "worker_main io =
     bindR (map_err ConfigFailed (from_env (io_parse_addr io) (io_vars io))) (\<lambda>config.
     bindR (var io ''DATABASE_URL'') (\<lambda>database_url.
     bindR (map_err Unavailable (io_connect io database_url)) (\<lambda>_.
     bindR (map_err Unavailable (io_migrate io)) (\<lambda>_.
     let e = cf_environment config in
     bindR (choose_provider io e) (\<lambda>provider.
     bindR (var io ''ADDRESS_ENCRYPTION_KEY'') (\<lambda>encryption_key.
     bindR (map_err CipherFailed (from_base64 (io_base64 io) encryption_key)) (\<lambda>cipher.
     bindR (choose_proof_store io e) (\<lambda>proof_store.
       Ok (\<lparr>ws_provider = provider, ws_bitcoin = choose_bitcoin io, ws_resolver = choose_resolver io e,
            ws_decrypt = decrypt (io_aead io) cipher, ws_platform_address = io_vars io ''PLATFORM_LIGHTNING_ADDRESS'',
            ws_proof_store = proof_store\<rparr>, ''worker-'' @ io_uuid_text io (io_uuids io 0 0))))))))))"

section \<open>Deployments\<close>

text \<open>In staging and in production everything that stands in for a secret or an identity is off.\<close>

lemma deployed_state:
  assumes "api_main oidc_lib io = Ok (Some s)" and "io_vars io ''APP_ENV'' = Some v" and "v = ''staging'' \<or> v = ''production''"
  shows "\<not> st_development_identity_enabled s" and "st_secure_session_cookie s" and "st_oidc s \<noteq> None"
    and "st_mavapay_webhook_secret s = map_option str_bytes (io_vars io ''MAVAPAY_WEBHOOK_SECRET'')"
    and "st_mavapay_webhook_secret s \<noteq> None" and "length (st_address_cipher s) = 32"
proof -
  from assms(2,3) obtain e where e: "parse_environment v = Ok e" "is_deployed e"
    by (auto simp: parse_environment_def is_deployed_def)
  from assms(1) obtain config secret oidc where config: "from_env (io_parse_addr io) (io_vars io) = Ok config"
    and secret: "webhook_secret io (cf_environment config) = Ok secret"
    and oidc: "choose_oidc oidc_lib io (cf_environment config) = Ok oidc"
    and s: "st_mavapay_webhook_secret s = Some secret" "st_development_identity_enabled s \<longleftrightarrow> \<not> is_deployed (cf_environment config)"
      "st_oidc s = oidc" "st_secure_session_cookie s \<longleftrightarrow> is_deployed (cf_environment config)" "length (st_address_cipher s) = 32"
    by (auto simp: api_main_def bindR_eq_Ok map_err_eq_Ok Let_def from_base64_def from_key_bytes_def ok_or_eq_Ok split: if_splits)
  have dep: "is_deployed (cf_environment config)"
    using config assms(2) e by (auto simp: from_env_def from_values_def required_def bindR_eq_Ok ok_or_eq_Ok)
  show "\<not> st_development_identity_enabled s" "st_secure_session_cookie s" "length (st_address_cipher s) = 32"
    "st_mavapay_webhook_secret s \<noteq> None"
    using s dep by simp_all
  show "st_oidc s \<noteq> None"
    using oidc s(3) dep by (auto simp: choose_oidc_def bindR_eq_Ok dest: sym)
  show "st_mavapay_webhook_secret s = map_option str_bytes (io_vars io ''MAVAPAY_WEBHOOK_SECRET'')"
    using secret s(1) dep by (auto simp: webhook_secret_def var_def bindR_eq_Ok ok_or_eq_Ok)
qed

text \<open>C12. In a deployment, that is an API that started with \<open>APP_ENV\<close> set to staging or production, a request that creates
  or changes an organizer, a raffle or a job acts only if its cookie named a session that was live in a state of the
  database the request saw, its CSRF header hashed to the token of that session, and the roles of that session include the
  required one; otherwise it is refused with status 400, 403 or 503 and has written nothing. This holds whatever other processes do in between; the development headers are never believed.\<close>

theorem deployed_requests_authenticated:
  assumes "api_main oidc_lib io = Ok (Some s)" and "io_vars io ''APP_ENV'' \<in> {Some ''staging'', Some ''production''}"
    and "required_role request = Some role" and "handle env lib s headers request w = (r, w')"
  shows "(session_evidence env headers (csrf_matches env headers) w \<and> session_evidence env headers (has_role role) w) \<or>
    (refused r \<and> others_only env w w')"
proof -
  obtain v where "io_vars io ''APP_ENV'' = Some v" and "v = ''staging'' \<or> v = ''production''"
    using assms(2) by auto
  from deployed_state(1) [OF assms(1) this] show ?thesis
    using assms(3,4) by (rule guarded_requests)
qed

text \<open>A staging deployment of the API, at which an organizer cancels an open raffle.\<close>

definition sample_vars :: "string \<Rightarrow> string option" where
  "sample_vars = map_of
     [(''APP_ENV'', ''staging''), (''API_BIND_ADDR'', ''0''), (''WORKER_BIND_ADDR'', ''0''), (''DATABASE_URL'', ''d''),
      (''ADDRESS_ENCRYPTION_KEY'', ''k''), (''MAVAPAY_API_KEY'', ''m''), (''MAVAPAY_WEBHOOK_SECRET'', ''w''),
      (''OIDC_ISSUER'', ''i''), (''OIDC_CLIENT_ID'', ''c''), (''OIDC_REDIRECT_URL'', ''r'')]"

definition sample_openid :: "(unit, unit, unit, unit, unit, unit) openid" where
  "sample_openid = \<lparr>oi_issuer_url = Ok, oi_discover = (\<lambda>_. Ok ()), oi_redirect_url = Ok, oi_client = (\<lambda>_ _ _ _. ()),
     oi_code_challenge = (\<lambda>v. v), oi_authorize_url = (\<lambda>_ _ _ _. ([], [], [])), oi_exchange_code = (\<lambda>_ _. Ok ()),
     oi_request = (\<lambda>_ _ _. Ok ()), oi_id_token = (\<lambda>_. Some ()), oi_claims = (\<lambda>_ _ _. Ok ()), oi_id_token_text = (\<lambda>_. []),
     oi_subject = (\<lambda>_. []), oi_base64url = (\<lambda>_. Err []), oi_keycloak_claims = (\<lambda>_. Err [])\<rparr>"

definition sample_io :: "unit startup_io" where
  "sample_io = \<lparr>io_vars = sample_vars, io_parse_addr = (\<lambda>_. Some ()), io_parse_i64 = (\<lambda>_. Ok 1), io_connect = (\<lambda>_. Ok ()),
     io_migrate = Ok (), io_bind = (\<lambda>_. Ok ()), io_base64 = (\<lambda>_. Ok (replicate 32 0)), io_uuid_text = x_uuid_text sample_ext,
     io_uuids = (\<lambda>_ _. 0), io_http = (\<lambda>_. \<lparr>hc_send = (\<lambda>_. Err []), hc_status_error = (\<lambda>_. [])\<rparr>), io_now = (\<lambda>_. 0),
     io_codec = \<lparr>mc_uuid_text = x_uuid_text sample_ext, mc_encode = (\<lambda>_. []), mc_decode_quote = Err, mc_decode_value = Err,
       mc_rfc3339 = Err\<rparr>, io_decode_pay = Err, io_decode_invoice = Err, io_decode_block = Err, io_hex_decode = Err,
     io_from_unix = (\<lambda>_. None),
     io_s3_env = \<lparr>se_format_amz = (\<lambda>_. Err []), se_format_day = (\<lambda>_. Err []), se_format_rfc3339 = (\<lambda>_. Err []),
       se_plus_days = (\<lambda>t _. t), se_url_host = Err, se_sha = (\<lambda>_. ZERO_HASH), se_hmac = (\<lambda>_ _. []), se_hex_encode = (\<lambda>_. [])\<rparr>,
     io_aead = sample_aead\<rparr>"

lemma sample_main: "\<exists>s. api_main sample_openid sample_io = Ok (Some s)"
  by (simp add: api_main_def sample_io_def sample_vars_def sample_openid_def from_env_def from_values_def required_def
      parse_environment_def var_def choose_provider_def is_deployed_def var_or_default_def webhook_secret_def choose_oidc_def
      discover_def from_base64_def from_key_bytes_def Let_def)

theorem deployed_requests_authenticated_witness:
  "\<exists>s w'. api_main sample_openid sample_io = Ok (Some s) \<and>
     handle sample_api_env sample_library s sample_headers (Cancel 2) sample_api_world = (Ok (reply 204 NoBody), w') \<and>
     session_evidence sample_api_env sample_headers (csrf_matches sample_api_env sample_headers) sample_api_world \<and>
     session_evidence sample_api_env sample_headers (has_role ''organizer'') sample_api_world"
proof -
  obtain s where s: "api_main sample_openid sample_io = Ok (Some s)"
    using sample_main by blast
  have v: "io_vars sample_io ''APP_ENV'' = Some ''staging''"
    by (simp add: sample_io_def sample_vars_def)
  obtain w' where w': "handle sample_api_env sample_library s sample_headers (Cancel 2) sample_api_world
      = (Ok (reply 204 NoBody), w')"
    using sample_cancel [OF deployed_state(1) [OF s v]] by blast
  from deployed_requests_authenticated [OF s _ _ w', where role = "''organizer''"] v s w' show ?thesis
    by (auto simp: refused_def)
qed

end
