(* ===== verification/Api_SignIn.thy ===== *)
theory Api_SignIn
  imports Api_Guarantees
begin

text \<open>
  Sign-in from end to end: the callback of the identity provider opens a session and sets two cookies, and
  a browser that sends them back passes the CSRF and role checks of the next request.
\<close>

section \<open>The browser\<close>

text \<open>The name and value of a \<open>Set-Cookie\<close> header: all before its first attribute.\<close>

definition cookie_pair :: "string \<Rightarrow> string" where
  "cookie_pair c = takeWhile (\<lambda>d. d \<noteq> CHR 0x3B) c"

text \<open>The pages send both cookies back, and the value of the second in a header of its own.\<close>

definition browser_headers :: "Reply \<Rightarrow> HeaderMap \<Rightarrow> bool" where
  "browser_headers rep headers \<longleftrightarrow>
     (\<exists>first second token. rp_set_cookie rep = [first, second] \<and> cookie_pair second = ''openpool_csrf='' @ token \<and>
        header_str ''cookie'' headers = Some (cookie_pair first @ ''; '' @ cookie_pair second) \<and>
        header_str ''x-openpool-csrf'' headers = Some token)"

text \<open>What the \<open>uuid\<close> crate documents: the hyphenated form is made of hexadecimal digits and hyphens, and parses back.\<close>

definition uuid_char :: "char \<Rightarrow> bool" where
  "uuid_char c \<longleftrightarrow> is_ascii_hexdigit c \<or> c = CHR ''-''"

definition uuid_format_ok :: "externals \<Rightarrow> bool" where
  "uuid_format_ok x \<longleftrightarrow> (\<forall>u. list_all uuid_char (x_uuid_text x u) \<and> x_uuid_parse x (x_uuid_text x u) = Some u)"

section \<open>Cookies\<close>

lemma uuid_char_facts: "uuid_char c \<Longrightarrow> \<not> is_space c \<and> c \<noteq> CHR 0x3B \<and> c \<noteq> CHR 0x3D"
  by (auto simp: uuid_char_def is_ascii_hexdigit_def is_digit_def is_space_def)

lemma no_space_trim:
  assumes "list_all (\<lambda>c. \<not> is_space c) s"
  shows "trim s = s"
proof -
  have keep: "dropWhile is_space t = t" if "list_all (\<lambda>c. \<not> is_space c) t" for t
    using that by (cases t) auto
  from assms show ?thesis
    by (simp add: trim_def trim_matches_def trim_end_matches_def keep)
qed

lemma takeWhile_cookie: "CHR 0x3B \<notin> set a \<Longrightarrow> cookie_pair (a @ CHR 0x3B # b) = a"
  unfolding cookie_pair_def by (induction a) auto

lemma session_cookie_pair:
  assumes "uuid_format_ok (we_x env)" and "session_cookie env s sid = Ok first"
  shows "cookie_pair first = ''openpool_session='' @ x_uuid_text (we_x env) sid"
proof -
  have "list_all uuid_char (x_uuid_text (we_x env) sid)"
    using assms(1) by (simp add: uuid_format_ok_def)
  then have "CHR 0x3B \<notin> set (''openpool_session='' @ x_uuid_text (we_x env) sid)"
    by (auto simp: list_all_iff dest: uuid_char_facts)
  from takeWhile_cookie [OF this] assms(2) show ?thesis
    by (auto simp: session_cookie_def ok_or_eq_Ok header_from_str_def split: if_splits)
qed

lemma csrf_cookie_pair:
  assumes "uuid_format_ok (we_x env)" and "csrf_cookie s (x_uuid_text (we_x env) u) = Ok second"
  shows "cookie_pair second = ''openpool_csrf='' @ x_uuid_text (we_x env) u"
proof -
  have "list_all uuid_char (x_uuid_text (we_x env) u)"
    using assms(1) by (simp add: uuid_format_ok_def)
  then have "CHR 0x3B \<notin> set (''openpool_csrf='' @ x_uuid_text (we_x env) u)"
    by (auto simp: list_all_iff dest: uuid_char_facts)
  from takeWhile_cookie [OF this] assms(2) show ?thesis
    by (auto simp: csrf_cookie_def ok_or_eq_Ok header_from_str_def split: if_splits)
qed

text \<open>The session is found in the cookie header.\<close>

lemma session_id_found:
  assumes "uuid_format_ok (we_x env)"
    and "header_str ''cookie'' headers = Some (''openpool_session='' @ x_uuid_text (we_x env) sid @ ''; '' @ rest)"
  shows "session_id_from_headers env headers = Ok sid"
proof -
  let ?c = "''openpool_session='' @ x_uuid_text (we_x env) sid"
  have chars: "list_all uuid_char (x_uuid_text (we_x env) sid)" "x_uuid_parse (we_x env) (x_uuid_text (we_x env) sid) = Some sid"
    using assms(1) by (simp_all add: uuid_format_ok_def)
  have "list_all (\<lambda>c. \<not> is_space c \<and> c \<noteq> CHR 0x3B) (x_uuid_text (we_x env) sid)"
    using chars(1) by (rule list.pred_mono_strong) (blast dest: uuid_char_facts)
  moreover have "list_all (\<lambda>c. \<not> is_space c \<and> c \<noteq> CHR 0x3B) ''openpool_session=''"
    by (simp add: is_space_def)
  ultimately have "list_all (\<lambda>c. \<not> is_space c \<and> c \<noteq> CHR 0x3B) ?c"
    by (simp only: list_all_append)
  then have c: "CHR 0x3B \<notin> set ?c" "list_all (\<lambda>c. \<not> is_space c) ?c"
    unfolding list_all_iff by blast+
  have "''openpool_session='' @ x_uuid_text (we_x env) sid @ ''; '' @ rest = ?c @ CHR 0x3B # '' '' @ rest"
    by simp
  then have cookie: "header_str ''cookie'' headers = Some (?c @ CHR 0x3B # '' '' @ rest)"
    using assms(2) by (simp only:)
  have "strip_prefix ''openpool_session='' ?c = Some (x_uuid_text (we_x env) sid)"
    by (simp only: strip_prefix_Some)
  then have "find_map (\<lambda>part. strip_prefix ''openpool_session='' (trim part)) (split_on (CHR 0x3B) (?c @ CHR 0x3B # '' '' @ rest))
      = Some (x_uuid_text (we_x env) sid)"
    by (simp only: split_on_append [OF c(1)] find_map.simps no_space_trim [OF c(2)] option.case)
  then show ?thesis
    unfolding session_id_from_headers_def cookie by (simp only: Option.bind.simps chars(2) ok_or_eq_Ok)
qed

section \<open>The callback\<close>

lemma callback_Ok:
  assumes "oidc_callback env s code state w = (Ok rep, w')"
  obtains oidc attempt db ident first second where
    "st_oidc s = Some oidc"
    "consume_oidc_login_attempt (we_now env (wd_calls w)) state (we_others env (wd_calls w) (wd_db w)) = (Some attempt, db)"
    "oa_exchange_code oidc (Suc (wd_calls w)) code (ol_pkce_verifier attempt) (ol_nonce attempt) = Ok ident"
    "create_oidc_session (we_x env) (new_session env (we_ids env (wd_calls w + 2) 9) ident
        (x_uuid_text (we_x env) (we_ids env (wd_calls w + 3) 9)) (we_clock env (wd_calls w + 4)))
        (we_others env (wd_calls w + 5) db) = Ok ((), wd_db w')"
    "session_cookie env s (we_ids env (wd_calls w + 2) 9) = Ok first"
    "csrf_cookie s (x_uuid_text (we_x env) (we_ids env (wd_calls w + 3) 9)) = Ok second"
    "rep = \<lparr>rp_status = 303, rp_set_cookie = [first, second], rp_body = RedirectBody ''/organizer''\<rparr>"
    "wd_calls w' = wd_calls w + 6"
proof -
  have suc: "n + 2 = Suc (Suc n)" "n + 3 = Suc (Suc (Suc n))" "n + 4 = Suc (Suc (Suc (Suc n)))"
    "n + 5 = Suc (Suc (Suc (Suc (Suc n))))" "n + 6 = Suc (Suc (Suc (Suc (Suc (Suc n)))))" for n :: nat
    by simp_all
  show thesis
    using assms
    by (auto simp: oidc_callback_def process_Ok new_uuid_def now_utc_def Let_def ok_or_eq_Ok map_err_eq_Ok returnW_def
        intro!: that [unfolded suc])
qed

text \<open>A check of a browser that holds the cookies meets the session while it lasts.\<close>

lemma created_session:
  assumes "create_oidc_session x session db = Ok ((), db')" and "now < x_timestamptz x (ns_expires_at session)"
  shows "oidc_session now (ns_id session) db' = Some \<lparr>os_subject = ns_subject session, os_roles = ns_roles session,
     os_csrf_token_hash = ns_csrf_token_hash session, os_expires_at = x_timestamptz x (ns_expires_at session)\<rparr>"
proof -
  let ?row = "\<lparr>s_id = ns_id session, s_subject = ns_subject session, s_roles = ns_roles session,
    s_csrf_token_hash = ns_csrf_token_hash session, s_expires_at = x_timestamptz x (ns_expires_at session)\<rparr>"
  have db': "oidc_sessions db' = oidc_sessions db @ [?row]" "\<forall>r \<in> set (oidc_sessions db). s_id r \<noteq> ns_id session"
    using assms(1)
    by (auto simp: create_oidc_session_def bindR_eq_Ok map_err_eq_Ok sql_insert_Ok session_conflict_def)
  obtain row where row: "fetch_optional (\<lambda>r. s_id r = ns_id session \<and> s_expires_at r > now) (oidc_sessions db') = Some row"
    using assms(2) db'(1) fetch_optional_None [of "\<lambda>r. s_id r = ns_id session \<and> s_expires_at r > now" "oidc_sessions db'"]
    by (cases "fetch_optional (\<lambda>r. s_id r = ns_id session \<and> s_expires_at r > now) (oidc_sessions db')") auto
  then have "row = ?row"
    using db' by (auto dest!: fetch_optional_Some)
  with row have "fetch_optional (\<lambda>r. s_id r = ns_id session \<and> s_expires_at r > now) (oidc_sessions db') = Some ?row"
    by simp
  then show ?thesis
    by (simp add: oidc_session_def)
qed

lemma live_session_found:
  "oidc_session (we_now env (wd_calls v)) sid (we_others env (wd_calls v) (wd_db v)) = Some session \<Longrightarrow>
     fst (live_session env sid v) = Ok session"
  by (simp add: live_session_def bindW_def storeE_def transact_reading liftE_def)

lemma string_list_of_roles: "string_list (JArr (map JStr roles)) = Some roles"
  by (simp add: string_list_def list_all_iff List.map_filter_def comp_def)

section \<open>Signing in\<close>

text \<open>A look-up of a session depends on the rows of its identifier only.\<close>

lemma oidc_session_same_rows:
  assumes "filter (\<lambda>r. s_id r = sid) (oidc_sessions db') = filter (\<lambda>r. s_id r = sid) (oidc_sessions db)"
  shows "oidc_session now sid db' = oidc_session now sid db"
proof -
  have "fetch_optional (\<lambda>r. s_id r = sid \<and> P r) t = find P (filter (\<lambda>r. s_id r = sid) t)" for P and t :: "session_row list"
    unfolding fetch_optional_def by (induction t) auto
  then show ?thesis
    using assms by (simp add: oidc_session_def)
qed

text \<open>A consumed attempt was live, and is gone.\<close>

lemma consumed_attempt:
  assumes "consume_oidc_login_attempt now state db = (Some attempt, used)"
  obtains l where "l \<in> set (oidc_login_attempts db)" and "l_state l = state" and "now < l_expires_at l"
    and "attempt = \<lparr>ol_nonce = l_nonce l, ol_pkce_verifier = l_pkce_verifier l\<rparr>"
    and "used = db\<lparr>oidc_login_attempts := filter (\<lambda>l. \<not> (l_state l = state \<and> now < l_expires_at l)) (oidc_login_attempts db)\<rparr>"
  using assms by (auto simp: consume_oidc_login_attempt_def Let_def sql_delete_def dest!: fetch_optional_Some)

lemma used_attempt:
  "now \<le> later \<Longrightarrow> fst (consume_oidc_login_attempt later state
     (db\<lparr>oidc_login_attempts := filter (\<lambda>l. \<not> (l_state l = state \<and> now < l_expires_at l)) ls\<rparr>)) = None"
  by (auto simp: consume_oidc_login_attempt_def Let_def fetch_optional_None)

text \<open>C14. Signing in works from end to end. A callback that succeeds has deleted a live login attempt of its state, so that
  the state cannot be used again, the provider vouched for an identity on the verifier and nonce of that very attempt, and
  all else it committed, on top of what other processes had, is one new session of that identity. Whoever sends the two
  cookies back with the token of the second in the CSRF header passes, within eight hours and as long as this session is on
  record, whatever else has changed since, the CSRF check and exactly those role checks whose role the
  identity carries, as the organizer that its subject stands for.\<close>

theorem sign_in_opens_session:
  assumes "uuid_format_ok (we_x env)" and "\<not> st_development_identity_enabled s"
    and "handle env lib s headers (OidcCallback code state) w = (Ok rep, w')" and "browser_headers rep browser"
    and "filter (\<lambda>r. s_id r = we_ids env (wd_calls w + 2) 9) (oidc_sessions (we_others env (wd_calls v) (wd_db v))) =
      filter (\<lambda>r. s_id r = we_ids env (wd_calls w + 2) 9) (oidc_sessions (wd_db w'))"
    and "we_now env (wd_calls v) < x_timestamptz (we_x env) (we_clock env (wd_calls w + 4) + hours 8)"
    and "now = we_now env (wd_calls w)" and "found = we_others env (wd_calls w) (wd_db w)"
    and "used = found\<lparr>oidc_login_attempts := filter (\<lambda>l. \<not> (l_state l = state \<and> now < l_expires_at l)) (oidc_login_attempts found)\<rparr>"
    and "current = we_others env (wd_calls w + 5) used"
  shows "\<exists>oidc l ident token. st_oidc s = Some oidc \<and>
     l \<in> set (oidc_login_attempts found) \<and> l_state l = state \<and> now < l_expires_at l \<and>
     (\<forall>later \<ge> now. fst (consume_oidc_login_attempt later state used) = None) \<and>
     oa_exchange_code oidc (Suc (wd_calls w)) code (l_pkce_verifier l) (l_nonce l) = Ok ident \<and>
     wd_db w' = current\<lparr>oidc_sessions := oidc_sessions current @
       [\<lparr>s_id = we_ids env (wd_calls w + 2) 9, s_subject = oidc_subject_id env (ai_subject ident),
         s_roles = JArr (map JStr (ai_roles ident)), s_csrf_token_hash = as_bytes (hash env (str_bytes token)),
         s_expires_at = x_timestamptz (we_x env) (we_clock env (wd_calls w + 4) + hours 8)\<rparr>]\<rparr> \<and>
     header_str ''x-openpool-csrf'' browser = Some token \<and>
     fst (validate_csrf env s browser v) = Ok () \<and>
     fst (identity env s browser v) =
       (if ''organizer'' \<in> set (ai_roles ident) then Ok (oidc_subject_id env (ai_subject ident))
        else Err (Refused (forbidden ''organizer role is required''))) \<and>
     fst (require_operator env s browser v) =
       (if ''operator'' \<in> set (ai_roles ident) then Ok () else Err (Refused (forbidden ''operator role is required'')))"
proof -
  from assms(3) have "oidc_callback env s code state w = (Ok rep, w')"
    by (simp only: handle.simps)
  then obtain oidc attempt db ident first second where oidc: "st_oidc s = Some oidc"
      and consumed: "consume_oidc_login_attempt now state found = (Some attempt, db)"
      and vouched: "oa_exchange_code oidc (Suc (wd_calls w)) code (ol_pkce_verifier attempt) (ol_nonce attempt) = Ok ident"
    and created: "create_oidc_session (we_x env) (new_session env (we_ids env (wd_calls w + 2) 9) ident
        (x_uuid_text (we_x env) (we_ids env (wd_calls w + 3) 9)) (we_clock env (wd_calls w + 4)))
        (we_others env (wd_calls w + 5) db) = Ok ((), wd_db w')"
    and cookies: "session_cookie env s (we_ids env (wd_calls w + 2) 9) = Ok first"
      "csrf_cookie s (x_uuid_text (we_x env) (we_ids env (wd_calls w + 3) 9)) = Ok second"
    and rep: "rp_set_cookie rep = [first, second]"
    by (rule callback_Ok) (rule that, simp_all add: assms(7,8))
  let ?sid = "we_ids env (wd_calls w + 2) 9" and ?token = "x_uuid_text (we_x env) (we_ids env (wd_calls w + 3) 9)"
  obtain l where l: "l \<in> set (oidc_login_attempts found)" "l_state l = state" "now < l_expires_at l"
    "attempt = \<lparr>ol_nonce = l_nonce l, ol_pkce_verifier = l_pkce_verifier l\<rparr>" and db: "db = used"
    using consumed unfolding assms(9) by (rule consumed_attempt)
  have gone: "\<forall>later \<ge> now. fst (consume_oidc_login_attempt later state used) = None"
    unfolding assms(9) by (intro allI impI used_attempt)
  have w': "wd_db w' = current\<lparr>oidc_sessions := oidc_sessions current @
       [\<lparr>s_id = ?sid, s_subject = oidc_subject_id env (ai_subject ident),
         s_roles = JArr (map JStr (ai_roles ident)), s_csrf_token_hash = as_bytes (hash env (str_bytes ?token)),
         s_expires_at = x_timestamptz (we_x env) (we_clock env (wd_calls w + 4) + hours 8)\<rparr>]\<rparr>"
    using created unfolding db assms(10)
    by (auto simp: create_oidc_session_def new_session_def bindR_eq_Ok map_err_eq_Ok sql_insert_Ok)
  note pairs = session_cookie_pair [OF assms(1) cookies(1)] csrf_cookie_pair [OF assms(1) cookies(2)]
  have browser: "header_str ''cookie'' browser = Some (''openpool_session='' @ x_uuid_text (we_x env) ?sid @ ''; '' @ cookie_pair second)"
    "header_str ''x-openpool-csrf'' browser = Some ?token"
    using assms(4) rep pairs by (auto simp: browser_headers_def)
  have sid: "session_id_from_headers env browser = Ok ?sid"
    by (rule session_id_found [OF assms(1) browser(1)])
  have "oidc_session (we_now env (wd_calls v)) ?sid (we_others env (wd_calls v) (wd_db v)) =
      Some \<lparr>os_subject = oidc_subject_id env (ai_subject ident), os_roles = JArr (map JStr (ai_roles ident)),
        os_csrf_token_hash = as_bytes (hash env (str_bytes ?token)),
        os_expires_at = x_timestamptz (we_x env) (we_clock env (wd_calls w + 4) + hours 8)\<rparr>"
    unfolding oidc_session_same_rows [OF assms(5)] using created_session [OF created] assms(6) by (simp add: new_session_def)
  then obtain u where "live_session env ?sid v =
      (Ok \<lparr>os_subject = oidc_subject_id env (ai_subject ident), os_roles = JArr (map JStr (ai_roles ident)),
        os_csrf_token_hash = as_bytes (hash env (str_bytes ?token)),
        os_expires_at = x_timestamptz (we_x env) (we_clock env (wd_calls w + 4) + hours 8)\<rparr>, u)"
    using live_session_found [of env v ?sid] by (cases "live_session env ?sid v") auto
  then have checks: "fst (validate_csrf env s browser v) = Ok ()" "fst (identity env s browser v) =
       (if ''organizer'' \<in> set (ai_roles ident) then Ok (oidc_subject_id env (ai_subject ident))
        else Err (Refused (forbidden ''organizer role is required'')))"
     "fst (require_operator env s browser v) =
       (if ''operator'' \<in> set (ai_roles ident) then Ok () else Err (Refused (forbidden ''operator role is required'')))"
    using sid browser(2) assms(2)
    by (auto simp: validate_csrf_def identity_def require_operator_def bindW_def liftE_def returnW_def session_roles_def
        string_list_of_roles)
  have "oa_exchange_code oidc (Suc (wd_calls w)) code (l_pkce_verifier l) (l_nonce l) = Ok ident"
    using vouched by (simp add: l(4))
  with oidc l(1-3) gone w' browser(2) checks show ?thesis
    by blast
qed

text \<open>An organizer signs in; identifiers are printed in decimal here.\<close>

definition decimal_ext :: externals where
  "decimal_ext = sample_ext\<lparr>x_uuid_text := (\<lambda>u. show_nat (unat u)), x_uuid_parse := (\<lambda>s. Some (of_nat (digits_value s)))\<rparr>"

definition sign_in_env :: world_env where
  "sign_in_env = sample_api_env\<lparr>we_x := decimal_ext\<rparr>"

definition sign_in_state :: ApiState where
  "sign_in_state = sample_state\<lparr>st_oidc := Some \<lparr>oa_begin_authorization = (\<lambda>_. Err OidcMissingIdToken),
     oa_exchange_code = (\<lambda>_ _ _ _. Ok \<lparr>ai_subject = ''o'', ai_roles = [''organizer'']\<rparr>)\<rparr>\<rparr>"

definition sign_in_world :: world where
  "sign_in_world = \<lparr>wd_db = empty_db\<lparr>oidc_login_attempts :=
     [\<lparr>l_state = ''s'', l_nonce = ''n'', l_pkce_verifier = ''v'', l_expires_at = 9000\<rparr>]\<rparr>, wd_calls = 0, wd_paid = []\<rparr>"

definition sign_in_headers :: HeaderMap where
  "sign_in_headers = [(''cookie'', ''openpool_session=1041; openpool_csrf=1057''), (''x-openpool-csrf'', ''1057'')]"

definition sign_in_reply :: Reply where
  "sign_in_reply = \<lparr>rp_status = 303,
     rp_set_cookie = [''openpool_session=1041; HttpOnly; SameSite=Lax; Path=/; Max-Age=28800; Secure'',
       ''openpool_csrf=1057; SameSite=Lax; Path=/; Max-Age=28800; Secure''], rp_body = RedirectBody ''/organizer''\<rparr>"

lemma decimal_format: "uuid_format_ok decimal_ext"
  using show_nat_digits
  by (fastforce simp: uuid_format_ok_def decimal_ext_def uuid_char_def is_ascii_hexdigit_def list_all_iff)

lemma decimal_texts: "show_nat 1041 = ''1041''" "show_nat 1057 = ''1057''"
  by code_simp+

lemma sample_sign_in:
  "\<exists>w'. handle sign_in_env sample_library sign_in_state [] (OidcCallback ''c'' ''s'') sign_in_world = (Ok sign_in_reply, w')"
  by (simp add: handle.simps oidc_callback_def sign_in_env_def sample_api_env_def sign_in_state_def sample_state_def
      sign_in_world_def bindW_def liftE_def storeE_def transact_def Let_def consume_oidc_login_attempt_def fetch_optional_def
      askE_def new_uuid_def now_utc_def new_session_def create_oidc_session_def empty_db_def eval_sql session_check_def session_cookie_def
      csrf_cookie_def secure_suffix_def decimal_ext_def decimal_texts header_from_str_def returnW_def sign_in_reply_def)

lemma sample_browser: "browser_headers sign_in_reply sign_in_headers"
  by (simp add: browser_headers_def sign_in_reply_def sign_in_headers_def cookie_pair_def header_str_def header_to_str_def)

theorem sign_in_opens_session_witness:
  "\<exists>w'. handle sign_in_env sample_library sign_in_state [] (OidcCallback ''c'' ''s'') sign_in_world = (Ok sign_in_reply, w') \<and>
     oidc_login_attempts (wd_db w') = [] \<and>
     fst (validate_csrf sign_in_env sign_in_state sign_in_headers w') = Ok () \<and>
     fst (identity sign_in_env sign_in_state sign_in_headers w') = Ok (oidc_subject_id sign_in_env ''o'')"
proof -
  obtain w' where w': "handle sign_in_env sample_library sign_in_state [] (OidcCallback ''c'' ''s'') sign_in_world = (Ok sign_in_reply, w')"
    using sample_sign_in by blast
  have calls: "wd_calls w' < 100"
    using w' by (auto simp: handle.simps sign_in_world_def elim!: callback_Ok)
  have others: "we_others sign_in_env k db = db" for k db
    by (simp add: sign_in_env_def sample_api_env_def)
  have env: "uuid_format_ok (we_x sign_in_env)" "\<not> st_development_identity_enabled sign_in_state"
    using decimal_format by (simp_all add: sign_in_env_def sample_api_env_def sign_in_state_def sample_state_def)
  have kept: "filter (\<lambda>r. s_id r = sid) (oidc_sessions (we_others sign_in_env (wd_calls w') (wd_db w'))) =
      filter (\<lambda>r. s_id r = sid) (oidc_sessions (wd_db w'))" for sid
    by (simp add: others)
  have "we_now sign_in_env (wd_calls w') < x_timestamptz (we_x sign_in_env) (we_clock sign_in_env (wd_calls sign_in_world + 4) + hours 8)"
    using calls by (simp add: sign_in_env_def sample_api_env_def decimal_ext_def sample_ext_def hours_def minutes_def seconds_def)
  from sign_in_opens_session [OF env w' sample_browser kept this refl refl refl refl] w' show ?thesis
    by (auto simp: sign_in_state_def others)
      (simp add: sign_in_world_def sign_in_env_def sample_api_env_def)
qed

end
