(* ===== verification/Web.thy ===== *)
theory Web
  imports Api_Handlers
begin

text \<open>
  The web pages, \<open>crates/openpool-api/src/web.rs\<close>: the markup every component renders as a function of the
  state it holds, the requests it sends and what a click does. A page is a tree of elements; a resource is
  \<open>None\<close> while it loads. Dioxus (routing, hydration, HTML text), the HTTP client, \<open>serde_json\<close> and the
  formatting of identifiers are the library's. Text is UTF-8, byte by byte.
\<close>

section \<open>Markup\<close>

datatype Route = Home | Raffles | Raffle string | Organizer | Operator | Verify | NotFound "string list"

fun route_path :: "Route \<Rightarrow> string" where
  "route_path Home = ''/''"
| "route_path Raffles = ''/raffles''"
| "route_path (Raffle i) = ''/raffles/'' @ i"
| "route_path Organizer = ''/organizer''"
| "route_path Operator = ''/operator''"
| "route_path Verify = ''/verify''"
| "route_path (NotFound segments) = ''/'' @ join_with ''/'' segments"

datatype Element =
    Node string "(string \<times> string) list" "Element list"
  | LinkTo Route "(string \<times> string) list" "Element list"
  | Text string

type_synonym 'a resource = "(string + 'a) option"

abbreviation plain :: "string \<Rightarrow> string \<Rightarrow> Element" where
  "plain tag s \<equiv> Node tag [] [Text s]"

abbreviation styled :: "string \<Rightarrow> string \<Rightarrow> string \<Rightarrow> Element" where
  "styled tag cls s \<equiv> Node tag [(''class'', cls)] [Text s]"

definition middot :: string where
  "middot = [CHR 0xC2, CHR 0xB7]"

definition ellipsis :: string where
  "ellipsis = [CHR 0xE2, CHR 0x80, CHR 0xA6]"

fun invoice_status_text :: "InvoiceStatus \<Rightarrow> string" where
  "invoice_status_text InvPending = ''pending''"
| "invoice_status_text InvSettled = ''settled''"
| "invoice_status_text InvExpired = ''expired''"
| "invoice_status_text InvIneligible = ''ineligible''"
| "invoice_status_text InvCollectionFailed = ''collection_failed''"

fun payout_status_text :: "PayoutStatus \<Rightarrow> string" where
  "payout_status_text PayPending = ''pending''"
| "payout_status_text PayProcessing = ''processing''"
| "payout_status_text PaySettled = ''settled''"
| "payout_status_text PayFailed = ''failed''"

fun job_status_text :: "JobStatus \<Rightarrow> string" where
  "job_status_text Queued = ''queued''"
| "job_status_text Running = ''running''"
| "job_status_text Succeeded = ''succeeded''"
| "job_status_text Dead = ''dead''"

definition show_i :: "int \<Rightarrow> string" where
  "show_i i = (if i < 0 then CHR ''-'' # show_nat (nat (- i)) else show_nat (nat i))"

section \<open>Requests\<close>

text \<open>On the server the base is \<open>OPENPOOL_PUBLIC_API_BASE\<close>; in the browser it is the origin of the window.\<close>

definition api_url :: "string option \<Rightarrow> string \<Rightarrow> string" where
  "api_url base path =
     trim_end_matches (\<lambda>c. c = CHR ''/'') (case base of None \<Rightarrow> ''http://127.0.0.1:3000'' | Some b \<Rightarrow> b) @ path"

definition browser_api_url :: "string option \<Rightarrow> string \<Rightarrow> string" where
  "browser_api_url origin path = (case origin of None \<Rightarrow> [] | Some o' \<Rightarrow> o') @ path"

definition api_get :: "(string \<Rightarrow> string) \<Rightarrow> http_client \<Rightarrow> (string \<Rightarrow> string + 'a) \<Rightarrow> string \<Rightarrow> string + 'a" where
  "api_get url client decode path =
     bindR (send_checked client (\<lambda>e. e) (http_get (url path))) (response_json decode)"

definition api_post ::
  "(string \<Rightarrow> string) \<Rightarrow> http_client \<Rightarrow> (json \<Rightarrow> bytes) \<Rightarrow> (string \<Rightarrow> string + 'a) \<Rightarrow> string \<Rightarrow> json \<Rightarrow> string + 'a" where
  "api_post url client encode decode path body =
     bindR (send_checked client (\<lambda>e. e)
         \<lparr>rq_method = ''POST'', rq_url = url path, rq_query = [], rq_headers = [], rq_body = encode body\<rparr>)
       (response_json decode)"

record RaffleDetail =
  rd_raffle :: WireRaffle
  rd_pool :: PublicPool
  rd_result :: PublicResult

record wire_decoders =
  wd_raffle :: "string \<Rightarrow> string + WireRaffle"
  wd_pool :: "string \<Rightarrow> string + PublicPool"
  wd_result :: "string \<Rightarrow> string + PublicResult"

definition raffle_detail :: "(string \<Rightarrow> string) \<Rightarrow> http_client \<Rightarrow> wire_decoders \<Rightarrow> string \<Rightarrow> string + RaffleDetail" where
  "raffle_detail url client dec i =
     bindR (api_get url client (wd_raffle dec) (''/v1/raffles/'' @ i)) (\<lambda>raffle.
     bindR (api_get url client (wd_pool dec) (''/v1/raffles/'' @ i @ ''/pool'')) (\<lambda>pool.
     bindR (api_get url client (wd_result dec) (''/v1/raffles/'' @ i @ ''/result'')) (\<lambda>result.
       Ok \<lparr>rd_raffle = raffle, rd_pool = pool, rd_result = result\<rparr>)))"

section \<open>Pages\<close>

definition Shell :: "Element list \<Rightarrow> Element" where
  "Shell children =
     Node ''main'' [(''class'', ''openpool-shell'')]
       (Node ''nav'' [(''class'', ''navigation''), (''aria-label'', ''OpenPool navigation'')]
          [LinkTo Home [] [Text ''OpenPool''], LinkTo Raffles [] [Text ''Raffles''],
           LinkTo Organizer [] [Text ''Organizer''], LinkTo Verify [] [Text ''Verify a proof'']]
        # children)"

definition HomePage :: Element where
  "HomePage = Shell
     [styled ''p'' ''eyebrow'' ''OPENPOOL'',
      plain ''h1'' ''Verifiable Lightning raffles.'',
      plain ''p'' ''OpenPool publishes the facts needed to reproduce a raffle outcome without exposing participant payment data.'',
      LinkTo Raffles [(''class'', ''button'')] [Text ''Browse raffles'']]"

definition RaffleCard :: "WireRaffle \<Rightarrow> Element" where
  "RaffleCard raffle =
     Node ''article'' [(''class'', ''raffle-card'')]
       [styled ''span'' ''status'' (status_text (wr_status raffle)),
        plain ''h2'' (wr_name raffle),
        plain ''p'' (show_u64 (wr_entry_price_sats raffle) @ '' sats per ticket''),
        plain ''p'' (show_u64 (wr_total_pool_sats raffle) @ '' sats confirmed'')]"

definition RafflesPage :: "(uuid \<Rightarrow> string) \<Rightarrow> WireRaffle list resource \<Rightarrow> Element" where
  "RafflesPage uuid_text state = Shell
     ([styled ''p'' ''eyebrow'' ''PUBLIC RAFFLES'',
       plain ''h1'' ''Browse raffles'',
       plain ''p'' ''Live catalogue data comes from the OpenPool API.''] @
      (case state of
         Some (Ok []) \<Rightarrow> [styled ''section'' ''empty-state'' ''No raffles are currently published.'']
       | Some (Ok items) \<Rightarrow> map (\<lambda>raffle. LinkTo (Raffle (uuid_text (wr_id raffle))) [] [RaffleCard raffle]) items
       | Some (Err error) \<Rightarrow> [styled ''section'' ''empty-state'' (''Catalogue unavailable: '' @ error)]
       | None \<Rightarrow> [styled ''section'' ''empty-state'' (''Loading catalogue'' @ ellipsis)]))"

definition ResultCard :: "PublicResult \<Rightarrow> Element" where
  "ResultCard result =
     (let winner = (case pres_winning_ticket result of
            Some ticket \<Rightarrow> ''Winning ticket: '' @ show_u64 ticket
          | None \<Rightarrow> ''Winner has not been selected yet.'');
          proof_text = (if pres_proof_available result then ''Terminal proof is available for local verification.''
                   else ''Terminal proof is not available yet.'');
          payouts = join_with '', '' (map payout_status_text (pres_payout_statuses result)) in
      Node ''section'' [(''class'', ''card raffle-result''), (''aria-live'', ''polite'')]
        [plain ''h2'' ''Raffle result'',
         plain ''p'' (''Status: '' @ status_text (pres_status result)),
         plain ''p'' winner,
         plain ''p'' (''Payout states: '' @ payouts),
         plain ''p'' proof_text])"

text \<open>The invoice form: its three signals, and the request that a click sends.\<close>

record InvoiceForm =
  if_address :: string
  if_tickets :: string
  if_result :: "(string + WireInvoice) option"

definition invoice_form :: InvoiceForm where
  "invoice_form = \<lparr>if_address = [], if_tickets = ''1'', if_result = None\<rparr>"

definition invoice_body :: "InvoiceForm \<Rightarrow> json" where
  "invoice_body form =
     JObj [(''lightning_address'', JStr (if_address form)),
           (''ticket_count'', JNum (uint (case parse_u64 (if_tickets form) of None \<Rightarrow> 0 | Some n \<Rightarrow> n)))]"

definition submit_invoice :: "(string \<Rightarrow> json \<Rightarrow> string + WireInvoice) \<Rightarrow> string \<Rightarrow> InvoiceForm \<Rightarrow> InvoiceForm" where
  "submit_invoice post i form = form\<lparr>if_result := Some (post (''/v1/raffles/'' @ i @ ''/invoices'') (invoice_body form))\<rparr>"

definition InvoicePanel :: "(uuid \<Rightarrow> string) \<Rightarrow> InvoiceForm \<Rightarrow> Element" where
  "InvoicePanel uuid_text form =
     Node ''section'' [(''class'', ''card'')]
       ([plain ''h2'' ''Buy entries'',
         Node ''label'' [] [Text ''Lightning Address'', Node ''input'' [(''value'', if_address form)] []],
         Node ''label'' [] [Text ''Tickets'',
           Node ''input'' [(''type'', ''number''), (''min'', ''1''), (''value'', if_tickets form)] []],
         styled ''button'' ''button'' ''Create Lightning invoice''] @
        (case if_result form of
           Some (Ok invoice) \<Rightarrow>
             plain ''p'' (''Invoice '' @ uuid_text (wi_id invoice) @ '': '' @ invoice_status_text (wi_status invoice) @ ''; ''
               @ show_u64 (wi_amount_sats invoice) @ '' sats'')
             # (case wi_bolt11 invoice of None \<Rightarrow> [] | Some bolt11 \<Rightarrow> [plain ''code'' bolt11])
         | Some (Err error) \<Rightarrow> [plain ''p'' (''Invoice request failed: '' @ error)]
         | None \<Rightarrow> [plain ''p'' ''Settlement and ticket range will update from the invoice-status API.'']))"

definition RafflePage :: "(uuid \<Rightarrow> string) \<Rightarrow> RaffleDetail resource \<Rightarrow> InvoiceForm \<Rightarrow> Element" where
  "RafflePage uuid_text detail form = Shell
     ([styled ''p'' ''eyebrow'' ''PUBLIC RAFFLE'',
       plain ''h1'' ''Raffle details''] @
      (case detail of
         Some (Ok d) \<Rightarrow>
           [Node ''section'' [(''class'', ''card'')]
              [plain ''h2'' (wr_name (rd_raffle d)),
               plain ''p'' (show_u64 (wr_entry_price_sats (rd_raffle d)) @ '' sats per ticket '' @ middot @ '' ''
                 @ status_text (wr_status (rd_raffle d))),
               plain ''p'' (''Confirmed pool: '' @ show_u64 (pp_pool_total_pool_sats (rd_pool d)) @ '' sats / ''
                 @ show_u64 (pp_pool_total_tickets (rd_pool d)) @ '' tickets'')],
            InvoicePanel uuid_text form,
            ResultCard (rd_result d),
            LinkTo Verify [(''class'', ''button'')] [Text ''Verify terminal proof locally'']]
       | Some (Err error) \<Rightarrow> [styled ''section'' ''empty-state'' (''Raffle unavailable: '' @ error)]
       | None \<Rightarrow> [styled ''section'' ''empty-state'' (''Loading raffle'' @ ellipsis)]))"

definition OrganizerPage :: "WireRaffle list resource \<Rightarrow> Element" where
  "OrganizerPage state = Shell
     ([styled ''p'' ''eyebrow'' ''ORGANIZER'',
       plain ''h1'' ''Organizer dashboard'',
       plain ''p'' ''OIDC-authenticated organizers create, schedule, open, and monitor their raffles here.''] @
      (case state of
         Some (Ok items) \<Rightarrow> map RaffleCard items
       | Some (Err error) \<Rightarrow>
           [Node ''a'' [(''class'', ''button''), (''href'', ''/auth/login'')] [Text ''Sign in to manage raffles''],
            plain ''p'' (''Organizer data unavailable: '' @ error)]
       | None \<Rightarrow> [plain ''p'' (''Loading organizer lifecycle'' @ ellipsis)]))"

definition JobCard :: "OperatorJob \<Rightarrow> Element" where
  "JobCard job =
     Node ''section'' [(''class'', ''card'')]
       ([plain ''h2'' (oj_kind job),
         plain ''p'' (job_status_text (oj_status job) @ ''; attempt '' @ show_i (oj_attempts job) @ ''/''
           @ show_i (oj_max_attempts job))] @
        (case oj_last_error job of None \<Rightarrow> [] | Some error \<Rightarrow> [plain ''p'' error]))"

definition OperatorPage :: "OperatorJob list resource \<Rightarrow> Element" where
  "OperatorPage state = Shell
     ([styled ''p'' ''eyebrow'' ''OPERATOR'',
       plain ''h1'' ''Operator console'',
       plain ''p'' ''Authorized operators inspect jobs and payment state, then retry permitted side effects without mutating historical facts.''] @
      (case state of
         Some (Ok []) \<Rightarrow> [plain ''p'' ''No recent jobs.'']
       | Some (Ok items) \<Rightarrow> map JobCard items
       | Some (Err error) \<Rightarrow>
           [Node ''a'' [(''class'', ''button''), (''href'', ''/auth/login'')] [Text ''Sign in as operator''],
            plain ''p'' (''Operator data unavailable: '' @ error)]
       | None \<Rightarrow> [plain ''p'' (''Loading operational queue'' @ ellipsis)]))"

text \<open>The verifier page: its two signals, and the click that runs the verifier in the browser.\<close>

record VerifyForm =
  vf_source :: string
  vf_verification :: "string option"

definition verify_locally :: "(string \<Rightarrow> string + string) \<Rightarrow> (string \<Rightarrow> string) \<Rightarrow> VerifyForm \<Rightarrow> VerifyForm" where
  "verify_locally verifier debug form =
     form\<lparr>vf_verification := Some (case verifier (vf_source form) of Ok report \<Rightarrow> report | Err error \<Rightarrow> ''Invalid proof: '' @ debug error)\<rparr>"

definition VerifyPage :: "VerifyForm \<Rightarrow> Element" where
  "VerifyPage form = Shell
     ([styled ''p'' ''eyebrow'' ''INDEPENDENT VERIFICATION'',
       plain ''h1'' ''Verify an OpenPool proof'',
       plain ''p'' ''The browser runs the same Rust OPENPOOL-1 verifier compiled to WebAssembly; no private API call is used for validation.'',
       Node ''textarea'' [(''value'', vf_source form), (''placeholder'', ''Paste proof.json'')] [],
       styled ''button'' ''button'' ''Verify locally''] @
      (case vf_verification form of None \<Rightarrow> [] | Some report \<Rightarrow> [plain ''pre'' report]))"

definition NotFoundPage :: "string list \<Rightarrow> Element" where
  "NotFoundPage segments = Shell
     [plain ''h1'' ''Page not found'',
      plain ''p'' (''No OpenPool page exists at /'' @ join_with ''/'' segments @ ''.''),
      LinkTo Home [] [Text ''Return home'']]"

section \<open>What the pages show\<close>

lemma api_get_Ok:
  "api_get url c decode path = Ok a \<longleftrightarrow>
     (\<exists>r text. hc_send c (http_get (url path)) = Ok r \<and> \<not> (400 \<le> rs_status r \<and> rs_status r < 600) \<and>
        rs_text r = Ok text \<and> decode text = Ok a)"
  by (auto simp: api_get_def response_json_def bindR_eq_Ok send_checked_Ok)

text \<open>The details of a raffle are shown only when all three reads succeed.\<close>

lemma raffle_detail_Ok:
  "raffle_detail url c dec i = Ok d \<longleftrightarrow>
     api_get url c (wd_raffle dec) (''/v1/raffles/'' @ i) = Ok (rd_raffle d) \<and>
     api_get url c (wd_pool dec) (''/v1/raffles/'' @ i @ ''/pool'') = Ok (rd_pool d) \<and>
     api_get url c (wd_result dec) (''/v1/raffles/'' @ i @ ''/result'') = Ok (rd_result d)"
  by (cases d) (auto simp: raffle_detail_def bindR_eq_Ok)

text \<open>The form asks for the tickets it shows, and for none when the text is no number; the API then refuses it.\<close>

lemma invoice_body_tickets:
  "invoice_body (form\<lparr>if_tickets := show_nat (unat (n :: u64))\<rparr>) =
     JObj [(''lightning_address'', JStr (if_address form)), (''ticket_count'', JNum (uint n))]"
  by (simp add: invoice_body_def parse_show_u64)

text \<open>The browser and the API come to the same verdict on a document.\<close>

lemma browser_agrees_with_api:
  assumes "from_str (vf_source form) = Ok doc" and "to_string (verify (x_sha (we_x env)) (x_jcs (we_x env)) doc) = Ok report"
    and "i = pp_raffle_id (pd_payload doc)"
  shows "vf_verification (verify_locally (verify_proof_json (x_sha (we_x env)) (x_jcs (we_x env)) from_str to_string) debug form)
      = Some report"
    and "handle env lib s headers (VerifyProof i doc) w
      = (Ok (reply 200 (VerificationBody (verify (x_sha (we_x env)) (x_jcs (we_x env)) doc))), w)"
  using assms by (simp_all add: verify_locally_def verify_proof_json_def handle.simps verify_proof_def returnW_def)

end
