(* ===== verification/Spec2Isabelle.thy ===== *)
theory Spec2Isabelle
  imports Verifier Store_Operations Store_Reads Worker_Turns System_Payments Api_Invoices Store_Receipts Store_Proofs Startup Api_SignIn Web
begin

text \<open>
  A verification library for OpenPool, a service that sells tickets of raffles over Lightning, draws each winner
  from the hash of a future Bitcoin block, pays out the pool and publishes a proof that anybody can check.

  \<^bold>\<open>The program.\<close> \<open>crates/openpool-protocol\<close> is the pure protocol: amounts, ticket ranges, the hash-chained
  ledger, the draw and the proof document. \<open>crates/openpool-verifier\<close> recomputes a document.
  \<open>crates/openpool-core\<close> holds the database transactions (\<open>persistence_sqlx.rs\<close>, \<open>jobs.rs\<close>) and the adapters to
  Bitcoin, payment providers, Lightning addresses and object storage. \<open>crates/openpool-api\<close> serves HTTP requests and
  \<open>crates/openpool-worker\<close> runs queued jobs; both processes work on the same PostgreSQL database, any number of them at
  the same time. A settled payment appends an entry; at the end of a raffle its ledger is frozen; the worker draws, pays
  and publishes.

  \<^bold>\<open>Theories and sources.\<close>
  \<^item> Prelude, Text, Http: integer widths, results as sums, byte strings, the string and HTTP client operations the code uses.
  \<^item> Domain, Ledger, Draw, Verifier: \<open>openpool-protocol/src/domain.rs\<close>, \<open>lib.rs\<close> and \<open>openpool-verifier/src/lib.rs\<close>. Rust
    integers are words, checked arithmetic returns an option, a \<open>Result\<close> is a sum with the error on the left.
  \<^item> Tables, Schema: SQL statements on lists of rows with their checks and unique keys; the tables of \<open>migrations/\<close>, the
    record \<open>externals\<close> of code outside the repository, row conversions, audit, outbox and job insertion.
  \<^item> Store_Raffles, Store_Invoices, Store_Settlement, Store_Draw, Store_Payouts, Store_Bitcoin, Store_Sessions, Store_Jobs:
    one definition per transaction of \<open>persistence_sqlx.rs\<close> and \<open>jobs.rs\<close>, from a database to an error or a result with
    the new database; an error is a rollback. Leases is the contract of the three queues.
  \<^item> Store_System: the relation \<open>db_step\<close> of one committed transaction, and \<open>invariant_system\<close>, the interface by which
    an invariant reaches every reachable database.
  \<^item> Bitcoin, Payments, Proof_Storage, Address_Cipher, Oidc: the adapters of \<open>openpool-core/src\<close> and \<open>openpool-api/src\<close>.
  \<^item> Process, Worker: \<open>openpool-worker/src/main.rs\<close> as state-passing processes. The calls of a process are numbered;
    \<open>we_others env k\<close> is what other processes commit before call \<open>k\<close>, so a run is already an interleaving.
  \<^item> Api, Api_Handlers, Web, Startup: \<open>openpool-api/src/lib.rs\<close> with one definition per handler and \<open>handle\<close> as the
    router, the pages of \<open>web.rs\<close>, and \<open>config.rs\<close> with the two \<open>main\<close> functions.
  \<^item> This theory: activities of the API and the worker on one database, and the three properties that span all parts:
    money is conserved from the invoices to the payouts, no raffle is paid twice, and every proof that is served can be
    trusted.

  \<^bold>\<open>What is shown.\<close>
  \<^item> Protocol: shares conserve the pool up to two satoshis of rounding given to the platform; the ledger check accepts
    exactly the valid ledgers, whose tickets have one owner each and whose root binds them unless SHA-256 collides; the
    winning ticket is the seed modulo the tickets, fair up to one seed; the verifier accepts exactly the valid documents and
    no two different outcomes.
  \<^item> Store: settlement refines appending to the abstract ledger (Store_Ledger, Store_Guarantees); the store and
    payout invariants hold of every reachable database (Store_Invariant, Store_Payout_Invariant, Store_Receipts,
    Store_Proofs), so that entries are exactly the settled invoices, a draw can fail only in the database, and every
    generated proof verifies (Store_Outcome), also when it is served later; frozen raffles never change and statuses only move forward (Store_Reachable); a payout keeps
    its identifier, key and amount in every later database (Store_Promises); retries are
    idempotent and leases exclusive (Store_Operations, Store_Jobs); pagination ends and is complete (Store_Reads).
  \<^item> Worker: every handler moves the database along transactions of the store (Worker_Runs, Worker_Guarantees);
    the payout job is a sequence of rounds of a committed claim and at most one payment for it, and with working services
    it settles everything (Worker_Payouts); nothing else pays (System_Payments); a turn reports a job as finished only when
    its work is in the database, on the evidence its handler has to ask for, and marks its row (Worker_Turns). The whole pipeline makes progress: each of its transactions commits on a store
    in order (Store_Progress), each handler then ends without an error (Worker_Progress), each turn finds the job that
    the one before left (Worker_Completion, Worker_Pipeline), so that four turns take a due raffle to its published
    proof (Worker_Liveness). What the draw needs of Bitcoin is the interface \<open>bitcoin_chain\<close>, which the fixture source
    of the code provides on every list of consecutive blocks (Bitcoin).
  \<^item> API: every request moves the database along transactions (Api_Store); privileged requests and webhooks act only
    on evidence (Api_Access, Api_Guarantees, Startup for deployments); signing in leads to a session that the checks
    accept (Api_SignIn); an invoice request ends in one of its documented outcomes (Api_Invoices).

  \<^bold>\<open>Fuel and bounds.\<close> The payout loop, a turn and the loop of the executor have fuel; \<open>None\<close> is a run that used it up.
  The payout loop needs one unit more than there are unsettled payouts of the raffle, which
  \<open>payout_job_completes\<close> proves; a draw leaves at most three, so \<open>due_raffle_completes\<close> asks for more than three. The executor runs forever, so its fuel counts turns. Reading all pages of an entry list
  needs one unit more than there are entries (\<open>pagination_complete\<close>). The search for the close block recurses on the
  height. No other definition has fuel.

  \<^bold>\<open>Assumptions.\<close> Text forms of identifiers separate them and parse back; a timestamp column keeps milliseconds;
  AES-GCM decrypts what it encrypted; JSON decoding inverts the encoding of proofs; the Bitcoin source answers with the block of the height it was asked for, which
  \<open>Esplora\<close> does not check itself. Each is a hypothesis of the properties that use it. SHA-256, HMAC, RFC 8785, JSON,
  RFC 3339, base64, hex, URL parsing and the OpenID library are parameters. Progress of the pipeline also assumes what
  only a deployment can give: no interference, a clock that does not go back, new identifiers in the calls of the run, a
  chain without forks, and recipients, providers and storage that accept what they are sent.

  \<^bold>\<open>Not modelled.\<close> Failures of the database connection (they roll back like any error); weaker isolation than
  serial transactions, of which only \<open>FOR UPDATE SKIP LOCKED\<close> is visible, as rows that others hold; axum's extractors
  and the OpenAPI text; Dioxus' routing, hydration and HTML text; tracing (\<open>observability.rs\<close>), test seeding
  (\<open>test_support.rs\<close>), tests, infrastructure and binding of sockets: input and output without logic of the program.
\<close>

section \<open>The system\<close>

text \<open>
  What the two processes of a deployment do: the API serves a request, or the worker makes a turn; each may
  be interleaved with the transactions of further processes. \<open>None\<close> stands for a turn that ran out of fuel.
\<close>

datatype Activity =
    Serve ApiLibrary ApiState HeaderMap Request
  | Turn nat WorkerServices string

fun run_activity :: "world_env \<Rightarrow> Activity \<Rightarrow> world \<Rightarrow> world option" where
  "run_activity env (Serve lib s headers request) w = Some (snd (handle env lib s headers request w))"
| "run_activity env (Turn fuel services worker_id) w = map_option snd (run_turn fuel env services worker_id w)"

fun run_system :: "world_env \<Rightarrow> Activity list \<Rightarrow> world \<Rightarrow> world option" where
  "run_system env [] w = Some w"
| "run_system env (a # acts) w = Option.bind (run_activity env a w) (run_system env acts)"

text \<open>The Bitcoin source of a worker answers with the block that was asked for.\<close>

fun activity_ok :: "Activity \<Rightarrow> bool" where
  "activity_ok (Serve _ _ _ _) = True"
| "activity_ok (Turn _ services _) = (\<forall>source. ws_bitcoin services = Some source \<longrightarrow> source_ok source)"

lemma run_activity_run:
  assumes "env_ok env" and "db_ok (we_x env) (wd_db w)" and "activity_ok a" and "run_activity env a w = Some w'"
  shows "db_run env (wd_db w) (wd_db w')"
proof (cases a)
  case (Serve lib s headers request)
  then have "handle env lib s headers request w = (fst (handle env lib s headers request w), w')"
    using assms(4) by (auto simp: prod_eq_iff)
  then show ?thesis
    by (rule runsD [OF runs_handle [OF assms(1)] assms(2)])
next
  case (Turn fuel services worker_id)
  then show ?thesis
    using assms run_turn_run [OF assms(1) _ assms(2)] by auto
qed

lemma run_system_run:
  assumes "env_ok env" and "db_ok (we_x env) (wd_db w)" and "\<forall>a \<in> set acts. activity_ok a" and "run_system env acts w = Some w'"
  shows "db_run env (wd_db w) (wd_db w')"
  using assms(2-4)
proof (induction acts arbitrary: w)
  case (Cons a acts)
  from Cons.prems(3) obtain v where v: "run_activity env a w = Some v" and rest: "run_system env acts v = Some w'"
    by (auto simp: bind_eq_Some_conv)
  have "db_run env (wd_db w) (wd_db v)"
    using run_activity_run [OF assms(1) Cons.prems(1) _ v] Cons.prems(2) by simp
  moreover from this have "db_run env (wd_db v) (wd_db w')"
    using Cons.IH [OF db_run_ok [OF assms(1) _ Cons.prems(1)] _ rest] Cons.prems(2) by simp
  ultimately show ?case
    by (rule db_run_trans)
qed simp

lemma ledger_amounts:
  assumes "map ledger_entry_from_row rows = map Ok es" and "\<forall>row \<in> set rows. entry_check row"
  shows "sum_list (map e_amount_sats rows) = int (pool_sum es)"
  using assms
proof (induction rows arbitrary: es)
  case (Cons row rows)
  then obtain e es' where es: "es = e # es'" "ledger_entry_from_row row = Ok e" "map ledger_entry_from_row rows = map Ok es'"
    by (cases es) auto
  have "uint (as_u64 (ed_amount_sats (le_data e))) = e_amount_sats row"
    using es(2) Cons.prems(2) by (simp add: ledger_entry_from_row_Ok entry_check_def uint_of_int)
  then show ?case
    using Cons.IH [OF es(3)] Cons.prems(2) by (simp add: es(1) pool_sum_def)
qed (simp add: pool_sum_def)

text \<open>Payouts exist only for drawn raffles.\<close>

lemma undrawn_unpaid:
  assumes "store_ok x db" and "payouts_ok x db" and "r \<in> set (raffles db)" and "\<not> drawn_status (r_status r)"
    and "p \<in> set (payouts db)"
  shows "p_raffle_id p \<noteq> r_id r"
proof
  assume p: "p_raffle_id p = r_id r"
  have "p_raffle_id p \<in> r_id ` drawn_raffles db"
    using assms(2,5) by (simp add: payouts_ok_def)
  then obtain r' where "r' \<in> set (raffles db)" "r_id r' = r_id r" "drawn_status (r_status r')"
    using p by (auto simp: drawn_raffles_def)
  moreover from this have "r' = r"
    using raffles_tbl.row_unique [OF store_okD(1) [OF assms(1)], of r' r] assms(3) by (simp add: raffle_conflict_def)
  ultimately show False
    using assms(4) by simp
qed

text \<open>C1. Money is conserved end to end. Whatever requests the API serves and whatever turns the worker makes, from an empty
  database and interleaved with other processes: the pool of a raffle is what its settled invoices amount to; once the
  draw has been made, its payouts add up to exactly that sum; while it has not, there are no payouts; and once the raffle is
  paid out, all of them are settled.\<close>

theorem system_conserves_money:
  assumes "env_ok env" and "wd_db w = empty_db" and "\<forall>a \<in> set acts. activity_ok a" and "run_system env acts w = Some w'"
    and "r \<in> set (raffles (wd_db w'))"
    and "paid = (\<Sum>i \<leftarrow> filter (\<lambda>i. i_raffle_id i = r_id r \<and> i_status i = InvSettled) (invoices (wd_db w')). i_amount_sats i)"
  shows "r_total_pool_sats r = paid \<and>
    (if r_status r \<in> {PayoutPending, PaidOut}
      then (\<Sum>p \<leftarrow> filter (\<lambda>p. p_raffle_id p = r_id r) (payouts (wd_db w')). p_amount_sats p) = paid
      else filter (\<lambda>p. p_raffle_id p = r_id r) (payouts (wd_db w')) = []) \<and>
    (r_status r = PaidOut \<longrightarrow> (\<forall>p \<in> set (payouts (wd_db w')). p_raffle_id p = r_id r \<longrightarrow> p_status p = PaySettled))"
proof -
  let ?x = "we_x env" and ?db = "wd_db w'"
  have text_ok: "uuid_text_ok ?x"
    using assms(1) by (simp add: env_ok_def)
  have "db_run env (wd_db w) ?db"
    by (rule run_system_run [OF assms(1) _ assms(3,4)]) (simp add: assms(2) db_ok_def store_ok_empty payouts_ok_empty)
  then have "reachable (db_step ?x) empty_db ?db"
    by (simp add: db_run_def assms(2))
  from receipts.inv_reachable [OF this] text_ok have ok: "store_ok ?x ?db" "payouts_ok ?x ?db" "receipts_ok ?db"
    by (simp_all add: receipts_inv_def db_ok_def)
  obtain es where "raffle_ledger ?x ?db r es"
    using ok(1) assms(5) by (auto simp: store_ok_def raffle_ok_def)
  then have pool: "r_total_pool_sats r = paid"
    using ledger_amounts [of "raffle_entries (r_id r) ?db" es] ok(1) receipts_sum [OF ok(3,1)] assms(6)
    by (auto simp: raffle_ledger_def store_ok_def table_ok_def raffle_entries_def)
  show ?thesis
  proof (cases "drawn_status (r_status r)")
    case True
    then have "r \<in> drawn_raffles ?db"
      using assms(5) by (simp add: drawn_raffles_def)
    then show ?thesis
      using ok(2) pool True by (auto simp: payouts_ok_def payouts_total_def payouts_of_def drawn_status_def)
  next
    case False
    with undrawn_unpaid [OF ok(1,2) assms(5)] pool show ?thesis
      by (auto simp: drawn_status_def filter_empty_conv)
  qed
qed

text \<open>An organizer registers and creates a raffle in development mode.\<close>

definition sample_activities :: "Activity list" where
  "sample_activities =
     (let lib = sample_library\<lparr>al_parse_rfc3339 := (\<lambda>s. Ok (int (length s)))\<rparr>;
          state = sample_state\<lparr>st_development_identity_enabled := True\<rparr>;
          headers = [(''x-dev-organizer-id'', ''u'')] in
      [Serve lib state headers (CreateOrganizer \<lparr>or_display_name = ''o'', or_lightning_address = ''a@b''\<rparr>),
       Serve lib state headers (CreateRaffle \<lparr>rr_name = ''pool'', rr_entry_price_sats = 100, rr_start_time = ''1'', rr_end_time = ''22'',
         rr_winner_bps = 8000, rr_organizer_bps = 1500, rr_platform_bps = 500\<rparr>)])"

lemma sample_system:
  "\<exists>w' r. run_system sample_api_env sample_activities \<lparr>wd_db = empty_db, wd_calls = 0, wd_paid = []\<rparr> = Some w' \<and>
     r \<in> set (raffles (wd_db w')) \<and> r_status r = Draft"
proof -
  have t: "trim ''o'' = ''o''" "trim ''a@b'' = ''a@b''" "trim ''pool'' = ''pool''"
    by (simp_all add: trim_def trim_matches_def trim_end_matches_def is_space_def)
  have alone: "alone sample_api_env"
    by (simp add: alone_def)
  have h: "header_str ''x-dev-organizer-id'' [(''x-dev-organizer-id'', ''u'')] = Some ''u''" "x_uuid_parse sample_ext ''u'' = Some 1"
    "x_timestamptz sample_ext ts = ts" for ts
    by (simp_all add: header_str_def header_to_str_def sample_ext_def)
  show ?thesis
    by (simp add: sample_activities_def Let_def handle.simps create_organizer_account_def create_raffle_def validate_csrf_def
        identity_def sample_state_def sample_library_def sample_aead_def t h bindW_def returnW_def liftE_def encrypt_address_def askE_def
        encrypt_def alone_store [OF alone] create_organizer_def eval_sql empty_db_def active_organizer_def reading_def
        organizer_exists_def new_uuid_def validated_raffle_def parse_time_def checked_def BasisPoints_new_def PayoutSplit_new_def
        BASIS_POINTS_TOTAL_def split_is_valid_def create_draft_raffle_def new_raffle_row_def new_split_row_def raffle_check_def
        split_check_def)
qed

theorem system_conserves_money_witness:
  "\<exists>w' r. run_system sample_api_env sample_activities \<lparr>wd_db = empty_db, wd_calls = 0, wd_paid = []\<rparr> = Some w' \<and>
     r \<in> set (raffles (wd_db w')) \<and> filter (\<lambda>p. p_raffle_id p = r_id r) (payouts (wd_db w')) = []"
proof -
  obtain w' r where run: "run_system sample_api_env sample_activities \<lparr>wd_db = empty_db, wd_calls = 0, wd_paid = []\<rparr> = Some w'"
    and r: "r \<in> set (raffles (wd_db w'))" "r_status r = Draft"
    using sample_system by blast
  have "env_ok sample_api_env" "\<forall>a \<in> set sample_activities. activity_ok a"
    by (simp_all add: env_ok_def reachable.start sample_activities_def Let_def)
  from system_conserves_money [OF this(1) _ this(2) run r(1) refl] run r show ?thesis
    by auto
qed

section \<open>What providers are asked to pay\<close>

lemma run_activity_promised:
  assumes "env_ok env" and "db_ok (we_x env) (wd_db w)" and "activity_ok a" and "run_activity env a w = Some w'"
  shows "pays_promised w w'"
proof (cases a)
  case (Serve lib s headers request)
  then have "handle env lib s headers request w = (fst (handle env lib s headers request w), w')"
    using assms(4) by (auto simp: prod_eq_iff)
  then show ?thesis
    by (rule pays_promised_same [OF pays_nothingD [OF api_pays_nothing]])
next
  case (Turn fuel services worker_id)
  then show ?thesis
    using assms run_turn_promised [OF assms(1) _ assms(2)] by auto
qed

lemma run_system_promised:
  assumes "env_ok env" and "db_ok (we_x env) (wd_db w)" and "\<forall>a \<in> set acts. activity_ok a" and "run_system env acts w = Some w'"
  shows "pays_promised w w'"
  using assms(2-4)
proof (induction acts arbitrary: w)
  case (Cons a acts)
  from Cons.prems(3) obtain v where v: "run_activity env a w = Some v" and rest: "run_system env acts v = Some w'"
    by (auto simp: bind_eq_Some_conv)
  have a: "activity_ok a" "\<forall>a \<in> set acts. activity_ok a"
    using Cons.prems(2) by simp_all
  note vok = db_run_ok [OF assms(1) run_activity_run [OF assms(1) Cons.prems(1) a(1) v] Cons.prems(1)]
  show ?case
    using run_activity_promised [OF assms(1) Cons.prems(1) a(1) v] Cons.IH [OF vok a(2) rest] run_system_run [OF assms(1) vok a(2) rest]
    by (rule pays_promised_trans)
qed (simp add: pays_promised_same)

text \<open>C3. No raffle is paid twice. Whatever requests the API serves and whatever turns the worker makes, with whatever
  crashes, retries and expired leases, interleaved with other processes: every payment that was requested from
  a provider is promised by a payout on record, with its identifier, its idempotency key and its exact amount;
  requests with the same key ask for the same payout and the same amount; and what a provider that honours
  keys pays for a raffle never exceeds the pool of the raffle, and is nothing before the draw. The keys of
  different raffles are different, so nothing is counted for two of them.\<close>

theorem system_never_overpays:
  assumes "env_ok env" and "db_ok (we_x env) (wd_db w)" and "\<forall>a \<in> set acts. activity_ok a" and "run_system env acts w = Some w'"
  shows "\<exists>reqs. wd_paid w' = wd_paid w @ reqs \<and>
    (\<forall>req \<in> set reqs. \<exists>p \<in> set (payouts (wd_db w')). promised_by req p) \<and>
    (\<forall>req \<in> set reqs. \<forall>req' \<in> set reqs. prq_idempotency_key req = prq_idempotency_key req' \<longrightarrow>
       prq_payout_id req = prq_payout_id req' \<and> as_u64 (prq_amount_sats req) = as_u64 (prq_amount_sats req')) \<and>
    (\<forall>r \<in> set (raffles (wd_db w')). (\<Sum>(key, sats) \<in> billed (we_x env) (r_id r) reqs. sats) \<le>
       (if r_status r \<in> {PayoutPending, PaidOut} then r_total_pool_sats r else 0)) \<and>
    (\<forall>i j. i \<noteq> j \<longrightarrow> billed (we_x env) i reqs \<inter> billed (we_x env) j reqs = {})"
proof -
  let ?x = "we_x env" and ?db = "wd_db w'"
  have text_ok: "uuid_text_ok ?x"
    using assms(1) by (simp add: env_ok_def)
  have ok: "store_ok ?x ?db" "payouts_ok ?x ?db"
    using db_run_ok [OF assms(1) run_system_run [OF assms] assms(2)] by (simp_all add: db_ok_def)
  obtain reqs where reqs: "wd_paid w' = wd_paid w @ reqs" "\<forall>req \<in> set reqs. \<exists>p \<in> set (payouts ?db). promised_by req p"
    using run_system_promised [OF assms] unfolding pays_promised_def by blast
  have within: "(\<Sum>(key, sats) \<in> billed ?x (r_id r) reqs. sats) \<le> (if drawn_status (r_status r) then r_total_pool_sats r else 0)"
    if r: "r \<in> set (raffles ?db)" for r
  proof (cases "drawn_status (r_status r)")
    case True
    then have "payouts_total (r_id r) (payouts ?db) = r_total_pool_sats r"
      using ok(2) r by (simp add: payouts_ok_def drawn_raffles_def)
    then show ?thesis
      using billed_within_payouts [OF text_ok ok(2) reqs(2), of "r_id r"] True by (simp add: case_prod_beta')
  next
    case False
    then have "payouts_of (r_id r) (payouts ?db) = []"
      using undrawn_unpaid [OF ok r] by (simp add: payouts_of_def filter_empty_conv)
    then show ?thesis
      using promised_billed [OF text_ok ok(2) reqs(2), of "r_id r"] False by simp
  qed
  have once: "\<forall>req \<in> set reqs. \<forall>req' \<in> set reqs. prq_idempotency_key req = prq_idempotency_key req' \<longrightarrow>
      prq_payout_id req = prq_payout_id req' \<and> as_u64 (prq_amount_sats req) = as_u64 (prq_amount_sats req')"
    using billed_once [OF text_ok ok(2) reqs(2)] by blast
  have apart: "\<forall>i j. i \<noteq> j \<longrightarrow> billed ?x i reqs \<inter> billed ?x j reqs = {}"
    using billed_apart [OF text_ok] by blast
  show ?thesis
    using within unfolding drawn_status_def by (intro exI [of _ reqs] conjI reqs once apart ballI)
qed

text \<open>The four turns of the sample pipeline request all of the pool, and not more.\<close>

theorem system_never_overpays_witness:
  "\<exists>w' reqs. run_system pipeline_env (replicate 4 (Turn 4 pipeline_services ''w1'')) (sample_world pipeline_db) = Some w' \<and>
     wd_paid w' = reqs \<and> reqs \<noteq> [] \<and> (\<Sum>(key, sats) \<in> billed sample_ext 2 reqs. sats) \<le> 300"
proof -
  let ?w = "sample_world pipeline_db" and ?turn = "Turn 4 pipeline_services ''w1''" and ?acts = "replicate 4 (Turn 4 pipeline_services ''w1'')"
  obtain w1 w2 w3 w' reqs where t: "run_turn 4 pipeline_env pipeline_services ''w1'' ?w = Some (Finished, w1)"
      "run_turn 4 pipeline_env pipeline_services ''w1'' w1 = Some (Finished, w2)"
      "run_turn 4 pipeline_env pipeline_services ''w1'' w2 = Some (Finished, w3)"
      "run_turn 4 pipeline_env pipeline_services ''w1'' w3 = Some (Finished, w')"
    and s: "\<exists>s \<in> set (raffles (wd_db w')). r_id s = 2 \<and> r_status s = PaidOut \<and> r_total_pool_sats s = 300"
    and paid: "db_ok sample_ext (wd_db w')" "set (map prq_payout_id reqs) = p_id ` set (payouts_of 2 (payouts (wd_db w')))"
      "wd_paid w' = wd_paid ?w @ reqs"
    by (rule pipeline_turns)
  have acts: "?acts = [?turn, ?turn, ?turn, ?turn]"
    by (simp add: numeral_eq_Suc)
  have run: "run_system pipeline_env ?acts ?w = Some w'"
    by (simp add: acts t)
  have w: "wd_db ?w = pipeline_db" "wd_paid ?w = []"
    by (simp_all add: sample_world_def)
  have services: "\<forall>a \<in> set ?acts. activity_ok a"
    using chain_source_ok [OF pipeline_chain] by (simp add: pipeline_services_def)
  obtain s where s: "s \<in> set (raffles (wd_db w'))" "r_id s = 2" "r_status s = PaidOut" "r_total_pool_sats s = 300"
    using s by blast
  have "payouts_total 2 (payouts (wd_db w')) = 300"
    using paid(1) s by (auto simp: db_ok_def payouts_ok_def drawn_raffles_def drawn_status_def)
  then have "reqs \<noteq> []"
    using paid(2) by (auto simp: payouts_total_def)
  moreover have "env_ok pipeline_env" "db_ok (we_x pipeline_env) (wd_db ?w)"
    using pipeline_orderly pipeline_db_ok by (simp_all add: orderly_def w)
  from system_never_overpays [OF this services run] s have "(\<Sum>(key, sats) \<in> billed sample_ext 2 reqs. sats) \<le> 300"
    by (auto simp: paid(3))
  ultimately show ?thesis
    using run paid(3) w(2) by simp
qed

section \<open>What the public can check\<close>

lemma run_system_in_order:
  assumes "env_ok env" and "db_ok (we_x env) (wd_db w)" and "proofs_ok (we_x env) (wd_db w)" and "\<forall>a \<in> set acts. activity_ok a"
    and "run_system env acts w = Some w'" and "reachable (db_step (we_x env)) (wd_db w') db"
  shows "db_ok (we_x env) db \<and> proofs_ok (we_x env) db"
proof -
  have "reachable (db_step (we_x env)) (wd_db w) db"
    using run_system_run [OF assms(1,2,4,5)] assms(6) by (auto simp: db_run_def intro: reachable_trans)
  from published.inv_reachable [OF this] assms(1-3) show ?thesis
    by (simp add: proofs_inv_def env_ok_def)
qed

text \<open>The payouts of a paid out raffle are the pool that its verified document states.\<close>

lemma paid_out_pool:
  assumes "db_ok x db" and "r \<in> set (raffles db)" and "r_status r = PaidOut"
    and "ledger_rows (r_id r) db = Ok (pp_entries (pd_payload doc))" and "is_verified (verify (x_sha x) (x_jcs x) doc)"
  shows "(\<Sum>p \<leftarrow> filter (\<lambda>p. p_raffle_id p = r_id r) (payouts db). p_amount_sats p)
      = uint (as_u64 (ff_total_pool_sats (pp_freeze (pd_payload doc)))) \<and>
    (\<forall>p \<in> set (payouts db). p_raffle_id p = r_id r \<longrightarrow> p_status p = PaySettled)"
proof -
  have ok: "store_ok x db" "payouts_ok x db"
    using assms(1) by (simp_all add: db_ok_def)
  obtain es where es: "raffle_ledger x db r es" "ledger_rows (r_id r) db = Ok es"
    using raffle_rows_ledger [OF ok(1) assms(2)] by blast
  have "freeze_valid (x_sha x) (pd_payload doc)"
    using assms(5) by (simp add: verify_accepts_iff proof_valid_def payload_valid_def)
  then have "r_total_pool_sats r = int (unat (as_u64 (ff_total_pool_sats (pp_freeze (pd_payload doc)))))"
    using es assms(4) by (simp add: raffle_ledger_def freeze_valid_def)
  moreover have "r \<in> drawn_raffles db"
    using assms(2,3) by (simp add: drawn_raffles_def drawn_status_def)
  ultimately show ?thesis
    using ok(2) assms(3) unfolding uint_nat by (auto simp: payouts_ok_def payouts_total_def payouts_of_def)
qed

text \<open>C2. Every proof that the API serves can be trusted. Whatever the API and the worker did before, from a database in order,
  as the empty one is, and interleaved with other processes: the document that the API returns for a raffle is about
  that raffle and is accepted by the public verifier; at that moment the raffle is paid out, its entries in the
  database are exactly those of the document, and its payouts are all settled and add up to the pool the document states.\<close>

theorem served_proofs_verify:
  assumes "env_ok env" and "document_text_ok (we_x env)" and "db_ok (we_x env) (wd_db w)" and "proofs_ok (we_x env) (wd_db w)"
    and "\<forall>a \<in> set acts. activity_ok a" and "run_system env acts w = Some w'"
    and "handle env lib s headers (GetProof i) w' = (Ok rep, w'')"
  shows "\<exists>doc. rep = reply 200 (ProofBody doc) \<and> is_verified (verify (x_sha (we_x env)) (x_jcs (we_x env)) doc) \<and>
    pp_raffle_id (pd_payload doc) = i \<and> ledger_rows i (wd_db w'') = Ok (pp_entries (pd_payload doc)) \<and>
    (\<exists>r \<in> set (raffles (wd_db w'')). r_id r = i \<and> r_status r = PaidOut) \<and>
    (\<forall>p \<in> set (payouts (wd_db w'')). p_raffle_id p = i \<longrightarrow> p_status p = PaySettled) \<and>
    (\<Sum>p \<leftarrow> filter (\<lambda>p. p_raffle_id p = i) (payouts (wd_db w'')). p_amount_sats p) =
      uint (as_u64 (ff_total_pool_sats (pp_freeze (pd_payload doc))))"
proof -
  let ?db = "we_others env (wd_calls w') (wd_db w')"
  from assms(7) obtain doc where doc: "public_proof (we_x env) i ?db = Ok doc"
    and rep: "rep = reply 200 (ProofBody doc)" and db: "wd_db w'' = ?db"
    by (auto simp: handle.simps get_proof_def read_reply_def process_Ok storeE_def transact_reading returnW_def map_err_eq_Ok)
  have "reachable (db_step (we_x env)) (wd_db w') ?db"
    using assms(1) by (simp add: env_ok_def)
  from run_system_in_order [OF assms(1,3,4,5,6) this] have ok: "db_ok (we_x env) ?db" "proofs_ok (we_x env) ?db"
    by simp_all
  note facts = public_proof_ok [OF doc ok(2) assms(2)]
  then obtain r where r: "r \<in> set (raffles ?db)" "r_id r = i" "r_status r = PaidOut"
    by blast
  show ?thesis
    using facts rep r paid_out_pool [OF ok(1) r(1,3), of doc] unfolding db by auto
qed

text \<open>The proof of the sample raffle, with an encoder that knows this one document.\<close>

definition sample_document :: ProofDocument where
  "sample_document = fst (projr (generate_terminal_proof sample_ext (\<lambda>n. of_nat (40 + n)) 1003 2 (sample_store PaidOut)))"

definition document_ext :: externals where
  "document_ext = sample_ext\<lparr>x_to_value := (\<lambda>doc. if doc = sample_document then Ok JNull else Err []),
     x_from_value := (\<lambda>_. Ok sample_document)\<rparr>"

definition document_env :: world_env where
  "document_env = sample_api_env\<lparr>we_x := document_ext\<rparr>"

lemma document_ext_simps [simp]:
  "x_sha document_ext = x_sha sample_ext" "x_jcs document_ext = x_jcs sample_ext" "x_uuid_text document_ext = x_uuid_text sample_ext"
  "x_hex_encode document_ext = x_hex_encode sample_ext" "x_timestamptz document_ext = x_timestamptz sample_ext"
  "we_x document_env = document_ext" "we_others document_env k db = db"
  by (simp_all add: document_ext_def document_env_def)

lemma document_ext_ok: "document_text_ok document_ext" "env_ok document_env" "db_ok document_ext db \<longleftrightarrow> db_ok sample_ext db"
proof -
  show "document_text_ok document_ext"
    by (simp add: document_text_ok_def document_ext_def)
  have "uuid_text_ok document_ext" "settlement_time_ok document_ext t" for t
    using sample_uuid_text_ok sample_settlement_time_ok by (simp_all add: uuid_text_ok_def settlement_time_ok_def)
  then show "env_ok document_env"
    by (simp add: env_ok_def reachable.start)
  show "db_ok document_ext db \<longleftrightarrow> db_ok sample_ext db"
    by (simp add: db_ok_def store_ok_def raffle_ok_def raffle_ledger_def ledger_root_def payouts_ok_def drawn_ok_def payout_key_def)
qed

lemma document_generated:
  obtains db where "generate_terminal_proof document_ext (\<lambda>n. of_nat (40 + n)) 1003 2 (sample_store PaidOut) = Ok (sample_document, db)"
proof -
  obtain doc db where gen: "generate_terminal_proof sample_ext (\<lambda>n. of_nat (40 + n)) 1003 2 (sample_store PaidOut) = Ok (doc, db)"
    using sample_terminal_proof by blast
  then have doc: "sample_document = doc"
    by (simp add: sample_document_def)
  from gen obtain r p v t where facts:
      "fetch_one (\<lambda>r. r_id r = 2) [sample_raffle_row PaidOut] = Ok r" "r_status r = PaidOut"
      "terminal_payload sample_ext 2 r (sample_store PaidOut) = Ok p"
      "ProofDocument_create (\<lambda>_. ZERO_HASH) (\<lambda>_. Ok []) p = Ok doc" "is_verified (verify (\<lambda>_. ZERO_HASH) (\<lambda>_. Ok []) doc)"
    and val: "x_to_value sample_ext doc = Ok v"
    and rest: "sql_insert proof_check proof_conflict True
       \<lparr>pr_id = 40, pr_raffle_id = 2, pr_protocol_version = PROTOCOL_VERSION, pr_proof_json = v,
        pr_proof_hash = as_bytes (pd_proof_hash doc), pr_storage_uri = None, pr_created_at = 1003,
        pr_storage_version_id = None, pr_storage_etag = None, pr_published_at = None\<rparr> [] = Ok t"
      "write_audit 41 1003 2 ''proof.generated'' (JObj [(''proof_hash'', JStr (to_hex (x_hex_encode sample_ext) (pd_proof_hash doc)))])
       (sample_store PaidOut\<lparr>proofs := t\<rparr>) = Ok db"
    by (auto simp: generate_terminal_proof_def bindR_eq_Ok map_err_eq_Ok split: if_splits)
  have "terminal_payload document_ext = terminal_payload sample_ext"
    by (simp add: fun_eq_iff terminal_payload_def)
  moreover have "x_to_value document_ext doc = Ok v"
    using val by (simp add: document_ext_def doc sample_ext_def)
  ultimately have "generate_terminal_proof document_ext (\<lambda>n. of_nat (40 + n)) 1003 2 (sample_store PaidOut) = Ok (doc, db)"
    by (simp add: generate_terminal_proof_def facts rest)
  then show thesis
    using that by (simp add: doc)
qed

theorem served_proofs_verify_witness:
  "\<exists>w w' w''. run_system document_env [Serve sample_library sample_state [] (GetPool 2)] w = Some w' \<and>
     handle document_env sample_library sample_state [] (GetProof 2) w' = (Ok (reply 200 (ProofBody sample_document)), w'') \<and>
     is_verified (verify (x_sha document_ext) (x_jcs document_ext) sample_document) \<and>
     pp_raffle_id (pd_payload sample_document) = 2"
proof -
  obtain db where gen: "generate_terminal_proof document_ext (\<lambda>n. of_nat (40 + n)) 1003 2 (sample_store PaidOut) = Ok (sample_document, db)"
    by (rule document_generated)
  note step = db_step.generate_terminal_proof [OF gen]
  have start: "db_ok document_ext (sample_store PaidOut)" "proofs_ok document_ext (sample_store PaidOut)"
    using sample_db_ok by (simp_all add: document_ext_ok(3) proofs_ok_def)
  then have ok: "db_ok document_ext db" "proofs_ok document_ext db"
    using published.inv_step [of document_ext "sample_store PaidOut", OF _ step] document_ext_ok(2)
    by (simp_all add: proofs_inv_def env_ok_def)
  obtain row where "proofs db = [row]" "proof_row_ok document_ext db row" "is_proof_of 2 row"
    using generated_proof_ok [OF gen] by auto
  then have read: "public_proof document_ext 2 db = Ok sample_document"
    by (auto simp: public_proof_def fetch_optional_def document_ext_def)
  let ?w = "\<lparr>wd_db = db, wd_calls = 0, wd_paid = []\<rparr>"
  obtain w' where run: "run_system document_env [Serve sample_library sample_state [] (GetPool 2)] ?w = Some w'" "wd_db w' = db"
    by (simp add: handle.simps get_pool_def read_reply_def bindW_def storeE_def transact_reading returnW_def split: sum.splits prod.splits)
  obtain w'' where proof_reply: "handle document_env sample_library sample_state [] (GetProof 2) w'
      = (Ok (reply 200 (ProofBody sample_document)), w'')"
    using read run(2) by (simp add: handle.simps get_proof_def read_reply_def bindW_def storeE_def transact_reading returnW_def)
  from served_proofs_verify [OF document_ext_ok(2) _ _ _ _ run(1) proof_reply] ok document_ext_ok(1) run proof_reply
  show ?thesis
    by (auto simp: reply_def)
qed

end
